(* ===== verification/Prelude.thy ===== *)
theory Prelude
  imports Main
begin

text \<open>
  Vocabulary the component theories share. Every asynchronous operation of the server that
  reads or writes the database is modelled as a state-passing function that returns either
  an error or a value, together with the state it leaves behind (\<open>op\<close> below). The
  combinators are the Rust control flow the sources use: \<open>qbind\<close> is the question mark
  operator, \<open>ret\<close> is \<open>Ok\<close>, \<open>fail\<close> is \<open>Err\<close>, \<open>ignore\<close> is
  \<open>let _ = ...\<close> and \<open>or_default\<close> is \<open>unwrap_or_default\<close>.

  The second half is a small logic of pre- and postconditions for these operations
  (\<open>valid\<close>, \<open>keeps\<close>), whose rules are collected in \<open>op_rules\<close> and \<open>keep_rules\<close>, so
  that the component theories prove invariants by applying the rules to the code.
\<close>

named_theorems op_rules "rules for valid, one per combinator"

named_theorems keep_rules "rules for keeps, one per combinator and component operation"

named_theorems op_eval "equations that evaluate an operation on a given state"

section \<open>Operations with errors and state\<close>

type_synonym ('e, 'w, 'a) op = "'w \<Rightarrow> ('e + 'a) \<times> 'w"

definition ret :: "'a \<Rightarrow> ('e, 'w, 'a) op" where
  "ret a w = (Inr a, w)"

definition fail :: "'e \<Rightarrow> ('e, 'w, 'a) op" where
  "fail e w = (Inl e, w)"

definition qbind :: "('e, 'w, 'a) op \<Rightarrow> ('a \<Rightarrow> ('e, 'w, 'b) op) \<Rightarrow> ('e, 'w, 'b) op" where
  "qbind m f w = (case m w of (Inl e, w') \<Rightarrow> (Inl e, w') | (Inr a, w') \<Rightarrow> f a w')"

definition ignore :: "('e, 'w, 'a) op \<Rightarrow> ('e, 'w, unit) op" where
  "ignore m w = (Inr (), snd (m w))"

definition or_default :: "'a \<Rightarrow> ('e, 'w, 'a) op \<Rightarrow> ('e, 'w, 'a) op" where
  "or_default d m w = (case m w of (Inl e, w') \<Rightarrow> (Inr d, w') | (Inr a, w') \<Rightarrow> (Inr a, w'))"

definition ok_or :: "'e \<Rightarrow> 'a option \<Rightarrow> ('e, 'w, 'a) op" where
  "ok_or e x = (case x of None \<Rightarrow> fail e | Some a \<Rightarrow> ret a)"

definition from_result :: "'e + 'a \<Rightarrow> ('e, 'w, 'a) op" where
  "from_result r w = (r, w)"

definition modify :: "('w \<Rightarrow> 'w) \<Rightarrow> ('e, 'w, unit) op" where
  "modify f w = (Inr (), f w)"

definition gets :: "('w \<Rightarrow> 'a) \<Rightarrow> ('e, 'w, 'a) op" where
  "gets f w = (Inr (f w), w)"

text \<open>
  \<open>attempted\<close> hands the result to a \<open>match\<close>, an error included; \<open>always\<close> is a call that cannot
  fail.
\<close>

definition attempted :: "('e, 'w, 'a) op \<Rightarrow> ('e, 'w, 'e + 'a) op" where
  "attempted m w = (case m w of (r, w') \<Rightarrow> (Inr r, w'))"

definition always :: "('w \<Rightarrow> 'a \<times> 'w) \<Rightarrow> ('e, 'w, 'a) op" where
  "always m w = (case m w of (a, w') \<Rightarrow> (Inr a, w'))"

text \<open>A \<open>for\<close> loop whose body cannot leave the loop early except by an error.\<close>

fun for_each :: "'a list \<Rightarrow> ('a \<Rightarrow> ('e, 'w, unit) op) \<Rightarrow> ('e, 'w, unit) op" where
  "for_each [] f = ret ()"
| "for_each (x # xs) f = qbind (f x) (\<lambda>_. for_each xs f)"

lemma qbind_Inl [op_eval]: "m w = (Inl e, w') \<Longrightarrow> qbind m f w = (Inl e, w')"
  by (simp add: qbind_def)

lemma qbind_Inr [op_eval]: "m w = (Inr a, w') \<Longrightarrow> qbind m f w = f a w'"
  by (simp add: qbind_def)

lemmas op_defs = ret_def fail_def qbind_def ignore_def or_default_def ok_or_def from_result_def
  modify_def gets_def

lemma ret_qbind [simp]: "qbind (ret a) f = f a"
  by (rule ext) (simp add: op_defs)

lemma fail_qbind [simp]: "qbind (fail e) f = fail e"
  by (rule ext) (simp add: op_defs)

lemma qbind_ret [simp]: "qbind m ret = m"
  by (rule ext) (simp add: op_defs split: prod.splits sum.splits)

lemma qbind_ignore [simp]: "qbind (ignore m) f w = f () (snd (m w))"
  by (simp add: op_defs)

lemma qbind_modify [simp]: "qbind (modify g) f w = f () (g w)"
  by (simp add: op_defs)

lemma qbind_gets [simp]: "qbind (gets g) f w = f (g w) w"
  by (simp add: op_defs)

lemma qbind_from_result [simp]:
  "qbind (from_result (Inr a)) f = f a" "qbind (from_result (Inl e)) f = fail e"
  by (rule ext, simp add: op_defs)+

lemma qbind_attempt [simp]: "qbind (attempted m) f w = f (fst (m w)) (snd (m w))"
  by (simp add: qbind_def attempted_def split: prod.split)

lemma qbind_always [simp]: "qbind (always m) f w = f (fst (m w)) (snd (m w))"
  by (simp add: qbind_def always_def split: prod.split)

lemma qbind_assoc: "qbind (qbind m f) g = qbind m (\<lambda>a. qbind (f a) g)"
  by (rule ext) (simp add: op_defs split: prod.splits sum.splits)

lemma qbind_cases:
  assumes "qbind m f w = (r, w')"
  obtains (error) e where "m w = (Inl e, w')" and "r = Inl e"
    | (okay) a w1 where "m w = (Inr a, w1)" and "f a w1 = (r, w')"
  using assms by (auto simp: qbind_def split: prod.splits sum.splits)

lemma qbind_Inr_E:
  assumes "qbind m f w = (Inr b, w')"
  obtains a w1 where "m w = (Inr a, w1)" and "f a w1 = (Inr b, w')"
  using assms by (auto simp: qbind_def split: prod.splits sum.splits)

section \<open>Pre- and postconditions\<close>

definition valid :: "('w \<Rightarrow> bool) \<Rightarrow> ('e, 'w, 'a) op \<Rightarrow> ('e + 'a \<Rightarrow> 'w \<Rightarrow> bool) \<Rightarrow> bool" where
  "valid P m Q \<longleftrightarrow> (\<forall>w. P w \<longrightarrow> (case m w of (r, w') \<Rightarrow> Q r w'))"

abbreviation keeps :: "('w \<Rightarrow> bool) \<Rightarrow> ('e, 'w, 'a) op \<Rightarrow> bool" where
  "keeps P m \<equiv> valid P m (\<lambda>_. P)"

lemma validI: "(\<And>w r w'. P w \<Longrightarrow> m w = (r, w') \<Longrightarrow> Q r w') \<Longrightarrow> valid P m Q"
  by (auto simp: valid_def)

lemma validD: "valid P m Q \<Longrightarrow> P w \<Longrightarrow> m w = (r, w') \<Longrightarrow> Q r w'"
  by (auto simp: valid_def)

lemma valid_snd: "keeps P m \<Longrightarrow> P w \<Longrightarrow> P (snd (m w))"
  by (cases "m w") (auto dest: validD)

lemma valid_strengthen: "valid P m Q \<Longrightarrow> (\<And>r w. Q r w \<Longrightarrow> Q' r w) \<Longrightarrow> valid P m Q'"
  by (auto simp: valid_def split: prod.splits)

lemma valid_weaken: "valid P' m Q \<Longrightarrow> (\<And>w. P w \<Longrightarrow> P' w) \<Longrightarrow> valid P m Q"
  by (auto simp: valid_def)

lemma valid_qbind:
  assumes "valid P m R" and "\<And>e w. R (Inl e) w \<Longrightarrow> Q (Inl e) w" and "\<And>a. valid (R (Inr a)) (f a) Q"
  shows "valid P (qbind m f) Q"
proof (rule validI)
  fix w r w' assume P: "P w" and run: "qbind m f w = (r, w')"
  from run show "Q r w'"
  proof (cases rule: qbind_cases)
    case (error e)
    with P assms(1,2) show ?thesis by (auto dest: validD)
  next
    case (okay a w1)
    with P assms(1) have "R (Inr a) w1" by (auto dest: validD)
    with assms(3) okay show ?thesis by (auto dest: validD)
  qed
qed

text \<open>The common case: the first half establishes \<open>R\<close>, which is enough if it fails.\<close>

lemma valid_step:
  assumes "valid P m (\<lambda>_. R)" and "\<And>w. R w \<Longrightarrow> T w" and "\<And>a. valid R (f a) (\<lambda>_. T)"
  shows "valid P (qbind m f) (\<lambda>_. T)"
  by (rule valid_qbind [OF assms(1)]) (use assms(2,3) in auto)

lemma valid_if: "valid P m Q \<Longrightarrow> valid P n Q \<Longrightarrow> valid P (if b then m else n) Q"
  by simp

lemma valid_ret: "(\<And>w. P w \<Longrightarrow> Q w) \<Longrightarrow> valid P (ret a) (\<lambda>_. Q)"
  by (simp add: valid_def ret_def)

lemma valid_fail: "(\<And>w. P w \<Longrightarrow> Q w) \<Longrightarrow> valid P (fail e) (\<lambda>_. Q)"
  by (simp add: valid_def fail_def)

lemma valid_ignore: "valid P m (\<lambda>_. Q) \<Longrightarrow> valid P (ignore m) (\<lambda>_. Q)"
  by (simp add: valid_def ignore_def split_beta)

lemma valid_attempt: "valid P m (\<lambda>_. Q) \<Longrightarrow> valid P (attempted m) (\<lambda>_. Q)"
  by (simp add: valid_def attempted_def split_beta)

lemma keeps_qbind [keep_rules]:
  "keeps P m \<Longrightarrow> (\<And>a. keeps P (f a)) \<Longrightarrow> keeps P (qbind m f)"
  by (rule valid_qbind [where R = "\<lambda>_. P"])

lemma keeps_ret [keep_rules]: "keeps P (ret a)"
  by (simp add: valid_def ret_def)

lemma keeps_fail [keep_rules]: "keeps P (fail e)"
  by (simp add: valid_def fail_def)

lemma keeps_gets [keep_rules]: "keeps P (gets f)"
  by (simp add: valid_def gets_def)

lemma keeps_from_result [keep_rules]: "keeps P (from_result r)"
  by (simp add: valid_def from_result_def)

lemma keeps_ok_or [keep_rules]: "keeps P (ok_or e x)"
  by (simp add: ok_or_def keeps_ret keeps_fail split: option.split)

lemma keeps_ignore [keep_rules]: "keeps P m \<Longrightarrow> keeps P (ignore m)"
  by (simp add: valid_def ignore_def split_beta)

lemma keeps_or_default [keep_rules]: "keeps P m \<Longrightarrow> keeps P (or_default d m)"
  by (auto simp: valid_def or_default_def split: prod.splits sum.splits)

lemma keeps_attempt [keep_rules]: "keeps P m \<Longrightarrow> keeps P (attempted m)"
  by (auto simp: valid_def attempted_def split: prod.splits)

lemma keeps_always: "(\<And>w. P w \<Longrightarrow> P (snd (m w))) \<Longrightarrow> keeps P (always m)"
  by (simp add: valid_def always_def split_beta)

lemma keeps_prod [keep_rules]: "(\<And>a b. keeps P (f a b)) \<Longrightarrow> keeps P (case x of (a, b) \<Rightarrow> f a b)"
  by (cases x) simp

lemma keeps_sum [keep_rules]:
  "(\<And>e. keeps P (g e)) \<Longrightarrow> (\<And>a. keeps P (f a)) \<Longrightarrow> keeps P (case x of Inl e \<Rightarrow> g e | Inr a \<Rightarrow> f a)"
  by (cases x) auto

lemma keeps_modify: "(\<And>w. P w \<Longrightarrow> P (f w)) \<Longrightarrow> keeps P (modify f)"
  by (simp add: valid_def modify_def)

lemma keeps_for_each [keep_rules]: "(\<And>x. keeps P (f x)) \<Longrightarrow> keeps P (for_each xs f)"
  by (induction xs) (auto intro: keep_rules)

lemma keeps_if [keep_rules]: "keeps P m \<Longrightarrow> keeps P n \<Longrightarrow> keeps P (if b then m else n)"
  by simp

lemma keeps_option [keep_rules]:
  "keeps P m \<Longrightarrow> (\<And>a. keeps P (f a)) \<Longrightarrow> keeps P (case x of None \<Rightarrow> m | Some a \<Rightarrow> f a)"
  by (simp split: option.split)

section \<open>Operations that cannot fail\<close>

named_theorems total_rules "operations that never return an error"

definition total_op :: "('e, 'w, 'a) op \<Rightarrow> bool" where
  "total_op m \<longleftrightarrow> (\<forall>w. \<exists>a. fst (m w) = Inr a)"

lemma total_basic [total_rules]: "total_op (ret a)" "total_op (gets f)" "total_op (modify g)" "total_op (ignore m)"
  "total_op (attempted m)" "total_op (always k)"
  by (simp_all add: total_op_def op_defs attempted_def always_def split: prod.split)

lemma total_qbind [total_rules]:
  assumes "total_op m" and "\<And>a. total_op (f a)"
  shows "total_op (qbind m f)"
  unfolding total_op_def
proof
  fix w
  obtain a where "fst (m w) = Inr a" using assms(1) by (auto simp: total_op_def)
  moreover obtain b where "fst (f a (snd (m w))) = Inr b" using assms(2) unfolding total_op_def by blast
  ultimately show "\<exists>b. fst (qbind m f w) = Inr b" by (auto simp: qbind_def split: prod.split)
qed

lemma total_branches [total_rules]:
  "total_op m \<Longrightarrow> total_op n \<Longrightarrow> total_op (if b then m else n)"
  "(\<And>e. total_op (g e)) \<Longrightarrow> (\<And>a. total_op (f a)) \<Longrightarrow> total_op (case x of Inl e \<Rightarrow> g e | Inr a \<Rightarrow> f a)"
  "total_op m \<Longrightarrow> (\<And>a. total_op (f a)) \<Longrightarrow> total_op (case y of None \<Rightarrow> m | Some a \<Rightarrow> f a)"
  by (auto split: sum.split option.split)

lemma total_for_each [total_rules]: "(\<And>x. total_op (f x)) \<Longrightarrow> total_op (for_each xs f)"
  by (induction xs) (auto intro: total_rules)

lemma total_step: "total_op (m :: ('e, 'w, unit) op) \<Longrightarrow> qbind m f w = f () (snd (m w))"
  by (cases "m w") (metis fst_conv old.unit.exhaust qbind_Inr snd_conv total_op_def)

lemma total_run: "total_op (m :: ('e, 'w, unit) op) \<Longrightarrow> m w = (Inr (), snd (m w))"
  by (cases "m w") (metis fst_conv old.unit.exhaust snd_conv total_op_def)

section \<open>Lists\<close>

lemma find_eq_SomeD: "find P xs = Some x \<Longrightarrow> x \<in> set xs \<and> P x"
  by (auto simp: find_Some_iff)

lemma find_map_same:
  "(\<And>x. x \<in> set xs \<Longrightarrow> P (f x) = P x) \<Longrightarrow> find P (map f xs) = map_option f (find P xs)"
  by (induction xs) auto

lemma find_filter_other:
  "(\<And>x. P x \<Longrightarrow> Q x) \<Longrightarrow> find P (filter Q xs) = find P xs"
  by (induction xs) auto

lemma find_append_option:
  "find P (xs @ ys) = (case find P xs of None \<Rightarrow> find P ys | Some x \<Rightarrow> Some x)"
  by (induction xs) auto

lemma find_none_iff: "find P xs = None \<longleftrightarrow> (\<forall>x \<in> set xs. \<not> P x)"
  by (auto simp: find_None_iff)

lemma find_distinct:
  "distinct (map k xs) \<Longrightarrow> x \<in> set xs \<Longrightarrow> find (\<lambda>y. k y = k x) xs = Some x"
  by (induction xs) (auto simp: image_iff)

lemma find_shrink:
  "find P xs = Some x \<Longrightarrow> Q x \<Longrightarrow> (\<And>y. Q y \<Longrightarrow> P y) \<Longrightarrow> find Q xs = Some x"
  by (induction xs) (auto split: if_splits)

end
