(* ===== verification/Rust_Str.thy ===== *)
theory Rust_Str
  imports Prelude
begin

text \<open>
  The part of Rust's \<open>str\<close> the sources use. A Rust string is its UTF-8 byte sequence, and
  an Isabelle \<open>char\<close> is a byte, so a \<open>str\<close> is a \<open>string\<close> whose length is \<open>str::len\<close>
  (bytes), and a byte offset is a list position. The functions that look at characters
  (\<open>chars\<close>, \<open>trim\<close>, \<open>to_lowercase\<close>, \<open>is_char_boundary\<close>) read the UTF-8 structure: a
  character is a leading byte with the continuation bytes that follow it. \<open>utf8\<close> is the
  part of the UTF-8 invariant the proofs need.

  The lower-case table of Unicode is data of the standard library and is a parameter
  (\<open>lo\<close>, from the encoding of one non-ASCII character to the encoding of its lower case);
  the ASCII half is written out.
\<close>

section \<open>Characters and boundaries\<close>

definition is_cont :: "char \<Rightarrow> bool" where
  "is_cont c \<longleftrightarrow> digit7 c \<and> \<not> digit6 c"

function chars :: "string \<Rightarrow> string list" where
  "chars [] = []"
| "chars (c # cs) = (c # takeWhile is_cont cs) # chars (dropWhile is_cont cs)"
  by pat_completeness auto
termination
  by (relation "measure length") (auto simp: less_Suc_eq_le intro: length_dropWhile_le)

definition is_char_boundary :: "string \<Rightarrow> nat \<Rightarrow> bool" where
  "is_char_boundary s i \<longleftrightarrow>
     (if i = 0 then True else if i \<ge> length s then i = length s else \<not> is_cont (s ! i))"

text \<open>
  What the proofs use of the UTF-8 invariant: the text does not begin with a continuation
  byte, and no character is longer than four bytes.
\<close>

definition utf8 :: "string \<Rightarrow> bool" where
  "utf8 s \<longleftrightarrow> (s \<noteq> [] \<longrightarrow> \<not> is_cont (hd s)) \<and> (\<forall>ch \<in> set (chars s). length ch \<le> 4)"

lemma concat_chars [simp]: "concat (chars s) = s"
  by (induction s rule: chars.induct) (auto simp: takeWhile_dropWhile_id)

lemma chars_nonempty: "ch \<in> set (chars s) \<Longrightarrow> ch \<noteq> []"
  by (induction s rule: chars.induct) auto

lemma is_char_boundary_0 [simp]: "is_char_boundary s 0"
  by (simp add: is_char_boundary_def)

lemma is_char_boundary_length [simp]: "is_char_boundary s (length s)"
  by (simp add: is_char_boundary_def)

lemma is_char_boundary_hd_drop:
  "is_char_boundary s i \<Longrightarrow> 0 < i \<Longrightarrow> drop i s \<noteq> [] \<Longrightarrow> \<not> is_cont (hd (drop i s))"
  by (auto simp: is_char_boundary_def hd_drop_conv_nth split: if_splits)

section \<open>Validity\<close>

text \<open>What \<open>String::from_utf8\<close> accepts: no overlong form, no surrogate, nothing past U+10FFFF.\<close>

definition tail_byte :: "nat \<Rightarrow> bool" where
  "tail_byte b \<longleftrightarrow> 128 \<le> b \<and> b \<le> 191"

fun utf8_ok :: "nat list \<Rightarrow> bool" where
  "utf8_ok [] = True"
| "utf8_ok (a # s) =
     (if a < 128 then utf8_ok s
      else if 194 \<le> a \<and> a \<le> 223
      then (case s of b # t \<Rightarrow> tail_byte b \<and> utf8_ok t | [] \<Rightarrow> False)
      else if 224 \<le> a \<and> a \<le> 239
      then (case s of
              b # c # t \<Rightarrow> tail_byte b \<and> tail_byte c \<and> (a = 224 \<longrightarrow> 160 \<le> b) \<and> (a = 237 \<longrightarrow> b \<le> 159) \<and> utf8_ok t
            | _ \<Rightarrow> False)
      else if 240 \<le> a \<and> a \<le> 244
      then (case s of
              b # c # d # t \<Rightarrow> tail_byte b \<and> tail_byte c \<and> tail_byte d
                \<and> (a = 240 \<longrightarrow> 144 \<le> b) \<and> (a = 244 \<longrightarrow> b \<le> 143) \<and> utf8_ok t
            | _ \<Rightarrow> False)
      else False)"

definition from_utf8 :: "string \<Rightarrow> string option" where
  "from_utf8 s = (if utf8_ok (map of_char s) then Some s else None)"

section \<open>ASCII and Unicode classes\<close>

definition is_ascii :: "char \<Rightarrow> bool" where
  "is_ascii c \<longleftrightarrow> \<not> digit7 c"

definition ascii_lower :: "char \<Rightarrow> char" where
  "ascii_lower c =
     (if 65 \<le> (of_char c :: nat) \<and> (of_char c :: nat) \<le> 90
      then Char (digit0 c) (digit1 c) (digit2 c) (digit3 c) (digit4 c) True (digit6 c) (digit7 c)
      else c)"

definition lower_char :: "(string \<Rightarrow> string) \<Rightarrow> string \<Rightarrow> string" where
  "lower_char lo ch = (case ch of [c] \<Rightarrow> [ascii_lower c] | _ \<Rightarrow> lo ch)"

definition to_lowercase :: "(string \<Rightarrow> string) \<Rightarrow> string \<Rightarrow> string" where
  "to_lowercase lo s = concat (map (lower_char lo) (chars s))"

definition to_ascii_lowercase :: "string \<Rightarrow> string" where
  "to_ascii_lowercase s = map ascii_lower s"

text \<open>\<open>char::is_whitespace\<close>: the 25 characters with the Unicode property White_Space.\<close>

definition whitespace_chars :: "string list" where
  "whitespace_chars =
     [[CHR 0x09], [CHR 0x0A], [CHR 0x0B], [CHR 0x0C], [CHR 0x0D], [CHR 0x20],
      [CHR 0xC2, CHR 0x85], [CHR 0xC2, CHR 0xA0], [CHR 0xE1, CHR 0x9A, CHR 0x80],
      [CHR 0xE2, CHR 0x80, CHR 0x80], [CHR 0xE2, CHR 0x80, CHR 0x81],
      [CHR 0xE2, CHR 0x80, CHR 0x82], [CHR 0xE2, CHR 0x80, CHR 0x83],
      [CHR 0xE2, CHR 0x80, CHR 0x84], [CHR 0xE2, CHR 0x80, CHR 0x85],
      [CHR 0xE2, CHR 0x80, CHR 0x86], [CHR 0xE2, CHR 0x80, CHR 0x87],
      [CHR 0xE2, CHR 0x80, CHR 0x88], [CHR 0xE2, CHR 0x80, CHR 0x89],
      [CHR 0xE2, CHR 0x80, CHR 0x8A], [CHR 0xE2, CHR 0x80, CHR 0xA8],
      [CHR 0xE2, CHR 0x80, CHR 0xA9], [CHR 0xE2, CHR 0x80, CHR 0xAF],
      [CHR 0xE2, CHR 0x81, CHR 0x9F], [CHR 0xE3, CHR 0x80, CHR 0x80]]"

definition is_whitespace :: "string \<Rightarrow> bool" where
  "is_whitespace ch \<longleftrightarrow> ch \<in> set whitespace_chars"

definition trim_start :: "string \<Rightarrow> string" where
  "trim_start s = concat (dropWhile is_whitespace (chars s))"

definition trim_end :: "string \<Rightarrow> string" where
  "trim_end s = concat (rev (dropWhile is_whitespace (rev (chars s))))"

definition trim :: "string \<Rightarrow> string" where
  "trim s = concat (rev (dropWhile is_whitespace (rev (dropWhile is_whitespace (chars s)))))"

lemma length_concat_dropWhile: "length (concat (dropWhile P xs)) \<le> length (concat xs)"
  by (induction xs) auto

lemma length_concat_rev [simp]: "length (concat (rev xs)) = length (concat xs)"
  by (induction xs) auto

lemma length_trim_end_le: "length (trim_end s) \<le> length s"
  using length_concat_dropWhile [of is_whitespace "rev (chars s)"]
  by (simp add: trim_end_def)

section \<open>Searching\<close>

fun starts_with :: "string \<Rightarrow> string \<Rightarrow> bool" where
  "starts_with s [] = True"
| "starts_with [] (p # ps) = False"
| "starts_with (c # cs) (p # ps) = (c = p \<and> starts_with cs ps)"

definition strip_prefix :: "string \<Rightarrow> string \<Rightarrow> string option" where
  "strip_prefix p s = (if starts_with s p then Some (drop (length p) s) else None)"

text \<open>\<open>str::find\<close> and \<open>str::rfind\<close> of a string pattern: the first and the last offset.\<close>

fun find_str :: "string \<Rightarrow> string \<Rightarrow> nat option" where
  "find_str p [] = (if p = [] then Some 0 else None)"
| "find_str p (c # cs) =
     (if starts_with (c # cs) p then Some 0 else map_option Suc (find_str p cs))"

fun rfind_str :: "string \<Rightarrow> string \<Rightarrow> nat option" where
  "rfind_str p [] = (if p = [] then Some 0 else None)"
| "rfind_str p (c # cs) =
     (case rfind_str p cs of
        Some i \<Rightarrow> Some (Suc i)
      | None \<Rightarrow> if starts_with (c # cs) p then Some 0 else None)"

definition contains :: "string \<Rightarrow> string \<Rightarrow> bool" where
  "contains s p \<longleftrightarrow> find_str p s \<noteq> None"

definition split_once :: "char \<Rightarrow> string \<Rightarrow> (string \<times> string) option" where
  "split_once c s =
     (if c \<in> set s then Some (takeWhile (\<lambda>x. x \<noteq> c) s, tl (dropWhile (\<lambda>x. x \<noteq> c) s)) else None)"

lemma starts_with_iff: "starts_with s p \<longleftrightarrow> (\<exists>t. s = p @ t)"
  by (induction s p rule: starts_with.induct) auto

lemma starts_with_append [simp]: "starts_with (p @ t) p"
  by (auto simp: starts_with_iff)

lemma strip_prefix_Some: "strip_prefix p s = Some t \<longleftrightarrow> s = p @ t"
  by (auto simp: strip_prefix_def starts_with_iff)

lemma starts_with_take: "starts_with s p \<Longrightarrow> length p \<le> length s \<and> take (length p) s = p"
  by (auto simp: starts_with_iff)

lemma find_str_Some: "find_str p s = Some i \<Longrightarrow> i + length p \<le> length s \<and> take (length p) (drop i s) = p"
proof (induction p s arbitrary: i rule: find_str.induct)
  case (2 p c cs)
  then show ?case
    by (cases "starts_with (c # cs) p") (auto dest: starts_with_take)
qed (auto split: if_splits)

lemma find_str_None: "find_str p s = None \<Longrightarrow> s \<noteq> u @ p @ v"
proof (induction p s arbitrary: u rule: find_str.induct)
  case (2 p c cs)
  show ?case
  proof
    assume eq: "c # cs = u @ p @ v"
    show False
    proof (cases u)
      case Nil
      with eq have "starts_with (c # cs) p" by (simp add: starts_with_iff)
      with "2.prems" show False by simp
    next
      case (Cons x u')
      with eq "2.prems" "2.IH" [of u'] show False by (auto split: if_splits)
    qed
  qed
qed (auto split: if_splits)

lemma contains_iff: "contains s p \<longleftrightarrow> (\<exists>u v. s = u @ p @ v)"
proof
  assume "contains s p"
  then obtain i where "find_str p s = Some i" by (auto simp: contains_def)
  then have "take (length p) (drop i s) = p" using find_str_Some by blast
  then have "s = take i s @ p @ drop (length p) (drop i s)"
    by (metis append_take_drop_id)
  then show "\<exists>u v. s = u @ p @ v" by blast
next
  assume "\<exists>u v. s = u @ p @ v"
  then show "contains s p" using find_str_None by (fastforce simp: contains_def)
qed

lemma rfind_str_Some:
  "rfind_str p s = Some i \<Longrightarrow> i + length p \<le> length s \<and> take (length p) (drop i s) = p"
proof (induction p s arbitrary: i rule: rfind_str.induct)
  case (2 p c cs)
  then show ?case
    by (cases "starts_with (c # cs) p"; cases "rfind_str p cs") (auto dest: starts_with_take)
qed (auto split: if_splits)

lemma split_once_Some: "split_once c s = Some (a, b) \<longleftrightarrow> s = a @ c # b \<and> c \<notin> set a"
proof -
  have "s = takeWhile (\<lambda>x. x \<noteq> c) s @ c # tl (dropWhile (\<lambda>x. x \<noteq> c) s)" if "c \<in> set s"
    using that by (induction s) auto
  moreover have "c \<notin> set (takeWhile (\<lambda>x. x \<noteq> c) s)"
    using set_takeWhileD by fastforce
  moreover have "takeWhile (\<lambda>x. x \<noteq> c) (a @ c # b) = a \<and> dropWhile (\<lambda>x. x \<noteq> c) (a @ c # b) = c # b"
    if "c \<notin> set a" using that by (induction a) auto
  ultimately show ?thesis by (auto simp: split_once_def)
qed

section \<open>Numbers in decimal\<close>

definition is_digit :: "char \<Rightarrow> bool" where
  "is_digit c \<longleftrightarrow> 48 \<le> (of_char c :: nat) \<and> (of_char c :: nat) \<le> 57"

definition digit_value :: "char \<Rightarrow> nat" where
  "digit_value c = of_char c - 48"

definition digit_char :: "nat \<Rightarrow> char" where
  "digit_char d = char_of (48 + d)"

fun show_nat :: "nat \<Rightarrow> string" where
  "show_nat n = (if n < 10 then [digit_char n] else show_nat (n div 10) @ [digit_char (n mod 10)])"

declare show_nat.simps [simp del]

definition decimal :: "string \<Rightarrow> nat" where
  "decimal s = foldl (\<lambda>n c. 10 * n + digit_value c) 0 s"

text \<open>
  \<open>str::parse::<u64>\<close>: an optional plus sign, then at least one digit and nothing else; a
  value past the type's maximum is an error.
\<close>

definition parse_u64 :: "string \<Rightarrow> nat option" where
  "parse_u64 s =
     (let ds = (case s of c # cs \<Rightarrow> if c = CHR ''+'' then cs else s | [] \<Rightarrow> [])
      in if ds \<noteq> [] \<and> list_all is_digit ds \<and> decimal ds < 2 ^ 64 then Some (decimal ds) else None)"

lemma parse_u64_bound: "parse_u64 s = Some n \<Longrightarrow> n < 2 ^ 64"
  by (auto simp: parse_u64_def Let_def split: if_splits list.splits)

lemma of_char_digit_char: "d < 10 \<Longrightarrow> (of_char (digit_char d) :: nat) = 48 + d"
  by (simp add: digit_char_def of_char_of take_bit_eq_mod)

lemma digit_char_digit [simp]: "d < 10 \<Longrightarrow> is_digit (digit_char d)"
  by (simp add: is_digit_def of_char_digit_char)

lemma digit_value_char [simp]: "d < 10 \<Longrightarrow> digit_value (digit_char d) = d"
  by (simp add: digit_value_def of_char_digit_char)

lemma decimal_snoc [simp]: "decimal (s @ [c]) = 10 * decimal s + digit_value c"
  by (simp add: decimal_def)

lemma decimal_single [simp]: "decimal [c] = digit_value c"
  by (simp add: decimal_def)

lemma show_nat_digits: "show_nat n \<noteq> [] \<and> list_all is_digit (show_nat n) \<and> decimal (show_nat n) = n"
proof (induction n rule: show_nat.induct)
  case (1 n)
  show ?case
  proof (cases "n < 10")
    case True
    then show ?thesis by (simp add: show_nat.simps [of n])
  next
    case False
    with 1 show ?thesis by (simp add: show_nat.simps [of n])
  qed
qed

lemma parse_show_nat: "n < 2 ^ 64 \<Longrightarrow> parse_u64 (show_nat n) = Some n"
proof -
  assume bound: "n < 2 ^ 64"
  obtain c cs where s: "show_nat n = c # cs" using show_nat_digits [of n] by (cases "show_nat n") auto
  then have "is_digit c" using show_nat_digits [of n] by simp
  then have "c \<noteq> CHR ''+''" by (auto simp: is_digit_def)
  with s bound show_nat_digits [of n] show ?thesis by (simp add: parse_u64_def)
qed

end
