(* ===== verification/Lockout.thy ===== *)
theory Lockout
  imports Rust_Str
begin

text \<open>
  Login lockout (\<open>auth/lockout.rs\<close>). The tracker holds one attempt record per normalised
  identifier in a cache whose entries disappear when they have been idle for longer than
  the cache's time to idle (an entry therefore carries the time of its last access), or
  when the cache is full, which is the separate step \<open>Evict\<close>. Instants are nanoseconds;
  adding the lockout to an instant panics past the range of the platform's clock, and a
  panic is the result \<open>None\<close>. The tracker runs each operation under the entry's mutex, so
  operations are atomic.
\<close>

section \<open>State\<close>

datatype lock_status = Open | Locked nat

fun is_locked :: "lock_status \<Rightarrow> bool" where
  "is_locked Open = False"
| "is_locked (Locked r) = True"

record attempt =
  failures :: nat
  locked_until :: "nat option"

record tracker =
  cache :: "string \<rightharpoonup> attempt \<times> nat"
  max_attempts :: nat
  lockout :: nat

definition second :: nat where
  "second = 1000000000"

definition u64_max :: nat where
  "u64_max = 2 ^ 64 - 1"

definition u32_max :: nat where
  "u32_max = 2 ^ 32 - 1"

text \<open>The largest instant: a signed 64-bit count of seconds and the nanoseconds within one.\<close>

definition instant_limit :: nat where
  "instant_limit = 2 ^ 63 * second"

definition new_tracker :: "nat \<Rightarrow> nat \<Rightarrow> tracker" where
  "new_tracker n lockout_minutes =
     \<lparr>cache = Map.empty, max_attempts = n, lockout = min u64_max (lockout_minutes * 60) * second\<rparr>"

definition time_to_idle :: "tracker \<Rightarrow> nat" where
  "time_to_idle t = max (lockout t) (60 * second)"

section \<open>Operations\<close>

definition normalize_id :: "(string \<Rightarrow> string) \<Rightarrow> string \<Rightarrow> string" where
  "normalize_id lo identifier = to_lowercase lo (trim identifier)"

definition enabled :: "tracker \<Rightarrow> bool" where
  "enabled t \<longleftrightarrow> 0 < max_attempts t"

text \<open>A cache read: an entry idle for the whole time to idle is gone.\<close>

definition cache_get :: "tracker \<Rightarrow> nat \<Rightarrow> string \<Rightarrow> attempt option" where
  "cache_get t now k =
     (case cache t k of
        None \<Rightarrow> None
      | Some (a, touched) \<Rightarrow> if now < touched + time_to_idle t then Some a else None)"

definition cache_put :: "tracker \<Rightarrow> nat \<Rightarrow> string \<Rightarrow> attempt \<Rightarrow> tracker" where
  "cache_put t now k a = t\<lparr>cache := (cache t)(k \<mapsto> (a, now))\<rparr>"

definition settle :: "attempt \<Rightarrow> nat \<Rightarrow> attempt" where
  "settle a now =
     (case locked_until a of
        Some until \<Rightarrow> if until \<le> now then a\<lparr>failures := 0, locked_until := None\<rparr> else a
      | None \<Rightarrow> a)"

definition check :: "(string \<Rightarrow> string) \<Rightarrow> tracker \<Rightarrow> nat \<Rightarrow> string \<Rightarrow> lock_status \<times> tracker" where
  "check lo t now identifier =
     (if \<not> enabled t then (Open, t)
      else case cache_get t now (normalize_id lo identifier) of
        None \<Rightarrow> (Open, t)
      | Some entry \<Rightarrow>
          let a = settle entry now;
              t' = cache_put t now (normalize_id lo identifier) a
          in case locked_until a of
               Some until \<Rightarrow> (Locked (until - now), t')
             | None \<Rightarrow> (Open, t'))"

definition record_failure :: "(string \<Rightarrow> string) \<Rightarrow> tracker \<Rightarrow> nat \<Rightarrow> string \<Rightarrow> bool option \<times> tracker" where
  "record_failure lo t now identifier =
     (if \<not> enabled t then (Some False, t)
      else
        let k = normalize_id lo identifier;
            entry = (case cache_get t now k of
                       None \<Rightarrow> \<lparr>failures = 0, locked_until = None\<rparr>
                     | Some e \<Rightarrow> e);
            a = settle entry now;
            a = a\<lparr>failures := min u32_max (failures a + 1)\<rparr>
        in if max_attempts t \<le> failures a \<and> locked_until a = None
           then if now + lockout t < instant_limit
                then (Some True, cache_put t now k (a\<lparr>locked_until := Some (now + lockout t)\<rparr>))
                else (None, cache_put t now k a)
           else (Some False, cache_put t now k a))"

definition clear :: "(string \<Rightarrow> string) \<Rightarrow> tracker \<Rightarrow> string \<Rightarrow> tracker" where
  "clear lo t identifier = t\<lparr>cache := (cache t)(normalize_id lo identifier := None)\<rparr>"

section \<open>Runs\<close>

datatype event = Check string | Fail string | Clear string | Evict string

fun apply_event :: "(string \<Rightarrow> string) \<Rightarrow> tracker \<Rightarrow> nat \<times> event \<Rightarrow> tracker" where
  "apply_event lo t (now, Check i) = snd (check lo t now i)"
| "apply_event lo t (now, Fail i) = snd (record_failure lo t now i)"
| "apply_event lo t (now, Clear i) = clear lo t i"
| "apply_event lo t (now, Evict k) = t\<lparr>cache := (cache t)(k := None)\<rparr>"

definition run_events :: "(string \<Rightarrow> string) \<Rightarrow> tracker \<Rightarrow> (nat \<times> event) list \<Rightarrow> tracker" where
  "run_events lo = foldl (apply_event lo)"

text \<open>The events that may remove the entry of key \<open>k\<close> from the cache.\<close>

fun removes :: "(string \<Rightarrow> string) \<Rightarrow> string \<Rightarrow> event \<Rightarrow> bool" where
  "removes lo k (Clear i) = (normalize_id lo i = k)"
| "removes lo k (Evict j) = (j = k)"
| "removes lo k e = False"

section \<open>A lock lasts for its whole duration\<close>

text \<open>The entry of \<open>k\<close> is locked until \<open>u\<close>, and was last touched late enough to be kept so long.\<close>

definition locked_entry :: "tracker \<Rightarrow> string \<Rightarrow> nat \<Rightarrow> bool" where
  "locked_entry t k u \<longleftrightarrow>
     enabled t \<and> (\<exists>a touched. cache t k = Some (a, touched) \<and> locked_until a = Some u
                     \<and> u \<le> touched + lockout t)"

lemma locked_entry_get:
  assumes "locked_entry t k u" and "now < u"
  obtains a where "cache_get t now k = Some a" and "locked_until a = Some u"
proof -
  from assms(1) obtain a touched where c: "cache t k = Some (a, touched)" and l: "locked_until a = Some u"
    and b: "u \<le> touched + lockout t" by (auto simp: locked_entry_def)
  from b assms(2) have "now < touched + time_to_idle t" by (auto simp: time_to_idle_def max_def)
  with c l that show thesis by (auto simp: cache_get_def)
qed

lemma settle_locked: "locked_until a = Some u \<Longrightarrow> now < u \<Longrightarrow> settle a now = a"
  by (simp add: settle_def)

lemma check_settings [simp]:
  "lockout (snd (check lo t now i)) = lockout t"
  "max_attempts (snd (check lo t now i)) = max_attempts t"
  by (auto simp: check_def cache_put_def Let_def split: option.split)

lemma record_failure_settings [simp]:
  "lockout (snd (record_failure lo t now i)) = lockout t"
  "max_attempts (snd (record_failure lo t now i)) = max_attempts t"
  by (auto simp: record_failure_def cache_put_def Let_def split: option.split)

lemma apply_event_settings [simp]:
  "lockout (apply_event lo t e) = lockout t" "max_attempts (apply_event lo t e) = max_attempts t"
proof -
  obtain now x where e: "e = (now, x)" by force
  show "lockout (apply_event lo t e) = lockout t" "max_attempts (apply_event lo t e) = max_attempts t"
    unfolding e by (cases x; simp add: clear_def)+
qed

lemma locked_entry_put:
  assumes "locked_entry t k u" and "now < u" and "locked_until a = Some u" and "u \<le> now + lockout t"
  shows "locked_entry (cache_put t now k a) k u"
  using assms by (auto simp: locked_entry_def cache_put_def enabled_def)

lemma locked_entry_put_other:
  "locked_entry t k u \<Longrightarrow> j \<noteq> k \<Longrightarrow> locked_entry (cache_put t now j a) k u"
  by (auto simp: locked_entry_def cache_put_def enabled_def)

lemma check_locked:
  assumes "locked_entry t (normalize_id lo i) u" and "now < u"
  shows "fst (check lo t now i) = Locked (u - now)"
proof -
  obtain a where "cache_get t now (normalize_id lo i) = Some a" and a: "locked_until a = Some u"
    using locked_entry_get [OF assms] by blast
  with assms(1) show ?thesis
    by (simp add: check_def locked_entry_def settle_locked [OF a assms(2)] Let_def)
qed

text \<open>
  One event after the lock engaged: whatever it is, unless it removes the entry, the lock
  and its deadline stay.
\<close>

lemma apply_event_locked_entry:
  assumes lock: "locked_entry t k u" and "now < u" and "u \<le> now + lockout t"
    and "\<not> removes lo k e"
  shows "locked_entry (apply_event lo t (now, e)) k u"
proof -
  from lock have en: "enabled t" by (simp add: locked_entry_def)
  obtain a where get: "cache_get t now k = Some a" and a: "locked_until a = Some u"
    using locked_entry_get [OF lock assms(2)] by blast
  note put = locked_entry_put [OF lock assms(2) _ assms(3)]
  show ?thesis
  proof (cases e)
    case (Check i)
    show ?thesis
    proof (cases "normalize_id lo i = k")
      case True
      with Check get a en put [OF a] show ?thesis
        by (simp add: check_def settle_locked [OF a assms(2)] Let_def)
    next
      case False
      with Check lock en show ?thesis
        by (auto simp: check_def Let_def intro: locked_entry_put_other split: option.split)
    qed
  next
    case (Fail i)
    have own: "locked_entry (cache_put t now k (a\<lparr>failures := n\<rparr>)) k u" for n
      by (rule put) (simp add: a)
    show ?thesis
    proof (cases "normalize_id lo i = k")
      case True
      with Fail get a en own show ?thesis
        by (simp add: record_failure_def settle_locked [OF a assms(2)] Let_def)
    next
      case False
      with Fail lock en show ?thesis
        by (auto simp: record_failure_def Let_def intro: locked_entry_put_other)
    qed
  next
    case (Clear i)
    with lock assms(4) show ?thesis by (auto simp: clear_def locked_entry_def enabled_def)
  next
    case (Evict j)
    with lock assms(4) show ?thesis by (auto simp: locked_entry_def enabled_def)
  qed
qed

lemma run_events_locked_entry:
  assumes "locked_entry t k u"
    and "\<forall>(now, e) \<in> set es. now < u \<and> u \<le> now + lockout t \<and> \<not> removes lo k e"
  shows "locked_entry (run_events lo t es) k u"
  using assms
proof (induction es arbitrary: t)
  case Nil
  then show ?case by (simp add: run_events_def)
next
  case (Cons x es)
  obtain now e where x: "x = (now, e)" by force
  with Cons.prems have "locked_entry (apply_event lo t x) k u"
    by (auto intro: apply_event_locked_entry)
  with Cons.IH [of "apply_event lo t x"] Cons.prems(2) show ?case by (simp add: run_events_def)
qed

lemma record_failure_engages:
  assumes "record_failure lo t now i = (Some True, t')"
  shows "locked_entry t' (normalize_id lo i) (now + lockout t)"
  using assms by (auto simp: record_failure_def Let_def locked_entry_def cache_put_def enabled_def
      split: if_splits option.splits)

section \<open>Counting\<close>

text \<open>The answers of \<open>record_failure\<close> along a list of failure times.\<close>

fun fail_results :: "(string \<Rightarrow> string) \<Rightarrow> tracker \<Rightarrow> string \<Rightarrow> nat list \<Rightarrow> bool option list" where
  "fail_results lo t i [] = []"
| "fail_results lo t i (now # ts) =
     fst (record_failure lo t now i) # fail_results lo (snd (record_failure lo t now i)) i ts"

text \<open>Each failure comes while the entry of the one before is still in the cache.\<close>

definition spaced :: "nat \<Rightarrow> nat list \<Rightarrow> bool" where
  "spaced idle ts \<longleftrightarrow> successively (\<lambda>a b. a \<le> b \<and> b < a + idle) ts"

text \<open>\<open>n\<close> failures have been counted for \<open>k\<close>, the last at \<open>touched\<close>, and no lock has engaged.\<close>

definition counted :: "tracker \<Rightarrow> string \<Rightarrow> nat \<Rightarrow> nat \<Rightarrow> bool" where
  "counted t k n touched \<longleftrightarrow>
     (case cache t k of
        None \<Rightarrow> n = 0
      | Some (a, x) \<Rightarrow> x = touched \<and> failures a = n \<and> locked_until a = None)"

lemma settle_unlocked [simp]: "locked_until a = None \<Longrightarrow> settle a now = a"
  by (simp add: settle_def)

lemma cache_put_eq [simp]:
  "cache (cache_put t now k a) k = Some (a, now)"
  "lockout (cache_put t now k a) = lockout t"
  "max_attempts (cache_put t now k a) = max_attempts t"
  by (simp_all add: cache_put_def)

lemma record_failure_counted:
  assumes "enabled t" and "counted t (normalize_id lo i) n touched" and "now < touched + time_to_idle t"
    and "n + 1 \<le> max_attempts t" and "max_attempts t \<le> u32_max"
  shows "record_failure lo t now i =
    (let a = \<lparr>failures = n + 1, locked_until = None\<rparr>
     in if n + 1 < max_attempts t then (Some False, cache_put t now (normalize_id lo i) a)
        else if now + lockout t < instant_limit
        then (Some True, cache_put t now (normalize_id lo i) (a\<lparr>locked_until := Some (now + lockout t)\<rparr>))
        else (None, cache_put t now (normalize_id lo i) a))"
proof (cases "cache t (normalize_id lo i)")
  case None
  with assms show ?thesis
    by (auto simp: counted_def record_failure_def cache_get_def Let_def)
next
  case (Some p)
  then obtain a x where c: "cache t (normalize_id lo i) = Some (a, x)" by force
  with assms(2) have a: "a = \<lparr>failures = n, locked_until = None\<rparr>" "x = touched"
    by (auto simp: counted_def)
  from c a assms show ?thesis
    by (auto simp: record_failure_def cache_get_def Let_def)
qed

lemma fail_results_counted:
  assumes "enabled t" and "counted t (normalize_id lo i) n touched" and "ts \<noteq> []"
    and "hd ts < touched + time_to_idle t" and "spaced (time_to_idle t) ts"
    and "n + length ts = max_attempts t" and "max_attempts t \<le> u32_max"
    and "last ts + lockout t < instant_limit"
  shows "fail_results lo t i ts = replicate (length ts - 1) (Some False) @ [Some True]"
  using assms
proof (induction ts arbitrary: t n touched)
  case Nil
  then show ?case by simp
next
  case (Cons now ts)
  let ?k = "normalize_id lo i"
  note step = record_failure_counted [OF Cons.prems(1,2), of now]
  show ?case
  proof (cases "ts = []")
    case True
    with Cons.prems step show ?thesis by (simp add: Let_def)
  next
    case False
    let ?t = "cache_put t now ?k \<lparr>failures = n + 1, locked_until = None\<rparr>"
    have "n + 1 < max_attempts t" using False Cons.prems(6) by (cases ts) auto
    with Cons.prems step have run: "record_failure lo t now i = (Some False, ?t)"
      by (simp add: Let_def Suc_le_eq)
    have idle: "time_to_idle ?t = time_to_idle t" by (simp add: time_to_idle_def)
    have "fail_results lo ?t i ts = replicate (length ts - 1) (Some False) @ [Some True]"
      by (rule Cons.IH [of ?t "n + 1" now])
        (use False Cons.prems idle in \<open>auto simp: counted_def enabled_def spaced_def successively_Cons\<close>)
    with run False show ?thesis by (cases ts) auto
  qed
qed

section \<open>Properties\<close>

text \<open>
  C18. Once a failed login engages the lock of an identifier, every check of that identifier, in any
  spelling that normalises alike, is refused until the full lockout has passed since that failure,
  whatever other checks and failures happen in between, and the reported wait is exact. Only an
  explicit clear or the eviction of the entry ends it earlier.
\<close>

theorem lock_lasts_full_duration:
  assumes "record_failure lo t t0 i = (Some True, t')"
    and "\<forall>(now, e) \<in> set es. t0 \<le> now \<and> now < t0 + lockout t \<and> \<not> removes lo (normalize_id lo i) e"
    and "now < t0 + lockout t" and "normalize_id lo j = normalize_id lo i"
  shows "fst (check lo (run_events lo t' es) now j) = Locked (t0 + lockout t - now)"
proof -
  have L: "lockout t' = lockout t" using record_failure_settings(1) [of lo t t0 i] assms(1) by simp
  have "locked_entry (run_events lo t' es) (normalize_id lo i) (t0 + lockout t)"
    using record_failure_engages [OF assms(1)] assms(2) L by (auto intro!: run_events_locked_entry)
  then show ?thesis using assms(3,4) check_locked [of _ lo j] by simp
qed

theorem lock_lasts_full_duration_witness:
  "fst (check id (run_events id
     (snd (record_failure id (new_tracker 1 15) 0 ''bob'')) [(1, Fail ''bob''), (2, Check '' bob '')]) 7 ''bob'')
   = Locked (15 * 60 * second - 7)"
proof -
  let ?t = "new_tracker 1 15"
  have "fst (record_failure id ?t 0 ''bob'') = Some True"
    by (simp add: record_failure_def new_tracker_def enabled_def cache_get_def settle_def
        u64_max_def u32_max_def instant_limit_def second_def)
  then have r: "record_failure id ?t 0 ''bob'' = (Some True, snd (record_failure id ?t 0 ''bob''))"
    by (metis prod.collapse)
  have L: "lockout (new_tracker n 15) = 15 * 60 * second" for n
    by (simp add: new_tracker_def u64_max_def)
  show ?thesis
    using lock_lasts_full_duration [OF r, of "[(1, Fail ''bob''), (2, Check '' bob '')]" 7 "''bob''"]
    by (simp add: L second_def)
qed

text \<open>
  With attempts close enough together that the failure counter is not forgotten, exactly the
  failure number \<open>max_attempts\<close> engages the lock: all earlier ones report that it did not, that one
  reports that it did.
\<close>

theorem lock_engages_at_threshold:
  assumes "enabled t" and "cache t (normalize_id lo i) = None" and "spaced (time_to_idle t) ts"
    and "length ts = max_attempts t" and "max_attempts t \<le> u32_max"
    and "last ts + lockout t < instant_limit"
  shows "fail_results lo t i ts = replicate (max_attempts t - 1) (Some False) @ [Some True]"
proof -
  from assms(1,4) have "ts \<noteq> []" by (auto simp: enabled_def)
  moreover have "counted t (normalize_id lo i) 0 (hd ts)" using assms(2) by (simp add: counted_def)
  moreover have "0 < time_to_idle t" by (simp add: time_to_idle_def second_def)
  ultimately show ?thesis
    using fail_results_counted [OF assms(1), of lo i 0 "hd ts" ts] assms(3-6) by simp
qed

theorem lock_engages_at_threshold_witness:
  "fail_results id (new_tracker 3 15) ''bob'' [1, 5, 9] = [Some False, Some False, Some True]"
proof -
  have m: "max_attempts (new_tracker 3 15) = 3" by (simp add: new_tracker_def)
  have "fail_results id (new_tracker 3 15) ''bob'' [1, 5, 9]
      = replicate (max_attempts (new_tracker 3 15) - 1) (Some False) @ [Some True]"
    by (rule lock_engages_at_threshold)
      (simp_all add: new_tracker_def enabled_def spaced_def time_to_idle_def second_def u64_max_def
        u32_max_def instant_limit_def)
  moreover have "replicate (max_attempts (new_tracker 3 15) - 1) x = [x, x]" for x :: "bool option"
    by (simp add: m numeral_2_eq_2)
  ultimately show ?thesis by simp
qed

text \<open>
  A lock that has run out is dropped together with its counter: the next failure counts as the
  first of a new burst and, unless one failure is the threshold, does not engage the lock again.
\<close>

theorem expired_lock_resets_counter:
  assumes "enabled t" and "cache_get t now (normalize_id lo i) = Some a" and "locked_until a = Some u"
    and "u \<le> now" and "1 < max_attempts t"
  shows "fst (check lo t now i) = Open \<and> fst (record_failure lo t now i) = Some False
    \<and> map_option (failures \<circ> fst) (cache (snd (record_failure lo t now i)) (normalize_id lo i)) = Some 1"
proof -
  from assms have "settle a now = a\<lparr>failures := 0, locked_until := None\<rparr>" by (simp add: settle_def)
  with assms show ?thesis
    by (simp add: check_def record_failure_def Let_def u32_max_def)
qed

theorem expired_lock_resets_counter_witness:
  "let t = (new_tracker 2 15)\<lparr>cache := [''bob'' \<mapsto> (\<lparr>failures = 9, locked_until = Some 5\<rparr>, 3)]\<rparr>
   in fst (check id t 5 ''bob'') = Open \<and> fst (record_failure id t 5 ''bob'') = Some False"
proof -
  let ?t = "(new_tracker 2 15)\<lparr>cache := [''bob'' \<mapsto> (\<lparr>failures = 9, locked_until = Some 5\<rparr>, 3)]\<rparr>"
  have n: "normalize_id id ''bob'' = ''bob''"
    by (simp add: normalize_id_def trim_def to_lowercase_def lower_char_def ascii_lower_def
        is_cont_def is_whitespace_def whitespace_chars_def)
  have "cache_get ?t 5 (normalize_id id ''bob'') = Some \<lparr>failures = 9, locked_until = Some 5\<rparr>"
    by (simp add: n cache_get_def time_to_idle_def new_tracker_def second_def)
  from expired_lock_resets_counter [of ?t 5 id "''bob''", OF _ this]
  show ?thesis by (simp add: enabled_def new_tracker_def)
qed

end
