(* ===== verification/File_System.thy ===== *)
theory File_System
  imports Rust_Str "HOL-Library.Sublist"
begin

text \<open>
  What the sources use of \<open>std::path\<close> and \<open>std::fs\<close>, on Unix. A path is a string; the operating
  system sees its \<open>components\<close>. A file system is the list of its directory entries, each under
  its own absolute path of names, so that a symbolic link is an entry and never a prefix of
  another. \<open>walk\<close> follows a path from a directory as the kernel does, links included, at most
  forty of them. Permissions, hard links, times and sizes of directories are left out; so is what
  a trailing slash adds.
\<close>

section \<open>Paths\<close>

datatype component = RootDir | CurDir | ParentDir | Normal string

fun segments :: "string \<Rightarrow> string list" where
  "segments [] = [[]]"
| "segments (c # cs) =
     (if c = CHR ''/'' then [] # segments cs
      else case segments cs of s # ss \<Rightarrow> (c # s) # ss | [] \<Rightarrow> [[c]])"

definition component_of :: "string \<Rightarrow> component" where
  "component_of s = (if s = ''..'' then ParentDir else Normal s)"

definition names :: "string list \<Rightarrow> component list" where
  "names ss = map component_of (filter (\<lambda>s. s \<noteq> [] \<and> s \<noteq> ''.'') ss)"

definition is_absolute :: "string \<Rightarrow> bool" where
  "is_absolute p \<longleftrightarrow> starts_with p ''/''"

definition components :: "string \<Rightarrow> component list" where
  "components p =
     (if is_absolute p then RootDir # names (segments p)
      else if hd (segments p) = ''.'' then CurDir # names (segments p)
      else names (segments p))"

text \<open>\<open>Path::join\<close>: an absolute right-hand side replaces the left.\<close>

definition join :: "string \<Rightarrow> string \<Rightarrow> string" where
  "join base rel =
     (if is_absolute rel then rel
      else if base = [] \<or> last base = CHR ''/'' then base @ rel
      else base @ ''/'' @ rel)"

definition path_starts_with :: "string \<Rightarrow> string \<Rightarrow> bool" where
  "path_starts_with p base \<longleftrightarrow> prefix (components base) (components p)"

definition file_name :: "component list \<Rightarrow> string option" where
  "file_name p = (if p = [] then None else case last p of Normal s \<Rightarrow> Some s | _ \<Rightarrow> None)"

text \<open>\<open>Path::parent\<close>: none of the root and of the empty path.\<close>

definition parent :: "component list \<Rightarrow> component list option" where
  "parent p = (if p = [] \<or> p = [RootDir] then None else Some (butlast p))"

section \<open>Directory entries\<close>

datatype entry = RegularFile string | Folder | Symlink "component list"

type_synonym tree = "(component list \<times> entry) list"

datatype io_error = Enoent | Enotdir | Eloop | Eexist | Enotempty | Einval | Eisdir

function (sequential) walk ::
    "tree \<Rightarrow> nat \<Rightarrow> component list \<Rightarrow> component list \<Rightarrow> io_error + nat \<times> component list" where
  "walk t n dir [] = Inr (n, dir)"
| "walk t n dir (RootDir # cs) = walk t n [RootDir] cs"
| "walk t n dir (CurDir # cs) = walk t n dir cs"
| "walk t n dir (ParentDir # cs) = walk t n (if length dir \<le> 1 then dir else butlast dir) cs"
| "walk t n dir (Normal s # cs) =
     (case map_of t (dir @ [Normal s]) of
        None \<Rightarrow> Inl Enoent
      | Some Folder \<Rightarrow> walk t n (dir @ [Normal s]) cs
      | Some (RegularFile b) \<Rightarrow> if cs = [] then Inr (n, dir @ [Normal s]) else Inl Enotdir
      | Some (Symlink target) \<Rightarrow> (case n of 0 \<Rightarrow> Inl Eloop | Suc m \<Rightarrow> walk t m dir (target @ cs)))"
  by pat_completeness auto
termination
  by (relation "measures [\<lambda>(t, n, dir, p). n, \<lambda>(t, n, dir, p). length p]") auto

declare walk.simps(5) [simp del]

definition max_links :: nat where
  "max_links = 40"

text \<open>\<open>std::fs::canonicalize\<close> of a path, started in the directory \<open>d\<close>.\<close>

definition canonical :: "tree \<Rightarrow> component list \<Rightarrow> component list \<Rightarrow> io_error + component list" where
  "canonical t d p =
     (if p = [] then Inl Enoent
      else case walk t max_links d p of Inl e \<Rightarrow> Inl e | Inr (n, c) \<Rightarrow> Inr c)"

definition path_exists :: "tree \<Rightarrow> component list \<Rightarrow> component list \<Rightarrow> bool" where
  "path_exists t d p \<longleftrightarrow> (case canonical t d p of Inl e \<Rightarrow> False | Inr c \<Rightarrow> map_of t c \<noteq> None)"

definition is_dir :: "tree \<Rightarrow> component list \<Rightarrow> component list \<Rightarrow> bool" where
  "is_dir t d p \<longleftrightarrow> (case canonical t d p of Inl e \<Rightarrow> False | Inr c \<Rightarrow> map_of t c = Some Folder)"

definition read_file :: "tree \<Rightarrow> component list \<Rightarrow> component list \<Rightarrow> io_error + string" where
  "read_file t d p =
     (case canonical t d p of
        Inl e \<Rightarrow> Inl e
      | Inr c \<Rightarrow> (case map_of t c of Some (RegularFile b) \<Rightarrow> Inr b | None \<Rightarrow> Inl Enoent | _ \<Rightarrow> Inl Eisdir))"

text \<open>
  The directory entry an operation that does not follow the last link acts on: the parent is
  walked, the last name is not.
\<close>

definition slot :: "tree \<Rightarrow> component list \<Rightarrow> component list \<Rightarrow> io_error + component list" where
  "slot t d p =
     (case file_name p of
        None \<Rightarrow> Inl Einval
      | Some s \<Rightarrow>
          (case walk t max_links d (butlast p) of
             Inl e \<Rightarrow> Inl e
           | Inr (n, c) \<Rightarrow> if map_of t c = Some Folder then Inr (c @ [Normal s]) else Inl Enotdir))"

text \<open>The nearest ancestor that exists; each turn of the loop takes one component away.\<close>

function existing_ancestor :: "tree \<Rightarrow> component list \<Rightarrow> component list \<Rightarrow> component list option" where
  "existing_ancestor t d p =
     (if path_exists t d p then Some p
      else case parent p of None \<Rightarrow> None | Some q \<Rightarrow> existing_ancestor t d q)"
  by pat_completeness auto
termination
  by (relation "measure (\<lambda>(t, d, p). length p)") (auto simp: parent_def split: if_splits)

declare existing_ancestor.simps [simp del]

section \<open>Changes\<close>

definition put_entry :: "component list \<Rightarrow> entry \<Rightarrow> tree \<Rightarrow> tree" where
  "put_entry q e t = (q, e) # filter (\<lambda>x. fst x \<noteq> q) t"

definition drop_subtree :: "component list \<Rightarrow> tree \<Rightarrow> tree" where
  "drop_subtree q t = filter (\<lambda>x. \<not> prefix q (fst x)) t"

definition has_children :: "tree \<Rightarrow> component list \<Rightarrow> bool" where
  "has_children t q \<longleftrightarrow> list_ex (\<lambda>x. strict_prefix q (fst x)) t"

definition create_dir :: "component list \<Rightarrow> component list \<Rightarrow> tree \<Rightarrow> io_error + tree" where
  "create_dir d p t =
     (case slot t d p of
        Inl e \<Rightarrow> Inl e
      | Inr q \<Rightarrow> if map_of t q = None then Inr (put_entry q Folder t) else Inl Eexist)"

text \<open>\<open>std::fs::create_dir_all\<close>: the directory itself if it can be made, else its parents first.\<close>

function create_dir_all :: "component list \<Rightarrow> component list \<Rightarrow> tree \<Rightarrow> io_error + tree" where
  "create_dir_all d p t =
     (if p = [] then Inr t
      else case create_dir d p t of
        Inr t' \<Rightarrow> Inr t'
      | Inl e \<Rightarrow>
          if e \<noteq> Enoent then if is_dir t d p then Inr t else Inl e
          else case parent p of
            None \<Rightarrow> Inl Enoent
          | Some q \<Rightarrow>
              (case create_dir_all d q t of
                 Inl e' \<Rightarrow> Inl e'
               | Inr t1 \<Rightarrow>
                   (case create_dir d p t1 of
                      Inr t' \<Rightarrow> Inr t'
                    | Inl e' \<Rightarrow> if is_dir t1 d p then Inr t1 else Inl e')))"
  by pat_completeness auto
termination
  by (relation "measure (\<lambda>(d, p, t). length p)") (auto simp: parent_def split: if_splits)

declare create_dir_all.simps [simp del]

text \<open>\<open>remove_dir_all\<close> and \<open>remove_file\<close>: neither follows a link in the last place.\<close>

definition remove_dir_all :: "component list \<Rightarrow> component list \<Rightarrow> tree \<Rightarrow> io_error + tree" where
  "remove_dir_all d p t =
     (case slot t d p of
        Inl e \<Rightarrow> Inl e
      | Inr q \<Rightarrow>
          (case map_of t q of
             None \<Rightarrow> Inl Enoent
           | Some (RegularFile b) \<Rightarrow> Inl Enotdir
           | _ \<Rightarrow> Inr (drop_subtree q t)))"

definition remove_file :: "component list \<Rightarrow> component list \<Rightarrow> tree \<Rightarrow> io_error + tree" where
  "remove_file d p t =
     (case slot t d p of
        Inl e \<Rightarrow> Inl e
      | Inr q \<Rightarrow>
          (case map_of t q of
             None \<Rightarrow> Inl Enoent
           | Some Folder \<Rightarrow> Inl Eisdir
           | _ \<Rightarrow> Inr (drop_subtree q t)))"

definition move_subtree :: "component list \<Rightarrow> component list \<Rightarrow> tree \<Rightarrow> tree" where
  "move_subtree a b t =
     map (\<lambda>x. if prefix a (fst x) then (b @ drop (length a) (fst x), snd x) else x) (drop_subtree b t)"

definition rename :: "component list \<Rightarrow> component list \<Rightarrow> component list \<Rightarrow> tree \<Rightarrow> io_error + tree" where
  "rename d src dst t =
     (case slot t d src of
        Inl e \<Rightarrow> Inl e
      | Inr a \<Rightarrow>
     (case slot t d dst of
        Inl e \<Rightarrow> Inl e
      | Inr b \<Rightarrow>
     (case map_of t a of
        None \<Rightarrow> Inl Enoent
      | Some e \<Rightarrow>
          if strict_prefix a b then Inl Einval
          else if a = b then Inr t
          else (case map_of t b of
                  None \<Rightarrow> Inr (move_subtree a b t)
                | Some Folder \<Rightarrow>
                    if e \<noteq> Folder then Inl Eisdir
                    else if has_children t b then Inl Enotempty
                    else Inr (move_subtree a b t)
                | Some _ \<Rightarrow> if e = Folder then Inl Enotdir else Inr (move_subtree a b t)))))"

text \<open>\<open>std::fs::write\<close>: the last link is followed, to a file that need not exist yet.\<close>

function write_at :: "tree \<Rightarrow> nat \<Rightarrow> component list \<Rightarrow> component list \<Rightarrow> string \<Rightarrow> io_error + tree" where
  "write_at t n d p b =
     (case file_name p of
        None \<Rightarrow> Inl Eisdir
      | Some s \<Rightarrow>
     (case walk t n d (butlast p) of
        Inl e \<Rightarrow> Inl e
      | Inr (m, c) \<Rightarrow>
          if map_of t c \<noteq> Some Folder then Inl Enotdir
          else (case map_of t (c @ [Normal s]) of
                  Some Folder \<Rightarrow> Inl Eisdir
                | Some (Symlink target) \<Rightarrow>
                    if m = 0 \<or> n < m then Inl Eloop else write_at t (m - 1) c target b
                | _ \<Rightarrow> Inr (put_entry (c @ [Normal s]) (RegularFile b) t))))"
  by pat_completeness auto
termination
  by (relation "measure (\<lambda>(t, n, d, p, b). n)") auto

declare write_at.simps [simp del]

definition write_file :: "component list \<Rightarrow> component list \<Rightarrow> string \<Rightarrow> tree \<Rightarrow> io_error + tree" where
  "write_file d p b t = write_at t max_links d p b"

section \<open>Components of joined paths\<close>

lemma segments_ne [simp]: "segments p \<noteq> []"
  by (induction p) (auto split: list.splits)

lemma names_Cons: "names (s # ss) = names [s] @ names ss"
  by (simp add: names_def)

lemma names_append [simp]: "names (ss @ us) = names ss @ names us"
  by (simp add: names_def)

lemma names_Nil [simp]: "names [] = []" "names [[]] = []"
  by (simp_all add: names_def)

lemma segments_slash: "segments (a @ CHR ''/'' # b) = segments a @ segments b"
  by (induction a) (auto split: list.split)

lemma names_slash: "names (segments (a @ CHR ''/'' # b)) = names (segments a) @ names (segments b)"
  by (simp add: segments_slash)

lemma segments_last_slash: "last a = CHR ''/'' \<Longrightarrow> a \<noteq> [] \<Longrightarrow> segments (a @ b) = butlast (segments a) @ segments b"
  by (induction a rule: rev_induct) (auto simp: segments_slash)

lemma names_last_slash: "last a = CHR ''/'' \<Longrightarrow> a \<noteq> [] \<Longrightarrow> names (segments (a @ b)) = names (segments a) @ names (segments b)"
  by (induction a rule: rev_induct) (auto simp: segments_slash)

lemma is_absolute_append [simp]: "a \<noteq> [] \<Longrightarrow> is_absolute (a @ b) = is_absolute a"
  by (cases a) (auto simp: is_absolute_def)

lemma hd_segments_append:
  "a \<noteq> [] \<Longrightarrow> last a = CHR ''/'' \<Longrightarrow> hd (segments (a @ b)) = hd (segments a)"
  "hd (segments (a @ CHR ''/'' # b)) = hd (segments a)"
proof -
  show "hd (segments (a @ CHR ''/'' # b)) = hd (segments a)" by (simp add: segments_slash)
  assume "a \<noteq> []" and "last a = CHR ''/''"
  then obtain c where "a = c @ [CHR ''/'']" by (metis append_butlast_last_id)
  then show "hd (segments (a @ b)) = hd (segments a)" by (simp add: segments_slash)
qed

lemma components_join:
  assumes "base \<noteq> []" and "\<not> is_absolute rel"
  shows "components (join base rel) = components base @ names (segments rel)"
proof (cases "last base = CHR ''/''")
  case True
  with assms show ?thesis
    by (simp add: join_def components_def hd_segments_append names_last_slash)
next
  case False
  with assms show ?thesis
    by (simp add: join_def components_def hd_segments_append names_slash)
qed

lemma join_absolute: "is_absolute rel \<Longrightarrow> join base rel = rel"
  by (simp add: join_def)

lemma is_absolute_join: "base \<noteq> [] \<Longrightarrow> is_absolute (join base rel) \<longleftrightarrow> is_absolute rel \<or> is_absolute base"
  by (simp add: join_def)

lemma join_ne [simp]: "base \<noteq> [] \<Longrightarrow> join base rel \<noteq> []"
  by (auto simp: join_def is_absolute_def)

end
