(* ===== verification/Errors.thy ===== *)
theory Errors
  imports Rust_Str
begin

text \<open>
  The error types of the server: the inference errors of \<open>inference/error.rs\<close> and the
  application error of \<open>core/error.rs\<close>. The errors of the provider library (rig) appear
  with the constructors the sources match on; every other case of it is \<open>OtherHttp\<close> or
  \<open>OtherCompletion\<close>, which carries the text the library would print.
\<close>

section \<open>Inference errors\<close>

datatype http_error =
    InvalidStatusCode nat
  | InvalidStatusCodeWithMessage nat string
  | Instance string
  | OtherHttp string

datatype completion_error =
    HttpError http_error
  | ProviderError string
  | ProviderResponse "nat option" string
  | JsonError string
  | OtherCompletion string

datatype inference_error =
    ProviderNotConfigured string
  | ModelGroupNotFound string
  | InferenceFailed string
  | StreamingFailed string
  | CompletionFailed completion_error
  | AllFallbacksFailed "inference_error list"
  | ModelFailed string string nat inference_error
  | RateLimited nat
  | EmptyResponse
  | InferenceCancelled string
  | ConfigError string

definition provider_error_contains_status :: "string \<Rightarrow> nat list \<Rightarrow> bool" where
  "provider_error_contains_status msg codes \<longleftrightarrow> list_ex (\<lambda>code. contains msg (show_nat code)) codes"

definition has_non_retryable_status :: "string \<Rightarrow> bool" where
  "has_non_retryable_status msg \<longleftrightarrow>
     list_ex (\<lambda>code. contains msg (show_nat code)) [400, 401, 403, 404, 405, 422]"

definition status_is_success :: "nat option \<Rightarrow> bool" where
  "status_is_success st = (case st of None \<Rightarrow> False | Some s \<Rightarrow> 200 \<le> s \<and> s < 300)"

text \<open>\<open>InferenceError::is_retryable\<close>; \<open>lo\<close> is the lower-case table of \<open>Rust_Str\<close>.\<close>

fun is_retryable :: "(string \<Rightarrow> string) \<Rightarrow> inference_error \<Rightarrow> bool" where
  "is_retryable lo (ModelFailed p m n source) = is_retryable lo source"
| "is_retryable lo (RateLimited s) = True"
| "is_retryable lo EmptyResponse = True"
| "is_retryable lo (InferenceCancelled t) = False"
| "is_retryable lo (CompletionFailed (HttpError (InvalidStatusCode code))) =
     (code = 429 \<or> code = 500 \<or> code = 502 \<or> code = 503 \<or> code = 504)"
| "is_retryable lo (CompletionFailed (HttpError (InvalidStatusCodeWithMessage code t))) =
     (code = 429 \<or> code = 500 \<or> code = 502 \<or> code = 503 \<or> code = 504)"
| "is_retryable lo (CompletionFailed (HttpError (Instance t))) = True"
| "is_retryable lo (CompletionFailed (HttpError (OtherHttp t))) = False"
| "is_retryable lo (CompletionFailed (ProviderError msg)) = (\<not> has_non_retryable_status msg)"
| "is_retryable lo (CompletionFailed (ProviderResponse st b)) = status_is_success st"
| "is_retryable lo (CompletionFailed (JsonError t)) = True"
| "is_retryable lo (CompletionFailed (OtherCompletion t)) = False"
| "is_retryable lo (InferenceFailed msg) =
     (contains (to_lowercase lo msg) ''429'' \<or> contains (to_lowercase lo msg) ''timeout''
      \<or> contains (to_lowercase lo msg) ''overloaded'')"
| "is_retryable lo (StreamingFailed msg) =
     (contains (to_lowercase lo msg) ''429'' \<or> contains (to_lowercase lo msg) ''timeout''
      \<or> contains (to_lowercase lo msg) ''overloaded'')"
| "is_retryable lo _ = False"

fun is_rate_limited :: "inference_error \<Rightarrow> bool" where
  "is_rate_limited (ModelFailed p m n source) = is_rate_limited source"
| "is_rate_limited (RateLimited s) = True"
| "is_rate_limited (CompletionFailed (HttpError (InvalidStatusCode code))) = (code = 429)"
| "is_rate_limited (CompletionFailed (HttpError (InvalidStatusCodeWithMessage code t))) = (code = 429)"
| "is_rate_limited (CompletionFailed (ProviderError msg)) = provider_error_contains_status msg [429]"
| "is_rate_limited _ = False"

fun retry_reason :: "(string \<Rightarrow> string) \<Rightarrow> inference_error \<Rightarrow> string" where
  "retry_reason lo (ModelFailed p m n source) = retry_reason lo source"
| "retry_reason lo e =
     (if is_rate_limited e then ''rate_limited''
      else case e of
        EmptyResponse \<Rightarrow> ''empty_response''
      | CompletionFailed (HttpError (Instance t)) \<Rightarrow> ''network_error''
      | CompletionFailed (HttpError h) \<Rightarrow> ''server_error''
      | CompletionFailed (ProviderResponse st b) \<Rightarrow>
          if status_is_success st then ''invalid_provider_response'' else ''server_error''
      | CompletionFailed (JsonError t) \<Rightarrow> ''invalid_provider_response''
      | StreamingFailed msg \<Rightarrow>
          if contains (to_lowercase lo msg) ''timeout'' then ''timeout'' else ''server_error''
      | InferenceFailed msg \<Rightarrow>
          if contains (to_lowercase lo msg) ''overloaded'' then ''overloaded'' else ''server_error''
      | _ \<Rightarrow> ''server_error'')"

section \<open>Application errors\<close>

datatype auth_error_code =
    InvalidCredentials
  | EmailNotVerified
  | CsrfFailed
  | TokenInvalid
  | TokenExpired
  | TokenFailed
  | SsoDisabled
  | ServerError
  | AccountDeactivated
  | AccountConflict
  | AccountLocked nat

fun auth_error_code_str :: "auth_error_code \<Rightarrow> string" where
  "auth_error_code_str InvalidCredentials = ''invalid_credentials''"
| "auth_error_code_str EmailNotVerified = ''email_not_verified''"
| "auth_error_code_str CsrfFailed = ''csrf_failed''"
| "auth_error_code_str TokenInvalid = ''token_invalid''"
| "auth_error_code_str TokenExpired = ''token_expired''"
| "auth_error_code_str TokenFailed = ''token_failed''"
| "auth_error_code_str SsoDisabled = ''sso_disabled''"
| "auth_error_code_str ServerError = ''server_error''"
| "auth_error_code_str AccountDeactivated = ''account_deactivated''"
| "auth_error_code_str AccountConflict = ''account_conflict''"
| "auth_error_code_str (AccountLocked s) = ''account_locked''"

datatype app_error =
    Auth string auth_error_code
  | NotFound string
  | Validation string
  | Database string
  | Forbidden string
  | Conflict string
  | Internal string
  | Decryption string
  | Inference inference_error
  | Browser string
  | Tool string
  | ToolExecution string app_error
  | Http nat string

fun app_error_is_retryable :: "(string \<Rightarrow> string) \<Rightarrow> app_error \<Rightarrow> bool" where
  "app_error_is_retryable lo (Inference e) = is_retryable lo e"
| "app_error_is_retryable lo (ToolExecution t source) = app_error_is_retryable lo source"
| "app_error_is_retryable lo (Http status msg) = (status \<in> {429, 500, 502, 503, 504})"
| "app_error_is_retryable lo (Tool msg) =
     (contains (to_lowercase lo msg) ''timeout'' \<or> contains (to_lowercase lo msg) ''connection'')"
| "app_error_is_retryable lo _ = False"

section \<open>Lemmas\<close>

text \<open>Wrapping an error with the model it came from changes neither judgement about it.\<close>

lemma rate_limited_reason: "is_rate_limited e \<Longrightarrow> retry_reason lo e = ''rate_limited''"
  by (induction lo e rule: retry_reason.induct) auto

lemma rate_limit_status_retryable:
  "is_rate_limited (CompletionFailed (HttpError h)) \<Longrightarrow> is_retryable lo (CompletionFailed (HttpError h))"
  by (cases h) auto

lemma auth_error_code_str_inj:
  "auth_error_code_str a = auth_error_code_str b \<Longrightarrow>
     a = b \<or> (\<exists>m n. a = AccountLocked m \<and> b = AccountLocked n)"
  by (cases a; cases b) auto

end
