(* ===== verification/Store.thy ===== *)
theory Store
  imports Errors
begin

text \<open>
  The entity store: the generic repository of \<open>db/repo/generic.rs\<close> over one table, and the
  environment every database operation runs in.

  A table is the list of its records in the order they were created (record ids are
  time-ordered, so this is also the order of the ids). The locale \<open>entity_store\<close> states the
  contract the services rely on; \<open>rows\<close> interprets it on the model of the repository for
  every entity type. The database engine itself is outside the sources: each call can fail
  with any message (the list \<open>faults\<close> decides, one entry per call), and the text of the
  refusal of a second record under the same id is the field \<open>duplicate_text\<close>.

  A fault stands for a failure the driver reports for the call. The deletes by query of the
  repositories (\<open>delete_one\<close>, the \<open>delete_by_\<close> family, \<open>delete_by_ids\<close> of \<open>db/repo\<close>) await the response
  of the database without checking it, so in the code an error of the statement alone, inside a
  response that arrived, goes unnoticed: the call succeeds and deletes nothing. That case is not
  modelled; where the model deletes by query, a call that succeeds has deleted.
\<close>

section \<open>Tables\<close>

definition find_row :: "('r \<Rightarrow> string) \<Rightarrow> string \<Rightarrow> 'r list \<Rightarrow> 'r option" where
  "find_row key i t = find (\<lambda>r. key r = i) t"

definition create_row :: "('r \<Rightarrow> string) \<Rightarrow> 'r \<Rightarrow> 'r list \<Rightarrow> 'r list option" where
  "create_row key r t = (if find_row key (key r) t = None then Some (t @ [r]) else None)"

definition update_row :: "('r \<Rightarrow> string) \<Rightarrow> 'r \<Rightarrow> 'r list \<Rightarrow> 'r list" where
  "update_row key r t = map (\<lambda>x. if key x = key r then r else x) t"

definition delete_row :: "('r \<Rightarrow> string) \<Rightarrow> string \<Rightarrow> 'r list \<Rightarrow> 'r list" where
  "delete_row key i t = filter (\<lambda>x. key x \<noteq> i) t"

definition wf_rows :: "('r \<Rightarrow> string) \<Rightarrow> 'r list \<Rightarrow> bool" where
  "wf_rows key t \<longleftrightarrow> distinct (map key t)"

section \<open>The contract of an entity store\<close>

locale entity_store =
  fixes key :: "'r \<Rightarrow> string"
    and lookup :: "string \<Rightarrow> 't \<Rightarrow> 'r option"
    and create :: "'r \<Rightarrow> 't \<Rightarrow> 't option"
    and update :: "'r \<Rightarrow> 't \<Rightarrow> 't"
    and delete :: "string \<Rightarrow> 't \<Rightarrow> 't"
    and wf :: "'t \<Rightarrow> bool"
  assumes lookup_key: "lookup i t = Some r \<Longrightarrow> key r = i"
    and create_None: "create r t = None \<longleftrightarrow> lookup (key r) t \<noteq> None"
    and lookup_create: "create r t = Some t' \<Longrightarrow> lookup i t' = (if i = key r then Some r else lookup i t)"
    and lookup_update:
      "lookup i (update r t) = (if i = key r \<and> lookup i t \<noteq> None then Some r else lookup i t)"
    and lookup_delete: "lookup i (delete j t) = (if i = j then None else lookup i t)"
    and wf_create: "wf t \<Longrightarrow> create r t = Some t' \<Longrightarrow> wf t'"
    and wf_update: "wf t \<Longrightarrow> wf (update r t)"
    and wf_delete: "wf t \<Longrightarrow> wf (delete i t)"
begin

lemma update_missing: "lookup (key r) t = None \<Longrightarrow> lookup i (update r t) = lookup i t"
  by (auto simp: lookup_update)

text \<open>The services change a record by reading it, changing a copy and writing the copy back.\<close>

lemma read_modify_write:
  assumes "lookup i t = Some r" and "key (f r) = key r"
  shows "lookup j (update (f r) t) = (if j = i then Some (f r) else lookup j t)"
  using assms lookup_key [OF assms(1)] by (simp add: lookup_update)

lemma update_delete: "lookup i (update r (delete (key r) t)) = lookup i (delete (key r) t)"
  by (simp add: lookup_update lookup_delete)

lemma create_delete:
  "create r t = Some t' \<Longrightarrow> lookup i (delete (key r) t') = lookup i t"
  using create_None [of r t] by (auto simp: lookup_create lookup_delete)

end

section \<open>The table of rows is an entity store\<close>

lemma find_row_Some: "find_row key i t = Some r \<Longrightarrow> r \<in> set t \<and> key r = i"
  by (auto simp: find_row_def dest: find_eq_SomeD)

lemma find_row_Nil [simp]: "find_row key i [] = None"
  by (simp add: find_row_def)

lemma find_row_None: "find_row key i t = None \<longleftrightarrow> (\<forall>r \<in> set t. key r \<noteq> i)"
  by (auto simp: find_row_def find_none_iff)

lemma find_row_mem: "wf_rows key t \<Longrightarrow> r \<in> set t \<Longrightarrow> find_row key (key r) t = Some r"
  by (auto simp: find_row_def wf_rows_def find_distinct)

lemma find_row_append:
  "find_row key i (t @ u) = (case find_row key i t of None \<Rightarrow> find_row key i u | Some r \<Rightarrow> Some r)"
  by (auto simp: find_row_def find_append_option split: option.split)

lemma find_row_update:
  "find_row key i (update_row key r t) =
     (if i = key r \<and> find_row key i t \<noteq> None then Some r else find_row key i t)"
  by (induction t) (auto simp: find_row_def update_row_def)

lemma find_row_delete:
  "find_row key i (delete_row key j t) = (if i = j then None else find_row key i t)"
  by (induction t) (auto simp: find_row_def delete_row_def)

lemma keys_update_row [simp]: "map key (update_row key r t) = map key t"
  by (simp add: update_row_def)

lemma set_update_row:
  "x \<in> set (update_row key r t) \<Longrightarrow> x = r \<or> (x \<in> set t \<and> key x \<noteq> key r)"
  by (auto simp: update_row_def split: if_splits)

lemma wf_rows_create: "wf_rows key t \<Longrightarrow> create_row key r t = Some t' \<Longrightarrow> wf_rows key t'"
  by (fastforce simp: wf_rows_def create_row_def find_row_None split: if_splits)

lemma wf_rows_filter: "wf_rows key t \<Longrightarrow> wf_rows key (filter P t)"
  by (auto simp: wf_rows_def distinct_map intro: inj_on_subset)

interpretation rows: entity_store key "find_row key" "create_row key" "update_row key"
  "delete_row key" "wf_rows key" for key :: "'r \<Rightarrow> string"
proof
  show "find_row key i t = Some r \<Longrightarrow> key r = i" for i t r
    by (drule find_row_Some) simp
  show "create_row key r t = None \<longleftrightarrow> find_row key (key r) t \<noteq> None" for r t
    by (auto simp: create_row_def)
  show "create_row key r t = Some t' \<Longrightarrow>
      find_row key i t' = (if i = key r then Some r else find_row key i t)" for r t t' i
    by (auto simp: create_row_def find_row_append split: if_splits option.splits) (simp_all add: find_row_def)
  show "wf_rows key t \<Longrightarrow> wf_rows key (delete_row key i t)" for t i
    by (simp add: delete_row_def wf_rows_filter)
qed (auto simp: find_row_update find_row_delete wf_rows_def intro: wf_rows_create [unfolded wf_rows_def])

section \<open>The environment of a database call\<close>

record env =
  faults :: "string option list"
  clock :: int
  duplicate_text :: "string \<Rightarrow> string"

definition db_call :: "('b env_scheme \<Rightarrow> (app_error + 'a) \<times> 'b env_scheme) \<Rightarrow> (app_error, 'b env_scheme, 'a) op" where
  "db_call f w =
     (case faults w of
        [] \<Rightarrow> f w
      | None # fs \<Rightarrow> f (w\<lparr>faults := fs\<rparr>)
      | Some msg # fs \<Rightarrow> (Inl (Database msg), w\<lparr>faults := fs\<rparr>))"

definition db_read :: "('b env_scheme \<Rightarrow> 'a) \<Rightarrow> (app_error, 'b env_scheme, 'a) op" where
  "db_read f = db_call (\<lambda>w. (Inr (f w), w))"

definition db_write :: "('b env_scheme \<Rightarrow> 'b env_scheme) \<Rightarrow> (app_error, 'b env_scheme, unit) op" where
  "db_write f = db_call (\<lambda>w. (Inr (), f w))"

text \<open>
  The four methods of the generic repository. A component names its table by the record
  selector \<open>get\<close> and the record update \<open>put\<close>.
\<close>

definition repo_create ::
  "('b env_scheme \<Rightarrow> 'r list) \<Rightarrow> (('r list \<Rightarrow> 'r list) \<Rightarrow> 'b env_scheme \<Rightarrow> 'b env_scheme)
   \<Rightarrow> ('r \<Rightarrow> string) \<Rightarrow> 'r \<Rightarrow> (app_error, 'b env_scheme, 'r) op" where
  "repo_create get put key r =
     db_call (\<lambda>w. case create_row key r (get w) of
                     None \<Rightarrow> (Inl (Database (duplicate_text w (key r))), w)
                   | Some t \<Rightarrow> (Inr r, put (\<lambda>_. t) w))"

definition repo_find_by_id ::
  "('b env_scheme \<Rightarrow> 'r list) \<Rightarrow> ('r \<Rightarrow> string) \<Rightarrow> string \<Rightarrow> (app_error, 'b env_scheme, 'r option) op" where
  "repo_find_by_id get key i = db_read (\<lambda>w. find_row key i (get w))"

definition repo_update ::
  "(('r list \<Rightarrow> 'r list) \<Rightarrow> 'b env_scheme \<Rightarrow> 'b env_scheme) \<Rightarrow> ('r \<Rightarrow> string) \<Rightarrow> 'r
   \<Rightarrow> (app_error, 'b env_scheme, 'r) op" where
  "repo_update put key r = qbind (db_write (put (update_row key r))) (\<lambda>_. ret r)"

definition repo_delete ::
  "(('r list \<Rightarrow> 'r list) \<Rightarrow> 'b env_scheme \<Rightarrow> 'b env_scheme) \<Rightarrow> ('r \<Rightarrow> string) \<Rightarrow> string
   \<Rightarrow> (app_error, 'b env_scheme, unit) op" where
  "repo_delete put key i = db_write (put (delete_row key i))"

text \<open>Read a record, fail with \<open>e\<close> if it is missing.\<close>

abbreviation find_or :: "('b env_scheme \<Rightarrow> 'r list) \<Rightarrow> ('r \<Rightarrow> string) \<Rightarrow> app_error \<Rightarrow> string \<Rightarrow> (app_error, 'b env_scheme, 'r) op" where
  "find_or get key e i \<equiv> qbind (repo_find_by_id get key i) (ok_or e)"

section \<open>Rules for database calls\<close>

lemmas repo_defs = repo_create_def repo_find_by_id_def repo_update_def repo_delete_def
  db_read_def db_write_def

lemma db_call_no_fault [op_eval]: "faults w = [] \<Longrightarrow> db_call f w = f w"
  by (simp add: db_call_def)

lemma db_read_no_fault [op_eval]: "faults w = [] \<Longrightarrow> db_read f w = (Inr (f w), w)"
  by (simp add: db_read_def op_eval)

lemma db_write_no_fault [op_eval]: "faults w = [] \<Longrightarrow> db_write f w = (Inr (), f w)"
  by (simp add: db_write_def op_eval)

lemma db_call_fault [op_eval]:
  "faults w = Some msg # fs \<Longrightarrow> db_call f w = (Inl (Database msg), w\<lparr>faults := fs\<rparr>)"
  by (simp add: db_call_def)

text \<open>
  An invariant survives a call when the call's body keeps it and it does not look at the
  faults still to come.
\<close>

lemma keeps_db_call:
  assumes "\<And>w. P w \<Longrightarrow> P (snd (f w))" and "\<And>w fs. P w \<Longrightarrow> P (w\<lparr>faults := fs\<rparr>)"
  shows "keeps P (db_call f)"
proof (rule validI)
  fix w r w' assume "P w" and "db_call f w = (r, w')"
  then show "P w'"
    using assms(1) [of w] assms(1) [of "w\<lparr>faults := tl (faults w)\<rparr>"] assms(2) [of w "tl (faults w)"]
    by (auto simp: db_call_def split: list.splits option.splits)
qed

lemma keeps_db_read: "(\<And>w fs. P w \<Longrightarrow> P (w\<lparr>faults := fs\<rparr>)) \<Longrightarrow> keeps P (db_read f)"
  unfolding db_read_def by (rule keeps_db_call) auto

lemma keeps_db_write:
  "(\<And>w. P w \<Longrightarrow> P (f w)) \<Longrightarrow> (\<And>w fs. P w \<Longrightarrow> P (w\<lparr>faults := fs\<rparr>)) \<Longrightarrow> keeps P (db_write f)"
  unfolding db_write_def by (rule keeps_db_call) auto

lemma db_call_cases:
  assumes "db_call f w = (r, w')"
  obtains (fault) msg where "r = Inl (Database msg)" and "w' = w\<lparr>faults := tl (faults w)\<rparr>"
      and "faults w \<noteq> []"
    | (run) fs where "f (w\<lparr>faults := fs\<rparr>) = (r, w')" and "fs = tl (faults w)"
proof (cases "faults w")
  case Nil
  then have "w\<lparr>faults := []\<rparr> = w" by (cases w) simp
  with Nil assms run [of "[]"] show ?thesis by (simp add: db_call_def)
next
  case (Cons x fs)
  with assms fault run show ?thesis by (cases x) (auto simp: db_call_def)
qed

lemma db_read_Inr: "db_read f w = (Inr a, w') \<Longrightarrow> a = f (w\<lparr>faults := tl (faults w)\<rparr>) \<and> w' = w\<lparr>faults := tl (faults w)\<rparr>"
  by (auto simp: db_read_def elim: db_call_cases)

lemma db_write_Inr: "db_write f w = (Inr a, w') \<Longrightarrow> w' = f (w\<lparr>faults := tl (faults w)\<rparr>)"
  by (auto simp: db_write_def elim: db_call_cases)

lemma db_read_Inl: "db_read f w = (Inl e, w') \<Longrightarrow> (\<exists>msg. e = Database msg) \<and> w' = w\<lparr>faults := tl (faults w)\<rparr>"
  by (auto simp: db_read_def elim: db_call_cases)

lemma db_write_Inl: "db_write f w = (Inl e, w') \<Longrightarrow> (\<exists>msg. e = Database msg) \<and> w' = w\<lparr>faults := tl (faults w)\<rparr>"
  by (auto simp: db_write_def elim: db_call_cases)

lemma find_or_Inr:
  "qbind (repo_find_by_id get key i) (ok_or e) w = (Inr a, w') \<Longrightarrow>
     w' = w\<lparr>faults := tl (faults w)\<rparr> \<and> find_row key i (get w') = Some a"
  by (auto elim!: qbind_Inr_E simp: repo_find_by_id_def ok_or_def ret_def fail_def dest!: db_read_Inr
      split: option.splits)

section \<open>Operations that only read\<close>

named_theorems read_rules "operations that change nothing but the faults still to come"

definition read_only :: "('e, 'b env_scheme, 'a) op \<Rightarrow> bool" where
  "read_only m \<longleftrightarrow> (\<forall>w. \<exists>fs. snd (m w) = w\<lparr>faults := fs\<rparr>)"

lemma read_onlyD: "read_only m \<Longrightarrow> m w = (r, w') \<Longrightarrow> \<exists>fs. w' = w\<lparr>faults := fs\<rparr>"
  unfolding read_only_def by (metis snd_conv)

lemma same_faults: "\<exists>fs. (w :: 'b env_scheme) = w\<lparr>faults := fs\<rparr>"
  by (rule exI [of _ "faults w"]) simp

lemma read_only_ret [read_rules]: "read_only (ret a)" "read_only (fail e)" "read_only (gets f)"
  "read_only (ok_or e x)"
  unfolding read_only_def ret_def fail_def gets_def ok_or_def
  by (auto intro: same_faults split: option.split)

lemma read_only_pure [read_rules]: "read_only (\<lambda>w. (f w, w))" "read_only (from_result r)"
  unfolding read_only_def from_result_def by (auto intro: same_faults)

lemma read_only_db_read [read_rules]: "read_only (db_read f)"
  unfolding read_only_def db_read_def db_call_def
  by (auto intro: same_faults split: list.split option.split)

lemma read_only_qbind [read_rules]:
  assumes "read_only m" and "\<And>a. read_only (f a)"
  shows "read_only (qbind m f)"
  unfolding read_only_def
proof
  fix w
  obtain r w1 where m: "m w = (r, w1)" by (cases "m w")
  obtain fs where w1: "w1 = w\<lparr>faults := fs\<rparr>" using read_onlyD [OF assms(1) m] by auto
  show "\<exists>fs. snd (qbind m f w) = w\<lparr>faults := fs\<rparr>"
  proof (cases r)
    case (Inr a)
    obtain fs' where "snd (f a w1) = w1\<lparr>faults := fs'\<rparr>" using assms(2) unfolding read_only_def by blast
    with m w1 Inr show ?thesis by (auto simp: qbind_def)
  qed (use m w1 in \<open>auto simp: qbind_def\<close>)
qed

lemma read_only_if [read_rules]: "read_only m \<Longrightarrow> read_only n \<Longrightarrow> read_only (if b then m else n)"
  by simp

lemma read_only_option [read_rules]:
  "read_only m \<Longrightarrow> (\<And>a. read_only (f a)) \<Longrightarrow> read_only (case x of None \<Rightarrow> m | Some a \<Rightarrow> f a)"
  by (cases x) auto

lemma read_only_sum [read_rules]:
  "(\<And>e. read_only (g e)) \<Longrightarrow> (\<And>a. read_only (f a)) \<Longrightarrow> read_only (case x of Inl e \<Rightarrow> g e | Inr a \<Rightarrow> f a)"
  by (cases x) auto

lemma read_only_find_by_id [read_rules]: "read_only (repo_find_by_id get key i)"
  unfolding repo_find_by_id_def by (intro read_rules)

end
