(* ===== verification/Notifications.thy ===== *)
theory Notifications
  imports Store
begin

text \<open>
  The notifications of \<open>notification/models.rs\<close> and \<open>create_and_notify\<close> of
  \<open>notification/service.rs\<close>, as far as the stored notification goes: the broadcast to open
  clients, the preferences and the push to devices are not modelled. The worlds of the parts that
  notify extend \<open>sup_world\<close>.
\<close>

section \<open>Notifications\<close>

datatype notification_level = Info | Success | Warning | ErrorLevel

datatype notification_data =
    AppData string string
  | TaskData string
  | AgentData string string
  | ChannelData string string
  | CostReport string
  | SystemData
  | SecurityData

record notification =
  nt_user_id :: string
  nt_data :: notification_data
  nt_level :: notification_level
  nt_title :: string
  nt_body :: string
  nt_read :: bool
  nt_created_at :: int

record sup_world = env +
  notifications :: "notification list"

text \<open>A new notification has an id never used before, so storing it fails only by a fault.\<close>

definition create_and_notify ::
    "string \<Rightarrow> notification_data \<Rightarrow> notification_level \<Rightarrow> string \<Rightarrow> string
     \<Rightarrow> (app_error, 'w sup_world_scheme, unit) op" where
  "create_and_notify user_id d level title body =
     db_write (\<lambda>w. w\<lparr>notifications := notifications w @
       [\<lparr>nt_user_id = user_id, nt_data = d, nt_level = level, nt_title = title, nt_body = body,
         nt_read = False, nt_created_at = clock w\<rparr>]\<rparr>)"

end
