(* ===== verification/Keypairs.thy ===== *)
theory Keypairs
  imports Notifications
begin

text \<open>
  Signing keys (\<open>credential/keypair/service.rs\<close>, \<open>db/repo/keypairs.rs\<close>): one active key pair per
  owner, its private half encrypted at rest, with a cache of signing and one of verifying keys.
  The cryptography is the parameter \<open>crypto_lib\<close>; what a call draws at random (a record id, a
  private key, a nonce) is the argument \<open>fresh_key\<close>. Byte strings are strings. A panic is the
  error \<open>panicked\<close>.
\<close>

abbreviation panicked :: "string \<Rightarrow> app_error" where
  "panicked what \<equiv> Internal (''panic: '' @ what)"

record keypair =
  kp_id :: string
  kp_owner :: string
  kp_public :: string
  kp_private_enc :: string
  kp_nonce :: string
  kp_active :: bool
  kp_created_at :: int
  kp_updated_at :: int

record crypto_lib =
  public_of :: "string \<Rightarrow> string"
  aes_new :: "string \<Rightarrow> string + unit"
  aes_encrypt :: "string \<Rightarrow> string \<Rightarrow> string \<Rightarrow> string + string"
  aes_decrypt :: "string \<Rightarrow> string \<Rightarrow> string \<Rightarrow> string + string"

record fresh_key =
  fk_id :: string
  fk_private :: string
  fk_nonce :: string

record key_world = sup_world +
  keypairs :: "keypair list"
  signing_cache :: "string \<Rightarrow> (string \<times> string) option"
  verifying_cache :: "string \<Rightarrow> string option"

type_synonym ('w, 'a) key_op = "(app_error, 'w key_world_scheme, 'a) op"

section \<open>The repository\<close>

definition find_active_by_owner :: "string \<Rightarrow> ('w, keypair option) key_op" where
  "find_active_by_owner owner = db_read (\<lambda>w. find (\<lambda>kp. kp_owner kp = owner \<and> kp_active kp) (keypairs w))"

definition find_by_kid :: "string \<Rightarrow> ('w, keypair option) key_op" where
  "find_by_kid kid = find_active_by_owner kid"

definition find_all_active :: "('w, keypair list) key_op" where
  "find_all_active = db_read (\<lambda>w. filter kp_active (keypairs w))"

section \<open>The service\<close>

definition map_err :: "('e \<Rightarrow> 'f) \<Rightarrow> 'e + 'a \<Rightarrow> 'f + 'a" where
  "map_err f r = map_sum f id r"

lemma map_err_Inr [simp]: "map_err f r = Inr a \<longleftrightarrow> r = Inr a"
  by (cases r) (simp_all add: map_err_def)

definition get_or_create :: "crypto_lib \<Rightarrow> string \<Rightarrow> fresh_key \<Rightarrow> string \<Rightarrow> ('w, keypair) key_op" where
  "get_or_create crypto encryption_key fk owner =
     qbind (find_active_by_owner owner) (\<lambda>found.
     case found of
       Some kp \<Rightarrow> ret kp
     | None \<Rightarrow>
         qbind (from_result (map_err (\<lambda>e. Internal (''AES init failed: '' @ e)) (aes_new crypto encryption_key))) (\<lambda>_.
         qbind (from_result (map_err (\<lambda>e. Internal (''Encryption failed: '' @ e))
                  (aes_encrypt crypto encryption_key (fk_nonce fk) (fk_private fk)))) (\<lambda>encrypted.
         qbind (gets clock) (\<lambda>now.
         repo_create keypairs keypairs_update kp_id
           \<lparr>kp_id = fk_id fk, kp_owner = owner, kp_public = public_of crypto (fk_private fk),
            kp_private_enc = encrypted, kp_nonce = fk_nonce fk, kp_active = True,
            kp_created_at = now, kp_updated_at = now\<rparr>))))"

definition decrypt_private_key :: "crypto_lib \<Rightarrow> string \<Rightarrow> keypair \<Rightarrow> app_error + string" where
  "decrypt_private_key crypto encryption_key kp =
     (case aes_new crypto encryption_key of
        Inl e \<Rightarrow> Inl (Internal (''AES init failed: '' @ e))
      | Inr _ \<Rightarrow>
          if length (kp_nonce kp) \<noteq> 12 then Inl (Internal ''Invalid nonce length'')
          else case aes_decrypt crypto encryption_key (kp_nonce kp) (kp_private_enc kp) of
                 Inl e \<Rightarrow> Inl (Decryption (''Decryption failed: '' @ e))
               | Inr key \<Rightarrow> if length key \<noteq> 32 then Inl (panicked ''copy_from_slice'') else Inr key)"

definition pkcs8_prefix :: string where
  "pkcs8_prefix = map char_of [0x30, 0x2e, 0x02, 0x01, 0x00, 0x30, 0x05, 0x06, 0x03, 0x2b, 0x65, 0x70, 0x04, 0x22, 0x04, 0x20 :: nat]"

definition private_bytes :: "crypto_lib \<Rightarrow> string \<Rightarrow> fresh_key \<Rightarrow> string \<Rightarrow> keypair \<Rightarrow> ('w, string) key_op" where
  "private_bytes crypto encryption_key fk owner kp =
     (case decrypt_private_key crypto encryption_key kp of
        Inr bytes \<Rightarrow> ret bytes
      | Inl (Decryption e) \<Rightarrow>
          qbind (modify (\<lambda>w. w\<lparr>signing_cache := (signing_cache w)(owner := None)\<rparr>)) (\<lambda>_.
          qbind (modify (\<lambda>w. w\<lparr>verifying_cache := (verifying_cache w)(owner := None)\<rparr>)) (\<lambda>_.
          qbind (repo_delete keypairs_update kp_id (kp_id kp)) (\<lambda>_.
          qbind (get_or_create crypto encryption_key fk owner) (\<lambda>new_kp.
          from_result (decrypt_private_key crypto encryption_key new_kp)))))
      | Inl e \<Rightarrow> fail e)"

definition get_signing_key ::
  "crypto_lib \<Rightarrow> string \<Rightarrow> fresh_key \<Rightarrow> fresh_key \<Rightarrow> string \<Rightarrow> ('w, string \<times> string) key_op" where
  "get_signing_key crypto encryption_key fk1 fk2 owner =
     qbind (gets (\<lambda>w. signing_cache w owner)) (\<lambda>cached.
     case cached of
       Some r \<Rightarrow> ret r
     | None \<Rightarrow>
         qbind (get_or_create crypto encryption_key fk1 owner) (\<lambda>kp.
         qbind (private_bytes crypto encryption_key fk2 owner kp) (\<lambda>bytes.
         qbind (modify (\<lambda>w. w\<lparr>signing_cache := (signing_cache w)(owner \<mapsto> (pkcs8_prefix @ bytes, kp_owner kp))\<rparr>)) (\<lambda>_.
         ret (pkcs8_prefix @ bytes, kp_owner kp)))))"

definition key_not_found :: "string \<Rightarrow> app_error" where
  "key_not_found kid = Auth (''Key not found for kid: '' @ kid) TokenInvalid"

definition get_verifying_key :: "string \<Rightarrow> ('w, string) key_op" where
  "get_verifying_key kid =
     qbind (gets (\<lambda>w. verifying_cache w kid)) (\<lambda>cached.
     case cached of
       Some k \<Rightarrow> ret k
     | None \<Rightarrow>
         qbind (find_by_kid kid) (\<lambda>found.
         qbind (ok_or (key_not_found kid) found) (\<lambda>kp.
         qbind (modify (\<lambda>w. w\<lparr>verifying_cache := (verifying_cache w)(kid \<mapsto> kp_public kp)\<rparr>)) (\<lambda>_.
         ret (kp_public kp)))))"

text \<open>The published keys: owner and public half, before the encoding of the document.\<close>

definition list_jwks :: "('w, (string \<times> string) list) key_op" where
  "list_jwks = qbind find_all_active (\<lambda>keys. ret (map (\<lambda>kp. (kp_owner kp, kp_public kp)) keys))"

section \<open>The two halves always match\<close>

text \<open>What is expected of the cryptography.\<close>

definition crypto_ok :: "crypto_lib \<Rightarrow> bool" where
  "crypto_ok crypto \<longleftrightarrow> (\<forall>k n p c. aes_encrypt crypto k n p = Inr c \<longrightarrow> aes_decrypt crypto k n c = Inr p)"

definition halves_match :: "crypto_lib \<Rightarrow> string \<Rightarrow> keypair \<Rightarrow> bool" where
  "halves_match crypto ek kp \<longleftrightarrow>
     (\<forall>sk. aes_decrypt crypto ek (kp_nonce kp) (kp_private_enc kp) = Inr sk \<longrightarrow> kp_public kp = public_of crypto sk)"

definition active_key :: "'w key_world_scheme \<Rightarrow> string \<Rightarrow> keypair \<Rightarrow> bool" where
  "active_key w owner kp \<longleftrightarrow> kp \<in> set (keypairs w) \<and> kp_owner kp = owner \<and> kp_active kp"

definition keys_ok :: "crypto_lib \<Rightarrow> string \<Rightarrow> 'w key_world_scheme \<Rightarrow> bool" where
  "keys_ok crypto ek w \<longleftrightarrow> wf_rows kp_id (keypairs w)
     \<and> (\<forall>kp \<in> set (keypairs w). halves_match crypto ek kp)
     \<and> (\<forall>owner a b. active_key w owner a \<and> active_key w owner b \<longrightarrow> a = b)
     \<and> (\<forall>owner sk kid. signing_cache w owner = Some (sk, kid) \<longrightarrow>
          kid = owner \<and> (\<exists>kp bytes. active_key w owner kp \<and> sk = pkcs8_prefix @ bytes \<and> kp_public kp = public_of crypto bytes))
     \<and> (\<forall>kid pk. verifying_cache w kid = Some pk \<longrightarrow> (\<exists>kp. active_key w kid kp \<and> kp_public kp = pk))"

lemma keys_ok_signing:
  "keys_ok crypto ek w \<Longrightarrow> signing_cache w owner = Some (sk, kid) \<Longrightarrow>
     kid = owner \<and> (\<exists>kp bytes. active_key w owner kp \<and> sk = pkcs8_prefix @ bytes \<and> kp_public kp = public_of crypto bytes)"
  unfolding keys_ok_def by blast

lemma keys_ok_verifying:
  "keys_ok crypto ek w \<Longrightarrow> verifying_cache w kid = Some pk \<Longrightarrow> \<exists>kp. active_key w kid kp \<and> kp_public kp = pk"
  unfolding keys_ok_def by blast

lemma keys_ok_faults: "keys_ok crypto ek w \<Longrightarrow> keys_ok crypto ek (w\<lparr>faults := fs\<rparr>)"
  by (simp add: keys_ok_def active_key_def)

lemma active_key_update [simp]:
  "active_key (w\<lparr>signing_cache := a\<rparr>) = active_key w" "active_key (w\<lparr>verifying_cache := b\<rparr>) = active_key w"
  "active_key (w\<lparr>faults := fs\<rparr>) = active_key w"
  by (auto simp: active_key_def fun_eq_iff)

lemma keys_ok_forget:
  "keys_ok crypto ek w \<Longrightarrow> keys_ok crypto ek (w\<lparr>signing_cache := (signing_cache w)(owner := None)\<rparr>)"
  "keys_ok crypto ek w \<Longrightarrow> keys_ok crypto ek (w\<lparr>verifying_cache := (verifying_cache w)(owner := None)\<rparr>)"
  by (simp_all add: keys_ok_def)

lemma decrypt_private_key_Inr:
  "decrypt_private_key crypto ek kp = Inr sk \<Longrightarrow> aes_decrypt crypto ek (kp_nonce kp) (kp_private_enc kp) = Inr sk"
  by (auto simp: decrypt_private_key_def split: sum.splits if_splits)

definition key_post :: "crypto_lib \<Rightarrow> string \<Rightarrow> string \<Rightarrow> app_error + keypair \<Rightarrow> 'w key_world_scheme \<Rightarrow> bool" where
  "key_post crypto ek owner r w \<longleftrightarrow> keys_ok crypto ek w \<and> (\<forall>kp. r = Inr kp \<longrightarrow> active_key w owner kp)"

lemma key_post_Inl [simp]: "key_post crypto ek owner (Inl e) w = keys_ok crypto ek w"
  by (simp add: key_post_def)

lemma keys_ok_remember:
  "keys_ok crypto ek w \<Longrightarrow> active_key w kid kp \<Longrightarrow>
     keys_ok crypto ek (w\<lparr>verifying_cache := (verifying_cache w)(kid \<mapsto> kp_public kp)\<rparr>)"
  unfolding keys_ok_def by (simp, blast)

lemma find_active_valid:
  "valid (keys_ok crypto ek) (find_active_by_owner owner)
     (\<lambda>r w. keys_ok crypto ek w \<and> (\<forall>kp. r = Inr (Some kp) \<longrightarrow> active_key w owner kp)
        \<and> (r = Inr None \<longrightarrow> (\<forall>kp. \<not> active_key w owner kp)))"
proof (rule validI)
  fix w w' :: "'w key_world_scheme" and r
  assume ok: "keys_ok crypto ek w" and run: "find_active_by_owner owner w = (r, w')"
  show "keys_ok crypto ek w' \<and> (\<forall>kp. r = Inr (Some kp) \<longrightarrow> active_key w' owner kp)
      \<and> (r = Inr None \<longrightarrow> (\<forall>kp. \<not> active_key w' owner kp))"
  proof (cases r)
    case (Inl e)
    with run ok show ?thesis by (auto simp: find_active_by_owner_def keys_ok_faults dest!: db_read_Inl)
  next
    case (Inr m)
    with run have "w' = w\<lparr>faults := tl (faults w)\<rparr>" "m = find (\<lambda>kp. kp_owner kp = owner \<and> kp_active kp) (keypairs w)"
      by (auto simp: find_active_by_owner_def dest!: db_read_Inr)
    with Inr ok show ?thesis
      by (auto simp: keys_ok_faults active_key_def find_none_iff dest: find_eq_SomeD)
  qed
qed

text \<open>A new row for an owner without an active key.\<close>

lemma keys_ok_create:
  assumes "keys_ok crypto ek w" and "\<forall>k. \<not> active_key w (kp_owner kp) k"
    and "halves_match crypto ek kp" and "kp_active kp" and "find_row kp_id (kp_id kp) (keypairs w) = None"
  shows "keys_ok crypto ek (w\<lparr>keypairs := keypairs w @ [kp]\<rparr>)"
    and "active_key (w\<lparr>keypairs := keypairs w @ [kp]\<rparr>) (kp_owner kp) kp"
proof -
  have act: "active_key (w\<lparr>keypairs := keypairs w @ [kp]\<rparr>) o' k \<longleftrightarrow> active_key w o' k \<or> (k = kp \<and> o' = kp_owner kp)"
    for o' k using assms(4) by (auto simp: active_key_def)
  then show "active_key (w\<lparr>keypairs := keypairs w @ [kp]\<rparr>) (kp_owner kp) kp" by simp
  have "wf_rows kp_id (keypairs w @ [kp])"
    using assms(1,5) by (auto simp: keys_ok_def wf_rows_def find_row_None)
  then show "keys_ok crypto ek (w\<lparr>keypairs := keypairs w @ [kp]\<rparr>)"
    using assms(1,2,3) unfolding keys_ok_def act by (simp, blast)
qed

lemma create_key_post:
  assumes "crypto_ok crypto" and "aes_encrypt crypto ek (fk_nonce fk) (fk_private fk) = Inr c"
    and "keys_ok crypto ek w" and "\<forall>kp. \<not> active_key w owner kp"
    and "repo_create keypairs keypairs_update kp_id
       \<lparr>kp_id = fk_id fk, kp_owner = owner, kp_public = public_of crypto (fk_private fk),
        kp_private_enc = c, kp_nonce = fk_nonce fk, kp_active = True,
        kp_created_at = now, kp_updated_at = now\<rparr> w = (r, w')"
  shows "key_post crypto ek owner r w'"
proof -
  let ?kp = "\<lparr>kp_id = fk_id fk, kp_owner = owner, kp_public = public_of crypto (fk_private fk),
        kp_private_enc = c, kp_nonce = fk_nonce fk, kp_active = True, kp_created_at = now, kp_updated_at = now\<rparr>"
  have hm: "halves_match crypto ek ?kp" using assms(1,2) by (auto simp: crypto_ok_def halves_match_def)
  let ?w = "w\<lparr>faults := tl (faults w)\<rparr>"
  from assms(5) show ?thesis unfolding repo_create_def
  proof (cases rule: db_call_cases)
    case (fault msg)
    with assms(3) show ?thesis by (simp add: keys_ok_faults)
  next
    case (run fs)
    with assms(3,4) keys_ok_create [of crypto ek ?w ?kp] hm show ?thesis
      by (auto simp: create_row_def key_post_def keys_ok_faults split: if_splits option.splits)
  qed
qed

lemma get_or_create_valid:
  assumes "crypto_ok crypto"
  shows "valid (keys_ok crypto ek) (get_or_create crypto ek fk owner) (key_post crypto ek owner)"
  unfolding get_or_create_def
proof (rule valid_qbind [OF find_active_valid])
  show "valid (\<lambda>w. keys_ok crypto ek w \<and> (\<forall>kp. Inr found = Inr (Some kp) \<longrightarrow> active_key w owner kp)
        \<and> (Inr found = Inr None \<longrightarrow> (\<forall>kp. \<not> active_key w owner kp)))
      (case found of Some kp \<Rightarrow> ret kp
       | None \<Rightarrow> qbind (from_result (map_err (\<lambda>e. Internal (''AES init failed: '' @ e)) (aes_new crypto ek))) (\<lambda>_.
         qbind (from_result (map_err (\<lambda>e. Internal (''Encryption failed: '' @ e))
                  (aes_encrypt crypto ek (fk_nonce fk) (fk_private fk)))) (\<lambda>encrypted.
         qbind (gets clock) (\<lambda>now.
         repo_create keypairs keypairs_update kp_id
           \<lparr>kp_id = fk_id fk, kp_owner = owner, kp_public = public_of crypto (fk_private fk),
            kp_private_enc = encrypted, kp_nonce = fk_nonce fk, kp_active = True,
            kp_created_at = now, kp_updated_at = now\<rparr>))))
      (key_post crypto ek owner)" for found
  proof (cases found)
    case (Some kp)
    then show ?thesis by (auto simp: valid_def ret_def key_post_def)
  next
    case None
    show ?thesis using None create_key_post [OF assms]
      by (auto simp: valid_def qbind_def from_result_def gets_def split: sum.splits prod.splits)
  qed
qed (auto simp: key_post_def)

lemma keys_ok_delete:
  assumes "keys_ok crypto ek w" and "active_key w owner kp"
    and "signing_cache w owner = None" and "verifying_cache w owner = None"
  shows "keys_ok crypto ek (w\<lparr>keypairs := delete_row kp_id (kp_id kp) (keypairs w)\<rparr>)"
proof -
  have wf: "wf_rows kp_id (keypairs w)" and uniq: "\<And>o' a b. active_key w o' a \<Longrightarrow> active_key w o' b \<Longrightarrow> a = b"
    using assms(1) by (auto simp: keys_ok_def)
  have ids: "x = kp" if "x \<in> set (keypairs w)" "kp_id x = kp_id kp" for x
    using wf that assms(2) by (auto simp: wf_rows_def active_key_def distinct_map dest: inj_onD)
  let ?w = "w\<lparr>keypairs := delete_row kp_id (kp_id kp) (keypairs w)\<rparr>"
  have act: "active_key ?w o' k \<longleftrightarrow> active_key w o' k \<and> k \<noteq> kp" for o' k
    using ids by (auto simp: active_key_def delete_row_def)
  have other: "active_key w o' kp \<Longrightarrow> o' = owner" for o' using assms(2) by (simp add: active_key_def)
  show ?thesis
    unfolding keys_ok_def act
  proof (intro conjI)
    show "wf_rows kp_id (keypairs ?w)" using wf by (simp add: delete_row_def wf_rows_filter)
    show "\<forall>k \<in> set (keypairs ?w). halves_match crypto ek k" using assms(1) by (simp add: keys_ok_def delete_row_def)
    show "\<forall>o' a b. (active_key w o' a \<and> a \<noteq> kp) \<and> active_key w o' b \<and> b \<noteq> kp \<longrightarrow> a = b" using uniq by blast
    show "\<forall>o' sk kid. signing_cache ?w o' = Some (sk, kid) \<longrightarrow> kid = o' \<and> (\<exists>k bytes. (active_key w o' k \<and> k \<noteq> kp)
        \<and> sk = pkcs8_prefix @ bytes \<and> kp_public k = public_of crypto bytes)"
    proof (intro allI impI)
      fix o' sk kid assume c: "signing_cache ?w o' = Some (sk, kid)"
      then have c': "signing_cache w o' = Some (sk, kid)" by simp
      with keys_ok_signing [OF assms(1)] obtain k bytes where k: "kid = o'" "active_key w o' k" "sk = pkcs8_prefix @ bytes"
        "kp_public k = public_of crypto bytes" by blast
      moreover have "k \<noteq> kp" using k(2) other c' assms(3) by auto
      ultimately show "kid = o' \<and> (\<exists>k bytes. (active_key w o' k \<and> k \<noteq> kp)
        \<and> sk = pkcs8_prefix @ bytes \<and> kp_public k = public_of crypto bytes)" by blast
    qed
    show "\<forall>kid pk. verifying_cache ?w kid = Some pk \<longrightarrow> (\<exists>k. (active_key w kid k \<and> k \<noteq> kp) \<and> kp_public k = pk)"
    proof (intro allI impI)
      fix kid pk assume c: "verifying_cache ?w kid = Some pk"
      then have c': "verifying_cache w kid = Some pk" by simp
      with keys_ok_verifying [OF assms(1)] obtain k where k: "active_key w kid k" "kp_public k = pk" by blast
      moreover have "k \<noteq> kp" using k(1) other c' assms(4) by auto
      ultimately show "\<exists>k. (active_key w kid k \<and> k \<noteq> kp) \<and> kp_public k = pk" by blast
    qed
  qed
qed

definition bytes_post :: "crypto_lib \<Rightarrow> string \<Rightarrow> string \<Rightarrow> app_error + string \<Rightarrow> 'w key_world_scheme \<Rightarrow> bool" where
  "bytes_post crypto ek owner r w \<longleftrightarrow> keys_ok crypto ek w
     \<and> (\<forall>bytes. r = Inr bytes \<longrightarrow> (\<exists>kp. active_key w owner kp \<and> kp_public kp = public_of crypto bytes))"

lemma decrypt_bytes_post:
  assumes "keys_ok crypto ek w" and "active_key w owner kp"
  shows "bytes_post crypto ek owner (decrypt_private_key crypto ek kp) w"
proof -
  have "halves_match crypto ek kp" using assms by (simp add: keys_ok_def active_key_def)
  with assms show ?thesis by (auto simp: bytes_post_def halves_match_def dest: decrypt_private_key_Inr)
qed

lemma private_bytes_valid:
  assumes "crypto_ok crypto"
  shows "valid (\<lambda>w. keys_ok crypto ek w \<and> active_key w owner kp) (private_bytes crypto ek fk owner kp)
    (bytes_post crypto ek owner)"
proof (rule validI)
  fix w w' :: "'a key_world_scheme" and r
  assume pre: "keys_ok crypto ek w \<and> active_key w owner kp" and run: "private_bytes crypto ek fk owner kp w = (r, w')"
  consider (ok) bytes where "decrypt_private_key crypto ek kp = Inr bytes"
    | (dec) e where "decrypt_private_key crypto ek kp = Inl (Decryption e)"
    | (err) e where "decrypt_private_key crypto ek kp = Inl e" "\<forall>d. e \<noteq> Decryption d"
    by (cases "decrypt_private_key crypto ek kp") auto
  then show "bytes_post crypto ek owner r w'"
  proof cases
    case ok
    with decrypt_bytes_post pre run show ?thesis by (fastforce simp: private_bytes_def ret_def)
  next
    case err
    with pre run show ?thesis
      by (cases e) (auto simp: private_bytes_def fail_def bytes_post_def)
  next
    case dec
    let ?w1 = "w\<lparr>signing_cache := (signing_cache w)(owner := None), verifying_cache := (verifying_cache w)(owner := None)\<rparr>"
    let ?w2 = "?w1\<lparr>faults := tl (faults w)\<rparr>"
    have ok1: "keys_ok crypto ek ?w1" using pre keys_ok_forget(2) [OF keys_ok_forget(1)] by fastforce
    from run dec have "qbind (repo_delete keypairs_update kp_id (kp_id kp)) (\<lambda>_.
          qbind (get_or_create crypto ek fk owner) (\<lambda>new_kp. from_result (decrypt_private_key crypto ek new_kp))) ?w1 = (r, w')"
      by (simp add: private_bytes_def)
    then show ?thesis
    proof (cases rule: qbind_cases)
      case (error e)
      then show ?thesis using ok1
        by (auto simp: bytes_post_def repo_delete_def keys_ok_faults dest!: db_write_Inl)
    next
      case (okay u w3)
      then have "w3 = keypairs_update (delete_row kp_id (kp_id kp)) ?w2"
        by (auto simp: repo_delete_def dest!: db_write_Inr)
      then have w3: "w3 = ?w2\<lparr>keypairs := delete_row kp_id (kp_id kp) (keypairs ?w2)\<rparr>" by simp
      have ok3: "keys_ok crypto ek w3"
        unfolding w3 by (rule keys_ok_delete [where owner = owner])
          (use keys_ok_faults [OF ok1] pre in \<open>simp_all add: active_key_def\<close>)
      from okay(2) show ?thesis
      proof (cases rule: qbind_cases)
        case (error e)
        with validD [OF get_or_create_valid [OF assms] ok3] show ?thesis by (auto simp: bytes_post_def key_post_def)
      next
        case (okay new w4)
        with validD [OF get_or_create_valid [OF assms] ok3] have "keys_ok crypto ek w4" "active_key w4 owner new"
          by (auto simp: key_post_def)
        with okay(2) decrypt_bytes_post show ?thesis by (auto simp: from_result_def)
      qed
    qed
  qed
qed

text \<open>A signing key handed out belongs to the owner's active key, and its id is the owner.\<close>

definition signing_post ::
  "crypto_lib \<Rightarrow> string \<Rightarrow> string \<Rightarrow> app_error + string \<times> string \<Rightarrow> 'w key_world_scheme \<Rightarrow> bool" where
  "signing_post crypto ek owner r w \<longleftrightarrow> keys_ok crypto ek w
     \<and> (\<forall>sk kid. r = Inr (sk, kid) \<longrightarrow> kid = owner
          \<and> (\<exists>kp bytes. active_key w owner kp \<and> sk = pkcs8_prefix @ bytes \<and> kp_public kp = public_of crypto bytes))"

lemma get_signing_key_valid:
  assumes "crypto_ok crypto"
  shows "valid (keys_ok crypto ek) (get_signing_key crypto ek fk1 fk2 owner) (signing_post crypto ek owner)"
proof (rule validI)
  fix w w' :: "'a key_world_scheme" and r
  assume ok: "keys_ok crypto ek w" and run: "get_signing_key crypto ek fk1 fk2 owner w = (r, w')"
  show "signing_post crypto ek owner r w'"
  proof (cases "signing_cache w owner")
    case (Some c)
    with ok run show ?thesis by (auto simp: get_signing_key_def ret_def signing_post_def keys_ok_def)
  next
    case None
    with run have "qbind (get_or_create crypto ek fk1 owner) (\<lambda>kp.
         qbind (private_bytes crypto ek fk2 owner kp) (\<lambda>bytes.
         qbind (modify (\<lambda>w. w\<lparr>signing_cache := (signing_cache w)(owner \<mapsto> (pkcs8_prefix @ bytes, kp_owner kp))\<rparr>)) (\<lambda>_.
         ret (pkcs8_prefix @ bytes, kp_owner kp)))) w = (r, w')"
      by (simp add: get_signing_key_def)
    then show ?thesis
    proof (cases rule: qbind_cases)
      case (error e)
      with validD [OF get_or_create_valid [OF assms] ok] show ?thesis by (auto simp: signing_post_def key_post_def)
    next
      case (okay kp w1)
      with validD [OF get_or_create_valid [OF assms] ok] have k: "keys_ok crypto ek w1" "active_key w1 owner kp"
        by (auto simp: key_post_def)
      then have owner: "kp_owner kp = owner" by (simp add: active_key_def)
      from okay(2) show ?thesis
      proof (cases rule: qbind_cases)
        case (error e)
        with validD [OF private_bytes_valid [OF assms]] k show ?thesis
          by (fastforce simp: signing_post_def bytes_post_def)
      next
        case (okay bytes w2)
        with validD [OF private_bytes_valid [OF assms]] k have "bytes_post crypto ek owner (Inr bytes) w2" by blast
        then obtain kp' where b: "keys_ok crypto ek w2" "active_key w2 owner kp'" "kp_public kp' = public_of crypto bytes"
          by (auto simp: bytes_post_def)
        let ?w3 = "w2\<lparr>signing_cache := (signing_cache w2)(owner \<mapsto> (pkcs8_prefix @ bytes, owner))\<rparr>"
        have "keys_ok crypto ek ?w3" using b by (auto simp: keys_ok_def)
        with okay(2) owner b show ?thesis by (auto simp: ret_def signing_post_def)
      qed
    qed
  qed
qed

lemma get_verifying_key_valid:
  "valid (keys_ok crypto ek) (get_verifying_key kid)
     (\<lambda>r w. keys_ok crypto ek w \<and> (\<forall>pk. r = Inr pk \<longrightarrow> (\<exists>kp. active_key w kid kp \<and> kp_public kp = pk)))"
proof (rule validI)
  fix w w' :: "'a key_world_scheme" and r
  assume ok: "keys_ok crypto ek w" and run: "get_verifying_key kid w = (r, w')"
  show "keys_ok crypto ek w' \<and> (\<forall>pk. r = Inr pk \<longrightarrow> (\<exists>kp. active_key w' kid kp \<and> kp_public kp = pk))"
  proof (cases "verifying_cache w kid")
    case (Some pk)
    with ok run show ?thesis by (auto simp: get_verifying_key_def ret_def keys_ok_def)
  next
    case None
    with run have "qbind (find_active_by_owner kid) (\<lambda>found. qbind (ok_or (key_not_found kid) found) (\<lambda>kp.
         qbind (modify (\<lambda>w. w\<lparr>verifying_cache := (verifying_cache w)(kid \<mapsto> kp_public kp)\<rparr>)) (\<lambda>_.
         ret (kp_public kp)))) w = (r, w')"
      by (simp add: get_verifying_key_def find_by_kid_def)
    then show ?thesis
    proof (cases rule: qbind_cases)
      case (error e)
      with validD [OF find_active_valid ok] show ?thesis by auto
    next
      case (okay found w1)
      with validD [OF find_active_valid ok] have "keys_ok crypto ek w1" "\<forall>kp. found = Some kp \<longrightarrow> active_key w1 kid kp" by auto
      with okay(2) show ?thesis
        by (cases found) (auto simp: ok_or_def ret_def fail_def keys_ok_remember)
    qed
  qed
qed

end
