(* ===== verification/Task_Schema.thy ===== *)
theory Task_Schema
  imports Rust_Str
begin

text \<open>
  JSON values and the result schemas of tasks (\<open>agent/task/schema.rs\<close>). The JSON Schema
  library and the JSON reader and printer are outside the sources and come in as the record
  \<open>json_lib\<close>; the shape tests that decide how a result can be rendered are the code's own.
\<close>

datatype json =
    JNull
  | JBool bool
  | JNumber string
  | JString string
  | JArray "json list"
  | JObject "(string \<times> json) list"

section \<open>Accessors\<close>

fun json_get :: "json \<Rightarrow> string \<Rightarrow> json option" where
  "json_get (JObject kvs) k = map_of kvs k"
| "json_get _ k = None"

fun json_str :: "json \<Rightarrow> string option" where
  "json_str (JString s) = Some s"
| "json_str _ = None"

fun json_array :: "json \<Rightarrow> json list option" where
  "json_array (JArray xs) = Some xs"
| "json_array _ = None"

fun json_object :: "json \<Rightarrow> (string \<times> json) list option" where
  "json_object (JObject kvs) = Some kvs"
| "json_object _ = None"

definition type_str :: "json \<Rightarrow> string option" where
  "type_str v = Option.bind (json_get v ''type'') json_str"

lemma size_map_of: "map_of kvs k = Some v \<Longrightarrow> size v < Suc (size_list (size_prod (\<lambda>x. 0) size) kvs)"
  by (induction kvs) (auto split: if_splits)

lemma size_json_get: "json_get s k = Some v \<Longrightarrow> size v < size s"
  by (cases s) (auto dest: size_map_of)

lemma size_json_elem: "x \<in> set xs \<Longrightarrow> size x < size (JArray xs)"
  by (induction xs) auto

section \<open>Result specifications\<close>

text \<open>
  What the sources use of serde and jsonschema: the text of a value, the compiled validator
  (only whether it compiles, and the errors it lists for a value) and the JSON reader.
\<close>

record json_lib =
  to_text :: "json \<Rightarrow> string"
  validator_for :: "json \<Rightarrow> string + unit"
  schema_errors :: "json \<Rightarrow> json \<Rightarrow> string list"
  from_text :: "string \<Rightarrow> string + json"

definition MAX_SCHEMA_BYTES :: nat where
  "MAX_SCHEMA_BYTES = 16 * 1024"

definition enforce_size_cap :: "json_lib \<Rightarrow> json \<Rightarrow> string + unit" where
  "enforce_size_cap lib schema =
     (let n = length (to_text lib schema)
      in if MAX_SCHEMA_BYTES < n
         then Inl (''result_schema exceeds maximum size of '' @ show_nat MAX_SCHEMA_BYTES
                   @ '' bytes (got '' @ show_nat n @ '')'')
         else Inr ())"

definition result_spec_new :: "json_lib \<Rightarrow> json \<Rightarrow> string + json" where
  "result_spec_new lib schema =
     (case enforce_size_cap lib schema of
        Inl e \<Rightarrow> Inl e
      | Inr _ \<Rightarrow> (case validator_for lib schema of
                   Inl e \<Rightarrow> Inl (''invalid JSON Schema: '' @ e)
                 | Inr _ \<Rightarrow> Inr schema))"

fun join_str :: "string \<Rightarrow> string list \<Rightarrow> string" where
  "join_str sep [] = []"
| "join_str sep [x] = x"
| "join_str sep (x # y # xs) = x @ sep @ join_str sep (y # xs)"

definition validate_value :: "json_lib \<Rightarrow> json \<Rightarrow> json \<Rightarrow> string + unit" where
  "validate_value lib schema v =
     (let errors = schema_errors lib schema v
      in if errors = [] then Inr () else Inl (join_str ''; '' errors))"

definition parse_result :: "json_lib \<Rightarrow> json \<Rightarrow> string \<Rightarrow> string + json" where
  "parse_result lib schema result =
     (if type_str schema = Some ''string'' then Inr (JString result)
      else case from_text lib result of
             Inl e \<Rightarrow> Inl (''result must be a JSON-encoded value matching the schema: '' @ e)
           | Inr v \<Rightarrow> Inr v)"

definition validate_result :: "json_lib \<Rightarrow> json \<Rightarrow> string \<Rightarrow> string + unit" where
  "validate_result lib schema result =
     (case parse_result lib schema result of Inl e \<Rightarrow> Inl e | Inr v \<Rightarrow> validate_value lib schema v)"

definition validate_schema_doc :: "json_lib \<Rightarrow> json \<Rightarrow> string + unit" where
  "validate_schema_doc lib schema =
     (case result_spec_new lib schema of Inl e \<Rightarrow> Inl e | Inr _ \<Rightarrow> Inr ())"

section \<open>Shapes that render without inference\<close>

definition is_scalar_type :: "string \<Rightarrow> bool" where
  "is_scalar_type t \<longleftrightarrow> t \<in> {''string'', ''number'', ''integer'', ''boolean'', ''null''}"

text \<open>
  The scan of a union of type names: \<open>None\<close> when a member is neither a scalar nor an
  array, otherwise whether the union has an array.
\<close>

fun scan_type_union :: "bool \<Rightarrow> json list \<Rightarrow> bool option" where
  "scan_type_union has_array [] = Some has_array"
| "scan_type_union has_array (v # vs) =
     (case json_str v of
        Some n \<Rightarrow>
          if is_scalar_type n then scan_type_union has_array vs
          else if n = ''array'' then scan_type_union True vs
          else None
      | None \<Rightarrow> None)"

text \<open>The branches of \<open>oneOf\<close>, or of \<open>anyOf\<close> when there is no \<open>oneOf\<close>, if they are an array.\<close>

definition union_branches :: "json \<Rightarrow> json list option" where
  "union_branches schema =
     Option.bind (case json_get schema ''oneOf'' of Some v \<Rightarrow> Some v | None \<Rightarrow> json_get schema ''anyOf'')
       json_array"

lemma size_union_branches: "union_branches s = Some bs \<Longrightarrow> b \<in> set bs \<Longrightarrow> size b < size s"
proof -
  assume u: "union_branches s = Some bs" and b: "b \<in> set bs"
  from u obtain k where "json_get s k = Some (JArray bs)"
    by (auto simp: union_branches_def bind_eq_Some_conv elim!: json_array.elims split: option.splits)
  then have "size (JArray bs) < size s" by (rule size_json_get)
  with size_json_elem [OF b] show ?thesis by simp
qed

function is_simple_branch :: "json \<Rightarrow> bool" where
  "is_simple_branch schema =
     (let items_simple = (case json_get schema ''items'' of None \<Rightarrow> False | Some i \<Rightarrow> is_simple_branch i);
          by_union = (case union_branches schema of None \<Rightarrow> False | Some bs \<Rightarrow> list_all is_simple_branch bs)
      in case json_get schema ''type'' of
           Some (JString s) \<Rightarrow>
             if is_scalar_type s then True else if s = ''array'' then items_simple else False
         | Some (JArray types) \<Rightarrow>
             (case scan_type_union False types of
                None \<Rightarrow> False
              | Some True \<Rightarrow> items_simple
              | Some False \<Rightarrow> True)
         | _ \<Rightarrow> by_union)"
  by pat_completeness auto
termination
  by (relation "measure size") (auto dest: size_json_get size_union_branches)

declare is_simple_branch.simps [simp del]

definition is_simple_schema :: "json \<Rightarrow> bool" where
  "is_simple_schema schema \<longleftrightarrow>
     (if is_simple_branch schema then True
      else if type_str schema = Some ''object''
      then (case Option.bind (json_get schema ''properties'') json_object of
              Some p \<Rightarrow> list_all is_simple_branch (map snd p)
            | None \<Rightarrow> False)
      else False)"

definition has_renderable_summary_field :: "json \<Rightarrow> bool" where
  "has_renderable_summary_field schema \<longleftrightarrow>
     (case Option.bind (json_get schema ''properties'') json_object of
        None \<Rightarrow> False
      | Some props \<Rightarrow>
          let required = (case Option.bind (json_get schema ''required'') json_array of
                            None \<Rightarrow> []
                          | Some arr \<Rightarrow> List.map_filter json_str arr)
          in if ''summary'' \<notin> set required then False
             else (case map_of props ''summary'' of
                     None \<Rightarrow> False
                   | Some prop \<Rightarrow>
                       type_str prop = Some ''string''
                       \<or> (case Option.bind (json_get prop ''type'') json_array of
                            None \<Rightarrow> False
                          | Some arr \<Rightarrow> list_ex (\<lambda>t. json_str t = Some ''string'') arr)))"

section \<open>What a simple schema is\<close>

text \<open>
  A schema without a usable \<open>type\<close> is judged by its \<open>oneOf\<close> or \<open>anyOf\<close>; the declarative
  reading of the tests above.
\<close>

inductive simple_shape :: "json \<Rightarrow> bool" where
  scalar: "json_get s ''type'' = Some (JString t) \<Longrightarrow> is_scalar_type t \<Longrightarrow> simple_shape s"
| array: "json_get s ''type'' = Some (JString ''array'') \<Longrightarrow> json_get s ''items'' = Some i \<Longrightarrow>
    simple_shape i \<Longrightarrow> simple_shape s"
| scalar_union: "json_get s ''type'' = Some (JArray ts) \<Longrightarrow> \<forall>t \<in> set ts. \<exists>n. t = JString n \<and> is_scalar_type n \<Longrightarrow>
    simple_shape s"
| array_union: "json_get s ''type'' = Some (JArray ts) \<Longrightarrow>
    \<forall>t \<in> set ts. \<exists>n. t = JString n \<and> (is_scalar_type n \<or> n = ''array'') \<Longrightarrow>
    JString ''array'' \<in> set ts \<Longrightarrow> json_get s ''items'' = Some i \<Longrightarrow> simple_shape i \<Longrightarrow> simple_shape s"
| branches: "\<forall>t. json_get s ''type'' \<noteq> Some (JString t) \<Longrightarrow> \<forall>ts. json_get s ''type'' \<noteq> Some (JArray ts) \<Longrightarrow>
    union_branches s = Some bs \<Longrightarrow> \<forall>b \<in> set bs. simple_shape b \<Longrightarrow> simple_shape s"

lemma json_str_Some [simp]: "json_str v = Some n \<longleftrightarrow> v = JString n"
  by (cases v) auto

lemma not_scalar_array [simp]: "\<not> is_scalar_type ''array''"
  by (simp add: is_scalar_type_def)

lemma scan_type_union_Some:
  "scan_type_union h ts = Some a \<longleftrightarrow>
     (\<forall>t \<in> set ts. \<exists>n. t = JString n \<and> (is_scalar_type n \<or> n = ''array''))
     \<and> a = (h \<or> JString ''array'' \<in> set ts)"
  by (induction h ts rule: scan_type_union.induct) (auto split: option.split)

lemma simple_branch_shape: "is_simple_branch s \<Longrightarrow> simple_shape s"
proof (induction s rule: is_simple_branch.induct)
  case (1 s)
  note step = "1.prems" [unfolded is_simple_branch.simps [of s], unfolded Let_def]
  show ?case
  proof (cases "json_get s ''type''")
    case None
    with step 1 show ?thesis by (auto simp: list_all_iff split: option.splits intro: branches)
  next
    case (Some ty)
    show ?thesis
    proof (cases ty)
      case (JString t)
      with Some step 1 show ?thesis
        by (auto split: option.splits if_splits intro: scalar array)
    next
      case (JArray ts)
      with Some step obtain a where scan: "scan_type_union False ts = Some a"
        by (auto split: option.splits)
      show ?thesis
      proof (cases a)
        case True
        with Some JArray step scan obtain i where i: "json_get s ''items'' = Some i" "is_simple_branch i"
          by (auto split: option.splits)
        with 1(1) have "simple_shape i" by blast
        with Some JArray i scan True show ?thesis
          by (auto simp: scan_type_union_Some intro: array_union)
      next
        case False
        with scan have "\<forall>t \<in> set ts. \<exists>n. t = JString n \<and> is_scalar_type n"
          by (auto simp: scan_type_union_Some)
        with Some JArray show ?thesis by (auto intro: scalar_union)
      qed
    qed (use Some step 1(2) in \<open>(simp split: option.splits, fastforce simp: list_all_iff intro: branches)\<close>)+
  qed
qed

lemma shape_simple_branch: "simple_shape s \<Longrightarrow> is_simple_branch s"
proof (induction s rule: simple_shape.induct)
  case (scalar_union s ts)
  then have "scan_type_union False ts = Some False"
    by (auto simp: scan_type_union_Some)
  with scalar_union show ?case by (simp add: is_simple_branch.simps [of s] Let_def)
next
  case (array_union s ts i)
  then have "scan_type_union False ts = Some True" by (simp add: scan_type_union_Some)
  with array_union show ?case by (simp add: is_simple_branch.simps [of s] Let_def)
next
  case (branches s bs)
  then show ?case
    by (auto simp: is_simple_branch.simps [of s] Let_def list_all_iff split: option.split json.split)
qed (auto simp: is_simple_branch.simps Let_def)

text \<open>
  The renderer's test for a simple branch decides exactly the declared shapes: scalars, arrays of
  simple items, unions of type names with simple items where they include an array, and, when
  no usable type is given, alternatives that are all simple.
\<close>

theorem simple_branch_decides_shape: "is_simple_branch s \<longleftrightarrow> simple_shape s"
  using simple_branch_shape shape_simple_branch by blast

end
