(* ===== verification/Token_Service.thy ===== *)
theory Token_Service
  imports Keypairs Task_Schema
begin

text \<open>
  API tokens: the data of \<open>auth/token/models.rs\<close>, the queries of \<open>db/repo/tokens.rs\<close> and every
  operation of \<open>auth/token/service.rs\<close>, with \<open>auth/jwt.rs\<close> on top of the parameter \<open>jwt_lib\<close>.
  Times are milliseconds, lifetimes seconds at 64 bits. What a call draws at random is the
  argument \<open>fresh_token\<close>.
\<close>

section \<open>Data\<close>

datatype principal_kind = UserKind | AgentKind | McpServerKind | AppKind | ChannelKind

record principal =
  pr_kind :: principal_kind
  pr_id :: string

definition principal_user :: "string \<Rightarrow> principal" where
  "principal_user i = \<lparr>pr_kind = UserKind, pr_id = i\<rparr>"

definition AGENT_TRIGGER_SCOPE :: string where "AGENT_TRIGGER_SCOPE = ''agent:trigger''"

definition APP_GATE_SCOPE :: string where "APP_GATE_SCOPE = ''app:gate''"

definition APP_SESSION_SCOPE :: string where "APP_SESSION_SCOPE = ''app:session''"

datatype token_type = Access | Refresh | Pat | Ephemeral

fun token_type_str :: "token_type \<Rightarrow> string" where
  "token_type_str Access = ''access''"
| "token_type_str Refresh = ''refresh''"
| "token_type_str Pat = ''pat''"
| "token_type_str Ephemeral = ''ephemeral''"

definition is_stateless :: "token_type \<Rightarrow> bool" where
  "is_stateless t \<longleftrightarrow> t = Ephemeral"

record api_token =
  k_id :: string
  k_user_id :: string
  k_name :: string
  k_type :: token_type
  k_principal :: principal
  k_scopes :: "string list"
  k_prefix :: string
  k_expires_at :: int
  k_last_used_at :: "int option"
  k_refresh_pair_id :: "string option"
  k_created_at :: int
  k_updated_at :: int

record claims =
  c_sub :: string
  c_handle :: string
  c_email :: string
  c_exp :: nat
  c_iat :: nat
  c_token_id :: string
  c_token_type :: string
  c_principal :: principal
  c_scopes :: "string list option"
  c_extensions :: "json option"

record user =
  usr_id :: string
  usr_handle :: string
  usr_email :: string
  usr_name :: string
  usr_deactivated_at :: "int option"

record create_pat_request =
  pat_name :: string
  pat_expires_in_days :: "nat option"
  pat_scopes :: "string list option"
  pat_principal :: "principal option"

record pat_response =
  patr_id :: string
  patr_name :: string
  patr_token :: string
  patr_prefix :: string
  patr_scopes :: "string list"
  patr_expires_at :: int
  patr_created_at :: int

record pat_list_item =
  pli_id :: string
  pli_name :: string
  pli_prefix :: string
  pli_scopes :: "string list"
  pli_expires_at :: int
  pli_last_used_at :: "int option"
  pli_created_at :: int

section \<open>Signed tokens\<close>

datatype jwt_error = ExpiredSignature | OtherJwt string

record jwt_lib =
  jwt_encode :: "claims \<Rightarrow> string \<Rightarrow> string \<Rightarrow> string + string"
  jwt_header_kid :: "string \<Rightarrow> jwt_error + string option"
  jwt_decode :: "string \<Rightarrow> string \<Rightarrow> int \<Rightarrow> jwt_error + claims"

definition auth_error :: "jwt_error \<Rightarrow> app_error" where
  "auth_error e = (case e of ExpiredSignature \<Rightarrow> Auth ''Session expired'' TokenExpired
                   | OtherJwt _ \<Rightarrow> Auth ''Invalid token'' TokenInvalid)"

definition jwt_sign :: "jwt_lib \<Rightarrow> claims \<Rightarrow> string \<Rightarrow> string \<Rightarrow> app_error + string" where
  "jwt_sign lib c encoding_key kid =
     map_err (\<lambda>e. Internal (''Token generation failed: '' @ e)) (jwt_encode lib c encoding_key kid)"

definition jwt_verify :: "jwt_lib \<Rightarrow> int \<Rightarrow> string \<Rightarrow> string \<Rightarrow> app_error + claims" where
  "jwt_verify lib now token decoding_key = map_err auth_error (jwt_decode lib token decoding_key now)"

definition decode_unverified_header :: "jwt_lib \<Rightarrow> string \<Rightarrow> app_error + string option" where
  "decode_unverified_header lib token = map_err auth_error (jwt_header_kid lib token)"

section \<open>The repository\<close>

record token_world = key_world +
  api_tokens :: "api_token list"
  users :: "user list"
  user_cache :: "string \<Rightarrow> user option"

type_synonym ('w, 'a) token_op = "(app_error, 'w token_world_scheme, 'a) op"

definition find_by_user_id :: "string \<Rightarrow> ('w, api_token list) token_op" where
  "find_by_user_id user_id =
     db_read (\<lambda>w. sort_key (\<lambda>t. - k_created_at t) (filter (\<lambda>t. k_user_id t = user_id) (api_tokens w)))"

definition live :: "int \<Rightarrow> api_token \<Rightarrow> bool" where
  "live now t \<longleftrightarrow> now < k_expires_at t"

definition find_active_by_id :: "string \<Rightarrow> ('w, api_token option) token_op" where
  "find_active_by_id i = db_read (\<lambda>w. find (\<lambda>t. k_id t = i \<and> live (clock w) t) (api_tokens w))"

definition find_by_refresh_pair :: "string \<Rightarrow> ('w, api_token list) token_op" where
  "find_by_refresh_pair pair_id = db_read (\<lambda>w. filter (\<lambda>t. k_refresh_pair_id t = Some pair_id) (api_tokens w))"

definition update_last_used :: "string \<Rightarrow> ('w, unit) token_op" where
  "update_last_used i = db_write (\<lambda>w. w\<lparr>api_tokens :=
     map (\<lambda>t. if k_id t = i then t\<lparr>k_last_used_at := Some (clock w)\<rparr> else t) (api_tokens w)\<rparr>)"

definition delete_expired :: "('w, nat) token_op" where
  "delete_expired = qbind (db_write (\<lambda>w. w\<lparr>api_tokens := filter (\<lambda>t. \<not> k_expires_at t \<le> clock w) (api_tokens w)\<rparr>))
     (\<lambda>_. ret 0)"

definition delete_by_refresh_pair :: "string \<Rightarrow> ('w, bool) token_op" where
  "delete_by_refresh_pair pair_id = db_call (\<lambda>w.
     (Inr (list_ex (\<lambda>t. k_refresh_pair_id t = Some pair_id) (api_tokens w)),
      w\<lparr>api_tokens := filter (\<lambda>t. k_refresh_pair_id t \<noteq> Some pair_id) (api_tokens w)\<rparr>))"

definition delete_by_user_id :: "string \<Rightarrow> ('w, unit) token_op" where
  "delete_by_user_id user_id =
     db_write (\<lambda>w. w\<lparr>api_tokens := filter (\<lambda>t. k_user_id t \<noteq> user_id) (api_tokens w)\<rparr>)"

text \<open>\<open>UserService::find_by_id\<close>, which remembers the users it has read.\<close>

definition find_user :: "string \<Rightarrow> ('w, user option) token_op" where
  "find_user i =
     qbind (gets (\<lambda>w. user_cache w i)) (\<lambda>cached.
     case cached of
       Some u \<Rightarrow> ret (Some u)
     | None \<Rightarrow>
         qbind (repo_find_by_id users usr_id i) (\<lambda>result.
         case result of
           None \<Rightarrow> ret None
         | Some u \<Rightarrow> qbind (modify (\<lambda>w. w\<lparr>user_cache := (user_cache w)(i \<mapsto> u)\<rparr>)) (\<lambda>_. ret (Some u))))"

section \<open>Making tokens\<close>

record token_config =
  tc_crypto :: crypto_lib
  tc_encryption_key :: string
  tc_jwt :: jwt_lib
  tc_access_expiry_secs :: nat
  tc_refresh_expiry_secs :: nat
  tc_min_time :: int
  tc_max_time :: int

record fresh_token =
  ft_id :: string
  ft_key1 :: fresh_key
  ft_key2 :: fresh_key

record create_token_request =
  ct_type :: token_type
  ct_principal :: principal
  ct_ttl_secs :: nat
  ct_name :: string
  ct_scopes :: "string list"
  ct_refresh_pair_id :: "string option"
  ct_extensions :: "json option"

record created_token =
  cr_jwt :: string
  cr_token_id :: string
  cr_expires_at :: int

definition as_i64 :: "nat \<Rightarrow> int" where
  "as_i64 n = (let m = int (n mod 2 ^ 64) in if m < 2 ^ 63 then m else m - 2 ^ 64)"

definition as_usize :: "int \<Rightarrow> nat" where
  "as_usize i = nat (i mod 2 ^ 64)"

text \<open>\<open>now + Duration::seconds(ttl as i64)\<close>, with the two panics of the time library.\<close>

definition expiry :: "token_config \<Rightarrow> int \<Rightarrow> nat \<Rightarrow> app_error + int" where
  "expiry cfg now ttl_secs =
     (let secs = as_i64 ttl_secs; t = now + 1000 * secs
      in if secs < - ((2 ^ 63 - 1) div 1000) \<or> (2 ^ 63 - 1) div 1000 < secs then Inl (panicked ''TimeDelta::seconds out of bounds'')
         else if t < tc_min_time cfg \<or> tc_max_time cfg < t then Inl (panicked ''DateTime + TimeDelta overflowed'')
         else Inr t)"

definition timestamp :: "int \<Rightarrow> nat" where
  "timestamp ms = as_usize (ms div 1000)"

definition token_prefix :: "string \<Rightarrow> string" where
  "token_prefix jwt = concat (take 12 (chars jwt)) @ ''...''"

definition create_token ::
  "token_config \<Rightarrow> fresh_token \<Rightarrow> user \<Rightarrow> create_token_request \<Rightarrow> ('w, created_token) token_op" where
  "create_token cfg ft user req =
     qbind (gets clock) (\<lambda>now.
     qbind (from_result (expiry cfg now (ct_ttl_secs req))) (\<lambda>expires_at.
     qbind (get_signing_key (tc_crypto cfg) (tc_encryption_key cfg) (ft_key1 ft) (ft_key2 ft)
              (''user:'' @ usr_id user)) (\<lambda>(encoding_key, kid).
     qbind (from_result (jwt_sign (tc_jwt cfg)
              \<lparr>c_sub = usr_id user, c_handle = usr_handle user, c_email = usr_email user,
               c_exp = timestamp expires_at, c_iat = timestamp now, c_token_id = ft_id ft,
               c_token_type = token_type_str (ct_type req), c_principal = ct_principal req,
               c_scopes = (if ct_scopes req = [] then None else Some (ct_scopes req)),
               c_extensions = ct_extensions req\<rparr> encoding_key kid)) (\<lambda>jwt.
     qbind (if is_stateless (ct_type req) then ret ()
            else qbind (repo_create api_tokens api_tokens_update k_id
                   \<lparr>k_id = ft_id ft, k_user_id = usr_id user, k_name = ct_name req, k_type = ct_type req,
                    k_principal = ct_principal req, k_scopes = ct_scopes req, k_prefix = token_prefix jwt,
                    k_expires_at = expires_at, k_last_used_at = None,
                    k_refresh_pair_id = ct_refresh_pair_id req, k_created_at = now, k_updated_at = now\<rparr>)
                   (\<lambda>_. ret ())) (\<lambda>_.
     ret \<lparr>cr_jwt = jwt, cr_token_id = ft_id ft, cr_expires_at = expires_at\<rparr>)))))"

definition create_session_pair ::
  "token_config \<Rightarrow> string \<Rightarrow> fresh_token \<Rightarrow> fresh_token \<Rightarrow> user \<Rightarrow> ('w, string \<times> string) token_op" where
  "create_session_pair cfg pair_id ft1 ft2 user =
     qbind (create_token cfg ft1 user
       \<lparr>ct_type = Access, ct_principal = principal_user (usr_id user), ct_ttl_secs = tc_access_expiry_secs cfg,
        ct_name = ''session'', ct_scopes = [], ct_refresh_pair_id = Some pair_id, ct_extensions = None\<rparr>) (\<lambda>access.
     qbind (create_token cfg ft2 user
       \<lparr>ct_type = Refresh, ct_principal = principal_user (usr_id user), ct_ttl_secs = tc_refresh_expiry_secs cfg,
        ct_name = ''refresh'', ct_scopes = [], ct_refresh_pair_id = Some pair_id, ct_extensions = None\<rparr>) (\<lambda>refresh.
     ret (cr_jwt access, cr_jwt refresh)))"

definition create_access_token :: "token_config \<Rightarrow> fresh_token \<Rightarrow> user \<Rightarrow> string \<Rightarrow> ('w, string) token_op" where
  "create_access_token cfg ft user name =
     qbind (create_token cfg ft user
       \<lparr>ct_type = Access, ct_principal = principal_user (usr_id user), ct_ttl_secs = tc_access_expiry_secs cfg,
        ct_name = name, ct_scopes = [], ct_refresh_pair_id = None, ct_extensions = None\<rparr>) (\<lambda>created.
     ret (cr_jwt created))"

definition APP_GATE_CODE_TTL_SECS :: nat where "APP_GATE_CODE_TTL_SECS = 60"

definition create_app_gate_code :: "token_config \<Rightarrow> fresh_token \<Rightarrow> user \<Rightarrow> ('w, string) token_op" where
  "create_app_gate_code cfg ft user =
     qbind (create_token cfg ft user
       \<lparr>ct_type = Ephemeral, ct_principal = principal_user (usr_id user), ct_ttl_secs = APP_GATE_CODE_TTL_SECS,
        ct_name = ''app_gate'', ct_scopes = [APP_GATE_SCOPE], ct_refresh_pair_id = None, ct_extensions = None\<rparr>)
       (\<lambda>created. ret (cr_jwt created))"

definition create_app_session :: "token_config \<Rightarrow> fresh_token \<Rightarrow> user \<Rightarrow> ('w, string) token_op" where
  "create_app_session cfg ft user =
     qbind (create_token cfg ft user
       \<lparr>ct_type = Access, ct_principal = principal_user (usr_id user), ct_ttl_secs = tc_access_expiry_secs cfg,
        ct_name = ''app_session'', ct_scopes = [APP_SESSION_SCOPE], ct_refresh_pair_id = None, ct_extensions = None\<rparr>)
       (\<lambda>created. ret (cr_jwt created))"

definition create_pat :: "token_config \<Rightarrow> fresh_token \<Rightarrow> user \<Rightarrow> create_pat_request \<Rightarrow> ('w, pat_response) token_op" where
  "create_pat cfg ft user req =
     (let expires_in_days = (case pat_expires_in_days req of None \<Rightarrow> 30 | Some d \<Rightarrow> d);
          ttl_secs = min (expires_in_days * 86400) (2 ^ 64 - 1);
          scopes = (case pat_scopes req of None \<Rightarrow> [] | Some s \<Rightarrow> s);
          principal = (case pat_principal req of None \<Rightarrow> principal_user (usr_id user) | Some p \<Rightarrow> p)
      in qbind (create_token cfg ft user
           \<lparr>ct_type = Pat, ct_principal = principal, ct_ttl_secs = ttl_secs, ct_name = pat_name req,
            ct_scopes = scopes, ct_refresh_pair_id = None, ct_extensions = None\<rparr>) (\<lambda>created.
         qbind (gets clock) (\<lambda>now.
         ret \<lparr>patr_id = cr_token_id created, patr_name = pat_name req, patr_token = cr_jwt created,
              patr_prefix = token_prefix (cr_jwt created), patr_scopes = scopes,
              patr_expires_at = cr_expires_at created, patr_created_at = now\<rparr>)))"

section \<open>Accepting tokens\<close>

abbreviation token_invalid :: "string \<Rightarrow> app_error" where
  "token_invalid message \<equiv> Auth message TokenInvalid"

definition has_scope :: "claims \<Rightarrow> string \<Rightarrow> bool" where
  "has_scope c scope = (case c_scopes c of None \<Rightarrow> False | Some scopes \<Rightarrow> scope \<in> set scopes)"

definition is_trigger_only :: "claims \<Rightarrow> bool" where
  "is_trigger_only c = (case c_scopes c of None \<Rightarrow> False | Some scopes \<Rightarrow> AGENT_TRIGGER_SCOPE \<in> set scopes)"

definition API_TOKEN_TYPES :: "token_type list" where "API_TOKEN_TYPES = [Access, Pat, Ephemeral]"

definition require_type :: "claims \<Rightarrow> token_type list \<Rightarrow> app_error + unit" where
  "require_type c allowed =
     (if list_ex (\<lambda>t. token_type_str t = c_token_type c) allowed then Inr ()
      else Inl (token_invalid (''A '' @ c_token_type c @ '' token cannot be used here'')))"

definition reject_app_scoped :: "claims \<Rightarrow> app_error + unit" where
  "reject_app_scoped c =
     (if has_scope c APP_GATE_SCOPE \<or> has_scope c APP_SESSION_SCOPE
      then Inl (token_invalid ''This token can only be used for apps'') else Inr ())"

definition validate_any :: "token_config \<Rightarrow> string \<Rightarrow> ('w, claims) token_op" where
  "validate_any cfg token_str =
     qbind (from_result (decode_unverified_header (tc_jwt cfg) token_str)) (\<lambda>header_kid.
     qbind (ok_or (token_invalid ''Token missing kid'') header_kid) (\<lambda>kid.
     qbind (get_verifying_key kid) (\<lambda>decoding_key.
     qbind (gets clock) (\<lambda>now.
     qbind (from_result (jwt_verify (tc_jwt cfg) now token_str decoding_key)) (\<lambda>c.
     if c_token_type c = token_type_str Ephemeral then ret c else
     qbind (qbind (find_active_by_id (c_token_id c)) (ok_or (token_invalid ''Token revoked''))) (\<lambda>db_token.
     qbind (ignore (update_last_used (k_id db_token))) (\<lambda>_.
     ret c)))))))"

definition validate :: "token_config \<Rightarrow> string \<Rightarrow> ('w, claims) token_op" where
  "validate cfg token_str =
     qbind (validate_any cfg token_str) (\<lambda>c.
     if is_trigger_only c then fail (token_invalid ''This token can only trigger an agent'') else
     qbind (from_result (reject_app_scoped c)) (\<lambda>_.
     qbind (from_result (require_type c API_TOKEN_TYPES)) (\<lambda>_. ret c)))"

definition validate_refresh :: "token_config \<Rightarrow> string \<Rightarrow> ('w, claims) token_op" where
  "validate_refresh cfg token_str =
     qbind (validate_any cfg token_str) (\<lambda>c.
     qbind (from_result (require_type c [Refresh])) (\<lambda>_. ret c))"

definition validate_scoped :: "token_config \<Rightarrow> string \<Rightarrow> string \<Rightarrow> ('w, claims) token_op" where
  "validate_scoped cfg token_str scope =
     qbind (validate_any cfg token_str) (\<lambda>c.
     if \<not> has_scope c scope then fail (token_invalid ''Token is not valid here'') else ret c)"

definition validate_app_session :: "token_config \<Rightarrow> string \<Rightarrow> ('w, claims) token_op" where
  "validate_app_session cfg token_str = validate_scoped cfg token_str APP_SESSION_SCOPE"

definition validate_app_gate_code :: "token_config \<Rightarrow> string \<Rightarrow> ('w, claims) token_op" where
  "validate_app_gate_code cfg token_str = validate_scoped cfg token_str APP_GATE_SCOPE"

definition validate_agent_trigger :: "token_config \<Rightarrow> string \<Rightarrow> ('w, claims) token_op" where
  "validate_agent_trigger cfg token_str =
     qbind (validate_any cfg token_str) (\<lambda>c.
     qbind (from_result (reject_app_scoped c)) (\<lambda>_.
     qbind (from_result (require_type c API_TOKEN_TYPES)) (\<lambda>_. ret c)))"

abbreviation already_used :: app_error where
  "already_used \<equiv> token_invalid ''Refresh token already used or expired''"

text \<open>The two halves of a refresh: consume the old pair, then open a session for its user.\<close>

definition consume_pair :: "api_token option \<Rightarrow> ('w, unit) token_op" where
  "consume_pair found =
     (case Option.bind found k_refresh_pair_id of
        None \<Rightarrow> fail already_used
      | Some old_pair \<Rightarrow>
          qbind (delete_by_refresh_pair old_pair) (\<lambda>consumed.
          if \<not> consumed then fail already_used else ret ()))"

definition new_session ::
  "token_config \<Rightarrow> string \<Rightarrow> fresh_token \<Rightarrow> fresh_token \<Rightarrow> claims \<Rightarrow> ('w, string \<times> string \<times> claims) token_op" where
  "new_session cfg pair_id ft1 ft2 c =
     qbind (qbind (find_user (c_sub c)) (ok_or (token_invalid ''User no longer exists''))) (\<lambda>user.
     if usr_deactivated_at user \<noteq> None then fail (Auth ''Account deactivated'' AccountDeactivated) else
     qbind (create_session_pair cfg pair_id ft1 ft2 user) (\<lambda>(access_jwt, refresh_jwt).
     ret (access_jwt, refresh_jwt, c)))"

definition refresh_session ::
  "token_config \<Rightarrow> string \<Rightarrow> fresh_token \<Rightarrow> fresh_token \<Rightarrow> string \<Rightarrow> ('w, string \<times> string \<times> claims) token_op" where
  "refresh_session cfg pair_id ft1 ft2 refresh_token_str =
     qbind (validate_refresh cfg refresh_token_str) (\<lambda>c.
     qbind (find_active_by_id (c_token_id c)) (\<lambda>found.
     qbind (consume_pair found) (\<lambda>_.
     new_session cfg pair_id ft1 ft2 c)))"

section \<open>Listing and revoking\<close>

definition to_list_item :: "api_token \<Rightarrow> pat_list_item" where
  "to_list_item t = \<lparr>pli_id = k_id t, pli_name = k_name t, pli_prefix = k_prefix t, pli_scopes = k_scopes t,
     pli_expires_at = k_expires_at t, pli_last_used_at = k_last_used_at t, pli_created_at = k_created_at t\<rparr>"

definition revoke_session :: "string \<Rightarrow> ('w, unit) token_op" where
  "revoke_session pair_id = qbind (delete_by_refresh_pair pair_id) (\<lambda>_. ret ())"

definition list_pats :: "string \<Rightarrow> ('w, pat_list_item list) token_op" where
  "list_pats user_id =
     qbind (find_by_user_id user_id) (\<lambda>tokens. ret (map to_list_item (filter (\<lambda>t. k_type t = Pat) tokens)))"

definition list_agent_trigger_tokens :: "string \<Rightarrow> string \<Rightarrow> ('w, pat_list_item list) token_op" where
  "list_agent_trigger_tokens user_id agent_id =
     qbind (find_by_user_id user_id) (\<lambda>tokens.
     ret (map to_list_item (sort_key (\<lambda>t. - k_created_at t)
       (filter (\<lambda>t. k_type t = Pat \<and> pr_kind (k_principal t) = AgentKind \<and> pr_id (k_principal t) = agent_id
          \<and> AGENT_TRIGGER_SCOPE \<in> set (k_scopes t)) tokens))))"

definition delete_pat :: "string \<Rightarrow> string \<Rightarrow> ('w, unit) token_op" where
  "delete_pat user_id token_id =
     qbind (qbind (find_active_by_id token_id) (ok_or (NotFound ''Token not found''))) (\<lambda>token.
     if k_user_id token \<noteq> user_id then fail (Forbidden ''Not your token'') else
     if k_type token \<noteq> Pat then fail (Validation ''Can only delete PATs'') else
     repo_delete api_tokens_update k_id token_id)"

definition cleanup_expired :: "('w, nat) token_op" where
  "cleanup_expired = delete_expired"

definition REVOKE_ATTEMPTS :: nat where "REVOKE_ATTEMPTS = 3"

function revoke_loop :: "string \<Rightarrow> nat \<Rightarrow> ('w, unit) token_op" where
  "revoke_loop user_id attempt w =
     (case delete_by_user_id user_id w of
        (Inr _, w') \<Rightarrow> (Inr (), w')
      | (Inl e, w') \<Rightarrow> if attempt < REVOKE_ATTEMPTS then revoke_loop user_id (attempt + 1) w' else (Inl e, w'))"
  by pat_completeness auto
termination by (relation "measure (\<lambda>(u, a, w). REVOKE_ATTEMPTS - a)") auto

declare revoke_loop.simps [simp del]

definition revoke_all_for_user :: "string \<Rightarrow> ('w, unit) token_op" where
  "revoke_all_for_user user_id = revoke_loop user_id 1"

end
