(* ===== verification/Handles.thy ===== *)
theory Handles
  imports Errors
begin

text \<open>
  Handles (\<open>core/handle.rs\<close>): the validated names of users and agents, and the slug an agent
  without a handle is named by (\<open>slugify_handle\<close> of \<open>agent/service.rs\<close>). A handle is a string
  that \<open>is_valid_handle_bytes\<close> accepts.
\<close>

section \<open>Validation\<close>

definition is_ascii_lowercase :: "char \<Rightarrow> bool" where
  "is_ascii_lowercase c \<longleftrightarrow> 97 \<le> (of_char c :: nat) \<and> (of_char c :: nat) \<le> 122"

definition is_ascii_uppercase :: "char \<Rightarrow> bool" where
  "is_ascii_uppercase c \<longleftrightarrow> 65 \<le> (of_char c :: nat) \<and> (of_char c :: nat) \<le> 90"

definition handle_byte :: "char \<Rightarrow> bool" where
  "handle_byte c \<longleftrightarrow> is_ascii_lowercase c \<or> is_digit c \<or> c = CHR ''-'' \<or> c = CHR ''_''"

definition is_valid_handle_bytes :: "string \<Rightarrow> bool" where
  "is_valid_handle_bytes s \<longleftrightarrow>
     (if length s < 2 \<or> length s > 32 then False
      else if \<not> is_ascii_lowercase (s ! 0) then False
      else list_all handle_byte s)"

definition try_new :: "string \<Rightarrow> app_error + string" where
  "try_new raw =
     (let cleaned = to_ascii_lowercase (trim raw)
      in if \<not> is_valid_handle_bytes cleaned
         then Inl (Validation (''handle '' @ CHR 0x27 # cleaned @ CHR 0x27 #
           '' is invalid: must be 2-32 chars, start with a lowercase letter, and contain only a-z, 0-9, hyphens, underscores''))
         else Inr cleaned)"

section \<open>Slugs\<close>

definition is_alphanumeric :: "char \<Rightarrow> bool" where
  "is_alphanumeric c \<longleftrightarrow> is_ascii_lowercase c \<or> is_ascii_uppercase c \<or> is_digit c"

text \<open>The loop over the characters: an ASCII letter or digit is kept, any other run is one dash.\<close>

fun slug_loop :: "string list \<Rightarrow> string \<Rightarrow> bool \<Rightarrow> string" where
  "slug_loop [] out last_dash = out"
| "slug_loop (ch # chs) out last_dash =
     (case ch of
        [c] \<Rightarrow>
          if is_alphanumeric c then slug_loop chs (out @ [ascii_lower c]) False
          else if \<not> last_dash then slug_loop chs (out @ ''-'') True
          else slug_loop chs out last_dash
      | _ \<Rightarrow>
          if \<not> last_dash then slug_loop chs (out @ ''-'') True
          else slug_loop chs out last_dash)"

definition trim_dashes :: "string \<Rightarrow> string" where
  "trim_dashes s =
     rev (dropWhile (\<lambda>c. c = CHR ''-'') (rev (dropWhile (\<lambda>c. c = CHR ''-'') s)))"

definition slugify_handle :: "string \<Rightarrow> string \<Rightarrow> string" where
  "slugify_handle fresh_id raw =
     (let trimmed = trim_dashes (slug_loop (chars raw) [] True)
      in if trimmed = [] then fresh_id else trimmed)"

section \<open>What handles guarantee\<close>

lemma ascii_lower_lowercase: "is_ascii_lowercase c \<Longrightarrow> ascii_lower c = c"
  by (simp add: ascii_lower_def is_ascii_lowercase_def)

lemma handle_byte_lower: "handle_byte c \<Longrightarrow> ascii_lower c = c"
  by (auto simp: handle_byte_def ascii_lower_lowercase)
     (auto simp: ascii_lower_def is_digit_def)

lemma low_code_ascii: "(of_char c :: nat) < 128 \<Longrightarrow> is_ascii c"
  by (cases c) (auto simp: is_ascii_def of_char_def split: if_splits)

lemma handle_byte_ascii: "handle_byte c \<Longrightarrow> is_ascii c"
  by (rule low_code_ascii) (auto simp: handle_byte_def is_ascii_lowercase_def is_digit_def)

lemma handle_byte_black: "handle_byte c \<Longrightarrow> \<not> is_whitespace [c]"
  by (auto simp: is_whitespace_def whitespace_chars_def handle_byte_def is_ascii_lowercase_def is_digit_def)

lemma ascii_not_cont: "is_ascii c \<Longrightarrow> \<not> is_cont c"
  by (simp add: is_ascii_def is_cont_def)

lemma chars_of_ascii: "list_all is_ascii s \<Longrightarrow> chars s = map (\<lambda>c. [c]) s"
proof (induction s rule: chars.induct)
  case (2 c cs)
  then have "takeWhile is_cont cs = []" "dropWhile is_cont cs = cs"
    by (cases cs; auto simp: ascii_not_cont)+
  with 2 show ?case by simp
qed simp

lemma trim_handle:
  assumes "list_all handle_byte s"
  shows "trim s = s"
proof -
  have "chars s = map (\<lambda>c. [c]) s"
    using assms by (intro chars_of_ascii) (auto simp: list_all_iff handle_byte_ascii)
  moreover have "dropWhile is_whitespace (map (\<lambda>c. [c]) t) = map (\<lambda>c. [c]) t"
    if "list_all handle_byte t" for t
    using that by (cases t) (auto simp: handle_byte_black)
  from this [of s] this [of "rev s"] assms
  have "dropWhile is_whitespace (map (\<lambda>c. [c]) s) = map (\<lambda>c. [c]) s"
    "dropWhile is_whitespace (rev (map (\<lambda>c. [c]) s)) = rev (map (\<lambda>c. [c]) s)"
    by (simp_all add: rev_map)
  ultimately show ?thesis by (simp add: trim_def)
qed

lemma valid_handle_unchanged:
  assumes "is_valid_handle_bytes h"
  shows "to_ascii_lowercase (trim h) = h"
proof -
  have ok: "list_all handle_byte h" using assms by (simp add: is_valid_handle_bytes_def split: if_splits)
  then have "map ascii_lower h = h" by (induction h) (auto simp: handle_byte_lower)
  then show ?thesis by (simp add: trim_handle [OF ok] to_ascii_lowercase_def)
qed

text \<open>
  A handle is a normal form: parsing one gives 2 to 32 bytes of \<open>a-z\<close>, \<open>0-9\<close>, dash and
  underscore that start with a letter, parsing the result again changes nothing (so a handle
  read back from the database or JSON is the handle that was written), and two texts that
  differ in the case of ASCII letters or the white space around them name the same handle.
\<close>

theorem handles_are_normal_forms:
  assumes "try_new raw = Inr h"
  shows "2 \<le> length h \<and> length h \<le> 32 \<and> is_ascii_lowercase (hd h) \<and> list_all handle_byte h
    \<and> try_new h = Inr h
    \<and> (\<forall>raw'. to_ascii_lowercase (trim raw') = to_ascii_lowercase (trim raw) \<longrightarrow> try_new raw' = Inr h)"
proof -
  have valid: "is_valid_handle_bytes h" and h: "h = to_ascii_lowercase (trim raw)"
    using assms by (auto simp: try_new_def Let_def split: if_splits)
  then have "try_new h = Inr h" by (simp add: try_new_def valid_handle_unchanged)
  moreover from valid have "h \<noteq> []" by (auto simp: is_valid_handle_bytes_def)
  ultimately show ?thesis using valid h
    by (auto simp: is_valid_handle_bytes_def try_new_def Let_def hd_conv_nth split: if_splits)
qed

theorem handles_are_normal_forms_witness:
  "try_new ''  Alice-2 '' = Inr ''alice-2'' \<and> try_new ''alice-2'' = Inr ''alice-2''"
proof
  have "trim ''  Alice-2 '' = ''Alice-2''"
    by (simp add: trim_def is_cont_def is_whitespace_def whitespace_chars_def)
  then show run: "try_new ''  Alice-2 '' = Inr ''alice-2''"
    by (simp add: try_new_def to_ascii_lowercase_def ascii_lower_def is_valid_handle_bytes_def
        handle_byte_def is_ascii_lowercase_def is_digit_def)
  show "try_new ''alice-2'' = Inr ''alice-2''" using handles_are_normal_forms [OF run] by blast
qed

section \<open>What slugs guarantee\<close>

definition slug_byte :: "char \<Rightarrow> bool" where
  "slug_byte c \<longleftrightarrow> is_ascii_lowercase c \<or> is_digit c \<or> c = CHR ''-''"

definition single_dashes :: "string \<Rightarrow> bool" where
  "single_dashes s \<longleftrightarrow> successively (\<lambda>a b. \<not> (a = CHR ''-'' \<and> b = CHR ''-'')) s"

definition slug_prefix :: "string \<Rightarrow> bool \<Rightarrow> bool" where
  "slug_prefix out last_dash \<longleftrightarrow>
     list_all slug_byte out \<and> single_dashes out \<and> (out \<noteq> [] \<longrightarrow> hd out \<noteq> CHR ''-'')
     \<and> last_dash = (out = [] \<or> last out = CHR ''-'')"

lemma alphanumeric_lower:
  "is_alphanumeric c \<Longrightarrow> slug_byte (ascii_lower c) \<and> ascii_lower c \<noteq> CHR ''-''"
proof (cases "is_ascii_uppercase c")
  case True
  then have range: "65 \<le> (of_char c :: nat)" "(of_char c :: nat) \<le> 90"
    by (auto simp: is_ascii_uppercase_def)
  obtain a b d e f g h i where c: "c = Char a b d e f g h i" by (cases c)
  have "is_ascii_lowercase (ascii_lower c)"
    using range unfolding c
    by (cases a; cases b; cases d; cases e; cases f; cases g; cases h; cases i)
       (simp_all add: is_ascii_lowercase_def ascii_lower_def of_char_def)
  then show ?thesis by (auto simp: slug_byte_def is_ascii_lowercase_def)
next
  case False
  then have "ascii_lower c = c" by (auto simp: ascii_lower_def is_ascii_uppercase_def)
  moreover assume "is_alphanumeric c"
  ultimately show ?thesis
    using False by (auto simp: is_alphanumeric_def slug_byte_def is_ascii_lowercase_def is_digit_def)
qed

lemma single_dashes_single [simp]: "single_dashes []" "single_dashes [c]"
  by (simp_all add: single_dashes_def)

lemma single_dashes_snoc [simp]:
  "single_dashes (s @ [c]) \<longleftrightarrow> single_dashes s \<and> (s \<noteq> [] \<and> last s = CHR ''-'' \<longrightarrow> c \<noteq> CHR ''-'')"
  by (auto simp: single_dashes_def successively_append_iff)

lemma slug_prefix_push:
  "slug_prefix out d \<Longrightarrow> slug_byte c \<Longrightarrow> c \<noteq> CHR ''-'' \<Longrightarrow> slug_prefix (out @ [c]) False"
  by (cases "out = []") (auto simp: slug_prefix_def)

lemma slug_prefix_dash: "slug_prefix out False \<Longrightarrow> slug_prefix (out @ ''-'') True"
  by (cases "out = []") (auto simp: slug_prefix_def slug_byte_def)

lemma slug_loop_prefix:
  "slug_prefix out d \<Longrightarrow> \<exists>d'. slug_prefix (slug_loop chs out d) d'"
proof (induction chs out d rule: slug_loop.induct)
  case (2 ch chs out d)
  show ?case
  proof (cases "\<exists>c. ch = [c] \<and> is_alphanumeric c")
    case True
    with 2 alphanumeric_lower slug_prefix_push [OF "2.prems"] show ?thesis by auto
  next
    case False
    with 2 slug_prefix_dash [of out] show ?thesis
      by (cases d) (auto split: list.split)
  qed
qed auto

lemma trim_dashes_slug:
  assumes "slug_prefix out d" and "trim_dashes out \<noteq> []"
  shows "slug_prefix (trim_dashes out) False"
proof -
  have start: "dropWhile (\<lambda>c. c = CHR ''-'') out = out"
    using assms(1) by (cases out) (auto simp: slug_prefix_def)
  show ?thesis
  proof (cases "out = [] \<or> last out \<noteq> CHR ''-''")
    case True
    then have "trim_dashes out = out"
      using start by (cases out rule: rev_cases) (auto simp: trim_dashes_def)
    with assms True show ?thesis by (auto simp: slug_prefix_def)
  next
    case False
    then obtain s where s: "out = s @ ''-''" by (cases out rule: rev_cases) auto
    with assms(1) have "s \<noteq> [] \<and> last s \<noteq> CHR ''-''"
      by (cases "s = []") (auto simp: slug_prefix_def)
    then have "trim_dashes out = s"
      using start s by (cases s rule: rev_cases) (auto simp: trim_dashes_def)
    with assms(1) s \<open>s \<noteq> [] \<and> _\<close> show ?thesis by (simp add: slug_prefix_def)
  qed
qed

text \<open>
  The slug of a name is the fresh id, when the name has no ASCII letter or digit, or a text
  of lower-case letters, digits and single dashes with no dash at either end. Such a slug is
  a valid handle exactly when it has 2 to 32 bytes and starts with a letter.
\<close>

theorem slugs_are_clean:
  assumes "slugify_handle fresh_id raw \<noteq> fresh_id"
  shows "list_all slug_byte (slugify_handle fresh_id raw)
    \<and> single_dashes (slugify_handle fresh_id raw)
    \<and> hd (slugify_handle fresh_id raw) \<noteq> CHR ''-'' \<and> last (slugify_handle fresh_id raw) \<noteq> CHR ''-''
    \<and> (try_new (slugify_handle fresh_id raw) = Inr (slugify_handle fresh_id raw) \<longleftrightarrow>
         2 \<le> length (slugify_handle fresh_id raw) \<and> length (slugify_handle fresh_id raw) \<le> 32
         \<and> is_ascii_lowercase (hd (slugify_handle fresh_id raw)))"
proof -
  define out where "out = slug_loop (chars raw) [] True"
  have "slug_prefix [] True" by (simp add: slug_prefix_def single_dashes_def)
  then obtain d where "slug_prefix out d" unfolding out_def using slug_loop_prefix by blast
  have s: "slugify_handle fresh_id raw = trim_dashes out" and ne: "trim_dashes out \<noteq> []"
    using assms by (auto simp: slugify_handle_def out_def Let_def split: if_splits)
  then have slug: "slug_prefix (trim_dashes out) False"
    using trim_dashes_slug [OF \<open>slug_prefix out d\<close>] by simp
  then have bytes: "list_all handle_byte (trim_dashes out)"
    by (auto simp: slug_prefix_def list_all_iff slug_byte_def handle_byte_def)
  then have "to_ascii_lowercase (trim (trim_dashes out)) = trim_dashes out"
    by (auto simp: trim_handle to_ascii_lowercase_def list_all_iff handle_byte_lower intro: map_idI)
  with slug ne bytes show ?thesis
    by (auto simp: s slug_prefix_def try_new_def Let_def is_valid_handle_bytes_def hd_conv_nth)
qed

theorem slugs_are_clean_witness:
  "slugify_handle ''id'' ''My  Bot!'' = ''my-bot'' \<and> try_new ''my-bot'' = Inr ''my-bot''"
proof
  show slug: "slugify_handle ''id'' ''My  Bot!'' = ''my-bot''" by code_simp
  have "2 \<le> length ''my-bot'' \<and> length ''my-bot'' \<le> 32 \<and> is_ascii_lowercase (hd ''my-bot'')"
    by (simp add: is_ascii_lowercase_def)
  with slugs_are_clean [of "''id''" "''My  Bot!''"] slug
  show "try_new ''my-bot'' = Inr ''my-bot''" by simp
qed

end
