(* ===== verification/Storage_Path.thy ===== *)
theory Storage_Path
  imports File_System Token_Service Handles "HOL-Library.Char_ord" "HOL-Library.List_Lexorder"
begin

text \<open>
  Virtual paths and the files they name: \<open>storage/path.rs\<close>, the resolution in
  \<open>storage/service.rs\<close>, the layered \<open>Workspace\<close> of \<open>storage/workspace.rs\<close> and the content
  types of \<open>storage/content.rs\<close>, over the file system of \<open>File_System\<close>.

  The world holds the file system, the current directory (\<open>None\<close> when asking for it fails),
  and \<open>io_faults\<close>: one entry per call that changes a file, which fails with the given text
  instead of acting. A call that fails half way through a directory is not modelled.
\<close>

section \<open>Virtual paths\<close>

datatype namespace = User string | Agent string

record virtual_path =
  vp_namespace :: namespace
  vp_relative :: string

definition split_first_segment :: "string \<Rightarrow> string \<times> string" where
  "split_first_segment s = (case split_once (CHR ''/'') s of Some (a, b) \<Rightarrow> (a, b) | None \<Rightarrow> (s, []))"

definition vp_parse :: "string \<Rightarrow> app_error + virtual_path" where
  "vp_parse s =
     (case strip_prefix ''user://'' s of
        Some r \<Rightarrow> (case split_first_segment r of (name, rel) \<Rightarrow> Inr \<lparr>vp_namespace = User name, vp_relative = rel\<rparr>)
      | None \<Rightarrow>
          (case strip_prefix ''agent://'' s of
             Some r \<Rightarrow> (case split_first_segment r of (name, rel) \<Rightarrow> Inr \<lparr>vp_namespace = Agent name, vp_relative = rel\<rparr>)
           | None \<Rightarrow> Inl (Validation (''Invalid virtual path scheme: '' @ s))))"

definition vp_user :: "string \<Rightarrow> string \<Rightarrow> virtual_path" where
  "vp_user h p = \<lparr>vp_namespace = User h, vp_relative = p\<rparr>"

definition vp_agent :: "string \<Rightarrow> string \<Rightarrow> virtual_path" where
  "vp_agent i p = \<lparr>vp_namespace = Agent i, vp_relative = p\<rparr>"

definition vp_display :: "virtual_path \<Rightarrow> string" where
  "vp_display v = (case vp_namespace v of
     User n \<Rightarrow> ''user://'' @ n @ ''/'' @ vp_relative v | Agent n \<Rightarrow> ''agent://'' @ n @ ''/'' @ vp_relative v)"

definition validate_relative_path :: "string \<Rightarrow> app_error + unit" where
  "validate_relative_path p =
     (if contains p ''..'' then Inl (Validation ''Path traversal not allowed'')
      else if starts_with p ''/'' then Inl (Validation ''Path must be relative'')
      else if CHR 0x00 \<in> set p then Inl (Validation ''Path contains invalid characters'')
      else Inr ())"

section \<open>The world of files\<close>

record agent_row =
  agr_id :: string
  agr_user_id :: string
  agr_handle :: string

record file_world = token_world +
  agent_rows :: "agent_row list"
  fs :: tree
  io_faults :: "string option list"
  cwd :: "string option"
  io_text :: "io_error \<Rightarrow> string"

type_synonym ('w, 'a) file_op = "(app_error, 'w file_world_scheme, 'a) op"

definition here :: "'w file_world_scheme \<Rightarrow> component list" where
  "here w = (case cwd w of None \<Rightarrow> [] | Some d \<Rightarrow> components d)"

text \<open>Whether the file system has something at a path, links followed, and its real place.\<close>

abbreviation there :: "'w file_world_scheme \<Rightarrow> component list \<Rightarrow> bool" where
  "there w p \<equiv> path_exists (fs w) (here w) p"

abbreviation real_path :: "'w file_world_scheme \<Rightarrow> component list \<Rightarrow> io_error + component list" where
  "real_path w p \<equiv> canonical (fs w) (here w) p"

text \<open>A call that changes files.\<close>

definition io_call :: "(component list \<Rightarrow> tree \<Rightarrow> io_error + tree) \<Rightarrow> (string, 'w file_world_scheme, unit) op" where
  "io_call f w =
     (case io_faults w of
        Some msg # fl \<Rightarrow> (Inl msg, w\<lparr>io_faults := fl\<rparr>)
      | _ \<Rightarrow>
          (case f (here w) (fs w) of
             Inl e \<Rightarrow> (Inl (io_text w e), w\<lparr>io_faults := tl (io_faults w)\<rparr>)
           | Inr t \<Rightarrow> (Inr (), w\<lparr>io_faults := tl (io_faults w), fs := t\<rparr>)))"

definition with_err :: "('e \<Rightarrow> 'f) \<Rightarrow> ('e, 'w, 'a) op \<Rightarrow> ('f, 'w, 'a) op" where
  "with_err g m w = (case m w of (Inl e, w') \<Rightarrow> (Inl (g e), w') | (Inr a, w') \<Rightarrow> (Inr a, w'))"

lemma keeps_with_err [keep_rules]: "keeps P m \<Longrightarrow> keeps P (with_err g m)"
  by (auto simp: valid_def with_err_def split: prod.splits sum.splits)

text \<open>The usual \<open>map_err\<close> of the handlers.\<close>

definition io_op :: "(component list \<Rightarrow> tree \<Rightarrow> io_error + tree) \<Rightarrow> ('w, unit) file_op" where
  "io_op f = with_err Internal (io_call f)"

definition escapes :: app_error where
  "escapes = Validation ''Path escapes allowed directory''"

definition validate_no_traversal :: "'w file_world_scheme \<Rightarrow> string \<Rightarrow> string \<Rightarrow> app_error + unit" where
  "validate_no_traversal w resolved base =
     (if ParentDir \<in> set (components resolved) then Inl (Validation ''Path traversal not allowed'')
      else if \<not> path_starts_with resolved base then Inl escapes
      else if \<not> there w (components base) then Inr ()
      else case real_path w (components base) of
        Inl e \<Rightarrow> Inl (Internal (''Failed to resolve storage root: '' @ io_text w e))
      | Inr base_canonical \<Rightarrow>
          (case existing_ancestor (fs w) (here w) (components resolved) of
             None \<Rightarrow> Inl escapes
           | Some anc \<Rightarrow>
               (case real_path w anc of
                  Inl e \<Rightarrow> Inl (Internal (''Failed to resolve path: '' @ io_text w e))
                | Inr anc_canonical \<Rightarrow> if prefix base_canonical anc_canonical then Inr () else Inl escapes)))"

section \<open>Resolution\<close>

text \<open>A storage service is given by its data directory.\<close>

definition users_root :: "string \<Rightarrow> string" where
  "users_root data_dir = join data_dir ''users''"

definition user_root :: "string \<Rightarrow> string \<Rightarrow> string" where
  "user_root data_dir u = join (users_root data_dir) u"

definition user_files_path :: "string \<Rightarrow> string \<Rightarrow> string" where
  "user_files_path data_dir u = join (user_root data_dir u) ''files''"

definition agent_workspace_path :: "string \<Rightarrow> string \<Rightarrow> string \<Rightarrow> string" where
  "agent_workspace_path data_dir u a = join (join (user_root data_dir u) ''agents'') a"

definition absolute_path :: "'w file_world_scheme \<Rightarrow> string \<Rightarrow> string" where
  "absolute_path w p = (if is_absolute p then p else case cwd w of Some d \<Rightarrow> join d p | None \<Rightarrow> p)"

definition resolve_virtual_path_for_user ::
    "string \<Rightarrow> string \<Rightarrow> virtual_path \<Rightarrow> 'w file_world_scheme \<Rightarrow> app_error + string" where
  "resolve_virtual_path_for_user data_dir u v w =
     (case vp_namespace v of
        User name \<Rightarrow>
          (case try_new name of
             Inl e \<Rightarrow> Inl e
           | Inr h \<Rightarrow>
               if h \<noteq> u then Inl (Forbidden ''Cannot access another user's files'')
               else let p = join (user_files_path data_dir h) (vp_relative v)
                    in (case validate_no_traversal w p (users_root data_dir) of
                          Inl e \<Rightarrow> Inl e | Inr _ \<Rightarrow> Inr (absolute_path w p)))
      | Agent name \<Rightarrow>
          (case try_new name of
             Inl e \<Rightarrow> Inl e
           | Inr h \<Rightarrow>
               let p = join (agent_workspace_path data_dir u h) (vp_relative v)
               in (case validate_no_traversal w p (users_root data_dir) of
                     Inl e \<Rightarrow> Inl e | Inr _ \<Rightarrow> Inr (absolute_path w p))))"

definition resolve_virtual_path :: "string \<Rightarrow> virtual_path \<Rightarrow> 'w file_world_scheme \<Rightarrow> app_error + string" where
  "resolve_virtual_path data_dir v w =
     (case vp_namespace v of
        Agent name \<Rightarrow> Inl (Validation ''agent virtual paths require a user handle'')
      | User name \<Rightarrow>
          (case try_new name of Inl e \<Rightarrow> Inl e | Inr h \<Rightarrow> resolve_virtual_path_for_user data_dir h v w))"

definition resolve :: "string \<Rightarrow> string \<Rightarrow> 'w file_world_scheme \<Rightarrow> app_error + string" where
  "resolve data_dir p w =
     (if starts_with p ''/'' then Inr p
      else case vp_parse p of Inl e \<Rightarrow> Inl e | Inr v \<Rightarrow> resolve_virtual_path data_dir v w)"

definition resolve_for_user :: "string \<Rightarrow> string \<Rightarrow> string \<Rightarrow> 'w file_world_scheme \<Rightarrow> app_error + string" where
  "resolve_for_user data_dir u p w =
     (if starts_with p ''/'' then Inr p
      else case vp_parse p of Inl e \<Rightarrow> Inl e | Inr v \<Rightarrow> resolve_virtual_path_for_user data_dir u v w)"

section \<open>Other paths\<close>

definition is_user_pkm_path :: "string \<Rightarrow> string \<Rightarrow> string \<Rightarrow> bool" where
  "is_user_pkm_path data_dir u candidate =
     (let expected_root = components (join (user_root data_dir u) ''pkm'')
      in if \<not> prefix (components data_dir) expected_root then False
         else let expected = filter (\<lambda>c. case c of Normal s \<Rightarrow> True | _ \<Rightarrow> False)
                               (drop (length (components data_dir)) expected_root);
                  actual = components candidate
              in ParentDir \<notin> set actual \<and>
                 (let names = filter (\<lambda>c. case c of Normal s \<Rightarrow> True | _ \<Rightarrow> False) actual
                  in list_ex (\<lambda>i. take (length expected) (drop i names) = expected)
                       [0 ..< length names - length expected]))"

text \<open>\<open>Path::file_stem\<close> and \<open>Path::extension\<close>: the last dot, unless it is the first byte.\<close>

definition split_at_dot :: "string \<Rightarrow> string option \<times> string option" where
  "split_at_dot s =
     (case rfind_str ''.'' s of
        None \<Rightarrow> (Some s, None)
      | Some i \<Rightarrow> if i = 0 then (Some s, None) else (Some (take i s), Some (drop (i + 1) s)))"

definition file_stem :: "string \<Rightarrow> string option" where
  "file_stem p = (case file_name (components p) of None \<Rightarrow> None | Some n \<Rightarrow> fst (split_at_dot n))"

definition extension :: "string \<Rightarrow> string option" where
  "extension p = (case file_name (components p) of None \<Rightarrow> None | Some n \<Rightarrow> snd (split_at_dot n))"

text \<open>
  \<open>dedup_filename\<close>; \<open>taken\<close> tells whether a path exists, \<open>uuid\<close> is the random number of the last
  resort. \<open>None\<close> is the panic of slicing the name inside a character, which a name with a
  directory part can cause.
\<close>

definition dedup_filename :: "(string \<Rightarrow> bool) \<Rightarrow> string \<Rightarrow> string \<Rightarrow> string \<Rightarrow> string option" where
  "dedup_filename taken uuid dir filename =
     (if \<not> taken (join dir filename) then Some filename
      else let stem = (case file_stem filename of None \<Rightarrow> filename | Some s \<Rightarrow> s)
           in if \<not> (length stem \<le> length filename \<and> is_char_boundary filename (length stem)) then None
              else let ext_with_dots = drop (length stem) filename;
                       candidate = (\<lambda>i. stem @ ''-'' @ show_nat i @ ext_with_dots)
                   in (case find (\<lambda>i. \<not> taken (join dir (candidate i))) [1 ..< 1000] of
                         Some i \<Rightarrow> Some (candidate i)
                       | None \<Rightarrow> Some (stem @ ''-'' @ uuid @ ext_with_dots)))"

section \<open>Content types\<close>

definition content_types :: "(string list \<times> string) list" where
  "content_types =
     [([''png''], ''image/png''), ([''jpg'', ''jpeg''], ''image/jpeg''), ([''gif''], ''image/gif''),
      ([''webp''], ''image/webp''), ([''svg''], ''image/svg+xml''), ([''bmp''], ''image/bmp''),
      ([''ico''], ''image/x-icon''), ([''pdf''], ''application/pdf''), ([''json''], ''application/json''),
      ([''xml''], ''application/xml''), ([''zip''], ''application/zip''),
      ([''gz'', ''gzip''], ''application/gzip''), ([''tar''], ''application/x-tar''),
      ([''html'', ''htm''], ''text/html''), ([''css''], ''text/css''), ([''js'', ''mjs''], ''text/javascript''),
      ([''ts'', ''tsx''], ''text/typescript''), ([''rs''], ''text/x-rust''), ([''py''], ''text/x-python''),
      ([''rb''], ''text/x-ruby''), ([''go''], ''text/x-go''), ([''java''], ''text/x-java''),
      ([''c'', ''h''], ''text/x-c''), ([''cpp'', ''cc'', ''cxx'', ''hpp''], ''text/x-c++''),
      ([''md'', ''markdown''], ''text/markdown''), ([''txt'', ''log''], ''text/plain''), ([''csv''], ''text/csv''),
      ([''yaml'', ''yml''], ''text/yaml''), ([''toml''], ''text/toml''),
      ([''sh'', ''bash'', ''zsh''], ''text/x-shellscript''), ([''sql''], ''text/x-sql''),
      ([''dockerfile''], ''text/x-dockerfile''), ([''mp3''], ''audio/mpeg''), ([''wav''], ''audio/wav''),
      ([''m4a''], ''audio/mp4''), ([''aac''], ''audio/aac''), ([''ogg'', ''oga''], ''audio/ogg''),
      ([''opus''], ''audio/opus''), ([''flac''], ''audio/flac''), ([''weba''], ''audio/webm''),
      ([''mp4''], ''video/mp4''), ([''webm''], ''video/webm''), ([''m4v''], ''video/x-m4v''),
      ([''mov''], ''video/quicktime''), ([''mkv''], ''video/x-matroska''), ([''avi''], ''video/x-msvideo''),
      ([''ogv''], ''video/ogg''), ([''3gp''], ''video/3gpp''), ([''mpeg'', ''mpg''], ''video/mpeg'')]"

definition detect_content_type :: "(string \<Rightarrow> string) \<Rightarrow> string \<Rightarrow> string" where
  "detect_content_type lo filename =
     (let ext = to_lowercase lo (case extension filename of None \<Rightarrow> [] | Some e \<Rightarrow> e)
      in (case find (\<lambda>row. ext \<in> set (fst row)) content_types of
            Some row \<Rightarrow> snd row | None \<Rightarrow> ''application/octet-stream''))"

section \<open>Layered workspaces\<close>

record workspace =
  layers :: "string list"
  shared_dir :: "string option"

definition agent_workspace :: "string \<Rightarrow> string \<Rightarrow> string \<Rightarrow> string \<Rightarrow> workspace" where
  "agent_workspace data_dir shared_agents_dir u a =
     \<lparr>layers = [agent_workspace_path data_dir u a], shared_dir = Some (join shared_agents_dir a)\<rparr>"

definition builtin_template_workspace :: "string \<Rightarrow> string \<Rightarrow> workspace" where
  "builtin_template_workspace shared_agents_dir a =
     \<lparr>layers = [join shared_agents_dir a], shared_dir = Some (join shared_agents_dir a)\<rparr>"

definition user_workspace :: "string \<Rightarrow> string \<Rightarrow> workspace" where
  "user_workspace data_dir u = \<lparr>layers = [user_files_path data_dir u], shared_dir = None\<rparr>"

text \<open>What \<open>String::from_utf8\<close> accepts; the bytes are given by their values.\<close>

fun valid_utf8 :: "nat list \<Rightarrow> bool" where
  "valid_utf8 [] = True"
| "valid_utf8 (a # bs) =
     (let cont = (\<lambda>b::nat. 0x80 \<le> b \<and> b \<le> 0xBF)
      in if a < 0x80 then valid_utf8 bs
         else case bs of
           [] \<Rightarrow> False
         | b # cs \<Rightarrow>
             if 0xC2 \<le> a \<and> a \<le> 0xDF then cont b \<and> valid_utf8 cs
             else (case cs of
               [] \<Rightarrow> False
             | c # ds \<Rightarrow>
                 if 0xE0 \<le> a \<and> a \<le> 0xEF
                 then (if a = 0xE0 then 0xA0 \<le> b else 0x80 \<le> b) \<and> (if a = 0xED then b \<le> 0x9F else b \<le> 0xBF)
                      \<and> cont c \<and> valid_utf8 ds
                 else (case ds of
                   [] \<Rightarrow> False
                 | d # es \<Rightarrow>
                     0xF0 \<le> a \<and> a \<le> 0xF4
                     \<and> (if a = 0xF0 then 0x90 \<le> b else 0x80 \<le> b) \<and> (if a = 0xF4 then b \<le> 0x8F else b \<le> 0xBF)
                     \<and> cont c \<and> cont d \<and> valid_utf8 es)))"

definition read_to_string :: "'w file_world_scheme \<Rightarrow> string \<Rightarrow> string option" where
  "read_to_string w p =
     (case read_file (fs w) (here w) (components p) of
        Inl e \<Rightarrow> None
      | Inr b \<Rightarrow> if valid_utf8 (map of_char b) then Some b else None)"

fun first_readable :: "'w file_world_scheme \<Rightarrow> string list \<Rightarrow> string \<Rightarrow> string option" where
  "first_readable w [] p = None"
| "first_readable w (l # ls) p =
     (case read_to_string w (join l p) of Some b \<Rightarrow> Some b | None \<Rightarrow> first_readable w ls p)"

definition ws_read :: "workspace \<Rightarrow> string \<Rightarrow> 'w file_world_scheme \<Rightarrow> string option" where
  "ws_read ws p w =
     (case validate_relative_path p of
        Inl e \<Rightarrow> None
      | Inr _ \<Rightarrow>
          (case first_readable w (layers ws) p of
             Some b \<Rightarrow> Some b
           | None \<Rightarrow> (case shared_dir ws of Some s \<Rightarrow> read_to_string w (join s p) | None \<Rightarrow> None)))"

definition ws_write_bytes :: "workspace \<Rightarrow> string \<Rightarrow> string \<Rightarrow> ('w, unit) file_op" where
  "ws_write_bytes ws p content =
     qbind (from_result (validate_relative_path p)) (\<lambda>_.
     let full = join (hd (layers ws)) p
     in qbind (case parent (components full) of
                 Some q \<Rightarrow> with_err (\<lambda>e. Internal (''Failed to create directories: '' @ e))
                             (io_call (\<lambda>d. create_dir_all d q))
               | None \<Rightarrow> ret ()) (\<lambda>_.
        with_err (\<lambda>e. Internal (''Failed to write '' @ full @ '': '' @ e))
          (io_call (\<lambda>d. write_file d (components full) content))))"

definition ws_exists :: "workspace \<Rightarrow> string \<Rightarrow> 'w file_world_scheme \<Rightarrow> bool" where
  "ws_exists ws p w =
     (if list_ex (\<lambda>l. there w (components (join l p))) (layers ws) then True
      else case shared_dir ws of Some s \<Rightarrow> there w (components (join s p)) | None \<Rightarrow> False)"

definition resolve_path :: "workspace \<Rightarrow> string \<Rightarrow> 'w file_world_scheme \<Rightarrow> string option" where
  "resolve_path ws p w =
     map_option (\<lambda>l. join l p) (find (\<lambda>l. there w (components (join l p))) (layers ws))"

definition children :: "tree \<Rightarrow> component list \<Rightarrow> string list" where
  "children t c =
     concat (map (\<lambda>x. case file_name (fst x) of
                        Some n \<Rightarrow> if fst x = c @ [Normal n] then [n] else []
                      | None \<Rightarrow> []) t)"

definition dir_names :: "'w file_world_scheme \<Rightarrow> string \<Rightarrow> string list" where
  "dir_names w p =
     (case real_path w (components p) of
        Inl e \<Rightarrow> []
      | Inr c \<Rightarrow> if map_of (fs w) c = Some Folder then children (fs w) c else [])"

definition ws_read_dir :: "workspace \<Rightarrow> string \<Rightarrow> 'w file_world_scheme \<Rightarrow> string list" where
  "ws_read_dir ws p w =
     (case validate_relative_path p of
        Inl e \<Rightarrow> []
      | Inr _ \<Rightarrow>
          sort (remdups (concat (map (\<lambda>l. dir_names w (join l p)) (layers ws))
            @ (case shared_dir ws of Some s \<Rightarrow> dir_names w (join s p) | None \<Rightarrow> []))))"

end
