(* ===== verification/Vault_Model.thy ===== *)
theory Vault_Model
  imports Storage_Path
begin

text \<open>
  Vaults: the data of \<open>credential/vault/models.rs\<close>, the queries of \<open>db/repo/vault.rs\<close> and the
  projection of a secret to environment variables.

  A user connects vaults (the built-in local one, managed ones, password managers); a grant lets a
  principal - an agent, an app, an MCP server, a channel - use an item of a vault, and a binding
  says which variables of its environment the item becomes. A hash map is an association list with
  distinct keys in the order of iteration. What the program asks outside is \<open>vault_lib\<close>: JSON,
  Base64, the text of a UTF-8 error, upper and lower case beyond ASCII, and the providers, which are
  command-line programs and web services, or (\<open>managed_list\<close>, \<open>managed_secret\<close>) the managed vault
  of \<open>credential/managed\<close>, a part of its own.
\<close>

section \<open>Data\<close>

datatype credential_data =
    BrowserProfile
  | UsernamePassword string string
  | ApiKey string

record credential =
  cd_id :: string
  cd_user_id :: string
  cd_name :: string
  cd_provider :: string
  cd_data :: credential_data
  cd_created_at :: int
  cd_updated_at :: int

datatype provider_type = Local | Managed | OnePassword | Bitwarden | Hashicorp | KeePass

datatype connection_config =
    ManagedConfig
  | OnePasswordConfig string "string option"
  | BitwardenConfig string string string "string option"
  | HashicorpConfig string string "string option"
  | KeePassConfig string string

record connection =
  cn_id :: string
  cn_user_id :: string
  cn_name :: string
  cn_provider :: provider_type
  cn_config_encrypted :: string
  cn_nonce :: string
  cn_enabled :: bool
  cn_system_managed :: bool
  cn_created_at :: int
  cn_updated_at :: int

record vault_grant =
  gr_id :: string
  gr_user_id :: string
  gr_connection_id :: string
  gr_item_id :: string
  gr_principal :: principal
  gr_query :: string
  gr_expires_at :: "int option"
  gr_created_at :: int

datatype vault_field = Password | Username | Custom string

datatype credential_target = Prefix string | Single string vault_field

datatype binding_scope = Durable | ChatScope string

record binding =
  bi_id :: string
  bi_user_id :: string
  bi_principal :: principal
  bi_query :: string
  bi_connection_id :: string
  bi_item_id :: string
  bi_target :: credential_target
  bi_scope :: binding_scope
  bi_expires_at :: "int option"
  bi_created_at :: int

record access_log =
  lg_id :: string
  lg_user_id :: string
  lg_principal :: principal
  lg_chat_id :: string
  lg_connection_id :: string
  lg_item_id :: string
  lg_env_var_prefix :: "string option"
  lg_query :: string
  lg_reason :: string
  lg_created_at :: int

record vault_secret =
  se_id :: string
  se_name :: string
  se_username :: "string option"
  se_password :: "string option"
  se_notes :: "string option"
  se_fields :: "(string \<times> string) list"

record vault_item =
  it_id :: string
  it_name :: string
  it_username :: "string option"

datatype grant_duration = Once | Hours nat | Days nat | Permanent

text \<open>\<open>VaultConfig\<close> of \<open>core/config/types.rs\<close>: the vaults an operator configures.\<close>

record vault_settings =
  onepassword_service_account_token :: "string option"
  onepassword_vault_id :: "string option"
  bitwarden_client_id :: "string option"
  bitwarden_client_secret :: "string option"
  bitwarden_master_password :: "string option"
  bitwarden_server_url :: "string option"
  hashicorp_address :: "string option"
  hashicorp_token :: "string option"
  hashicorp_mount :: "string option"
  keepass_path :: "string option"
  keepass_password :: "string option"

section \<open>What is outside\<close>

text \<open>An entry of a managed vault as far as a search shows it.\<close>

record managed_status =
  ms_item_id :: string
  ms_removed :: bool
  ms_name :: "string option"
  ms_connection :: string
  ms_slot :: string

record vault_lib =
  config_to_json :: "connection_config \<Rightarrow> string + string"
  config_from_json :: "string \<Rightarrow> string + connection_config"
  b64_encode :: "string \<Rightarrow> string"
  b64_decode :: "string \<Rightarrow> string + string"
  upper_of :: "string \<Rightarrow> string"
  lower_of :: "string \<Rightarrow> string"
  remote_new :: "connection_config \<Rightarrow> string \<Rightarrow> app_error + unit"
  remote_search :: "connection_config \<Rightarrow> string \<Rightarrow> string \<Rightarrow> nat \<Rightarrow> app_error + vault_item list"
  remote_secret :: "connection_config \<Rightarrow> string \<Rightarrow> string \<Rightarrow> app_error + vault_secret"
  remote_test :: "connection_config \<Rightarrow> string \<Rightarrow> app_error + unit"
  managed_list :: "string \<Rightarrow> app_error + managed_status list"
  managed_secret :: "string \<Rightarrow> string \<Rightarrow> app_error + vault_secret"
  parse_uuid :: "string \<Rightarrow> string option"
  utf8_text :: "string \<Rightarrow> string"

record vault_service =
  vs_encryption_key :: string
  vs_crypto :: crypto_lib
  vs_settings :: vault_settings
  vs_data_dir :: string
  vs_lib :: vault_lib
  vs_min_time :: int
  vs_max_time :: int

text \<open>
  The times are the first and last the time library can represent. The tables, the ids and nonces still to be drawn at random, and the ids of the managed vaults
  that hold a credential.
\<close>

record vault_world = file_world +
  connections :: "connection list"
  grants :: "vault_grant list"
  bindings :: "binding list"
  credentials :: "credential list"
  access_logs :: "access_log list"
  managed_items :: "string list"
  new_ids :: "string list"
  nonces :: "string list"

type_synonym ('w, 'a) vault_op = "(app_error, 'w vault_world_scheme, 'a) op"

definition new_id :: "('w, string) vault_op" where
  "new_id w = (case new_ids w of [] \<Rightarrow> (Inr [], w) | i # is \<Rightarrow> (Inr i, w\<lparr>new_ids := is\<rparr>))"

definition draw_nonce :: "('w, string) vault_op" where
  "draw_nonce w = (case nonces w of [] \<Rightarrow> (Inr [], w) | n # ns \<Rightarrow> (Inr n, w\<lparr>nonces := ns\<rparr>))"

section \<open>Queries\<close>

text \<open>\<open>expires_at IS NONE OR expires_at > $now\<close>.\<close>

definition unexpired :: "int \<Rightarrow> int option \<Rightarrow> bool" where
  "unexpired now e \<longleftrightarrow> (case e of None \<Rightarrow> True | Some t \<Rightarrow> now < t)"

definition of_user :: "('r \<Rightarrow> string) \<Rightarrow> string \<Rightarrow> 'r list \<Rightarrow> 'r list" where
  "of_user owner u rows = rev (filter (\<lambda>r. owner r = u) rows)"

definition credentials_of :: "string \<Rightarrow> ('w, credential list) vault_op" where
  "credentials_of u = db_read (\<lambda>w. of_user cd_user_id u (credentials w))"

definition find_by_user_and_provider :: "string \<Rightarrow> string \<Rightarrow> ('w, credential option) vault_op" where
  "find_by_user_and_provider u p =
     db_read (\<lambda>w. find (\<lambda>c. cd_user_id c = u \<and> cd_provider c = p) (credentials w))"

definition find_all_for_user :: "string \<Rightarrow> ('w, connection list) vault_op" where
  "find_all_for_user u = db_read (\<lambda>w.
     let visible = rev (filter (\<lambda>c. cn_user_id c = u \<or> cn_system_managed c) (connections w))
     in filter cn_system_managed visible @ filter (\<lambda>c. \<not> cn_system_managed c) visible)"

definition find_system_managed :: "('w, connection list) vault_op" where
  "find_system_managed = db_read (\<lambda>w. filter cn_system_managed (connections w))"

definition grants_of_user :: "string \<Rightarrow> ('w, vault_grant list) vault_op" where
  "grants_of_user u = db_read (\<lambda>w. of_user gr_user_id u (grants w))"

definition matching_grant :: "string \<Rightarrow> principal \<Rightarrow> string \<Rightarrow> ('w, vault_grant option) vault_op" where
  "matching_grant u p q = db_read (\<lambda>w. find (\<lambda>g. gr_user_id g = u \<and> gr_principal g = p \<and> gr_query g = q
     \<and> unexpired (clock w) (gr_expires_at g)) (grants w))"

definition grants_of_principal :: "string \<Rightarrow> principal \<Rightarrow> ('w, vault_grant list) vault_op" where
  "grants_of_principal u p =
     db_read (\<lambda>w. filter (\<lambda>g. gr_user_id g = u \<and> gr_principal g = p) (grants w))"

definition delete_grants_by_principal :: "string \<Rightarrow> principal \<Rightarrow> ('w, unit) vault_op" where
  "delete_grants_by_principal u p = db_write (\<lambda>w. w\<lparr>grants :=
     filter (\<lambda>g. \<not> (gr_user_id g = u \<and> gr_principal g = p)) (grants w)\<rparr>)"

definition delete_grants_by_connection :: "string \<Rightarrow> ('w, unit) vault_op" where
  "delete_grants_by_connection c = db_write (\<lambda>w. w\<lparr>grants := filter (\<lambda>g. gr_connection_id g \<noteq> c) (grants w)\<rparr>)"

definition find_access_logs :: "string \<Rightarrow> ('w, access_log list) vault_op" where
  "find_access_logs chat = db_read (\<lambda>w. filter (\<lambda>l. lg_chat_id l = chat) (access_logs w))"

definition find_by_chat_and_query :: "string \<Rightarrow> string \<Rightarrow> string option \<Rightarrow> ('w, access_log option) vault_op" where
  "find_by_chat_and_query chat q pre = db_read (\<lambda>w. find (\<lambda>l. lg_chat_id l = chat \<and>
     (lg_query l = q \<or> (pre \<noteq> None \<and> lg_env_var_prefix l = pre))) (rev (access_logs w)))"

text \<open>The bindings of a principal that have not run out; which of them a lookup or a chat sees.\<close>

definition bound_to :: "int \<Rightarrow> string \<Rightarrow> principal \<Rightarrow> binding \<Rightarrow> bool" where
  "bound_to now u p b \<longleftrightarrow> bi_user_id b = u \<and> bi_principal b = p \<and> unexpired now (bi_expires_at b)"

definition find_for_lookup :: "string \<Rightarrow> principal \<Rightarrow> string \<Rightarrow> string option \<Rightarrow> ('w, binding option) vault_op" where
  "find_for_lookup u p q chat =
     (let durable = db_read (\<lambda>w. find (\<lambda>b. bound_to (clock w) u p b \<and> bi_query b = q \<and> bi_scope b = Durable) (bindings w))
      in case chat of
           None \<Rightarrow> durable
         | Some c \<Rightarrow>
             qbind (db_read (\<lambda>w. find (\<lambda>b. bound_to (clock w) u p b \<and> bi_query b = q \<and> bi_scope b = ChatScope c) (bindings w)))
               (\<lambda>chat_match. if chat_match \<noteq> None then ret chat_match else durable))"

definition find_for_chat :: "string \<Rightarrow> principal \<Rightarrow> string \<Rightarrow> ('w, binding list) vault_op" where
  "find_for_chat u p c = db_read (\<lambda>w. filter (\<lambda>b. bound_to (clock w) u p b
     \<and> (bi_scope b = Durable \<or> bi_scope b = ChatScope c)) (bindings w))"

definition find_for_principal :: "string \<Rightarrow> principal \<Rightarrow> ('w, binding list) vault_op" where
  "find_for_principal u p = db_read (\<lambda>w. filter (bound_to (clock w) u p) (bindings w))"

definition delete_bindings_by_principal :: "string \<Rightarrow> principal \<Rightarrow> ('w, unit) vault_op" where
  "delete_bindings_by_principal u p = db_write (\<lambda>w. w\<lparr>bindings :=
     filter (\<lambda>b. \<not> (bi_user_id b = u \<and> bi_principal b = p)) (bindings w)\<rparr>)"

definition delete_for_item :: "string \<Rightarrow> principal \<Rightarrow> string \<Rightarrow> string \<Rightarrow> ('w, unit) vault_op" where
  "delete_for_item u p c i = db_write (\<lambda>w. w\<lparr>bindings :=
     filter (\<lambda>b. \<not> (bi_user_id b = u \<and> bi_principal b = p \<and> bi_connection_id b = c \<and> bi_item_id b = i)) (bindings w)\<rparr>)"

definition delete_by_chat :: "string \<Rightarrow> ('w, unit) vault_op" where
  "delete_by_chat c = db_write (\<lambda>w. w\<lparr>bindings := filter (\<lambda>b. bi_scope b \<noteq> ChatScope c) (bindings w)\<rparr>)"

text \<open>
  \<open>delete_connection\<close> of \<open>db/repo/managed_vault/mod.rs\<close>, one transaction: a statement that throws
  undoes it, and its message comes from the database.
\<close>

definition delete_managed_connection :: "string \<Rightarrow> string \<Rightarrow> ('w, unit) vault_op" where
  "delete_managed_connection c u = db_call (\<lambda>w.
     case find_row cn_id c (connections w) of
       None \<Rightarrow> (Inl (Conflict ''managed vault unavailable''), w)
     | Some vault \<Rightarrow>
         if cn_system_managed vault \<or> cn_user_id vault \<noteq> u \<or> cn_provider vault \<noteq> Managed
         then (Inl (Conflict ''managed vault unavailable''), w)
         else if c \<in> set (managed_items w)
         then (Inl (Conflict ''delete the credentials before deleting this managed vault''), w)
         else (Inr (), w\<lparr>grants := filter (\<lambda>g. gr_connection_id g \<noteq> c) (grants w),
                         bindings := filter (\<lambda>b. bi_connection_id b \<noteq> c) (bindings w),
                         connections := delete_row cn_id c (connections w)\<rparr>))"

section \<open>From a secret to variables\<close>

definition ascii_upper :: "char \<Rightarrow> char" where
  "ascii_upper c =
     (if 97 \<le> (of_char c :: nat) \<and> (of_char c :: nat) \<le> 122
      then Char (digit0 c) (digit1 c) (digit2 c) (digit3 c) (digit4 c) False (digit6 c) (digit7 c)
      else c)"

definition to_uppercase :: "(string \<Rightarrow> string) \<Rightarrow> string \<Rightarrow> string" where
  "to_uppercase up s = concat (map (\<lambda>ch. case ch of [c] \<Rightarrow> [ascii_upper c] | _ \<Rightarrow> up ch) (chars s))"

text \<open>\<open>key.to_uppercase().replace(' ', "_")\<close>.\<close>

definition env_suffix :: "(string \<Rightarrow> string) \<Rightarrow> string \<Rightarrow> string" where
  "env_suffix up key = map (\<lambda>c. if c = CHR '' '' then CHR ''_'' else c) (to_uppercase up key)"

definition field_names :: "(string \<Rightarrow> string) \<Rightarrow> vault_secret \<Rightarrow> string list" where
  "field_names up s =
     (if se_username s \<noteq> None then [''USERNAME''] else []) @
     (if se_password s \<noteq> None then [''PASSWORD''] else []) @
     map (\<lambda>(key, v). env_suffix up key) (se_fields s)"

definition to_env_vars :: "(string \<Rightarrow> string) \<Rightarrow> vault_secret \<Rightarrow> string \<Rightarrow> (string \<times> string) list" where
  "to_env_vars up s pre =
     (let sep = (if pre = [] then [] else ''_'')
      in (case se_username s of None \<Rightarrow> [] | Some u \<Rightarrow> [(pre @ sep @ ''USERNAME'', trim u)]) @
         (case se_password s of None \<Rightarrow> [] | Some p \<Rightarrow> [(pre @ sep @ ''PASSWORD'', trim p)]) @
         map (\<lambda>(key, v). (pre @ sep @ env_suffix up key, trim v)) (se_fields s))"

definition custom_field :: "(string \<Rightarrow> string) \<Rightarrow> vault_secret \<Rightarrow> string \<Rightarrow> string option" where
  "custom_field up s name =
     (case map_of (se_fields s) name of
        Some v \<Rightarrow> Some v
      | None \<Rightarrow> map_option snd (find (\<lambda>(key, v). env_suffix up key = to_uppercase up name) (se_fields s)))"

definition project_target ::
  "(string \<Rightarrow> string) \<Rightarrow> vault_secret \<Rightarrow> credential_target \<Rightarrow> app_error + (string \<times> string) list" where
  "project_target up s target =
     (case target of
        Prefix pre \<Rightarrow> Inr (to_env_vars up s pre)
      | Single env_var field \<Rightarrow>
          (let v = (case field of
                      Password \<Rightarrow> (case se_password s of Some p \<Rightarrow> Some p | None \<Rightarrow> custom_field up s ''PASSWORD'')
                    | Username \<Rightarrow> (case se_username s of Some u \<Rightarrow> Some u | None \<Rightarrow> custom_field up s ''USERNAME'')
                    | Custom name \<Rightarrow> custom_field up s name)
           in case v of
                None \<Rightarrow> Inl (Validation (''required field is missing from vault item '' @ se_id s))
              | Some x \<Rightarrow> Inr [(env_var, x)]))"

end
