(* ===== verification/Vault_Service.thy ===== *)
theory Vault_Service
  imports Vault_Model
begin

text \<open>
  The vault service, \<open>credential/vault/service.rs\<close>, with the local and the managed provider of
  \<open>credential/vault/providers\<close> and the handlers of \<open>api/routes/vaults.rs\<close> that do more than pass
  their arguments on. A provider is a record of operations. Not modelled: the login of managed
  vaults (\<open>advance_login\<close>, \<open>managed_login_vault\<close>, \<open>delete_managed_item\<close>).
\<close>

section \<open>Encryption\<close>

definition aes_init :: "vault_service \<Rightarrow> app_error + unit" where
  "aes_init vs = map_err (\<lambda>e. Internal (''AES init failed: '' @ e)) (aes_new (vs_crypto vs) (vs_encryption_key vs))"

definition aes_seal :: "vault_service \<Rightarrow> string \<Rightarrow> string \<Rightarrow> app_error + string" where
  "aes_seal vs nonce plain = map_err (\<lambda>e. Internal (''Encryption failed: '' @ e))
     (aes_encrypt (vs_crypto vs) (vs_encryption_key vs) nonce plain)"

definition aes_open :: "vault_service \<Rightarrow> string \<Rightarrow> string \<Rightarrow> app_error + string" where
  "aes_open vs nonce sealed = map_err (\<lambda>e. Internal (''Decryption failed: '' @ e))
     (aes_decrypt (vs_crypto vs) (vs_encryption_key vs) nonce sealed)"

definition encrypt_config :: "vault_service \<Rightarrow> connection_config \<Rightarrow> ('w, string \<times> string) vault_op" where
  "encrypt_config vs cfg =
     (if cfg = ManagedConfig then ret ([], [])
      else qbind (from_result (map_err (\<lambda>e. Internal (''Config serialization failed: '' @ e))
                    (config_to_json (vs_lib vs) cfg))) (\<lambda>json.
           qbind (from_result (aes_init vs)) (\<lambda>_.
           qbind draw_nonce (\<lambda>nonce.
           qbind (from_result (aes_seal vs nonce json)) (\<lambda>sealed.
           ret (sealed, nonce))))))"

definition decrypt_config :: "vault_service \<Rightarrow> connection \<Rightarrow> app_error + connection_config" where
  "decrypt_config vs c =
     (if cn_provider c = Managed then Inr ManagedConfig
      else case aes_init vs of
        Inl e \<Rightarrow> Inl e
      | Inr _ \<Rightarrow>
          if length (cn_nonce c) \<noteq> 12 then Inl (Internal ''Invalid nonce length'')
          else case aes_open vs (cn_nonce c) (cn_config_encrypted c) of
                 Inl e \<Rightarrow> Inl e
               | Inr plain \<Rightarrow> map_err (\<lambda>e. Internal (''Config deserialization failed: '' @ e))
                                 (config_from_json (vs_lib vs) plain))"

definition encrypt_password :: "vault_service \<Rightarrow> string \<Rightarrow> ('w, string) vault_op" where
  "encrypt_password vs password =
     qbind (from_result (aes_init vs)) (\<lambda>_.
     qbind draw_nonce (\<lambda>nonce.
     qbind (from_result (aes_seal vs nonce password)) (\<lambda>sealed.
     ret (b64_encode (vs_lib vs) (nonce @ sealed)))))"

definition decrypt_password :: "vault_service \<Rightarrow> string \<Rightarrow> app_error + string" where
  "decrypt_password vs text =
     (case b64_decode (vs_lib vs) text of
        Inl e \<Rightarrow> Inl (Internal (''Base64 decode failed: '' @ e))
      | Inr combined \<Rightarrow>
          if length combined < 12 then Inl (Internal ''Encrypted data too short'')
          else case aes_init vs of
                 Inl e \<Rightarrow> Inl e
               | Inr _ \<Rightarrow>
                   (case aes_open vs (take 12 combined) (drop 12 combined) of
                      Inl e \<Rightarrow> Inl e
                    | Inr plain \<Rightarrow>
                        (case from_utf8 plain of
                           None \<Rightarrow> Inl (Internal (''UTF8 decode failed: '' @ utf8_text (vs_lib vs) plain))
                         | Some s \<Rightarrow> Inr s)))"

section \<open>Providers\<close>

record 'w provider =
  pv_search :: "string \<Rightarrow> nat \<Rightarrow> (app_error, 'w, vault_item list) op"
  pv_get_secret :: "string \<Rightarrow> (app_error, 'w, vault_secret) op"
  pv_test :: "(app_error, 'w, unit) op"

text \<open>The local provider keeps its items in the table of credentials.\<close>

definition credential_to_item :: "credential \<Rightarrow> vault_item" where
  "credential_to_item c =
     \<lparr>it_id = cd_id c, it_name = cd_name c @ '' ('' @ cd_provider c @ '')'',
      it_username = (case cd_data c of UsernamePassword u _ \<Rightarrow> Some u | _ \<Rightarrow> None)\<rparr>"

definition credential_to_secret :: "vault_service \<Rightarrow> credential \<Rightarrow> app_error + vault_secret" where
  "credential_to_secret vs c =
     (case cd_data c of
        UsernamePassword u enc \<Rightarrow>
          (case decrypt_password vs enc of
             Inl e \<Rightarrow> Inl e
           | Inr p \<Rightarrow> Inr \<lparr>se_id = cd_id c, se_name = cd_name c, se_username = Some u, se_password = Some p,
                           se_notes = None, se_fields = []\<rparr>)
      | ApiKey enc \<Rightarrow>
          (case decrypt_password vs enc of
             Inl e \<Rightarrow> Inl e
           | Inr k \<Rightarrow> Inr \<lparr>se_id = cd_id c, se_name = cd_name c, se_username = None, se_password = None,
                           se_notes = None, se_fields = [(''API_KEY'', k)]\<rparr>)
      | BrowserProfile \<Rightarrow> Inr \<lparr>se_id = cd_id c, se_name = cd_name c, se_username = None, se_password = None,
                           se_notes = None, se_fields = []\<rparr>)"

definition contains_lower :: "vault_service \<Rightarrow> string \<Rightarrow> string \<Rightarrow> bool" where
  "contains_lower vs q text = contains q (to_lowercase (lower_of (vs_lib vs)) text)"

definition local_search :: "vault_service \<Rightarrow> string \<Rightarrow> string \<Rightarrow> nat \<Rightarrow> ('w, vault_item list) vault_op" where
  "local_search vs user_id query max_results =
     qbind (credentials_of user_id) (\<lambda>all.
     (let q = to_lowercase (lower_of (vs_lib vs)) query
      in ret (map credential_to_item (take max_results
           (filter (\<lambda>c. contains_lower vs q (cd_name c) \<or> contains_lower vs q (cd_provider c)) all)))))"

definition local_get_secret :: "vault_service \<Rightarrow> string \<Rightarrow> string \<Rightarrow> ('w, vault_secret) vault_op" where
  "local_get_secret vs user_id item_id =
     qbind (find_or credentials cd_id (NotFound ''Credential not found'') item_id) (\<lambda>c.
     if cd_user_id c \<noteq> user_id then fail (Forbidden ''Not your credential'')
     else from_result (credential_to_secret vs c))"

definition local_provider :: "vault_service \<Rightarrow> string \<Rightarrow> 'w vault_world_scheme provider" where
  "local_provider vs user_id =
     \<lparr>pv_search = local_search vs user_id, pv_get_secret = local_get_secret vs user_id, pv_test = ret ()\<rparr>"

text \<open>The managed provider checks the connection again whenever it is used.\<close>

definition managed_authorize :: "connection \<Rightarrow> string \<Rightarrow> ('w, unit) vault_op" where
  "managed_authorize c user_id =
     qbind (find_or connections cn_id (NotFound ''vault connection'') (cn_id c)) (\<lambda>current.
     if \<not> cn_enabled current \<or> (\<not> cn_system_managed current \<and> cn_user_id current \<noteq> user_id)
     then fail (Forbidden ''vault connection is unavailable'')
     else if cn_provider current \<noteq> cn_provider c \<or> cn_config_encrypted current \<noteq> cn_config_encrypted c
             \<or> cn_nonce current \<noteq> cn_nonce c
     then fail (Conflict ''vault connection changed during resolution'')
     else ret ())"

definition status_name :: "managed_status \<Rightarrow> string" where
  "status_name s = (case ms_name s of Some n \<Rightarrow> n | None \<Rightarrow> ms_connection s @ '' / '' @ ms_slot s)"

definition managed_provider :: "vault_service \<Rightarrow> connection \<Rightarrow> string \<Rightarrow> 'w vault_world_scheme provider" where
  "managed_provider vs c user_id =
     \<lparr>pv_search = (\<lambda>query max_results.
        qbind (managed_authorize c user_id) (\<lambda>_.
        qbind (from_result (managed_list (vs_lib vs) (cn_id c))) (\<lambda>entries.
        ret (take max_results (filter (\<lambda>i. contains_lower vs (to_lowercase (lower_of (vs_lib vs)) query) (it_name i))
          (map (\<lambda>s. \<lparr>it_id = ms_item_id s, it_name = status_name s, it_username = None\<rparr>)
            (filter (\<lambda>s. \<not> ms_removed s) entries))))))),
      pv_get_secret = (\<lambda>item_id.
        qbind (ok_or (Validation ''invalid managed credential ID'') (parse_uuid (vs_lib vs) item_id)) (\<lambda>i.
        qbind (managed_authorize c user_id) (\<lambda>_.
        qbind (from_result (managed_secret (vs_lib vs) (cn_id c) i)) (\<lambda>s.
        qbind (managed_authorize c user_id) (\<lambda>_. ret s))))),
      pv_test = qbind (managed_authorize c user_id) (\<lambda>_.
        qbind (from_result (managed_list (vs_lib vs) (cn_id c))) (\<lambda>_. ret ()))\<rparr>"

definition remote_provider :: "vault_service \<Rightarrow> connection_config \<Rightarrow> string \<Rightarrow> 'w vault_world_scheme provider" where
  "remote_provider vs cfg home =
     \<lparr>pv_search = (\<lambda>query n. from_result (remote_search (vs_lib vs) cfg home query n)),
      pv_get_secret = (\<lambda>i. from_result (remote_secret (vs_lib vs) cfg home i)),
      pv_test = from_result (remote_test (vs_lib vs) cfg home)\<rparr>"

definition create_vault_provider ::
  "vault_service \<Rightarrow> provider_type \<Rightarrow> connection_config \<Rightarrow> string \<Rightarrow> app_error + 'w vault_world_scheme provider" where
  "create_vault_provider vs t cfg home =
     (case t of
        Managed \<Rightarrow> Inl (Internal ''Managed vault providers require the shared resolver'')
      | Local \<Rightarrow> Inl (Internal ''Local vault provider must be constructed directly with a credential repository'')
      | OnePassword \<Rightarrow> (case cfg of OnePasswordConfig _ _ \<Rightarrow> Inr (remote_provider vs cfg home)
                         | _ \<Rightarrow> Inl (Validation ''Invalid config for 1Password''))
      | Bitwarden \<Rightarrow> (case cfg of BitwardenConfig _ _ _ _ \<Rightarrow> map_sum id (\<lambda>_. remote_provider vs cfg home) (remote_new (vs_lib vs) cfg home)
                         | _ \<Rightarrow> Inl (Validation ''Invalid config for Bitwarden''))
      | Hashicorp \<Rightarrow> (case cfg of HashicorpConfig _ _ _ \<Rightarrow> map_sum id (\<lambda>_. remote_provider vs cfg home) (remote_new (vs_lib vs) cfg home)
                         | _ \<Rightarrow> Inl (Validation ''Invalid config for HashiCorp Vault''))
      | KeePass \<Rightarrow> (case cfg of KeePassConfig _ _ \<Rightarrow> Inr (remote_provider vs cfg home)
                         | _ \<Rightarrow> Inl (Validation ''Invalid config for KeePass'')))"

definition user_vault_path :: "string \<Rightarrow> string \<Rightarrow> string" where
  "user_vault_path data_dir u = join (user_root data_dir u) ''vault''"

definition provider_home :: "vault_service \<Rightarrow> connection \<Rightarrow> ('w, string) vault_op" where
  "provider_home vs c =
     (if cn_system_managed c then ret (join (join (join (vs_data_dir vs) ''system'') ''vault'') (cn_id c))
      else qbind (find_user (cn_user_id c)) (\<lambda>found.
           qbind (ok_or (NotFound (''vault owner user '' @ cn_user_id c @ '' not found'')) found) (\<lambda>owner.
           ret (user_vault_path (vs_data_dir vs) (usr_handle owner)))))"

definition get_provider :: "vault_service \<Rightarrow> string \<Rightarrow> string \<Rightarrow> ('w, 'w vault_world_scheme provider) vault_op" where
  "get_provider vs user_id connection_id =
     qbind (find_or connections cn_id (NotFound ''Vault connection not found'') connection_id) (\<lambda>c.
     if \<not> cn_system_managed c \<and> cn_user_id c \<noteq> user_id then fail (Forbidden ''Not your vault connection'')
     else if \<not> cn_enabled c then fail (Validation ''Vault connection is disabled'')
     else if cn_provider c = Local then ret (local_provider vs user_id)
     else qbind (from_result (decrypt_config vs c)) (\<lambda>cfg.
          if cn_provider c = Managed
          then if cfg \<noteq> ManagedConfig then fail (Validation ''invalid managed vault connection'')
               else ret (managed_provider vs c user_id)
          else qbind (provider_home vs c) (\<lambda>home.
               from_result (create_vault_provider vs (cn_provider c) cfg home))))"

definition get_secret :: "vault_service \<Rightarrow> string \<Rightarrow> string \<Rightarrow> string \<Rightarrow> ('w, vault_secret) vault_op" where
  "get_secret vs user_id connection_id item_id =
     qbind (get_provider vs user_id connection_id) (\<lambda>p. pv_get_secret p item_id)"

definition test_connection :: "vault_service \<Rightarrow> string \<Rightarrow> string \<Rightarrow> ('w, unit) vault_op" where
  "test_connection vs user_id connection_id =
     qbind (get_provider vs user_id connection_id) pv_test"

definition search_items :: "vault_service \<Rightarrow> string \<Rightarrow> string \<Rightarrow> string \<Rightarrow> nat \<Rightarrow> ('w, vault_item list) vault_op" where
  "search_items vs user_id connection_id query max_results =
     qbind (get_provider vs user_id connection_id) (\<lambda>p. pv_search p query max_results)"

section \<open>Connections\<close>

record connection_response =
  cr_id :: string
  cr_name :: string
  cr_provider :: provider_type
  cr_enabled :: bool
  cr_system_managed :: bool
  cr_created_at :: int
  cr_updated_at :: int

definition to_connection_response :: "connection \<Rightarrow> connection_response" where
  "to_connection_response c = \<lparr>cr_id = cn_id c, cr_name = cn_name c, cr_provider = cn_provider c,
     cr_enabled = cn_enabled c, cr_system_managed = cn_system_managed c, cr_created_at = cn_created_at c,
     cr_updated_at = cn_updated_at c\<rparr>"

definition create_connection ::
  "vault_service \<Rightarrow> string \<Rightarrow> string \<Rightarrow> provider_type \<Rightarrow> connection_config \<Rightarrow> ('w, connection_response) vault_op" where
  "create_connection vs user_id name prov cfg =
     (if (prov = Managed) \<noteq> (cfg = ManagedConfig) then fail (Validation ''managed vault config requires managed provider'')
      else qbind (encrypt_config vs cfg) (\<lambda>(encrypted, nonce).
           qbind (gets clock) (\<lambda>now.
           qbind new_id (\<lambda>i.
           qbind (repo_create connections connections_update cn_id
             \<lparr>cn_id = i, cn_user_id = user_id, cn_name = name, cn_provider = prov,
              cn_config_encrypted = encrypted, cn_nonce = nonce, cn_enabled = True,
              cn_system_managed = False, cn_created_at = now, cn_updated_at = now\<rparr>)
             (\<lambda>c. ret (to_connection_response c))))))"

definition get_connection :: "string \<Rightarrow> string \<Rightarrow> ('w, connection) vault_op" where
  "get_connection user_id connection_id =
     qbind (find_or connections cn_id (NotFound ''vault connection'') connection_id) (\<lambda>c.
     if \<not> cn_enabled c \<or> (\<not> cn_system_managed c \<and> cn_user_id c \<noteq> user_id)
     then fail (Forbidden ''vault connection unavailable'') else ret c)"

definition list_connections :: "string \<Rightarrow> ('w, connection_response list) vault_op" where
  "list_connections user_id = qbind (find_all_for_user user_id) (\<lambda>cs. ret (map to_connection_response cs))"

definition delete_connection :: "string \<Rightarrow> string \<Rightarrow> ('w, unit) vault_op" where
  "delete_connection user_id connection_id =
     qbind (find_or connections cn_id (NotFound ''Vault connection not found'') connection_id) (\<lambda>c.
     if cn_system_managed c then fail (Validation ''Cannot delete system-managed connections'')
     else if cn_user_id c \<noteq> user_id then fail (Forbidden ''Not your vault connection'')
     else if cn_provider c = Managed then delete_managed_connection (cn_id c) user_id
     else qbind (delete_grants_by_connection connection_id) (\<lambda>_.
          repo_delete connections_update cn_id connection_id))"

definition toggle_connection :: "string \<Rightarrow> string \<Rightarrow> bool \<Rightarrow> ('w, connection_response) vault_op" where
  "toggle_connection user_id connection_id enabled =
     qbind (find_or connections cn_id (NotFound ''Vault connection not found'') connection_id) (\<lambda>c.
     if cn_user_id c \<noteq> user_id then fail (Forbidden ''Not your vault connection'')
     else qbind (gets clock) (\<lambda>now.
          qbind (repo_update connections_update cn_id (c\<lparr>cn_enabled := enabled, cn_updated_at := now\<rparr>)) (\<lambda>c'.
          ret (to_connection_response c'))))"

text \<open>The search over all vaults goes on past the ones that fail.\<close>

fun search_each :: "vault_service \<Rightarrow> string \<Rightarrow> string \<Rightarrow> nat \<Rightarrow> connection_response list \<Rightarrow> ('w, (string \<times> vault_item) list) vault_op" where
  "search_each vs user_id query n [] = ret []"
| "search_each vs user_id query n (c # cs) =
     (if \<not> cr_enabled c then search_each vs user_id query n cs
      else qbind (or_default [] (search_items vs user_id (cr_id c) query n)) (\<lambda>items.
           qbind (search_each vs user_id query n cs) (\<lambda>rest.
           ret (map (Pair (cr_id c)) items @ rest))))"

definition search_all :: "vault_service \<Rightarrow> string \<Rightarrow> string \<Rightarrow> nat \<Rightarrow> ('w, (string \<times> vault_item) list) vault_op" where
  "search_all vs user_id query max_results =
     qbind (list_connections user_id) (\<lambda>cs.
     qbind (search_each vs user_id query max_results cs) (\<lambda>results.
     ret (take max_results results)))"

text \<open>The vaults of the configuration, and the start-up step that brings the table in line.\<close>

definition GLOBAL_CONNECTION_ID :: string where "GLOBAL_CONNECTION_ID = ''managed''"

definition config_connection_entries :: "vault_settings \<Rightarrow> (string \<times> provider_type \<times> string \<times> connection_config) list" where
  "config_connection_entries st =
     [(GLOBAL_CONNECTION_ID, Managed, ''Managed credentials (shared)'', ManagedConfig)] @
     (case onepassword_service_account_token st of
        Some token \<Rightarrow> [(''onepassword'', OnePassword, ''1Password'', OnePasswordConfig token (onepassword_vault_id st))]
      | None \<Rightarrow> []) @
     (case (bitwarden_client_id st, bitwarden_client_secret st, bitwarden_master_password st) of
        (Some i, Some secret, Some password) \<Rightarrow>
          [(''bitwarden'', Bitwarden, ''Bitwarden'', BitwardenConfig i secret password (bitwarden_server_url st))]
      | _ \<Rightarrow> []) @
     (case (hashicorp_address st, hashicorp_token st) of
        (Some address, Some token) \<Rightarrow>
          [(''hashicorp'', Hashicorp, ''HashiCorp Vault'', HashicorpConfig address token (hashicorp_mount st))]
      | _ \<Rightarrow> []) @
     (case (keepass_path st, keepass_password st) of
        (Some path, Some password) \<Rightarrow> [(''keepass'', KeePass, ''KeePass'', KeePassConfig path password)]
      | _ \<Rightarrow> [])"

definition system_connection :: "string \<Rightarrow> provider_type \<Rightarrow> string \<Rightarrow> string \<Rightarrow> string \<Rightarrow> int \<Rightarrow> connection" where
  "system_connection i prov name encrypted nonce now =
     \<lparr>cn_id = i, cn_user_id = ''system'', cn_name = name, cn_provider = prov, cn_config_encrypted = encrypted,
      cn_nonce = nonce, cn_enabled = True, cn_system_managed = True, cn_created_at = now, cn_updated_at = now\<rparr>"

definition sync_entry ::
  "vault_service \<Rightarrow> string list \<Rightarrow> int \<Rightarrow> string \<times> provider_type \<times> string \<times> connection_config \<Rightarrow> ('w, unit) vault_op" where
  "sync_entry vs existing_ids now entry =
     (case entry of (i, prov, name, cfg) \<Rightarrow>
        qbind (encrypt_config vs cfg) (\<lambda>(encrypted, nonce).
        (let c = system_connection i prov name encrypted nonce now
         in if i \<in> set existing_ids
            then qbind (repo_update connections_update cn_id c) (\<lambda>_. ret ())
            else qbind (repo_create connections connections_update cn_id c) (\<lambda>_. ret ()))))"

definition disable_removed :: "string list \<Rightarrow> int \<Rightarrow> connection \<Rightarrow> ('w, unit) vault_op" where
  "disable_removed desired_ids now c =
     (if cn_id c \<notin> set desired_ids \<and> cn_id c \<noteq> ''local'' \<and> cn_enabled c
      then qbind (repo_update connections_update cn_id (c\<lparr>cn_enabled := False, cn_updated_at := now\<rparr>)) (\<lambda>_. ret ())
      else ret ())"

definition sync_config_connections :: "vault_service \<Rightarrow> ('w, unit) vault_op" where
  "sync_config_connections vs =
     qbind (gets clock) (\<lambda>now.
     let desired = config_connection_entries (vs_settings vs)
     in qbind find_system_managed (\<lambda>existing.
        let existing_ids = map cn_id existing
        in qbind (for_each desired (sync_entry vs existing_ids now)) (\<lambda>_.
           qbind (for_each existing (disable_removed (map fst desired) now)) (\<lambda>_.
           if ''local'' \<notin> set existing_ids
           then qbind (repo_create connections connections_update cn_id
                  (system_connection ''local'' Local ''Local Credentials'' [] [] now)) (\<lambda>_. ret ())
           else ret ()))))"

section \<open>Grants\<close>

definition ensure_non_user_principal :: "principal \<Rightarrow> ('w, unit) vault_op" where
  "ensure_non_user_principal p =
     (if pr_kind p = UserKind then fail (Validation ''vault grants and bindings cannot target the User principal kind'')
      else ret ())"

definition find_matching_grant :: "string \<Rightarrow> principal \<Rightarrow> string \<Rightarrow> ('w, vault_grant option) vault_op" where
  "find_matching_grant user_id p query =
     qbind (ensure_non_user_principal p) (\<lambda>_.
     qbind (matching_grant user_id p query) (\<lambda>found.
     case found of
       None \<Rightarrow> ret None
     | Some g \<Rightarrow>
         qbind (gets clock) (\<lambda>now.
         if (case gr_expires_at g of Some e \<Rightarrow> e < now | None \<Rightarrow> False)
         then qbind (repo_delete grants_update gr_id (gr_id g)) (\<lambda>_. ret None)
         else qbind (repo_find_by_id connections cn_id (gr_connection_id g)) (\<lambda>conn.
              if (case conn of Some c \<Rightarrow> \<not> cn_enabled c | None \<Rightarrow> True) then ret None else ret (Some g)))))"

text \<open>\<open>Utc::now() + Duration::hours(h as i64)\<close> and the same for days, with their panics.\<close>

definition after_secs :: "vault_service \<Rightarrow> int \<Rightarrow> int \<Rightarrow> string \<Rightarrow> app_error + int" where
  "after_secs vs now secs what =
     (if secs < - ((2 ^ 63 - 1) div 1000) \<or> (2 ^ 63 - 1) div 1000 < secs then Inl (panicked what)
      else if now + 1000 * secs < vs_min_time vs \<or> vs_max_time vs < now + 1000 * secs
      then Inl (panicked ''DateTime + TimeDelta overflowed'')
      else Inr (now + 1000 * secs))"

definition grant_expiry :: "vault_service \<Rightarrow> int \<Rightarrow> grant_duration \<Rightarrow> app_error + int option" where
  "grant_expiry vs now d =
     (case d of
        Once \<Rightarrow> Inl (Validation ''Once duration does not create grants; use log_access() instead'')
      | Hours h \<Rightarrow> map_sum id Some (after_secs vs now (3600 * as_i64 h) ''TimeDelta::hours out of bounds'')
      | Days d \<Rightarrow> map_sum id Some (after_secs vs now (86400 * as_i64 d) ''TimeDelta::days out of bounds'')
      | Permanent \<Rightarrow> Inr None)"

definition create_grant ::
  "vault_service \<Rightarrow> string \<Rightarrow> principal \<Rightarrow> string \<Rightarrow> string \<Rightarrow> string \<Rightarrow> grant_duration \<Rightarrow> ('w, vault_grant) vault_op" where
  "create_grant vs user_id p connection_id item_id query duration =
     qbind (ensure_non_user_principal p) (\<lambda>_.
     qbind (gets clock) (\<lambda>now.
     qbind (from_result (grant_expiry vs now duration)) (\<lambda>expires_at.
     qbind new_id (\<lambda>i.
     repo_create grants grants_update gr_id
       \<lparr>gr_id = i, gr_user_id = user_id, gr_connection_id = connection_id, gr_item_id = item_id,
        gr_principal = p, gr_query = query, gr_expires_at = expires_at, gr_created_at = now\<rparr>))))"

definition has_grant_for_item :: "string \<Rightarrow> principal \<Rightarrow> string \<Rightarrow> string \<Rightarrow> ('w, bool) vault_op" where
  "has_grant_for_item user_id p connection_id item_id =
     qbind (ensure_non_user_principal p) (\<lambda>_.
     qbind (grants_of_principal user_id p) (\<lambda>gs.
     qbind (gets clock) (\<lambda>now.
     ret (list_ex (\<lambda>g. gr_connection_id g = connection_id \<and> gr_item_id g = item_id
       \<and> unexpired now (gr_expires_at g)) gs))))"

definition delete_grants_for_principal :: "string \<Rightarrow> principal \<Rightarrow> ('w, unit) vault_op" where
  "delete_grants_for_principal user_id p =
     qbind (ensure_non_user_principal p) (\<lambda>_. delete_grants_by_principal user_id p)"

definition log_access ::
  "string \<Rightarrow> principal \<Rightarrow> string \<Rightarrow> string \<Rightarrow> string \<Rightarrow> string option \<Rightarrow> string \<Rightarrow> string \<Rightarrow> ('w, access_log) vault_op" where
  "log_access user_id p chat_id connection_id item_id pre query reason =
     qbind (ensure_non_user_principal p) (\<lambda>_.
     qbind new_id (\<lambda>i.
     qbind (gets clock) (\<lambda>now.
     repo_create access_logs access_logs_update lg_id
       \<lparr>lg_id = i, lg_user_id = user_id, lg_principal = p, lg_chat_id = chat_id, lg_connection_id = connection_id,
        lg_item_id = item_id, lg_env_var_prefix = pre, lg_query = query, lg_reason = reason, lg_created_at = now\<rparr>)))"

definition find_existing_access :: "string \<Rightarrow> string \<Rightarrow> string option \<Rightarrow> ('w, access_log option) vault_op" where
  "find_existing_access chat_id query pre = find_by_chat_and_query chat_id query pre"

section \<open>Bindings\<close>

definition create_binding ::
  "string \<Rightarrow> principal \<Rightarrow> string \<Rightarrow> string \<Rightarrow> string \<Rightarrow> credential_target \<Rightarrow> binding_scope \<Rightarrow> int option
   \<Rightarrow> ('w, binding) vault_op" where
  "create_binding user_id p query connection_id item_id target scope expires_at =
     qbind (ensure_non_user_principal p) (\<lambda>_.
     qbind new_id (\<lambda>i.
     qbind (gets clock) (\<lambda>now.
     repo_create bindings bindings_update bi_id
       \<lparr>bi_id = i, bi_user_id = user_id, bi_principal = p, bi_query = query, bi_connection_id = connection_id,
        bi_item_id = item_id, bi_target = target, bi_scope = scope, bi_expires_at = expires_at, bi_created_at = now\<rparr>)))"

definition find_binding :: "string \<Rightarrow> principal \<Rightarrow> string \<Rightarrow> string option \<Rightarrow> ('w, binding option) vault_op" where
  "find_binding user_id p query chat_id =
     qbind (ensure_non_user_principal p) (\<lambda>_. find_for_lookup user_id p query chat_id)"

definition list_bindings_for_principal :: "string \<Rightarrow> principal \<Rightarrow> ('w, binding list) vault_op" where
  "list_bindings_for_principal user_id p =
     qbind (ensure_non_user_principal p) (\<lambda>_. find_for_principal user_id p)"

definition delete_bindings_for_principal :: "string \<Rightarrow> principal \<Rightarrow> ('w, unit) vault_op" where
  "delete_bindings_for_principal user_id p =
     qbind (ensure_non_user_principal p) (\<lambda>_. delete_bindings_by_principal user_id p)"

definition startup_bindings :: "string \<Rightarrow> principal \<Rightarrow> string option \<Rightarrow> ('w, binding list) vault_op" where
  "startup_bindings user_id p chat_id =
     qbind (ensure_non_user_principal p) (\<lambda>_.
     case chat_id of
       Some c \<Rightarrow> find_for_chat user_id p c
     | None \<Rightarrow> qbind (find_for_principal user_id p) (\<lambda>bs. ret (filter (\<lambda>b. bi_scope b = Durable) bs)))"

section \<open>Resolving secrets\<close>

definition denied :: "binding \<Rightarrow> app_error" where
  "denied b = Forbidden (''vault binding '' @ bi_id b @ '' is no longer authorized'')"

text \<open>The arms of the match on the scope, and whether the row still says what was read.\<close>

definition scope_allows :: "string \<Rightarrow> principal \<Rightarrow> binding \<Rightarrow> string option \<Rightarrow> ('w, bool) vault_op" where
  "scope_allows user_id p current chat_id =
     (case bi_scope current of
        ChatScope expected \<Rightarrow> ret (chat_id = Some expected)
      | Durable \<Rightarrow> has_grant_for_item user_id p (bi_connection_id current) (bi_item_id current))"

definition unchanged :: "int \<Rightarrow> string \<Rightarrow> principal \<Rightarrow> binding \<Rightarrow> binding \<Rightarrow> bool" where
  "unchanged now user_id p b current \<longleftrightarrow> bi_user_id current = user_id \<and> bi_principal current = p
     \<and> bi_connection_id current = bi_connection_id b \<and> bi_item_id current = bi_item_id b
     \<and> bi_target current = bi_target b \<and> bi_scope current = bi_scope b
     \<and> unexpired now (bi_expires_at current)"

definition authorize_binding :: "string \<Rightarrow> principal \<Rightarrow> binding \<Rightarrow> string option \<Rightarrow> ('w, unit) vault_op" where
  "authorize_binding user_id p b chat_id =
     qbind (ensure_non_user_principal p) (\<lambda>_.
     qbind (find_or bindings bi_id (denied b) (bi_id b)) (\<lambda>current.
     qbind (gets clock) (\<lambda>now.
     if \<not> unchanged now user_id p b current then fail (denied b)
     else qbind (scope_allows user_id p current chat_id) (\<lambda>allowed.
          if \<not> allowed then fail (denied b)
          else qbind (find_or connections cn_id (denied b) (bi_connection_id current)) (\<lambda>c.
               if \<not> cn_enabled c \<or> (\<not> cn_system_managed c \<and> cn_user_id c \<noteq> user_id) then fail (denied b)
               else ret ())))))"

definition project :: "vault_service \<Rightarrow> vault_secret \<Rightarrow> credential_target \<Rightarrow> ('w, (string \<times> string) list) vault_op" where
  "project vs s target = from_result (project_target (upper_of (vs_lib vs)) s target)"

definition resolve_binding ::
  "vault_service \<Rightarrow> string \<Rightarrow> principal \<Rightarrow> binding \<Rightarrow> string option \<Rightarrow> ('w, vault_secret) vault_op" where
  "resolve_binding vs user_id p b chat_id =
     qbind (authorize_binding user_id p b chat_id) (\<lambda>_.
     qbind (get_secret vs user_id (bi_connection_id b) (bi_item_id b)) (\<lambda>s.
     qbind (authorize_binding user_id p b chat_id) (\<lambda>_.
     qbind (project vs s (bi_target b)) (\<lambda>_. ret s))))"

fun collect_env ::
  "vault_service \<Rightarrow> string \<Rightarrow> principal \<Rightarrow> string option \<Rightarrow> binding list \<Rightarrow> ('w, (string \<times> string) list) vault_op" where
  "collect_env vs user_id p chat_id [] = ret []"
| "collect_env vs user_id p chat_id (b # bs) =
     qbind (with_err (\<lambda>_. Validation (''required vault binding '' @ bi_id b @ '' for item '' @ bi_item_id b @ '' could not be resolved''))
              (resolve_binding vs user_id p b chat_id)) (\<lambda>s.
     qbind (project vs s (bi_target b)) (\<lambda>vars.
     qbind (collect_env vs user_id p chat_id bs) (\<lambda>rest. ret (vars @ rest))))"

definition resolve_env :: "vault_service \<Rightarrow> string \<Rightarrow> principal \<Rightarrow> string option \<Rightarrow> ('w, (string \<times> string) list) vault_op" where
  "resolve_env vs user_id p chat_id =
     qbind (startup_bindings user_id p chat_id) (\<lambda>bs.
     qbind (collect_env vs user_id p chat_id bs) (\<lambda>env.
     qbind (for_each bs (\<lambda>b. authorize_binding user_id p b chat_id)) (\<lambda>_.
     qbind (startup_bindings user_id p chat_id) (\<lambda>current.
     if set (map bi_id current) \<noteq> set (map bi_id bs) then fail (Conflict ''vault bindings changed during startup'')
     else ret env))))"

definition principal_agent :: "string \<Rightarrow> principal" where
  "principal_agent i = \<lparr>pr_kind = AgentKind, pr_id = i\<rparr>"

text \<open>The delegation of an owner's durable bindings skips what it cannot resolve.\<close>

fun delegated_env ::
  "vault_service \<Rightarrow> string \<Rightarrow> principal \<Rightarrow> string \<Rightarrow> binding list \<Rightarrow> ('w, (string \<times> string) list) vault_op" where
  "delegated_env vs owner_id p chat_id [] = ret []"
| "delegated_env vs owner_id p chat_id (b # bs) =
     qbind (attempted (resolve_binding vs owner_id p b (Some chat_id))) (\<lambda>resolved.
     case resolved of
       Inl e \<Rightarrow> delegated_env vs owner_id p chat_id bs
     | Inr s \<Rightarrow>
         (case project_target (upper_of (vs_lib vs)) s (bi_target b) of
            Inl e \<Rightarrow> delegated_env vs owner_id p chat_id bs
          | Inr vars \<Rightarrow>
              qbind (ignore (log_access owner_id p chat_id (bi_connection_id b) (bi_item_id b) None (bi_query b)
                       ''Shared-agent credential delegation'')) (\<lambda>_.
              qbind (delegated_env vs owner_id p chat_id bs) (\<lambda>rest. ret (vars @ rest)))))"

definition resolve_delegated_env :: "vault_service \<Rightarrow> string \<Rightarrow> string \<Rightarrow> string \<Rightarrow> ('w, (string \<times> string) list) vault_op" where
  "resolve_delegated_env vs owner_id agent_id chat_id =
     qbind (find_for_principal owner_id (principal_agent agent_id)) (\<lambda>bs.
     delegated_env vs owner_id (principal_agent agent_id) chat_id (filter (\<lambda>b. bi_scope b = Durable) bs))"

text \<open>
  The environment of an agent's session (\<open>chat/session.rs\<close>): what cannot be resolved as a whole is
  left out as a whole.
\<close>

definition session_env ::
  "vault_service \<Rightarrow> string \<Rightarrow> string \<Rightarrow> string \<Rightarrow> string option \<Rightarrow> ('w, (string \<times> string) list) vault_op" where
  "session_env vs user_id agent_id chat_id delegated_owner =
     qbind (or_default [] (resolve_env vs user_id (principal_agent agent_id) (Some chat_id))) (\<lambda>env.
     case delegated_owner of
       None \<Rightarrow> ret env
     | Some owner_id \<Rightarrow>
         qbind (or_default [] (resolve_delegated_env vs owner_id agent_id chat_id)) (\<lambda>delegated. ret (env @ delegated)))"

section \<open>Listing and revoking grants\<close>

record grant_response =
  rg_id :: string
  rg_connection_id :: string
  rg_item_id :: string
  rg_principal :: principal
  rg_query :: string
  rg_target :: "credential_target option"
  rg_expires_at :: "int option"
  rg_created_at :: int

definition to_grant_response :: "vault_grant \<Rightarrow> grant_response" where
  "to_grant_response g = \<lparr>rg_id = gr_id g, rg_connection_id = gr_connection_id g, rg_item_id = gr_item_id g,
     rg_principal = gr_principal g, rg_query = gr_query g, rg_target = None, rg_expires_at = gr_expires_at g,
     rg_created_at = gr_created_at g\<rparr>"

fun collect_bindings :: "string \<Rightarrow> principal list \<Rightarrow> principal list \<Rightarrow> ('w, binding list) vault_op" where
  "collect_bindings user_id seen [] = ret []"
| "collect_bindings user_id seen (p # ps) =
     (if p \<in> set seen then collect_bindings user_id seen ps
      else qbind (or_default [] (find_for_principal user_id p)) (\<lambda>bs.
           qbind (collect_bindings user_id (p # seen) ps) (\<lambda>rest. ret (bs @ rest))))"

definition with_target :: "binding list \<Rightarrow> grant_response \<Rightarrow> grant_response" where
  "with_target bs r =
     (case find (\<lambda>b. bi_connection_id b = rg_connection_id r \<and> bi_item_id b = rg_item_id r \<and> bi_query b = rg_query r) bs of
        Some b \<Rightarrow> r\<lparr>rg_target := Some (bi_target b)\<rparr>
      | None \<Rightarrow> r)"

definition list_grants :: "string \<Rightarrow> ('w, grant_response list) vault_op" where
  "list_grants user_id =
     qbind (grants_of_user user_id) (\<lambda>gs.
     let responses = map to_grant_response gs
     in qbind (collect_bindings user_id [] (map rg_principal responses)) (\<lambda>bs.
        ret (map (with_target bs) responses)))"

definition revoke_grant :: "string \<Rightarrow> string \<Rightarrow> ('w, unit) vault_op" where
  "revoke_grant user_id grant_id =
     qbind (find_or grants gr_id (NotFound ''Grant not found'') grant_id) (\<lambda>g.
     if gr_user_id g \<noteq> user_id then fail (Forbidden ''Not your grant'')
     else qbind (delete_for_item user_id (gr_principal g) (gr_connection_id g) (gr_item_id g)) (\<lambda>_.
          repo_delete grants_update gr_id grant_id))"

section \<open>Local credentials\<close>

datatype create_item =
    NewUsernamePassword string string string
  | NewApiKey string string
  | NewBrowserProfile string

datatype update_item =
    SetUsernamePassword string string "string option"
  | SetApiKey string "string option"
  | SetBrowserProfile string

datatype credential_response_data = ShownBrowserProfile | ShownUsernamePassword string | ShownApiKey

record credential_response =
  rc_id :: string
  rc_name :: string
  rc_provider :: string
  rc_data :: credential_response_data
  rc_created_at :: int
  rc_updated_at :: int

definition to_credential_response :: "credential \<Rightarrow> credential_response" where
  "to_credential_response c = \<lparr>rc_id = cd_id c, rc_name = cd_name c, rc_provider = cd_provider c,
     rc_data = (case cd_data c of BrowserProfile \<Rightarrow> ShownBrowserProfile
                | UsernamePassword u _ \<Rightarrow> ShownUsernamePassword u | ApiKey _ \<Rightarrow> ShownApiKey),
     rc_created_at = cd_created_at c, rc_updated_at = cd_updated_at c\<rparr>"

definition new_item :: "vault_service \<Rightarrow> create_item \<Rightarrow> ('w, string \<times> string \<times> credential_data) vault_op" where
  "new_item vs req =
     (case req of
        NewBrowserProfile name \<Rightarrow> ret (name, ''browser'', BrowserProfile)
      | NewUsernamePassword name username password \<Rightarrow>
          qbind (encrypt_password vs password) (\<lambda>enc. ret (name, ''local'', UsernamePassword username enc))
      | NewApiKey name key \<Rightarrow>
          qbind (encrypt_password vs key) (\<lambda>enc. ret (name, ''local'', ApiKey enc)))"

definition create_credential :: "vault_service \<Rightarrow> string \<Rightarrow> create_item \<Rightarrow> ('w, credential_response) vault_op" where
  "create_credential vs user_id req =
     qbind (gets clock) (\<lambda>now.
     qbind (new_item vs req) (\<lambda>(name, prov, data).
     qbind new_id (\<lambda>i.
     qbind (repo_create credentials credentials_update cd_id
       \<lparr>cd_id = i, cd_user_id = user_id, cd_name = name, cd_provider = prov, cd_data = data,
        cd_created_at = now, cd_updated_at = now\<rparr>) (\<lambda>c.
     ret (to_credential_response c)))))"

definition list_credentials :: "string \<Rightarrow> ('w, credential_response list) vault_op" where
  "list_credentials user_id = qbind (credentials_of user_id) (\<lambda>cs. ret (map to_credential_response cs))"

definition find_credential_by_id :: "string \<Rightarrow> ('w, credential option) vault_op" where
  "find_credential_by_id i = repo_find_by_id credentials cd_id i"

text \<open>What an update stores: without a new secret the old one stays, if it is of the same kind.\<close>

definition updated_item ::
  "vault_service \<Rightarrow> credential_data \<Rightarrow> update_item \<Rightarrow> ('w, string \<times> string \<times> credential_data) vault_op" where
  "updated_item vs old req =
     (case req of
        SetBrowserProfile name \<Rightarrow> ret (name, ''browser'', BrowserProfile)
      | SetUsernamePassword name username password \<Rightarrow>
          qbind (case password of
                   Some pw \<Rightarrow> encrypt_password vs pw
                 | None \<Rightarrow> (case old of UsernamePassword _ enc \<Rightarrow> ret enc
                            | _ \<Rightarrow> fail (Validation ''Credential type mismatch''))) (\<lambda>enc.
          ret (name, ''local'', UsernamePassword username enc))
      | SetApiKey name key \<Rightarrow>
          qbind (case key of
                   Some k \<Rightarrow> encrypt_password vs k
                 | None \<Rightarrow> (case old of ApiKey enc \<Rightarrow> ret enc
                            | _ \<Rightarrow> fail (Validation ''Credential type mismatch''))) (\<lambda>enc.
          ret (name, ''local'', ApiKey enc)))"

definition update_credential ::
  "vault_service \<Rightarrow> string \<Rightarrow> string \<Rightarrow> update_item \<Rightarrow> ('w, credential_response) vault_op" where
  "update_credential vs user_id credential_id req =
     qbind (find_or credentials cd_id (NotFound ''Credential not found'') credential_id) (\<lambda>existing.
     if cd_user_id existing \<noteq> user_id then fail (Forbidden ''Not your credential'')
     else qbind (gets clock) (\<lambda>now.
          qbind (updated_item vs (cd_data existing) req) (\<lambda>(name, prov, data).
          qbind (repo_update credentials_update cd_id
            \<lparr>cd_id = cd_id existing, cd_user_id = cd_user_id existing, cd_name = name, cd_provider = prov,
             cd_data = data, cd_created_at = cd_created_at existing, cd_updated_at = now\<rparr>) (\<lambda>c.
          ret (to_credential_response c)))))"

definition delete_credential :: "string \<Rightarrow> string \<Rightarrow> ('w, unit) vault_op" where
  "delete_credential user_id credential_id =
     qbind (find_or credentials cd_id (NotFound ''Credential not found'') credential_id) (\<lambda>c.
     if cd_user_id c \<noteq> user_id then fail (Forbidden ''Not your credential'')
     else repo_delete credentials_update cd_id credential_id)"

section \<open>Handlers\<close>

definition create_grant_route ::
  "vault_service \<Rightarrow> string \<Rightarrow> principal \<Rightarrow> string \<Rightarrow> string \<Rightarrow> string \<Rightarrow> credential_target \<Rightarrow> ('w, grant_response) vault_op" where
  "create_grant_route vs user_id p connection_id item_id query target =
     qbind (create_grant vs user_id p connection_id item_id query Permanent) (\<lambda>g.
     qbind (create_binding user_id p query connection_id item_id target Durable None) (\<lambda>_.
     ret (to_grant_response g)))"

definition item_fields :: "vault_service \<Rightarrow> string \<Rightarrow> string \<Rightarrow> string \<Rightarrow> ('w, string list) vault_op" where
  "item_fields vs user_id connection_id item_id =
     qbind (get_secret vs user_id connection_id item_id) (\<lambda>s. ret (field_names (upper_of (vs_lib vs)) s))"

definition list_local_items :: "vault_service \<Rightarrow> string \<Rightarrow> string \<Rightarrow> nat \<Rightarrow> ('w, credential_response list) vault_op" where
  "list_local_items vs user_id query max_results =
     qbind (list_credentials user_id) (\<lambda>cs.
     (let q = to_lowercase (lower_of (vs_lib vs)) query
      in ret (take max_results
           (filter (\<lambda>c. contains_lower vs q (rc_name c) \<or> contains_lower vs q (rc_provider c)) cs))))"

section \<open>Operations that only read the tables\<close>

lemma read_only_scope [read_rules]: "read_only (scope_allows u p b chat)"
  unfolding scope_allows_def has_grant_for_item_def ensure_non_user_principal_def grants_of_principal_def
  by (auto intro!: read_rules split: binding_scope.split)

lemma read_only_authorize [read_rules]: "read_only (authorize_binding u p b chat)"
  unfolding authorize_binding_def ensure_non_user_principal_def by (intro read_rules)

lemma read_only_startup [read_rules]: "read_only (startup_bindings u p chat)"
  unfolding startup_bindings_def ensure_non_user_principal_def find_for_chat_def find_for_principal_def
  by (auto intro!: read_rules split: option.split)

end
