(* ===== verification/Policy_Model.thy ===== *)
theory Policy_Model
  imports Vault_Service "HOL-Library.AList" "HOL-Library.Char_ord" "HOL-Library.List_Lexorder" "HOL-Library.Product_Lexorder"
begin

text \<open>
  Policies, \<open>policy/models.rs\<close> and \<open>policy/reconcile.rs\<close>: the rows users and the server write in
  the Cedar language, and the planner that turns a wanted decision (\<open>AccessGroup\<close>) into rows to
  delete and rows to create.

  The Cedar engine is a library, the record \<open>cedar_lib\<close>: its parser, its printer and its
  decision procedures. A Cedar policy is seen through the parts its API shows, a condition as the
  JSON the library gives for it. The steps of the planner run on the planned edits, which are
  lists in the code too.
\<close>

section \<open>The Cedar library\<close>

datatype effect = Permit | Forbid

text \<open>An entity is named by its type and its id.\<close>

type_synonym uid = "string \<times> string"

datatype scope = AnyScope | EqScope uid | InScope uid | IsScope string | IsInScope string uid

datatype action_scope = AnyAction | EqAction uid | InActions "uid list"

record cedar_policy =
  cp_annotations :: "(string \<times> string) list"
  cp_effect :: effect
  cp_principal :: scope
  cp_action :: action_scope
  cp_resource :: scope
  cp_conditions :: "(string \<times> json) list"

datatype attribute = BoolAttr bool | StringAttr string | SetAttr "string list" | EntityAttr uid

record cedar_entity =
  en_uid :: uid
  en_attrs :: "(string \<times> attribute) list"
  en_parents :: "uid list"

record cedar_request =
  rq_principal :: uid
  rq_action :: uid
  rq_resource :: uid
  rq_context :: "(string \<times> string list) list"

text \<open>
  \<open>is_authorized\<close> gives whether the decision is to allow, and the errors of its diagnostics;
  \<open>partial_residuals\<close> and \<open>partial_satisfied\<close> belong to the partial evaluation of a request whose
  resource is only known by its type.
\<close>

record cedar_lib =
  parse_policies :: "string \<Rightarrow> string + cedar_policy list"
  print_policy :: "cedar_policy \<Rightarrow> string"
  parse_uid :: "string \<Rightarrow> uid option"
  add_error :: "cedar_policy list \<Rightarrow> cedar_policy \<Rightarrow> string option"
  entities_ok :: "cedar_entity list \<Rightarrow> bool"
  request_error :: "cedar_request \<Rightarrow> string option"
  is_authorized :: "cedar_policy list \<Rightarrow> cedar_request \<Rightarrow> cedar_entity list \<Rightarrow> bool \<times> string list"
  partial_residuals :: "cedar_policy list \<Rightarrow> cedar_entity \<Rightarrow> uid \<Rightarrow> string \<Rightarrow> cedar_policy list"
  partial_satisfied :: "cedar_policy list \<Rightarrow> cedar_entity \<Rightarrow> uid \<Rightarrow> string \<Rightarrow> cedar_policy list"
  sha256 :: "string \<Rightarrow> string"
  rfc3339 :: "int \<Rightarrow> string"

definition from_entities :: "cedar_lib \<Rightarrow> cedar_entity list \<Rightarrow> cedar_entity list" where
  "from_entities lib es = (if entities_ok lib es then es else [])"

fun add_policies :: "cedar_lib \<Rightarrow> cedar_policy list \<Rightarrow> cedar_policy list \<Rightarrow> app_error + cedar_policy list" where
  "add_policies lib ps [] = Inr ps"
| "add_policies lib ps (m # ms) =
     (case add_error lib ps m of
        Some e \<Rightarrow> Inl (Internal (''Failed to add managed policy: '' @ e))
      | None \<Rightarrow> add_policies lib (ps @ [m]) ms)"

section \<open>Rows\<close>

record policy =
  po_id :: string
  po_user_id :: "string option"
  po_name :: string
  po_description :: string
  po_text :: string
  po_enabled :: bool
  po_created_at :: int
  po_updated_at :: int

section \<open>Entities and intents\<close>

datatype access_intent = Allow | Deny | Default

datatype entity_ref =
    AgentRef string
  | McpRef string
  | AppRef string
  | UserRef string
  | PathRef string
  | ToolRef string
  | ToolGroupRef string
  | NetworkDestinationRef string

definition agent_ref :: "string \<Rightarrow> string \<Rightarrow> entity_ref" where
  "agent_ref user_handle agent_handle = AgentRef (user_handle @ ''/'' @ agent_handle)"

fun cedar_type :: "entity_ref \<Rightarrow> string" where
  "cedar_type (AgentRef s) = ''Policy::Agent''"
| "cedar_type (McpRef s) = ''Policy::Mcp''"
| "cedar_type (AppRef s) = ''Policy::App''"
| "cedar_type (UserRef s) = ''Policy::User''"
| "cedar_type (PathRef s) = ''Policy::Path''"
| "cedar_type (ToolRef s) = ''Policy::Tool''"
| "cedar_type (ToolGroupRef s) = ''Policy::ToolGroup''"
| "cedar_type (NetworkDestinationRef s) = ''Policy::NetworkDestination''"

fun ref_id :: "entity_ref \<Rightarrow> string" where
  "ref_id (AgentRef s) = s"
| "ref_id (McpRef s) = s"
| "ref_id (AppRef s) = s"
| "ref_id (UserRef s) = s"
| "ref_id (PathRef s) = s"
| "ref_id (ToolRef s) = s"
| "ref_id (ToolGroupRef s) = s"
| "ref_id (NetworkDestinationRef s) = s"

text \<open>The type and id of a reference, as the comparisons of the code take them.\<close>

definition ref_uid :: "entity_ref \<Rightarrow> uid" where
  "ref_uid r = (cedar_type r, ref_id r)"

lemma ref_uid_inj: "ref_uid r = ref_uid s \<Longrightarrow> r = s"
  by (cases r; cases s) (simp_all add: ref_uid_def)

text \<open>The order by which the planner sorts references: by type, then by id.\<close>

instantiation entity_ref :: linorder
begin

definition less_eq_entity_ref :: "entity_ref \<Rightarrow> entity_ref \<Rightarrow> bool" where
  "less_eq_entity_ref r s \<longleftrightarrow> ref_uid r \<le> ref_uid s"

definition less_entity_ref :: "entity_ref \<Rightarrow> entity_ref \<Rightarrow> bool" where
  "less_entity_ref r s \<longleftrightarrow> ref_uid r < ref_uid s"

instance
  by standard (auto simp: less_eq_entity_ref_def less_entity_ref_def intro: ref_uid_inj)

end

text \<open>\<open>replace('"', "\\\"")\<close>: a backslash before every quote, and nothing before a backslash.\<close>

definition escape_quotes :: "string \<Rightarrow> string" where
  "escape_quotes s = concat (map (\<lambda>c. if c = CHR 0x22 then [CHR 0x5C, CHR 0x22] else [c]) s)"

text \<open>The name of an entity goes through the parser, which panics on one it does not accept.\<close>

definition to_cedar_uid :: "cedar_lib \<Rightarrow> entity_ref \<Rightarrow> string + uid" where
  "to_cedar_uid lib r =
     (case parse_uid lib (cedar_type r @ ''::'' @ CHR 0x22 # escape_quotes (ref_id r) @ [CHR 0x22]) of
        None \<Rightarrow> Inl ''valid entity uid''
      | Some u \<Rightarrow> Inr u)"

definition action_uid :: "cedar_lib \<Rightarrow> string \<Rightarrow> string + uid" where
  "action_uid lib a =
     (case parse_uid lib (''Policy::Action::'' @ CHR 0x22 # a @ [CHR 0x22]) of
        None \<Rightarrow> Inl ''valid action uid''
      | Some u \<Rightarrow> Inr u)"

record access_override =
  ov_resource :: entity_ref
  ov_intent :: access_intent

record access_group =
  ag_principal :: entity_ref
  ag_action :: string
  ag_default :: "access_intent option"
  ag_overrides :: "access_override list"

datatype edit = Create string string | Delete string

datatype conflict_reason = AllowBlockedByForbid | DenyBlockedByPermit

record blocker_policy =
  bp_policy_id :: string
  bp_policy_name :: string

record group_conflict =
  gc_principal :: entity_ref
  gc_action :: string
  gc_failing_resource :: "entity_ref option"
  gc_blockers :: "blocker_policy list"
  gc_reason :: conflict_reason

datatype canonical_shape = PerOverride | Wildcard effect | Carveout effect "entity_ref list"

text \<open>The hash maps of the hierarchy, as association lists; an entry replaces the one under its key.\<close>

record resource_hierarchy =
  hi_parent :: "(entity_ref \<times> entity_ref) list"
  hi_descendants :: "(entity_ref \<times> entity_ref list) list"

definition no_hierarchy :: resource_hierarchy where
  "no_hierarchy = \<lparr>hi_parent = [], hi_descendants = []\<rparr>"

definition hierarchy_add :: "resource_hierarchy \<Rightarrow> entity_ref \<Rightarrow> entity_ref \<Rightarrow> resource_hierarchy" where
  "hierarchy_add h child up =
     \<lparr>hi_parent = AList.update child up (hi_parent h),
      hi_descendants = AList.update up
        ((case map_of (hi_descendants h) up of None \<Rightarrow> [] | Some ds \<Rightarrow> ds) @ [child]) (hi_descendants h)\<rparr>"

record plan_ctx =
  px_live :: "policy list"
  px_managed :: "cedar_policy list"
  px_entities :: "cedar_entity list"
  px_hierarchy :: resource_hierarchy

section \<open>Reading a policy\<close>

definition parse_first :: "cedar_lib \<Rightarrow> string \<Rightarrow> cedar_policy option" where
  "parse_first lib s = (case parse_policies lib s of Inr (p # ps) \<Rightarrow> Some p | _ \<Rightarrow> None)"

text \<open>Either side of the equation may be the resource variable; the other must be an entity.\<close>

definition is_resource_var :: "json \<Rightarrow> bool" where
  "is_resource_var v \<longleftrightarrow> Option.bind (json_get v ''Var'') json_str = Some ''resource''
     \<or> (case Option.bind (json_get v ''unknown'') json_array of
          Some (x # xs) \<Rightarrow> Option.bind (json_get x ''Value'') json_str = Some ''resource''
        | _ \<Rightarrow> False)"

definition extract_entity :: "json \<Rightarrow> uid option" where
  "extract_entity v =
     (case (case Option.bind (json_get v ''Value'') (\<lambda>x. json_get x ''__entity'') of
              Some e \<Rightarrow> Some e | None \<Rightarrow> json_get v ''__entity'') of
        None \<Rightarrow> None
      | Some e \<Rightarrow>
          (case (type_str e, Option.bind (json_get e ''id'') json_str) of
             (Some t, Some i) \<Rightarrow> Some (t, i)
           | _ \<Rightarrow> None))"

definition match_resource_var_eq :: "json \<Rightarrow> json \<Rightarrow> uid option" where
  "match_resource_var_eq l r =
     (if is_resource_var l then extract_entity r
      else if is_resource_var r then extract_entity l
      else None)"

text \<open>The terms of a chain of \<open>||\<close>, and whether all of them are of the expected form.\<close>

function collect_resource_or_terms :: "json \<Rightarrow> bool \<times> uid list" where
  "collect_resource_or_terms node =
     (case json_get node ''||'' of
        Some alt \<Rightarrow>
          let l = (case json_get alt ''left'' of None \<Rightarrow> (False, []) | Some v \<Rightarrow> collect_resource_or_terms v);
              r = (case json_get alt ''right'' of None \<Rightarrow> (False, []) | Some v \<Rightarrow> collect_resource_or_terms v)
          in (fst l \<and> fst r, snd l @ snd r)
      | None \<Rightarrow>
          (case json_get node ''=='' of
             None \<Rightarrow> (False, [])
           | Some e \<Rightarrow>
               (case (json_get e ''left'', json_get e ''right'') of
                  (Some l, Some r) \<Rightarrow>
                    (case match_resource_var_eq l r of None \<Rightarrow> (False, []) | Some u \<Rightarrow> (True, [u]))
                | _ \<Rightarrow> (False, []))))"
  by pat_completeness auto
termination
  by (relation "measure size") (auto dest!: size_json_get)

declare collect_resource_or_terms.simps [simp del]

datatype condition_kind = NoCondition | CarveoutUnless "uid list" | OtherCondition

definition condition_kind :: "cedar_policy \<Rightarrow> condition_kind" where
  "condition_kind p =
     (case cp_conditions p of
        [] \<Rightarrow> NoCondition
      | [(kind, body)] \<Rightarrow>
          if kind \<noteq> ''unless'' then OtherCondition
          else (case collect_resource_or_terms body of
                  (ok, resources) \<Rightarrow>
                    if \<not> ok \<or> resources = [] then OtherCondition
                    else if list_all (\<lambda>u. fst u = fst (hd resources)) resources then CarveoutUnless resources
                    else OtherCondition)
      | _ \<Rightarrow> OtherCondition)"

definition has_no_conditions :: "cedar_policy \<Rightarrow> bool" where
  "has_no_conditions p \<longleftrightarrow> condition_kind p = NoCondition"

definition principal_constraint_matches :: "cedar_policy \<Rightarrow> entity_ref \<Rightarrow> bool" where
  "principal_constraint_matches p who \<longleftrightarrow> cp_principal p = EqScope (ref_uid who)"

text \<open>Only the id of the action is compared.\<close>

definition action_constraint_matches :: "cedar_policy \<Rightarrow> string \<Rightarrow> bool" where
  "action_constraint_matches p act \<longleftrightarrow> (case cp_action p of EqAction u \<Rightarrow> snd u = act | _ \<Rightarrow> False)"

definition is_owned :: "cedar_policy \<Rightarrow> entity_ref \<Rightarrow> string \<Rightarrow> bool \<Rightarrow> bool" where
  "is_owned p who act system_scope \<longleftrightarrow>
     \<not> system_scope \<and> principal_constraint_matches p who \<and> action_constraint_matches p act \<and>
     (case cp_resource p of
        EqScope u \<Rightarrow> has_no_conditions p
      | InScope u \<Rightarrow> has_no_conditions p
      | AnyScope \<Rightarrow> (case condition_kind p of OtherCondition \<Rightarrow> False | _ \<Rightarrow> True)
      | _ \<Rightarrow> False)"

section \<open>Writing a policy\<close>

definition uses_in_constraint :: "entity_ref \<Rightarrow> bool" where
  "uses_in_constraint r = (case r of ToolGroupRef s \<Rightarrow> True | _ \<Rightarrow> False)"

text \<open>The JSON given to \<open>Policy::from_json\<close>, as the policy it stands for.\<close>

definition group_policy :: "string \<Rightarrow> entity_ref \<Rightarrow> string \<Rightarrow> effect \<Rightarrow> scope \<Rightarrow> (string \<times> json) list \<Rightarrow> cedar_policy" where
  "group_policy name who act eff res conds =
     \<lparr>cp_annotations = [(''id'', name)], cp_effect = eff, cp_principal = EqScope (ref_uid who),
      cp_action = EqAction (''Policy::Action'', act), cp_resource = res, cp_conditions = conds\<rparr>"

definition per_resource_policy :: "string \<Rightarrow> entity_ref \<Rightarrow> string \<Rightarrow> entity_ref \<Rightarrow> effect \<Rightarrow> cedar_policy" where
  "per_resource_policy name who act r eff =
     group_policy name who act eff
       (if uses_in_constraint r then InScope (ref_uid r) else EqScope (ref_uid r)) []"

definition build_per_resource_text ::
  "cedar_lib \<Rightarrow> string \<Rightarrow> entity_ref \<Rightarrow> string \<Rightarrow> entity_ref \<Rightarrow> effect \<Rightarrow> string" where
  "build_per_resource_text lib name who act r eff =
     print_policy lib (per_resource_policy name who act r eff)"

definition build_wildcard_text :: "cedar_lib \<Rightarrow> string \<Rightarrow> entity_ref \<Rightarrow> string \<Rightarrow> effect \<Rightarrow> string" where
  "build_wildcard_text lib name who act eff =
     print_policy lib (group_policy name who act eff AnyScope [])"

definition eq_clause :: "entity_ref \<Rightarrow> json" where
  "eq_clause r = JObject [(''=='', JObject
     [(''left'', JObject [(''Var'', JString ''resource'')]),
      (''right'', JObject [(''Value'', JObject [(''__entity'',
         JObject [(''type'', JString (cedar_type r)), (''id'', JString (ref_id r))])])])])]"

definition resource_or_chain :: "entity_ref list \<Rightarrow> json" where
  "resource_or_chain rs =
     foldl (\<lambda>acc r. JObject [(''||'', JObject [(''left'', acc), (''right'', eq_clause r)])])
       (eq_clause (hd rs)) (tl rs)"

definition build_carveout_text ::
  "cedar_lib \<Rightarrow> string \<Rightarrow> entity_ref \<Rightarrow> string \<Rightarrow> effect \<Rightarrow> entity_ref list \<Rightarrow> string" where
  "build_carveout_text lib name who act eff carveout_resources =
     (let sorted = sort carveout_resources
      in print_policy lib (group_policy name who act eff AnyScope [(''unless'', resource_or_chain sorted)]))"

definition cedar_type_short :: "string \<Rightarrow> string" where
  "cedar_type_short t = (case strip_prefix ''Policy::'' t of Some r \<Rightarrow> r | None \<Rightarrow> t)"

definition hex_digit :: "nat \<Rightarrow> char" where
  "hex_digit d = (if d < 10 then char_of (48 + d) else char_of (87 + d))"

text \<open>Twelve hexadecimal digits of the hash.\<close>

definition slug :: "cedar_lib \<Rightarrow> string \<Rightarrow> string" where
  "slug lib s = concat (map (\<lambda>c. [hex_digit (of_char c div 16), hex_digit (of_char c mod 16)]) (take 6 (sha256 lib s)))"

definition group_policy_name :: "cedar_lib \<Rightarrow> entity_ref \<Rightarrow> string \<Rightarrow> string" where
  "group_policy_name lib who act =
     ''reconcile-'' @ cedar_type_short (cedar_type who) @ ''-'' @ slug lib (ref_id who) @ ''-'' @ act"

definition per_resource_policy_name :: "cedar_lib \<Rightarrow> entity_ref \<Rightarrow> string \<Rightarrow> entity_ref \<Rightarrow> effect \<Rightarrow> string" where
  "per_resource_policy_name lib who act r eff =
     ''reconcile-'' @ cedar_type_short (cedar_type who) @ ''-'' @ slug lib (ref_id who) @ ''-'' @ act @ ''-'' @
     (case eff of Permit \<Rightarrow> ''p'' | Forbid \<Rightarrow> ''f'') @ ''-'' @ cedar_type_short (cedar_type r) @ ''-'' @ slug lib (ref_id r)"

text \<open>What of the rows a plan depends on; the first eight bytes of a hash are compared.\<close>

definition fingerprint :: "cedar_lib \<Rightarrow> policy list \<Rightarrow> string" where
  "fingerprint lib ps = take 8 (sha256 lib (concat (map (\<lambda>p.
     po_id p @ [CHR 0x00] @ rfc3339 lib (po_updated_at p) @ [CHR 0x00] @ po_text p @ [CHR 0x00]) (sort_key po_id ps))))"

section \<open>Groups\<close>

text \<open>
  \<open>maybe_collapse_to_ancestors\<close>. The code goes through a hash map of the ancestors; here they
  come in the order in which their first member does.
\<close>

definition collapse_bucket :: "resource_hierarchy \<Rightarrow> entity_ref \<times> access_override list \<Rightarrow> access_override list" where
  "collapse_bucket h bucket =
     (case bucket of (ancestor, members) \<Rightarrow>
        let first_intent = ov_intent (hd members);
            same_intent = list_all (\<lambda>v. ov_intent v = first_intent) members;
            known = (case map_of (hi_descendants h) ancestor of None \<Rightarrow> [] | Some ds \<Rightarrow> ds);
            covered = map ov_resource members;
            all_covered = known \<noteq> [] \<and> list_all (\<lambda>d. d \<in> set covered) known
        in if same_intent \<and> all_covered then [\<lparr>ov_resource = ancestor, ov_intent = first_intent\<rparr>] else members)"

definition maybe_collapse_to_ancestors :: "access_group \<Rightarrow> resource_hierarchy \<Rightarrow> access_group" where
  "maybe_collapse_to_ancestors grp h =
     (if hi_parent h = [] then grp
      else
        let up = (\<lambda>v. map_of (hi_parent h) (ov_resource v));
            passthrough = filter (\<lambda>v. up v = None) (ag_overrides grp);
            ancestors = rev (remdups (rev (List.map_filter up (ag_overrides grp))));
            buckets = map (\<lambda>a. (a, filter (\<lambda>v. up v = Some a) (ag_overrides grp))) ancestors
        in grp\<lparr>ag_overrides := passthrough @ concat (map (collapse_bucket h) buckets)\<rparr>)"

definition canonical_shape :: "access_group \<Rightarrow> canonical_shape" where
  "canonical_shape grp =
     (case ag_default grp of
        None \<Rightarrow> PerOverride
      | Some dflt \<Rightarrow>
          let carveout = map ov_resource (filter (\<lambda>v. ov_intent v \<noteq> dflt \<and> ov_intent v \<noteq> Default) (ag_overrides grp));
              shape = (\<lambda>eff. if carveout = [] then Wildcard eff else Carveout eff carveout)
          in (case dflt of Allow \<Rightarrow> shape Permit | Deny \<Rightarrow> shape Forbid | Default \<Rightarrow> PerOverride))"

definition sentinel_resource :: "string \<Rightarrow> entity_ref" where
  "sentinel_resource t =
     (let i = ''___reconcile_sentinel___''
      in if t = ''Policy::Path'' then PathRef i
         else if t = ''Policy::NetworkDestination'' then NetworkDestinationRef i
         else if t = ''Policy::Tool'' then ToolRef i
         else PathRef i)"

definition resource_type_for_action :: "string \<Rightarrow> string" where
  "resource_type_for_action a =
     (if a = ''read'' \<or> a = ''write'' then ''Policy::Path''
      else if a = ''connect'' \<or> a = ''bind'' then ''Policy::NetworkDestination''
      else if a = ''invoke_tool'' then ''Policy::Tool''
      else ''Policy::Path'')"

end
