(* ===== verification/Policy_Plan.thy ===== *)
theory Policy_Plan
  imports Policy_Model
begin

text \<open>
  The planner of \<open>policy/reconcile.rs\<close>, \<open>plan_for_group\<close>: from the rows there are and the group
  that is wanted to the rows to delete and to create. It only deletes rows of its own
  (\<open>is_owned\<close>), and before it answers it asks the engine whether the rows that would be there
  decide as wanted (\<open>verify_group\<close>); if not, the answer is a conflict.
\<close>

section \<open>Pending edits\<close>

datatype plan_failure = Blocked group_conflict | PlanPanic string

type_synonym 'a planned = "plan_failure + 'a"

definition and_then :: "'e + 'a \<Rightarrow> ('a \<Rightarrow> 'e + 'b) \<Rightarrow> 'e + 'b" where
  "and_then r f = (case r of Inl e \<Rightarrow> Inl e | Inr a \<Rightarrow> f a)"

lemma and_then_simps [simp]: "and_then (Inl e) f = Inl e" "and_then (Inr a) f = f a"
  by (simp_all add: and_then_def)

lemma and_then_Inr: "and_then r f = Inr b \<longleftrightarrow> (\<exists>a. r = Inr a \<and> f a = Inr b)"
  by (cases r) auto

record pending =
  pe_deletes :: "string list"
  pe_creates :: "(string \<times> string) list"

definition no_edits :: pending where
  "no_edits = \<lparr>pe_deletes = [], pe_creates = []\<rparr>"

definition push_delete :: "string \<Rightarrow> pending \<Rightarrow> pending" where
  "push_delete i e = e\<lparr>pe_deletes := pe_deletes e @ [i]\<rparr>"

definition push_create :: "string \<Rightarrow> string \<Rightarrow> pending \<Rightarrow> pending" where
  "push_create name txt e = e\<lparr>pe_creates := pe_creates e @ [(name, txt)]\<rparr>"

text \<open>The rows that would be there, and what the engine makes of them.\<close>

definition effective_texts :: "plan_ctx \<Rightarrow> pending \<Rightarrow> string list" where
  "effective_texts ctx e =
     map po_text (filter (\<lambda>p. po_enabled p \<and> po_id p \<notin> set (pe_deletes e)) (px_live ctx))
     @ map snd (pe_creates e)"

definition with_lines :: "string list \<Rightarrow> string" where
  "with_lines ts = concat (map (\<lambda>t. t @ [CHR 0x0A]) ts)"

definition build_effective_policy_set :: "cedar_lib \<Rightarrow> plan_ctx \<Rightarrow> pending \<Rightarrow> app_error + cedar_policy list" where
  "build_effective_policy_set lib ctx e =
     (let combined = with_lines (effective_texts ctx e)
      in and_then
           (if trim combined = [] then Inr []
            else map_err (\<lambda>m. Internal (''Failed to parse policies: '' @ m)) (parse_policies lib combined))
           (\<lambda>ps. add_policies lib ps (px_managed ctx)))"

definition eval_request :: "cedar_lib \<Rightarrow> cedar_policy list \<Rightarrow> uid \<Rightarrow> uid \<Rightarrow> uid \<Rightarrow> cedar_entity list \<Rightarrow> bool" where
  "eval_request lib ps who act res es =
     (let req = \<lparr>rq_principal = who, rq_action = act, rq_resource = res, rq_context = []\<rparr>
      in if request_error lib req \<noteq> None then False else fst (is_authorized lib ps req es))"

definition pending_to_edits :: "pending \<Rightarrow> edit list" where
  "pending_to_edits e = map Delete (pe_deletes e) @ map (\<lambda>(name, txt). Create name txt) (pe_creates e)"

definition apply_canonical_emission :: "policy list \<Rightarrow> string \<Rightarrow> string \<Rightarrow> pending \<Rightarrow> pending" where
  "apply_canonical_emission owned name txt e =
     (let kept_id = map_option po_id (find (\<lambda>p. po_text p = txt) owned);
          e1 = e\<lparr>pe_deletes := pe_deletes e @ map po_id (filter (\<lambda>row. Some (po_id row) \<noteq> kept_id) owned)\<rparr>
      in if kept_id = None then push_create name txt e1 else e1)"

section \<open>One override\<close>

record group_ctx =
  gx_group :: access_group
  gx_owned :: "policy list"
  gx_principal_uid :: uid
  gx_action_uid :: uid

definition names_resource :: "cedar_policy \<Rightarrow> uid list \<Rightarrow> bool" where
  "names_resource q us \<longleftrightarrow> (case cp_resource q of EqScope u \<Rightarrow> u \<in> set us | InScope u \<Rightarrow> u \<in> set us | _ \<Rightarrow> False)"

definition delete_owned_for_resource :: "cedar_lib \<Rightarrow> policy list \<Rightarrow> entity_ref \<Rightarrow> pending \<Rightarrow> pending" where
  "delete_owned_for_resource lib owned r e =
     e\<lparr>pe_deletes := pe_deletes e @ map po_id (filter (\<lambda>row.
        case parse_first lib (po_text row) of
          None \<Rightarrow> False
        | Some q \<Rightarrow> has_no_conditions q \<and> names_resource q [ref_uid r]) owned)\<rparr>"

text \<open>A row about the resource itself or about its ancestor.\<close>

definition owned_for_resource ::
  "cedar_lib \<Rightarrow> resource_hierarchy \<Rightarrow> group_ctx \<Rightarrow> entity_ref \<Rightarrow> effect \<Rightarrow> policy option" where
  "owned_for_resource lib h gctx r eff =
     (let ancestor = map_of (hi_parent h) r;
          us = ref_uid r # (case ancestor of None \<Rightarrow> [] | Some a \<Rightarrow> [ref_uid a])
      in find (\<lambda>row. case parse_first lib (po_text row) of
                       None \<Rightarrow> False
                     | Some q \<Rightarrow> cp_effect q = eff \<and> has_no_conditions q \<and> names_resource q us
                         \<and> principal_constraint_matches q (ag_principal (gx_group gctx))
                         \<and> action_constraint_matches q (ag_action (gx_group gctx))) (gx_owned gctx))"

definition db_conflict :: "access_group \<Rightarrow> app_error \<Rightarrow> plan_failure" where
  "db_conflict g e = Blocked \<lparr>gc_principal = ag_principal g, gc_action = ag_action g, gc_failing_resource = None,
     gc_blockers = [], gc_reason = AllowBlockedByForbid\<rparr>"

definition scope_names :: "scope \<Rightarrow> entity_ref \<Rightarrow> bool" where
  "scope_names s r \<longleftrightarrow> (case s of EqScope u \<Rightarrow> u = ref_uid r | AnyScope \<Rightarrow> True | _ \<Rightarrow> False)"

definition collect_blockers ::
  "cedar_lib \<Rightarrow> plan_ctx \<Rightarrow> string list \<Rightarrow> entity_ref \<Rightarrow> string \<Rightarrow> entity_ref \<Rightarrow> bool \<Rightarrow> blocker_policy list" where
  "collect_blockers lib ctx deleted who act r allow =
     map (\<lambda>row. \<lparr>bp_policy_id = po_id row, bp_policy_name = po_name row\<rparr>)
       (filter (\<lambda>row. po_enabled row \<and> po_id row \<notin> set deleted \<and>
          (case parse_first lib (po_text row) of
             None \<Rightarrow> False
           | Some q \<Rightarrow> cp_effect q = (if allow then Forbid else Permit) \<and> scope_names (cp_principal q) who
               \<and> (case cp_action q of EqAction u \<Rightarrow> snd u = act | AnyAction \<Rightarrow> True | _ \<Rightarrow> False)
               \<and> scope_names (cp_resource q) r)) (px_live ctx))"

text \<open>The conflict over one resource; \<open>failing\<close> is what it reports as the resource.\<close>

definition blocked ::
  "cedar_lib \<Rightarrow> plan_ctx \<Rightarrow> pending \<Rightarrow> access_group \<Rightarrow> entity_ref option \<Rightarrow> entity_ref \<Rightarrow> bool \<Rightarrow> plan_failure" where
  "blocked lib ctx e g failing r allow =
     Blocked \<lparr>gc_principal = ag_principal g, gc_action = ag_action g, gc_failing_resource = failing,
       gc_blockers = collect_blockers lib ctx (pe_deletes e) (ag_principal g) (ag_action g) r allow,
       gc_reason = (if allow then AllowBlockedByForbid else DenyBlockedByPermit)\<rparr>"

definition eval_now :: "cedar_lib \<Rightarrow> plan_ctx \<Rightarrow> group_ctx \<Rightarrow> uid \<Rightarrow> pending \<Rightarrow> bool planned" where
  "eval_now lib ctx gctx res e =
     map_err (db_conflict (gx_group gctx))
       (map_sum id (\<lambda>ps. eval_request lib ps (gx_principal_uid gctx) (gx_action_uid gctx) res (px_entities ctx))
          (build_effective_policy_set lib ctx e))"

definition panics :: "string + 'a \<Rightarrow> 'a planned" where
  "panics r = map_err PlanPanic r"

definition plan_override ::
  "cedar_lib \<Rightarrow> plan_ctx \<Rightarrow> group_ctx \<Rightarrow> access_override \<Rightarrow> pending \<times> string list \<Rightarrow> (pending \<times> string list) planned" where
  "plan_override lib ctx gctx v st =
     (case st of (e, kept) \<Rightarrow>
     and_then (panics (to_cedar_uid lib (ov_resource v))) (\<lambda>res.
     let allow = (ov_intent v = Allow);
         for_effect = owned_for_resource lib (px_hierarchy ctx) gctx (ov_resource v);
         same = (if allow then Permit else Forbid);
         other = (if allow then Forbid else Permit)
     in and_then (eval_now lib ctx gctx res e) (\<lambda>current.
        if current = allow
        then let kept1 = (case for_effect same of None \<Rightarrow> kept | Some row \<Rightarrow> po_name row # kept);
                 e1 = (case for_effect other of None \<Rightarrow> e | Some row \<Rightarrow> push_delete (po_id row) e)
             in Inr (e1, kept1)
        else
          let create = (\<lambda>e1.
                let name = per_resource_policy_name lib (ag_principal (gx_group gctx)) (ag_action (gx_group gctx)) (ov_resource v) same;
                    txt = build_per_resource_text lib name (ag_principal (gx_group gctx)) (ag_action (gx_group gctx)) (ov_resource v) same;
                    e2 = push_create name txt e1
                in and_then (eval_now lib ctx gctx res e2) (\<lambda>after.
                   if after = allow then Inr (e2, name # kept)
                   else Inl (blocked lib ctx e2 (gx_group gctx) (Some (ov_resource v)) (ov_resource v) allow)))
          in (case for_effect other of
                None \<Rightarrow> create e
              | Some row \<Rightarrow>
                  let e1 = push_delete (po_id row) e
                  in and_then (eval_now lib ctx gctx res e1) (\<lambda>after.
                     if after = allow then Inr (e1, kept) else create e1)))))"

fun plan_overrides ::
  "cedar_lib \<Rightarrow> plan_ctx \<Rightarrow> group_ctx \<Rightarrow> access_override list \<Rightarrow> pending \<times> string list \<Rightarrow> (pending \<times> string list) planned" where
  "plan_overrides lib ctx gctx [] st = Inr st"
| "plan_overrides lib ctx gctx (v # vs) st =
     (if ov_intent v = Default
      then plan_overrides lib ctx gctx vs (delete_owned_for_resource lib (gx_owned gctx) (ov_resource v) (fst st), snd st)
      else and_then (plan_override lib ctx gctx v st) (plan_overrides lib ctx gctx vs))"

section \<open>One group\<close>

definition verify_default :: "cedar_lib \<Rightarrow> plan_ctx \<Rightarrow> group_ctx \<Rightarrow> pending \<Rightarrow> cedar_policy list \<Rightarrow> access_intent \<Rightarrow> unit planned" where
  "verify_default lib ctx gctx e ps dflt =
     (let g = gx_group gctx; sentinel = sentinel_resource (resource_type_for_action (ag_action g)); want = (dflt = Allow)
      in and_then (panics (to_cedar_uid lib sentinel)) (\<lambda>res.
         if eval_request lib ps (gx_principal_uid gctx) (gx_action_uid gctx) res (px_entities ctx) \<noteq> want
         then Inl (blocked lib ctx e g None sentinel want) else Inr ()))"

fun verify_overrides ::
  "cedar_lib \<Rightarrow> plan_ctx \<Rightarrow> group_ctx \<Rightarrow> pending \<Rightarrow> cedar_policy list \<Rightarrow> access_override list \<Rightarrow> unit planned" where
  "verify_overrides lib ctx gctx e ps [] = Inr ()"
| "verify_overrides lib ctx gctx e ps (v # vs) =
     (if ov_intent v = Default then verify_overrides lib ctx gctx e ps vs
      else and_then (panics (to_cedar_uid lib (ov_resource v))) (\<lambda>res.
        let want = (ov_intent v = Allow)
        in if eval_request lib ps (gx_principal_uid gctx) (gx_action_uid gctx) res (px_entities ctx) \<noteq> want
           then Inl (blocked lib ctx e (gx_group gctx) (Some (ov_resource v)) (ov_resource v) want)
           else verify_overrides lib ctx gctx e ps vs))"

text \<open>A default of \<open>Default\<close> ends the verification before the overrides are looked at.\<close>

definition verify_group :: "cedar_lib \<Rightarrow> plan_ctx \<Rightarrow> group_ctx \<Rightarrow> pending \<Rightarrow> unit planned" where
  "verify_group lib ctx gctx e =
     (let g = gx_group gctx
      in and_then (map_err (db_conflict g) (build_effective_policy_set lib ctx e)) (\<lambda>ps.
         case ag_default g of
           Some Default \<Rightarrow> Inr ()
         | Some dflt \<Rightarrow> and_then (verify_default lib ctx gctx e ps dflt) (\<lambda>_.
             verify_overrides lib ctx gctx e ps (ag_overrides g))
         | None \<Rightarrow> verify_overrides lib ctx gctx e ps (ag_overrides g)))"

definition owned_rows :: "cedar_lib \<Rightarrow> policy list \<Rightarrow> access_group \<Rightarrow> policy list" where
  "owned_rows lib rows g =
     filter (\<lambda>p. po_enabled p \<and> po_user_id p \<noteq> None \<and>
        (case parse_first lib (po_text p) of
           None \<Rightarrow> False
         | Some q \<Rightarrow> is_owned q (ag_principal g) (ag_action g) (po_user_id p = None))) rows"

definition group_edits :: "cedar_lib \<Rightarrow> plan_ctx \<Rightarrow> group_ctx \<Rightarrow> pending planned" where
  "group_edits lib ctx gctx =
     (let g = gx_group gctx; owned = gx_owned gctx;
          name = group_policy_name lib (ag_principal g) (ag_action g)
      in case canonical_shape g of
           Wildcard eff \<Rightarrow>
             Inr (apply_canonical_emission owned name
               (build_wildcard_text lib name (ag_principal g) (ag_action g) eff) no_edits)
         | Carveout eff resources \<Rightarrow>
             Inr (apply_canonical_emission owned name
               (build_carveout_text lib name (ag_principal g) (ag_action g) eff resources) no_edits)
         | PerOverride \<Rightarrow>
             and_then (plan_overrides lib ctx gctx (ag_overrides g) (no_edits, [])) (\<lambda>(e, kept).
               Inr (foldl (\<lambda>e row. if po_id row \<in> set (pe_deletes e) \<or> po_name row \<in> set kept
                                   then e else push_delete (po_id row) e) e owned)))"

definition plan_for_group :: "cedar_lib \<Rightarrow> plan_ctx \<Rightarrow> access_group \<Rightarrow> edit list planned" where
  "plan_for_group lib ctx grp =
     (let g = maybe_collapse_to_ancestors grp (px_hierarchy ctx)
      in and_then (panics (to_cedar_uid lib (ag_principal g))) (\<lambda>who.
         and_then (panics (action_uid lib (ag_action g))) (\<lambda>act.
         let gctx = \<lparr>gx_group = g, gx_owned = owned_rows lib (px_live ctx) g,
                     gx_principal_uid = who, gx_action_uid = act\<rparr>
         in and_then (group_edits lib ctx gctx) (\<lambda>e.
            and_then (verify_group lib ctx gctx e) (\<lambda>_. Inr (pending_to_edits e))))))"

end
