(* ===== verification/Policy_Service.thy ===== *)
theory Policy_Service
  imports Policy_Plan
begin

text \<open>
  The policy service, \<open>policy/service.rs\<close>, with the queries of \<open>db/repo/policies.rs\<close>, the entities
  of \<open>policy/schema.rs\<close>, the sandbox policies of \<open>policy/sandbox.rs\<close> and the tool registry of
  \<open>tool/manager.rs\<close> as far as policies read it.

  Its caches are maps from the keys the code builds; what a cache evicts by itself is left to the
  environment. A registry of tools keeps the order of registration, where the code has a hash map. The
  lock around a commit makes it one step. The groups of a user come in as an
  argument of \<open>authorize_user\<close>; metrics are left out.
\<close>

section \<open>Sandbox policies\<close>

record sandbox_policy =
  sb_read_paths :: "string list"
  sb_write_paths :: "string list"
  sb_network_access :: bool
  sb_network_destinations :: "string list"
  sb_bind_ports :: "nat list"
  sb_denied_paths :: "string list"
  sb_blocked_networks :: "string list"

definition default_sandbox_policy :: sandbox_policy where
  "default_sandbox_policy = \<lparr>sb_read_paths = [], sb_write_paths = [], sb_network_access = False,
     sb_network_destinations = [], sb_bind_ports = [], sb_denied_paths = [], sb_blocked_networks = []\<rparr>"

definition permissive :: sandbox_policy where
  "permissive = default_sandbox_policy\<lparr>sb_network_access := True\<rparr>"

definition validate_path_entry :: "(app_error \<Rightarrow> string) \<Rightarrow> string \<Rightarrow> (string \<Rightarrow> bool) \<Rightarrow> string \<Rightarrow> app_error + unit" where
  "validate_path_entry show_error requester is_owned_agent raw =
     (let quoted = CHR 0x27 # raw @ [CHR 0x27]
      in if starts_with raw ''/'' then Inr ()
         else if starts_with raw ''user://'' \<or> starts_with raw ''agent://'' then
           (case vp_parse raw of
              Inl e \<Rightarrow> Inl (Validation (''invalid sandbox path '' @ quoted @ '': '' @ show_error e))
            | Inr v \<Rightarrow>
                (case vp_namespace v of
                   User name \<Rightarrow>
                     if name \<noteq> requester then Inl (Validation (''sandbox path '' @ quoted @ '' references files owned by another user''))
                     else Inr ()
                 | Agent i \<Rightarrow>
                     if \<not> is_owned_agent i then Inl (Validation (''sandbox path '' @ quoted @ '' references an agent you don'' @ CHR 0x27 # ''t own''))
                     else Inr ()))
         else Inl (Validation (''sandbox path '' @ quoted @ '' must be absolute (start with /) or a user:// / agent:// URI'')))"

definition validate_paths :: "(app_error \<Rightarrow> string) \<Rightarrow> sandbox_policy \<Rightarrow> string \<Rightarrow> (string \<Rightarrow> bool) \<Rightarrow> app_error + unit" where
  "validate_paths show_error sb requester is_owned_agent =
     foldl (\<lambda>r raw. and_then r (\<lambda>_. validate_path_entry show_error requester is_owned_agent raw)) (Inr ())
       (sb_read_paths sb @ sb_write_paths sb @ sb_denied_paths sb)"

definition resolve_all :: "string \<Rightarrow> string \<Rightarrow> 'w file_world_scheme \<Rightarrow> string list \<Rightarrow> string list" where
  "resolve_all data_dir user_handle w ps =
     List.map_filter (\<lambda>raw. case resolve_for_user data_dir user_handle raw w of Inl e \<Rightarrow> None | Inr p \<Rightarrow> Some p) ps"

definition resolve_virtual_paths :: "string \<Rightarrow> string \<Rightarrow> 'w file_world_scheme \<Rightarrow> sandbox_policy \<Rightarrow> sandbox_policy" where
  "resolve_virtual_paths data_dir user_handle w sb =
     sb\<lparr>sb_read_paths := resolve_all data_dir user_handle w (sb_read_paths sb),
        sb_write_paths := resolve_all data_dir user_handle w (sb_write_paths sb),
        sb_denied_paths := resolve_all data_dir user_handle w (sb_denied_paths sb)\<rparr>"

section \<open>What a sandbox may do\<close>

datatype rule_effect = RuleAllow | RuleDeny

datatype rule_kind = ReadRule | WriteRule | ConnectRule | BindRule

record rule =
  ru_effect :: rule_effect
  ru_kind :: rule_kind
  ru_target :: string

definition parse_u16 :: "string \<Rightarrow> nat option" where
  "parse_u16 s = (case parse_u64 s of None \<Rightarrow> None | Some n \<Rightarrow> if n < 65536 then Some n else None)"

definition add_rule :: "sandbox_policy \<Rightarrow> rule \<Rightarrow> sandbox_policy" where
  "add_rule sb r =
     (if ru_target r = [] then sb
      else case (ru_effect r, ru_kind r) of
        (RuleAllow, ReadRule) \<Rightarrow> sb\<lparr>sb_read_paths := sb_read_paths sb @ [ru_target r]\<rparr>
      | (RuleAllow, WriteRule) \<Rightarrow> sb\<lparr>sb_write_paths := sb_write_paths sb @ [ru_target r]\<rparr>
      | (RuleAllow, ConnectRule) \<Rightarrow> sb\<lparr>sb_network_destinations := sb_network_destinations sb @ [ru_target r]\<rparr>
      | (RuleAllow, BindRule) \<Rightarrow>
          (case parse_u16 (ru_target r) of
             None \<Rightarrow> sb | Some p \<Rightarrow> sb\<lparr>sb_bind_ports := sb_bind_ports sb @ [p]\<rparr>)
      | (RuleDeny, ConnectRule) \<Rightarrow> sb\<lparr>sb_blocked_networks := sb_blocked_networks sb @ [ru_target r]\<rparr>
      | (RuleDeny, BindRule) \<Rightarrow> sb
      | (RuleDeny, _) \<Rightarrow> sb\<lparr>sb_denied_paths := sb_denied_paths sb @ [ru_target r]\<rparr>)"

definition rules_to_policy :: "rule list \<Rightarrow> sandbox_policy" where
  "rules_to_policy rules =
     foldl add_rule (default_sandbox_policy\<lparr>sb_network_access :=
       list_ex (\<lambda>r. ru_kind r = ConnectRule \<and> ru_effect r = RuleAllow) rules\<rparr>) rules"

datatype cedar_expr =
    CBool bool
  | CEntity string
  | CUnknown string
  | CEq cedar_expr cedar_expr
  | CNot cedar_expr
  | CAnd cedar_expr cedar_expr
  | COr cedar_expr cedar_expr
  | COther

text \<open>
  A missing operand is replaced by the whole expression, on which the parser then never ends:
  \<open>None\<close>.
\<close>

definition operand :: "json \<Rightarrow> string \<Rightarrow> json \<Rightarrow> json" where
  "operand e k whole = (case json_get e k of Some x \<Rightarrow> x | None \<Rightarrow> whole)"

definition constant_expr :: "json \<Rightarrow> cedar_expr" where
  "constant_expr val =
     (case val of
        JBool b \<Rightarrow> CBool b
      | _ \<Rightarrow> (case Option.bind (Option.bind (json_get val ''__entity'') (\<lambda>e. json_get e ''id'')) json_str of
                Some i \<Rightarrow> CEntity i | None \<Rightarrow> COther))"

definition unknown_name :: "json list \<Rightarrow> string" where
  "unknown_name arr =
     (case arr of
        [] \<Rightarrow> []
      | x # xs \<Rightarrow> (case Option.bind (json_get x ''Value'') json_str of Some s \<Rightarrow> s | None \<Rightarrow> []))"

partial_function (option) cedar_expr_parse :: "json \<Rightarrow> cedar_expr option" where
  "cedar_expr_parse j =
     (case json_get j ''Value'' of
        Some val \<Rightarrow> Some (constant_expr val)
      | None \<Rightarrow>
     (case Option.bind (json_get j ''unknown'') json_array of
        Some arr \<Rightarrow> Some (CUnknown (unknown_name arr))
      | None \<Rightarrow>
     (case json_get j ''=='' of
        Some e \<Rightarrow>
          Option.bind (cedar_expr_parse (operand e ''left'' j)) (\<lambda>l.
          Option.bind (cedar_expr_parse (operand e ''right'' j)) (\<lambda>r. Some (CEq l r)))
      | None \<Rightarrow>
     (case json_get j ''!'' of
        Some e \<Rightarrow> Option.bind (cedar_expr_parse (operand e ''arg'' j)) (\<lambda>x. Some (CNot x))
      | None \<Rightarrow>
     (case json_get j ''&&'' of
        Some e \<Rightarrow>
          Option.bind (cedar_expr_parse (operand e ''left'' j)) (\<lambda>l.
          Option.bind (cedar_expr_parse (operand e ''right'' j)) (\<lambda>r. Some (CAnd l r)))
      | None \<Rightarrow>
     (case json_get j ''||'' of
        Some e \<Rightarrow>
          Option.bind (cedar_expr_parse (operand e ''left'' j)) (\<lambda>l.
          Option.bind (cedar_expr_parse (operand e ''right'' j)) (\<lambda>r. Some (COr l r)))
      | None \<Rightarrow> Some COther))))))"

fun is_unsatisfiable :: "cedar_expr \<Rightarrow> bool" where
  "is_unsatisfiable (CBool b) = (\<not> b)"
| "is_unsatisfiable (CAnd l r) = (is_unsatisfiable l \<or> is_unsatisfiable r)"
| "is_unsatisfiable _ = False"

text \<open>The ids the resource is compared with, each with whether under an odd number of negations.\<close>

fun collect_resource_entities :: "cedar_expr \<Rightarrow> bool \<Rightarrow> (string \<times> bool) list" where
  "collect_resource_entities (CEq (CUnknown name) (CEntity i)) negated = (if name = ''resource'' then [(i, negated)] else [])"
| "collect_resource_entities (CEq (CEntity i) (CUnknown name)) negated = (if name = ''resource'' then [(i, negated)] else [])"
| "collect_resource_entities (CNot x) negated = collect_resource_entities x (\<not> negated)"
| "collect_resource_entities (CAnd l r) negated = collect_resource_entities l negated @ collect_resource_entities r negated"
| "collect_resource_entities (COr l r) negated = collect_resource_entities l negated @ collect_resource_entities r negated"
| "collect_resource_entities _ negated = []"

fun extract_resource_entities :: "(string \<times> json) list \<Rightarrow> (string \<times> bool) list option" where
  "extract_resource_entities [] = Some []"
| "extract_resource_entities ((kind, body) # conds) =
     Option.bind (cedar_expr_parse body) (\<lambda>x.
     Option.bind (extract_resource_entities conds) (\<lambda>rest.
     Some ((if is_unsatisfiable x then [] else collect_resource_entities x False) @ rest)))"

definition rule_effect_of :: "effect \<Rightarrow> rule_effect" where
  "rule_effect_of e = (case e of Permit \<Rightarrow> RuleAllow | Forbid \<Rightarrow> RuleDeny)"

definition opposite :: "rule_effect \<Rightarrow> rule_effect" where
  "opposite e = (case e of RuleAllow \<Rightarrow> RuleDeny | RuleDeny \<Rightarrow> RuleAllow)"

definition residual_rules :: "rule_kind \<Rightarrow> cedar_policy \<Rightarrow> rule list option" where
  "residual_rules kind q =
     (case cp_resource q of
        EqScope u \<Rightarrow> Some [\<lparr>ru_effect = rule_effect_of (cp_effect q), ru_kind = kind, ru_target = snd u\<rparr>]
      | _ \<Rightarrow> map_option (map (\<lambda>(i, negated).
               \<lparr>ru_effect = (if negated then opposite (rule_effect_of (cp_effect q)) else rule_effect_of (cp_effect q)),
                ru_kind = kind, ru_target = i\<rparr>)) (extract_resource_entities (cp_conditions q)))"

definition satisfied_rule :: "rule_kind \<Rightarrow> cedar_policy \<Rightarrow> rule" where
  "satisfied_rule kind q =
     \<lparr>ru_effect = rule_effect_of (cp_effect q), ru_kind = kind,
      ru_target = (case cp_resource q of EqScope u \<Rightarrow> snd u | _ \<Rightarrow> [])\<rparr>"

fun rules_of :: "rule_kind \<Rightarrow> cedar_policy list \<Rightarrow> rule list option" where
  "rules_of kind [] = Some []"
| "rules_of kind (q # qs) =
     Option.bind (residual_rules kind q) (\<lambda>rs. Option.bind (rules_of kind qs) (\<lambda>rest. Some (rs @ rest)))"

definition SANDBOX_ACTIONS :: "(string \<times> rule_kind) list" where
  "SANDBOX_ACTIONS = [(''read'', ReadRule), (''write'', WriteRule), (''connect'', ConnectRule), (''bind'', BindRule)]"

definition entity_uid :: "string \<Rightarrow> string \<Rightarrow> uid" where
  "entity_uid t i = (''Policy::'' @ t, i)"

definition action_rules :: "cedar_lib \<Rightarrow> cedar_policy list \<Rightarrow> cedar_entity \<Rightarrow> string \<times> rule_kind \<Rightarrow> rule list option" where
  "action_rules lib ps who ak =
     (case ak of (act, kind) \<Rightarrow>
        let res_type = (if kind = ReadRule \<or> kind = WriteRule then ''Policy::Path'' else ''Policy::NetworkDestination'')
        in Option.bind (rules_of kind (partial_residuals lib ps who (entity_uid ''Action'' act) res_type)) (\<lambda>rs.
           Some (rs @ map (satisfied_rule kind) (partial_satisfied lib ps who (entity_uid ''Action'' act) res_type))))"

fun all_rules :: "cedar_lib \<Rightarrow> cedar_policy list \<Rightarrow> cedar_entity \<Rightarrow> (string \<times> rule_kind) list \<Rightarrow> rule list option" where
  "all_rules lib ps who [] = Some []"
| "all_rules lib ps who (ak # aks) =
     Option.bind (action_rules lib ps who ak) (\<lambda>rs.
     Option.bind (all_rules lib ps who aks) (\<lambda>rest. Some (rs @ rest)))"

definition sandbox_policy_of :: "cedar_lib \<Rightarrow> cedar_policy list \<Rightarrow> cedar_entity \<Rightarrow> sandbox_policy option" where
  "sandbox_policy_of lib ps who = map_option rules_to_policy (all_rules lib ps who SANDBOX_ACTIONS)"

section \<open>Tools\<close>

record tool_def =
  td_id :: string
  td_provider_id :: string
  td_description :: string
  td_parameters :: json

record tool =
  tl_name :: string
  tl_definitions :: "tool_def list"

section \<open>The world of policies\<close>

datatype sandbox_kind = AgentSandbox | McpSandbox | AppSandbox

record policy_decision =
  de_allowed :: bool
  de_diagnostics :: string

record policy_world = vault_world +
  policies :: "policy list"
  managed_policies :: "cedar_policy list"
  policy_cache :: "string \<Rightarrow> cedar_policy list option"
  sandbox_cache :: "string \<Rightarrow> sandbox_policy option"
  decision_cache :: "string \<Rightarrow> policy_decision option"
  agent_tools_cache :: "string \<Rightarrow> string list option"
  builtin_tools :: "tool list"
  user_registries :: "string \<Rightarrow> (string \<times> tool) list option"

type_synonym ('w, 'a) policy_op = "(app_error, 'w policy_world_scheme, 'a) op"

record policy_contact =
  pct_id :: string
  pct_user_id :: string
  pct_name :: string
  pct_address :: string
  pct_addresses :: "string list"

datatype policy_action =
    InvokeTool string string
  | DelegateTask string string
  | SendMessage string string
  | ReceiveSignal string string policy_contact "string list"
  | ReceiveMessage string string policy_contact "string list"
  | ListUsers
  | ManageUsers string
  | ViewUsageAnalytics

definition unresolved_contact :: "string \<Rightarrow> string \<Rightarrow> policy_contact" where
  "unresolved_contact user_id address =
     \<lparr>pct_id = ''unresolved:'' @ address, pct_user_id = user_id, pct_name = [], pct_address = address,
      pct_addresses = (if address = [] then [] else [address])\<rparr>"

definition cedar_action_name :: "policy_action \<Rightarrow> string" where
  "cedar_action_name a =
     (case a of
        InvokeTool t g \<Rightarrow> ''invoke_tool''
      | DelegateTask i h \<Rightarrow> ''delegate_task''
      | SendMessage i h \<Rightarrow> ''send_message''
      | ReceiveSignal c h s p \<Rightarrow> ''receive_signal''
      | ReceiveMessage c h s p \<Rightarrow> ''receive_message''
      | ListUsers \<Rightarrow> ''list_users''
      | ManageUsers u \<Rightarrow> ''manage_users''
      | ViewUsageAnalytics \<Rightarrow> ''view_usage_analytics'')"

text \<open>\<open>debug_action\<close> is the derived \<open>Debug\<close> text of an action, part of a key of a cache.\<close>

record policy_config =
  pc_lib :: cedar_lib
  pc_data_dir :: string
  pc_sandbox_disabled :: bool
  pc_base_policies :: string
  pc_debug_action :: "policy_action \<Rightarrow> string"

section \<open>The registry of tools\<close>

definition new_registry :: "tool list \<Rightarrow> (string \<times> tool) list" where
  "new_registry builtins = foldl (\<lambda>r t. AList.update (tl_name t) t r) [] builtins"

definition registry_of :: "string \<Rightarrow> 'w policy_world_scheme \<Rightarrow> (string \<times> tool) list" where
  "registry_of u w = (case user_registries w u of Some r \<Rightarrow> r | None \<Rightarrow> new_registry (builtin_tools w))"

definition register_user_tool :: "string \<Rightarrow> tool \<Rightarrow> ('w, unit) policy_op" where
  "register_user_tool u t = modify (\<lambda>w. w\<lparr>user_registries := (user_registries w)(u \<mapsto> AList.update (tl_name t) t (registry_of u w))\<rparr>)"

definition deregister_user_tool :: "string \<Rightarrow> string \<Rightarrow> ('w, unit) policy_op" where
  "deregister_user_tool u owner_name = modify (\<lambda>w.
     case user_registries w u of
       None \<Rightarrow> w
     | Some r \<Rightarrow> w\<lparr>user_registries := (user_registries w)(u \<mapsto> AList.delete owner_name r)\<rparr>)"

definition registry_definitions :: "(string \<times> tool) list \<Rightarrow> (string \<times> tool_def) list" where
  "registry_definitions r = concat (map (\<lambda>(name, t). map (Pair name) (tl_definitions t)) r)"

definition tool_definitions :: "string \<Rightarrow> 'w policy_world_scheme \<Rightarrow> tool_def list" where
  "tool_definitions u w = map snd (registry_definitions (registry_of u w))"

definition tool_groups :: "string \<Rightarrow> 'w policy_world_scheme \<Rightarrow> string list" where
  "tool_groups u w = sort (remdups (filter (\<lambda>g. g \<noteq> []) (map td_provider_id (tool_definitions u w))))"

section \<open>Rows and caches\<close>

definition find_policies_by_user :: "string \<Rightarrow> ('w, policy list) policy_op" where
  "find_policies_by_user u = db_read (\<lambda>w. filter (\<lambda>p. po_user_id p = Some u) (policies w))"

definition find_system_policies :: "('w, policy list) policy_op" where
  "find_system_policies = db_read (\<lambda>w. filter (\<lambda>p. po_user_id p = None) (policies w))"

definition find_policy_by_name :: "string \<Rightarrow> string \<Rightarrow> ('w, policy option) policy_op" where
  "find_policy_by_name u n = db_read (\<lambda>w. find (\<lambda>p. po_user_id p = Some u \<and> po_name p = n) (policies w))"

definition delete_by_ids :: "string list \<Rightarrow> ('w, unit) policy_op" where
  "delete_by_ids ids = for_each ids (\<lambda>i. db_write (\<lambda>w. w\<lparr>policies := delete_row po_id i (policies w)\<rparr>))"

definition drop_prefix :: "string \<Rightarrow> (string \<Rightarrow> 'a option) \<Rightarrow> string \<Rightarrow> 'a option" where
  "drop_prefix pre m k = (if starts_with k pre then None else m k)"

definition invalidated :: "string \<Rightarrow> 'w policy_world_scheme \<Rightarrow> 'w policy_world_scheme" where
  "invalidated u w =
     (let pre = u @ '':''
      in w\<lparr>policy_cache := (policy_cache w)(u := None), sandbox_cache := drop_prefix pre (sandbox_cache w),
           decision_cache := drop_prefix pre (decision_cache w),
           agent_tools_cache := drop_prefix pre (agent_tools_cache w)\<rparr>)"

definition invalidate_cache :: "string \<Rightarrow> ('w, unit) policy_op" where
  "invalidate_cache u = modify (invalidated u)"

definition invalidate_all_caches :: "('w, unit) policy_op" where
  "invalidate_all_caches = modify (\<lambda>w. w\<lparr>policy_cache := Map.empty, sandbox_cache := Map.empty,
     decision_cache := Map.empty, agent_tools_cache := Map.empty\<rparr>)"

definition register_managed_policy :: "cedar_policy \<Rightarrow> ('w, unit) policy_op" where
  "register_managed_policy q =
     qbind (modify (\<lambda>w. w\<lparr>managed_policies := managed_policies w @ [q]\<rparr>)) (\<lambda>_. invalidate_all_caches)"

section \<open>Rows of a user\<close>

definition validate_syntax :: "cedar_lib \<Rightarrow> string \<Rightarrow> app_error + unit" where
  "validate_syntax lib txt =
     map_sum (\<lambda>e. Validation (''Invalid policy syntax: '' @ e)) (\<lambda>_. ()) (parse_policies lib txt)"

definition extract_annotations :: "cedar_lib \<Rightarrow> string \<Rightarrow> string option \<times> string option" where
  "extract_annotations lib txt =
     (case parse_first lib txt of
        None \<Rightarrow> (None, None)
      | Some q \<Rightarrow> (map_of (cp_annotations q) ''id'', map_of (cp_annotations q) ''description''))"

definition quoted_name :: "string \<Rightarrow> string" where
  "quoted_name n = CHR 0x22 # n @ [CHR 0x22]"

definition create_policy :: "policy_config \<Rightarrow> string \<Rightarrow> string \<Rightarrow> ('w, policy) policy_op" where
  "create_policy pc user_id txt =
     qbind (from_result (validate_syntax (pc_lib pc) txt)) (\<lambda>_.
     case extract_annotations (pc_lib pc) txt of (name_opt, description) \<Rightarrow>
     qbind (ok_or (Validation ''Policy must have an @id annotation'') name_opt) (\<lambda>name.
     qbind (find_policy_by_name user_id name) (\<lambda>found.
     if found \<noteq> None then fail (Validation (''Policy with @id '' @ quoted_name name @ '' already exists''))
     else
     qbind (gets clock) (\<lambda>now.
     qbind new_id (\<lambda>i.
     qbind (repo_create policies policies_update po_id
       \<lparr>po_id = i, po_user_id = Some user_id, po_name = name,
        po_description = (case description of None \<Rightarrow> [] | Some d \<Rightarrow> d), po_text = txt, po_enabled = True,
        po_created_at = now, po_updated_at = now\<rparr>) (\<lambda>created.
     qbind (invalidate_cache user_id) (\<lambda>_. ret created)))))))"

definition owned_policy :: "string \<Rightarrow> string \<Rightarrow> ('w, policy) policy_op" where
  "owned_policy user_id i =
     qbind (find_or policies po_id (NotFound ''Policy not found'') i) (\<lambda>p.
     if po_user_id p \<noteq> Some user_id then fail (Forbidden ''Not your policy'') else ret p)"

definition update_policy :: "policy_config \<Rightarrow> string \<Rightarrow> string \<Rightarrow> string \<Rightarrow> ('w, policy) policy_op" where
  "update_policy pc user_id i txt =
     qbind (from_result (validate_syntax (pc_lib pc) txt)) (\<lambda>_.
     qbind (owned_policy user_id i) (\<lambda>p.
     case extract_annotations (pc_lib pc) txt of (name, description) \<Rightarrow>
     qbind (case name of
              None \<Rightarrow> ret ()
            | Some new_name \<Rightarrow>
                if new_name = po_name p then ret ()
                else qbind (find_policy_by_name user_id new_name) (\<lambda>found.
                     if found \<noteq> None
                     then fail (Validation (''Policy with @id '' @ quoted_name new_name @ '' already exists''))
                     else ret ())) (\<lambda>_.
     qbind (gets clock) (\<lambda>now.
     qbind (repo_update policies_update po_id
       (p\<lparr>po_text := txt, po_name := (case name of None \<Rightarrow> po_name p | Some n \<Rightarrow> n),
          po_description := (case description of None \<Rightarrow> po_description p | Some d \<Rightarrow> d),
          po_updated_at := now\<rparr>)) (\<lambda>updated.
     qbind (invalidate_cache user_id) (\<lambda>_. ret updated))))))"

definition delete_policy :: "string \<Rightarrow> string \<Rightarrow> ('w, unit) policy_op" where
  "delete_policy user_id i =
     qbind (owned_policy user_id i) (\<lambda>p.
     qbind (repo_delete policies_update po_id i) (\<lambda>_. invalidate_cache user_id))"

definition delete_policy_by_name :: "string \<Rightarrow> string \<Rightarrow> ('w, unit) policy_op" where
  "delete_policy_by_name user_id name =
     qbind (qbind (find_policy_by_name user_id name)
              (ok_or (NotFound (''Policy with @id '' @ quoted_name name @ '' not found'')))) (\<lambda>p.
     qbind (repo_delete policies_update po_id (po_id p)) (\<lambda>_. invalidate_cache user_id))"

definition agent_uid :: "string \<Rightarrow> string \<Rightarrow> uid" where
  "agent_uid user_handle agent_handle = entity_uid ''Agent'' (user_handle @ ''/'' @ agent_handle)"

definition references_agent :: "cedar_lib \<Rightarrow> string \<Rightarrow> string \<Rightarrow> string \<Rightarrow> bool" where
  "references_agent lib txt user_handle agent_handle =
     (case parse_policies lib txt of
        Inl e \<Rightarrow> False
      | Inr ps \<Rightarrow> list_ex (\<lambda>q. cp_principal q = EqScope (agent_uid user_handle agent_handle)
                        \<or> cp_resource q = EqScope (agent_uid user_handle agent_handle)) ps)"

definition delete_agent_policies :: "policy_config \<Rightarrow> string \<Rightarrow> string \<Rightarrow> string \<Rightarrow> ('w, unit) policy_op" where
  "delete_agent_policies pc user_id user_handle agent_handle =
     qbind (find_policies_by_user user_id) (\<lambda>all.
     let ids = map po_id (filter (\<lambda>p. references_agent (pc_lib pc) (po_text p) user_handle agent_handle) all)
     in if ids = [] then ret ()
        else qbind (delete_by_ids ids) (\<lambda>_. invalidate_cache user_id))"

section \<open>The policies of the server\<close>

definition sync_policy :: "policy_config \<Rightarrow> cedar_policy \<Rightarrow> ('w, unit) policy_op" where
  "sync_policy pc q =
     (case map_of (cp_annotations q) ''id'' of
        None \<Rightarrow> ret ()
      | Some name \<Rightarrow>
          qbind (gets clock) (\<lambda>now.
          qbind new_id (\<lambda>i.
          qbind (repo_create policies policies_update po_id
            \<lparr>po_id = i, po_user_id = None, po_name = name,
             po_description = (case map_of (cp_annotations q) ''description'' of None \<Rightarrow> [] | Some d \<Rightarrow> d),
             po_text = print_policy (pc_lib pc) q, po_enabled = True, po_created_at = now, po_updated_at = now\<rparr>) (\<lambda>_.
          ret ()))))"

definition sync_base_policies :: "policy_config \<Rightarrow> ('w, unit) policy_op" where
  "sync_base_policies pc =
     qbind (from_result (map_err (\<lambda>e. Internal (''Failed to parse base policies: '' @ e))
              (parse_policies (pc_lib pc) (pc_base_policies pc)))) (\<lambda>base.
     qbind find_system_policies (\<lambda>existing.
     let ids = map po_id existing
     in qbind (if ids = [] then ret () else delete_by_ids ids) (\<lambda>_.
        qbind (for_each base (sync_policy pc)) (\<lambda>_. invalidate_all_caches))))"

definition build_policy_set :: "policy_config \<Rightarrow> string \<Rightarrow> ('w, cedar_policy list) policy_op" where
  "build_policy_set pc user_id =
     qbind (gets (\<lambda>w. policy_cache w user_id)) (\<lambda>cached.
     case cached of
       Some ps \<Rightarrow> ret ps
     | None \<Rightarrow>
         qbind find_system_policies (\<lambda>system.
         qbind (find_policies_by_user user_id) (\<lambda>own.
         qbind (from_result (map_err (\<lambda>e. Internal (''Failed to parse policies: '' @ e))
                  (parse_policies (pc_lib pc) (with_lines (map po_text (filter po_enabled (system @ own))))))) (\<lambda>parsed.
         qbind (gets managed_policies) (\<lambda>managed.
         qbind (from_result (add_policies (pc_lib pc) parsed managed)) (\<lambda>ps.
         qbind (modify (\<lambda>w. w\<lparr>policy_cache := (policy_cache w)(user_id \<mapsto> ps)\<rparr>)) (\<lambda>_. ret ps)))))))"

end
