(* ===== verification/Files_Api.thy ===== *)
theory Files_Api
  imports Storage_Path
begin

text \<open>
  The file handlers of the HTTP interface: \<open>api/routes/files\<close> (operations, browse, upload and the
  response of a download with its byte range). The caller is an authenticated user, given by id
  and handle; a download may also present the claims of a presigned link, whose signature has
  been checked. Copying, which reads a directory while it writes into it, the search and the
  times of directory entries are not modelled.
\<close>

section \<open>Agents of the caller\<close>

record auth_user =
  au_id :: string
  au_handle :: string

definition repo_find_agent :: "string \<Rightarrow> string \<Rightarrow> ('w, agent_row option) file_op" where
  "repo_find_agent u h =
     db_read (\<lambda>w. find (\<lambda>a. agr_user_id a = u \<and> agr_handle a = h) (agent_rows w))"

definition find_agent_by_handle :: "string \<Rightarrow> string \<Rightarrow> ('w, agent_row option) file_op" where
  "find_agent_by_handle u raw =
     (case try_new raw of Inl e \<Rightarrow> ret None | Inr h \<Rightarrow> repo_find_agent u h)"

definition get_agent :: "string \<Rightarrow> string \<Rightarrow> ('w, agent_row) file_op" where
  "get_agent u i =
     qbind (find_or agent_rows agr_id (NotFound ''Agent not found'') i) (\<lambda>a.
     if agr_user_id a \<noteq> u then fail (Forbidden ''Not your agent'') else ret a)"

definition owned_by :: "string \<Rightarrow> string \<Rightarrow> ('w, agent_row) file_op" where
  "owned_by u handle_or_id =
     qbind (find_agent_by_handle u handle_or_id) (\<lambda>found.
     case found of Some a \<Rightarrow> ret a | None \<Rightarrow> get_agent u handle_or_id)"

definition handle_of :: "string \<Rightarrow> ('w, string) file_op" where
  "handle_of i =
     qbind (find_user i) (\<lambda>found.
     case found of Some u \<Rightarrow> ret (usr_handle u) | None \<Rightarrow> fail (NotFound (''User '' @ i @ '' not found'')))"

section \<open>Operations\<close>

definition virtual_scheme :: "string \<Rightarrow> bool" where
  "virtual_scheme p \<longleftrightarrow> starts_with p ''user://'' \<or> starts_with p ''agent://''"

definition trim_slashes :: "string \<Rightarrow> string" where
  "trim_slashes p = dropWhile (\<lambda>c. c = CHR ''/'') p"

definition request_path :: "auth_user \<Rightarrow> string \<Rightarrow> app_error + virtual_path" where
  "request_path auth p =
     (if virtual_scheme p then vp_parse p else Inr (vp_user (au_handle auth) (trim_slashes p)))"

definition resolve_file_virtual_path :: "string \<Rightarrow> auth_user \<Rightarrow> string \<Rightarrow> ('w, string) file_op" where
  "resolve_file_virtual_path data_dir auth p =
     qbind (from_result (request_path auth p)) (\<lambda>v.
     qbind (case vp_namespace v of
              Agent h \<Rightarrow> qbind (owned_by (au_id auth) h) (\<lambda>_. ret ())
            | User n \<Rightarrow> ret ()) (\<lambda>_ w.
     (resolve_virtual_path_for_user data_dir (au_handle auth) v w, w)))"

definition relative_part :: "string \<Rightarrow> app_error + string" where
  "relative_part p =
     (if virtual_scheme p then (case vp_parse p of Inl e \<Rightarrow> Inl e | Inr v \<Rightarrow> Inr (vp_relative v))
      else Inr (trim_slashes p))"

definition reject_workspace_root :: "string \<Rightarrow> string \<Rightarrow> app_error + unit" where
  "reject_workspace_root p operation =
     (case relative_part p of
        Inl e \<Rightarrow> Inl e
      | Inr relative \<Rightarrow>
          if list_ex (\<lambda>s. s \<noteq> [] \<and> s \<noteq> ''.'') (segments relative) then Inr ()
          else Inl (Validation (''Cannot '' @ operation @ '' a workspace root'')))"

fun reject_workspace_root_sources :: "string list \<Rightarrow> string \<Rightarrow> app_error + unit" where
  "reject_workspace_root_sources [] operation = Inr ()"
| "reject_workspace_root_sources (p # ps) operation =
     (case reject_workspace_root p operation of
        Inl e \<Rightarrow> Inl e | Inr _ \<Rightarrow> reject_workspace_root_sources ps operation)"

definition file_missing :: "('w, 'a) file_op" where
  "file_missing = fail (NotFound ''File not found'')"

definition rename_user_file :: "string \<Rightarrow> auth_user \<Rightarrow> string \<Rightarrow> string \<Rightarrow> ('w, unit) file_op" where
  "rename_user_file data_dir auth p new_name =
     qbind (from_result (reject_workspace_root p ''rename'')) (\<lambda>_.
     qbind (resolve_file_virtual_path data_dir auth p) (\<lambda>resolved.
     qbind (gets (\<lambda>w. there w (components resolved))) (\<lambda>present.
     if \<not> present then file_missing
     else if CHR ''/'' \<in> set new_name \<or> contains new_name ''..'' \<or> CHR 0x00 \<in> set new_name
       then fail (Validation ''Invalid filename'')
     else case parent (components resolved) of
       None \<Rightarrow> fail (Internal ''No parent dir'')
     | Some q \<Rightarrow>
         (let dest = q @ names [new_name]
          in qbind (gets (\<lambda>w. there w dest)) (\<lambda>clash.
             if clash then fail (Validation ''A file with that name already exists'')
             else io_op (\<lambda>d. rename d (components resolved) dest))))))"

definition move_one :: "string \<Rightarrow> auth_user \<Rightarrow> string \<Rightarrow> string \<Rightarrow> ('w, unit) file_op" where
  "move_one data_dir auth dest_dir source =
     qbind (resolve_file_virtual_path data_dir auth source) (\<lambda>src.
     qbind (gets (\<lambda>w. there w (components src))) (\<lambda>present.
     if \<not> present then ret ()
     else qbind (ok_or (Internal ''No filename'') (file_name (components src))) (\<lambda>name.
          io_op (\<lambda>d. rename d (components src) (components dest_dir @ [Normal name])))))"

definition move_files :: "string \<Rightarrow> auth_user \<Rightarrow> string list \<Rightarrow> string \<Rightarrow> ('w, unit) file_op" where
  "move_files data_dir auth sources destination =
     qbind (from_result (reject_workspace_root_sources sources ''move'')) (\<lambda>_.
     qbind (resolve_file_virtual_path data_dir auth destination) (\<lambda>dest_dir.
     qbind (io_op (\<lambda>d. create_dir_all d (components dest_dir))) (\<lambda>_.
     for_each sources (move_one data_dir auth dest_dir))))"

text \<open>The two passes of \<open>delete_files\<close>: first every path is checked, then each is removed.\<close>

fun check_paths :: "string \<Rightarrow> auth_user \<Rightarrow> string list \<Rightarrow> ('w, string list) file_op" where
  "check_paths data_dir auth [] = ret []"
| "check_paths data_dir auth (p # ps) =
     qbind (from_result (reject_workspace_root p ''delete'')) (\<lambda>_.
     qbind (resolve_file_virtual_path data_dir auth p) (\<lambda>resolved.
     qbind (gets (\<lambda>w. there w (components resolved))) (\<lambda>present.
     if \<not> present then fail (NotFound (''File not found: '' @ p))
     else qbind (check_paths data_dir auth ps) (\<lambda>rest. ret (resolved # rest)))))"

definition remove_any :: "string \<Rightarrow> ('w, unit) file_op" where
  "remove_any resolved =
     qbind (gets (\<lambda>w. is_dir (fs w) (here w) (components resolved))) (\<lambda>dir.
     if dir then io_op (\<lambda>d. remove_dir_all d (components resolved))
     else io_op (\<lambda>d. remove_file d (components resolved)))"

definition delete_files :: "string \<Rightarrow> auth_user \<Rightarrow> string list \<Rightarrow> ('w, unit) file_op" where
  "delete_files data_dir auth paths =
     (if paths = [] then fail (Validation ''At least one path is required'')
      else qbind (check_paths data_dir auth paths) (\<lambda>resolved_paths.
           for_each resolved_paths remove_any))"

definition create_user_folder :: "string \<Rightarrow> auth_user \<Rightarrow> string \<Rightarrow> ('w, unit) file_op" where
  "create_user_folder data_dir auth p =
     qbind (from_result (relative_part p)) (\<lambda>relative.
     qbind (from_result (validate_relative_path relative)) (\<lambda>_.
     qbind (resolve_file_virtual_path data_dir auth p) (\<lambda>resolved.
     io_op (\<lambda>d. create_dir_all d (components resolved)))))"

section \<open>Byte ranges\<close>

record byte_range =
  br_start :: nat
  br_end :: nat

datatype range_spec = Full | Partial byte_range | Unsatisfiable

definition br_len :: "byte_range \<Rightarrow> nat" where
  "br_len r = br_end r - br_start r + 1"

definition range_window :: "nat \<Rightarrow> string \<Rightarrow> string \<Rightarrow> range_spec" where
  "range_window file_len lo hi =
     (let max = file_len - 1
      in if lo = [] then
           (case parse_u64 hi of
              None \<Rightarrow> Full
            | Some n \<Rightarrow> if n = 0 then Unsatisfiable else Partial \<lparr>br_start = file_len - n, br_end = max\<rparr>)
         else if hi = [] then
           (case parse_u64 lo of
              None \<Rightarrow> Full
            | Some s \<Rightarrow> if s > max then Unsatisfiable else Partial \<lparr>br_start = s, br_end = max\<rparr>)
         else (case (parse_u64 lo, parse_u64 hi) of
                 (Some s, Some e) \<Rightarrow>
                   if s > e \<or> s > max then Unsatisfiable
                   else Partial \<lparr>br_start = s, br_end = min e max\<rparr>
               | _ \<Rightarrow> Full))"

definition parse_range :: "string option \<Rightarrow> nat \<Rightarrow> range_spec" where
  "parse_range header file_len =
     (case header of
        None \<Rightarrow> Full
      | Some h \<Rightarrow>
          (case (case strip_prefix ''bytes='' (trim h) of
                   Some s \<Rightarrow> Some s | None \<Rightarrow> strip_prefix ''BYTES='' (trim h)) of
             None \<Rightarrow> Full
           | Some spec \<Rightarrow>
               if CHR '','' \<in> set spec then Full
               else (case split_once (CHR ''-'') (trim spec) of
                       None \<Rightarrow> Full
                     | Some (lo, hi) \<Rightarrow>
                         if file_len = 0 then Unsatisfiable
                         else range_window file_len (trim lo) (trim hi))))"

section \<open>Downloads\<close>

record response =
  rs_status :: nat
  rs_content_type :: string
  rs_disposition :: string
  rs_content_range :: "string option"
  rs_content_length :: "nat option"
  rs_body :: string

definition response_base :: "(string \<Rightarrow> string) \<Rightarrow> string \<Rightarrow> nat \<Rightarrow> response" where
  "response_base lo filename status =
     (let content_type = detect_content_type lo filename;
          disposition_type =
            (if content_type \<in> {''image/svg+xml'', ''text/html'', ''text/javascript'', ''application/javascript''}
             then ''attachment'' else ''inline'')
      in \<lparr>rs_status = status, rs_content_type = content_type,
          rs_disposition = disposition_type @ ''; filename='' @ CHR 0x22 # filename @ [CHR 0x22],
          rs_content_range = None, rs_content_length = None, rs_body = []\<rparr>)"

text \<open>A file that cannot be opened after its metadata was read is not modelled.\<close>

definition serve_path :: "(string \<Rightarrow> string) \<Rightarrow> string \<Rightarrow> string option \<Rightarrow> ('w, response) file_op" where
  "serve_path lo p header =
     qbind (gets (\<lambda>w. read_file (fs w) (here w) (components p))) (\<lambda>content.
     case content of
       Inl e \<Rightarrow> file_missing
     | Inr b \<Rightarrow>
         (let file_len = length b;
              base = response_base lo (case file_name (components p) of Some n \<Rightarrow> n | None \<Rightarrow> ''download'')
          in (case parse_range header file_len of
                Unsatisfiable \<Rightarrow>
                  ret ((base 416)\<lparr>rs_content_range := Some (''bytes */'' @ show_nat file_len)\<rparr>)
              | Partial r \<Rightarrow>
                  ret ((base 206)\<lparr>rs_content_range := Some (''bytes '' @ show_nat (br_start r) @ ''-'' @
                          show_nat (br_end r) @ ''/'' @ show_nat file_len),
                        rs_content_length := Some (br_len r),
                        rs_body := take (br_len r) (drop (br_start r) b)\<rparr>)
              | Full \<Rightarrow> ret ((base 200)\<lparr>rs_content_length := Some file_len, rs_body := b\<rparr>))))"

datatype file_auth = UserAuth auth_user | Presigned string string string

definition no_match :: app_error where
  "no_match = Forbidden ''Presigned URL does not match requested file''"

definition download_user_file ::
    "(string \<Rightarrow> string) \<Rightarrow> string \<Rightarrow> file_auth \<Rightarrow> string option \<Rightarrow> string \<Rightarrow> string \<Rightarrow> ('w, response) file_op" where
  "download_user_file lo data_dir fa header handle_raw filename =
     (case try_new handle_raw of
        Inl e \<Rightarrow> file_missing
      | Inr handle \<Rightarrow>
          qbind (case fa of
                   UserAuth auth \<Rightarrow>
                     if handle \<noteq> au_handle auth then fail (Forbidden ''Cannot access another user's files'') else ret ()
                 | Presigned sub owner path \<Rightarrow>
                     if owner \<noteq> ''user:'' @ sub \<or> path \<noteq> filename then fail no_match else ret ()) (\<lambda>_.
          qbind (\<lambda>w. (resolve_virtual_path_for_user data_dir handle (vp_user handle filename) w, w)) (\<lambda>resolved.
          serve_path lo resolved header)))"

definition download_agent_file ::
    "(string \<Rightarrow> string) \<Rightarrow> string \<Rightarrow> file_auth \<Rightarrow> string option \<Rightarrow> string \<Rightarrow> string \<Rightarrow> ('w, response) file_op" where
  "download_agent_file lo data_dir fa header agent_seg filepath =
     qbind (case fa of
              UserAuth auth \<Rightarrow> ret (au_id auth, au_handle auth)
            | Presigned sub owner path \<Rightarrow>
                if \<not> (owner = ''agent:'' @ agent_seg \<or> starts_with owner ''agent:'') \<or> path \<noteq> filepath
                then fail no_match
                else qbind (handle_of sub) (\<lambda>h. ret (sub, h))) (\<lambda>(user_id, user_handle).
     qbind (owned_by user_id agent_seg) (\<lambda>agent.
     qbind (case fa of
              Presigned sub owner path \<Rightarrow>
                if starts_with owner ''agent:'' \<and> owner \<noteq> ''agent:'' @ agr_handle agent
                   \<and> owner \<noteq> ''agent:'' @ agr_id agent
                then fail (Forbidden ''Presigned URL owner does not match requested agent'') else ret ()
            | UserAuth auth \<Rightarrow> ret ()) (\<lambda>_.
     qbind (from_result (validate_relative_path filepath)) (\<lambda>_.
     let ws = agent_workspace_path data_dir user_handle (agr_handle agent);
         path = join ws filepath
     in qbind (\<lambda>w. (validate_no_traversal w path ws, w)) (\<lambda>_. serve_path lo path header)))))"

definition delete_user_file :: "string \<Rightarrow> auth_user \<Rightarrow> string \<Rightarrow> string \<Rightarrow> ('w, unit) file_op" where
  "delete_user_file data_dir auth handle_raw filename =
     (case try_new handle_raw of
        Inl e \<Rightarrow> file_missing
      | Inr handle \<Rightarrow>
          if handle \<noteq> au_handle auth then fail (Forbidden ''Cannot delete another user's files'')
          else qbind (\<lambda>w. (resolve_virtual_path_for_user data_dir handle (vp_user handle filename) w, w)) (\<lambda>resolved.
               qbind (gets (\<lambda>w. there w (components resolved))) (\<lambda>present.
               if \<not> present then file_missing else remove_any resolved)))"

section \<open>Listings\<close>

record file_entry =
  fe_id :: string
  fe_size :: nat
  fe_type :: string
  fe_parent :: string

text \<open>The metadata of an entry is that of a link itself, whose size is taken as zero.\<close>

definition list_dir :: "string \<Rightarrow> string \<Rightarrow> ('w, file_entry list) file_op" where
  "list_dir dir parent_id =
     qbind (gets (\<lambda>w. (w, real_path w (components dir)))) (\<lambda>(w, place).
     case place of
       Inl e \<Rightarrow> ret []
     | Inr c \<Rightarrow>
         if map_of (fs w) c \<noteq> Some Folder then fail (Internal (io_text w Enotdir))
         else ret (map (\<lambda>name.
           let e = map_of (fs w) (c @ [Normal name])
           in \<lparr>fe_id = (if parent_id = [] \<or> parent_id = ''/'' then CHR ''/'' # name
                        else parent_id @ CHR ''/'' # name),
               fe_size = (case e of Some (RegularFile b) \<Rightarrow> length b | _ \<Rightarrow> 0),
               fe_type = (if e = Some Folder then ''folder'' else ''file''),
               fe_parent = (if parent_id = [] then ''/'' else parent_id)\<rparr>)
           (children (fs w) c)))"

definition list_user_files :: "string \<Rightarrow> auth_user \<Rightarrow> string \<Rightarrow> ('w, file_entry list) file_op" where
  "list_user_files data_dir auth rel =
     qbind (if rel = [] then ret () else from_result (validate_relative_path rel)) (\<lambda>_.
     let base = hd (layers (user_workspace data_dir (au_handle auth)))
     in list_dir (if rel = [] then base else join base rel) (if rel = [] then ''/'' else CHR ''/'' # rel))"

definition list_agent_dir :: "string \<Rightarrow> string \<Rightarrow> auth_user \<Rightarrow> string \<Rightarrow> string \<Rightarrow> ('w, file_entry list) file_op" where
  "list_agent_dir data_dir shared_agents_dir auth agent_seg rel =
     qbind (owned_by (au_id auth) agent_seg) (\<lambda>agent.
     qbind (if rel = [] then ret () else from_result (validate_relative_path rel)) (\<lambda>_.
     let base = hd (layers (agent_workspace data_dir shared_agents_dir (au_handle auth) (agr_handle agent)))
     in list_dir (if rel = [] then base else join base rel) (if rel = [] then ''/'' else CHR ''/'' # rel)))"

section \<open>Uploads\<close>

text \<open>
  The fields of a multipart body, in order, as the extractor yields them: the text of the field
  \<open>path\<close>, a file with the name the client gave it, any other field, or an error, which says
  whether the body was over the limit. \<open>None\<close> among the errors of an upload is a panic.
\<close>

datatype upload_field =
    PathField string
  | FileField "string option" string
  | OtherField
  | BrokenField bool string

definition MAX_FILE_SIZE :: nat where
  "MAX_FILE_SIZE = 50 * 1024 * 1024"

definition too_large :: app_error where
  "too_large = Validation (''File too large (max '' @ show_nat (MAX_FILE_SIZE div 1024 div 1024) @ ''MB)'')"

definition map_multipart_err :: "bool \<Rightarrow> string \<Rightarrow> app_error" where
  "map_multipart_err payload_too_large e = (if payload_too_large then too_large else Validation e)"

fun read_fields :: "upload_field list \<Rightarrow> (string \<times> string) option \<Rightarrow> string option
    \<Rightarrow> app_error + (string \<times> string) option \<times> string option" where
  "read_fields [] file_data relative_path = Inr (file_data, relative_path)"
| "read_fields (PathField p # rest) file_data relative_path = read_fields rest file_data (Some p)"
| "read_fields (FileField name bytes # rest) file_data relative_path =
     (if length bytes > MAX_FILE_SIZE then Inl too_large
      else read_fields rest (Some (case name of Some n \<Rightarrow> n | None \<Rightarrow> ''upload'', bytes)) relative_path)"
| "read_fields (OtherField # rest) file_data relative_path = read_fields rest file_data relative_path"
| "read_fields (BrokenField limit e # rest) file_data relative_path = Inl (map_multipart_err limit e)"

text \<open>
  \<open>Path::parent\<close> of a relative path, as a string: the last component goes, and with it what
  separates it from the one before.
\<close>

definition junk :: "string \<Rightarrow> bool" where
  "junk s \<longleftrightarrow> s = [] \<or> s = ''.''"

definition trim_tail :: "string list \<Rightarrow> string list" where
  "trim_tail ss =
     (if ss = [] then []
      else let rest = rev (dropWhile junk (rev (tl ss)))
           in if hd ss = [] \<and> rest = [] then [] else hd ss # rest)"

fun join_segments :: "string list \<Rightarrow> string" where
  "join_segments [] = []"
| "join_segments [s] = s"
| "join_segments (s # ss) = s @ CHR ''/'' # join_segments ss"

definition string_parent :: "string \<Rightarrow> string option" where
  "string_parent p =
     (let ss = trim_tail (segments p)
      in if ss = [] then None else Some (join_segments (trim_tail (butlast ss))))"

definition upload_target :: "string \<Rightarrow> string option \<Rightarrow> string \<Rightarrow> app_error + string \<times> string" where
  "upload_target base relative_path original_filename =
     (case relative_path of
        None \<Rightarrow> Inr (base, original_filename)
      | Some rel \<Rightarrow>
          (case validate_relative_path rel of
             Inl e \<Rightarrow> Inl e
           | Inr _ \<Rightarrow>
               Inr (join base (case string_parent rel of Some q \<Rightarrow> q | None \<Rightarrow> []),
                    case file_name (components rel) of Some n \<Rightarrow> n | None \<Rightarrow> original_filename)))"

record attachment =
  at_filename :: string
  at_content_type :: string
  at_size_bytes :: nat
  at_owner :: string
  at_path :: string
  at_url :: "string option"

text \<open>The signing service is the argument \<open>sign\<close>: owner, path, id and handle of the caller.\<close>

type_synonym 'w signer = "string \<Rightarrow> string \<Rightarrow> string \<Rightarrow> string \<Rightarrow> ('w, string) file_op"

definition write_upload ::
    "string \<Rightarrow> string \<Rightarrow> string option \<Rightarrow> string \<Rightarrow> string \<Rightarrow> (app_error option, 'w file_world_scheme, string) op" where
  "write_upload uuid base relative_path original_filename bytes =
     qbind (with_err Some (from_result (upload_target base relative_path original_filename))) (\<lambda>(dir, leaf).
     qbind (with_err Some (io_op (\<lambda>d. create_dir_all d (components dir)))) (\<lambda>_.
     qbind (gets (\<lambda>w. dedup_filename (\<lambda>p. there w (components p)) uuid dir leaf)) (\<lambda>deduped.
     qbind (ok_or None deduped) (\<lambda>final_filename.
     qbind (with_err Some (io_op (\<lambda>d. write_file d (components (join dir final_filename)) bytes))) (\<lambda>_.
     ret final_filename)))))"

definition upload_file ::
    "(string \<Rightarrow> string) \<Rightarrow> 'w signer \<Rightarrow> string \<Rightarrow> string \<Rightarrow> auth_user \<Rightarrow> upload_field list
     \<Rightarrow> (app_error option, 'w file_world_scheme, attachment) op" where
  "upload_file lo sign data_dir uuid auth multipart =
     qbind (with_err Some (from_result (read_fields multipart None None))) (\<lambda>(file_data, relative_path).
     qbind (ok_or (Some (Validation ''Missing file field'')) file_data) (\<lambda>(original_filename, bytes).
     let base = hd (layers (user_workspace data_dir (au_handle auth)))
     in qbind (write_upload uuid base relative_path original_filename bytes) (\<lambda>final_filename.
        let relative = (case relative_path of
                          None \<Rightarrow> final_filename
                        | Some rel \<Rightarrow> (case string_parent rel of Some q \<Rightarrow> join q final_filename | None \<Rightarrow> final_filename));
            owner = ''user:'' @ au_id auth
        in qbind (with_err Some (attempted (sign owner relative (au_id auth) (au_handle auth)))) (\<lambda>signed.
           ret \<lparr>at_filename = final_filename, at_content_type = detect_content_type lo final_filename,
                at_size_bytes = length bytes, at_owner = owner, at_path = relative,
                at_url = (case signed of Inr u \<Rightarrow> if u = [] then None else Some u | Inl e \<Rightarrow> None)\<rparr>))))"

definition presign_target :: "auth_user \<Rightarrow> string \<Rightarrow> string \<Rightarrow> ('w, virtual_path) file_op" where
  "presign_target auth owner path =
     (if starts_with owner ''user:'' \<and> drop 5 owner \<noteq> au_id auth
      then fail (Forbidden ''Cannot presign another user's files'')
      else if starts_with owner ''user:'' then ret (vp_user (au_handle auth) path)
      else case strip_prefix ''agent:'' owner of
        Some i \<Rightarrow> qbind (owned_by (au_id auth) i) (\<lambda>a. ret (vp_agent (agr_handle a) path))
      | None \<Rightarrow> fail (Validation ''Invalid owner prefix''))"

definition presign_file ::
    "'w signer \<Rightarrow> string \<Rightarrow> auth_user \<Rightarrow> string \<Rightarrow> string
     \<Rightarrow> ('w, string) file_op" where
  "presign_file sign data_dir auth owner path =
     qbind (presign_target auth owner path) (\<lambda>v.
     qbind (\<lambda>w. (resolve_virtual_path_for_user data_dir (au_handle auth) v w, w)) (\<lambda>_.
     qbind (sign owner path (au_id auth) (au_handle auth)) (\<lambda>url.
     if url = [] then fail (Internal ''Failed to generate presigned URL'') else ret url)))"

end
