(* ===== verification/Policy_Decisions.thy ===== *)
theory Policy_Decisions
  imports Policy_Service Files_Api
begin

text \<open>
  What the policy service decides and what it writes: the entities of \<open>policy/schema.rs\<close>, the
  decisions of \<open>policy/service.rs\<close> (\<open>authorize\<close>, \<open>authorize_user\<close>, \<open>evaluate_sandbox_policy\<close>) with
  their caches, and the two steps of a reconciliation, \<open>reconcile\<close>, which plans, and \<open>commit\<close>,
  which writes.
\<close>

section \<open>Entities\<close>

definition user_uid :: "string \<Rightarrow> uid" where
  "user_uid u = entity_uid ''User'' u"

definition handle_path :: "string \<Rightarrow> string \<Rightarrow> string" where
  "handle_path user_handle h = user_handle @ ''/'' @ h"

definition no_attrs :: "uid \<Rightarrow> uid list \<Rightarrow> cedar_entity" where
  "no_attrs u ups = \<lparr>en_uid = u, en_attrs = [], en_parents = ups\<rparr>"

definition agent_entity :: "uid \<Rightarrow> string \<Rightarrow> string list \<Rightarrow> uid list \<Rightarrow> cedar_entity" where
  "agent_entity u h tools ups =
     \<lparr>en_uid = u,
      en_attrs = [(''enabled'', BoolAttr True), (''model_group'', StringAttr ''primary''),
                  (''tools'', SetAttr tools), (''handle'', StringAttr h)],
      en_parents = ups\<rparr>"

definition build_agent_principal_entity :: "string \<Rightarrow> string \<Rightarrow> string list \<Rightarrow> cedar_entity" where
  "build_agent_principal_entity user_handle agent_handle tools =
     agent_entity (agent_uid user_handle agent_handle) agent_handle tools [user_uid user_handle]"

definition build_agent_principal_entity_for_id :: "string \<Rightarrow> string list \<Rightarrow> cedar_entity" where
  "build_agent_principal_entity_for_id i tools =
     (case split_once (CHR ''/'') i of
        Some (u, h) \<Rightarrow> agent_entity (entity_uid ''Agent'' i) h tools [user_uid u]
      | None \<Rightarrow> agent_entity (entity_uid ''Agent'' i) i tools [])"

definition owner_uids :: "string \<Rightarrow> uid list" where
  "owner_uids i = (case split_once (CHR ''/'') i of Some (u, h) \<Rightarrow> [user_uid u] | None \<Rightarrow> [])"

definition build_mcp_principal_entity :: "string \<Rightarrow> string \<Rightarrow> cedar_entity" where
  "build_mcp_principal_entity user_handle h = no_attrs (entity_uid ''Mcp'' (handle_path user_handle h)) [user_uid user_handle]"

definition build_mcp_principal_entity_for_id :: "string \<Rightarrow> cedar_entity" where
  "build_mcp_principal_entity_for_id i = no_attrs (entity_uid ''Mcp'' i) (owner_uids i)"

definition build_app_principal_entity :: "string \<Rightarrow> string \<Rightarrow> cedar_entity" where
  "build_app_principal_entity user_handle h = no_attrs (entity_uid ''App'' (handle_path user_handle h)) [user_uid user_handle]"

definition build_app_principal_entity_for_id :: "string \<Rightarrow> cedar_entity" where
  "build_app_principal_entity_for_id i = no_attrs (entity_uid ''App'' i) (owner_uids i)"

definition tool_uid :: "string \<Rightarrow> uid" where
  "tool_uid t = entity_uid ''Tool'' t"

definition tool_group_uid :: "string \<Rightarrow> uid" where
  "tool_group_uid g = entity_uid ''ToolGroup'' g"

definition build_tool_entities :: "cedar_lib \<Rightarrow> string \<Rightarrow> string \<Rightarrow> cedar_entity list" where
  "build_tool_entities lib tool_name tool_group =
     from_entities lib [no_attrs (tool_uid tool_name) [tool_group_uid tool_group], no_attrs (tool_group_uid tool_group) []]"

definition build_agent_entities ::
  "cedar_lib \<Rightarrow> string \<Rightarrow> string \<Rightarrow> string list \<Rightarrow> string \<Rightarrow> string list \<Rightarrow> cedar_entity list" where
  "build_agent_entities lib user_handle h tools target_handle target_tools =
     from_entities lib [build_agent_principal_entity user_handle h tools,
                        build_agent_principal_entity user_handle target_handle target_tools]"

definition message_source_uid :: "string \<Rightarrow> string \<Rightarrow> uid" where
  "message_source_uid connector_id address = entity_uid ''MessageSource'' (connector_id @ '':'' @ address)"

definition build_message_source_entities ::
  "cedar_lib \<Rightarrow> string \<Rightarrow> string \<Rightarrow> string list \<Rightarrow> string \<Rightarrow> string \<Rightarrow> policy_contact \<Rightarrow> cedar_entity list" where
  "build_message_source_entities lib user_handle agent_handle agent_tools connector_id channel_handle sender =
     (let channel_uid = entity_uid ''Channel'' (handle_path user_handle channel_handle);
          contact_uid = entity_uid ''Contact'' (pct_id sender);
          owner_uid = user_uid (pct_user_id sender)
      in from_entities lib
           [build_agent_principal_entity user_handle agent_handle agent_tools,
            no_attrs channel_uid [user_uid user_handle],
            no_attrs owner_uid [],
            \<lparr>en_uid = contact_uid,
             en_attrs = [(''address'', StringAttr (pct_address sender)), (''addresses'', SetAttr (pct_addresses sender)),
                         (''name'', StringAttr (pct_name sender))],
             en_parents = [owner_uid]\<rparr>,
            \<lparr>en_uid = message_source_uid connector_id (pct_address sender),
             en_attrs = [(''connector_id'', StringAttr connector_id), (''sender'', EntityAttr contact_uid),
                         (''user'', EntityAttr owner_uid)],
             en_parents = [channel_uid]\<rparr>])"

definition build_user_action_entities :: "cedar_lib \<Rightarrow> string \<Rightarrow> string list \<Rightarrow> string \<Rightarrow> cedar_entity list" where
  "build_user_action_entities lib principal_id principal_groups target_id =
     (let group_uids = remdups (map (entity_uid ''UserGroup'') principal_groups)
      in from_entities lib
           (no_attrs (user_uid principal_id) group_uids
            # (if target_id \<noteq> principal_id then [no_attrs (user_uid target_id) []] else [])
            @ map (\<lambda>u. no_attrs u []) group_uids))"

section \<open>Permitted tools\<close>

datatype policy_resource = ToolResource string string | ToolGroupResource string

definition is_permitted ::
  "cedar_lib \<Rightarrow> string \<Rightarrow> string \<Rightarrow> policy_resource \<Rightarrow> cedar_policy list \<Rightarrow> app_error + bool" where
  "is_permitted lib user_handle agent_handle resource ps =
     (let (es, res) =
        (case resource of
           ToolResource i g \<Rightarrow> (build_tool_entities lib i g, tool_uid i)
         | ToolGroupResource g \<Rightarrow> (build_tool_entities lib g g, tool_uid g));
          req = \<lparr>rq_principal = agent_uid user_handle agent_handle, rq_action = entity_uid ''Action'' ''invoke_tool'',
                 rq_resource = res, rq_context = []\<rparr>
      in case request_error lib req of
           Some e \<Rightarrow> Inl (Internal (''Policy request error: '' @ e))
         | None \<Rightarrow> Inr (fst (is_authorized lib ps req es)))"

definition tool_permitted :: "cedar_lib \<Rightarrow> string \<Rightarrow> string \<Rightarrow> cedar_policy list \<Rightarrow> tool_def \<Rightarrow> app_error + bool" where
  "tool_permitted lib user_handle agent_handle ps d =
     is_permitted lib user_handle agent_handle (ToolResource (td_id d) (td_provider_id d)) ps"

fun permitted_tools :: "cedar_lib \<Rightarrow> string \<Rightarrow> string \<Rightarrow> cedar_policy list \<Rightarrow> tool_def list \<Rightarrow> app_error + string list" where
  "permitted_tools lib user_handle agent_handle ps [] = Inr []"
| "permitted_tools lib user_handle agent_handle ps (d # ds) =
     and_then (tool_permitted lib user_handle agent_handle ps d) (\<lambda>ok.
     and_then (permitted_tools lib user_handle agent_handle ps ds) (\<lambda>rest.
     Inr (if ok then td_id d # rest else rest)))"

text \<open>The tools of two agents at once, which decides which error comes first.\<close>

fun delegation_tools ::
  "cedar_lib \<Rightarrow> string \<Rightarrow> string \<Rightarrow> string \<Rightarrow> cedar_policy list \<Rightarrow> tool_def list \<Rightarrow> app_error + (string list \<times> string list)" where
  "delegation_tools lib user_handle h target_handle ps [] = Inr ([], [])"
| "delegation_tools lib user_handle h target_handle ps (d # ds) =
     and_then (tool_permitted lib user_handle h ps d) (\<lambda>ok.
     and_then (tool_permitted lib user_handle target_handle ps d) (\<lambda>target_ok.
     and_then (delegation_tools lib user_handle h target_handle ps ds) (\<lambda>(own, target).
     Inr (if ok then td_id d # own else own, if target_ok then td_id d # target else target))))"

definition resolve_agent_tools ::
  "policy_config \<Rightarrow> string \<Rightarrow> string \<Rightarrow> string \<Rightarrow> cedar_policy list \<Rightarrow> ('w, string list) policy_op" where
  "resolve_agent_tools pc user_id user_handle agent_handle ps =
     (let key = user_id @ '':'' @ agent_handle
      in qbind (gets (\<lambda>w. agent_tools_cache w key)) (\<lambda>cached.
         case cached of
           Some tools \<Rightarrow> ret tools
         | None \<Rightarrow>
             qbind (gets (tool_definitions user_id)) (\<lambda>defs.
             qbind (from_result (permitted_tools (pc_lib pc) user_handle agent_handle ps defs)) (\<lambda>tools.
             qbind (modify (\<lambda>w. w\<lparr>agent_tools_cache := (agent_tools_cache w)(key \<mapsto> tools)\<rparr>)) (\<lambda>_.
             ret tools)))))"

definition is_tool_group_permitted ::
  "policy_config \<Rightarrow> string \<Rightarrow> string \<Rightarrow> string \<Rightarrow> string \<Rightarrow> ('w, bool) policy_op" where
  "is_tool_group_permitted pc user_id user_handle agent_handle g =
     qbind (build_policy_set pc user_id) (\<lambda>ps.
     from_result (is_permitted (pc_lib pc) user_handle agent_handle (ToolGroupResource g) ps))"

section \<open>Decisions\<close>

definition decision_allow :: policy_decision where
  "decision_allow = \<lparr>de_allowed = True, de_diagnostics = []\<rparr>"

definition decision_deny :: "string \<Rightarrow> policy_decision" where
  "decision_deny d = \<lparr>de_allowed = False, de_diagnostics = d\<rparr>"

definition evaluate_request ::
  "cedar_lib \<Rightarrow> cedar_request \<Rightarrow> cedar_policy list \<Rightarrow> cedar_entity list \<Rightarrow> app_error + policy_decision" where
  "evaluate_request lib req ps es =
     (case request_error lib req of
        Some e \<Rightarrow> Inl (Internal (''Policy request error: '' @ e))
      | None \<Rightarrow>
          (case is_authorized lib ps req es of
             (ok, reasons) \<Rightarrow>
               Inr (if ok then decision_allow
                    else decision_deny (if reasons = [] then ''No matching permit policy'' else join_str ''; '' reasons))))"

definition is_manage_policy :: "policy_action \<Rightarrow> bool" where
  "is_manage_policy act \<longleftrightarrow> (case act of InvokeTool t g \<Rightarrow> t = ''manage_policy'' | _ \<Rightarrow> False)"

definition decision_key :: "policy_config \<Rightarrow> string \<Rightarrow> string \<Rightarrow> policy_action \<Rightarrow> string" where
  "decision_key pc user_id agent_handle act = user_id @ '':'' @ agent_handle @ '':'' @ pc_debug_action pc act"

definition user_level_error :: app_error where
  "user_level_error = Internal ''authorize() called with a user-level action; use authorize_user() instead''"

definition action_resource :: "string \<Rightarrow> policy_action \<Rightarrow> app_error + uid" where
  "action_resource user_handle act =
     (case act of
        InvokeTool t g \<Rightarrow> Inr (tool_uid t)
      | DelegateTask i h \<Rightarrow> Inr (agent_uid user_handle h)
      | SendMessage i h \<Rightarrow> Inr (agent_uid user_handle h)
      | ReceiveSignal c h sender ps \<Rightarrow> Inr (message_source_uid c (pct_address sender))
      | ReceiveMessage c h sender ps \<Rightarrow> Inr (message_source_uid c (pct_address sender))
      | _ \<Rightarrow> Inl user_level_error)"

definition action_context :: "policy_action \<Rightarrow> (string \<times> string list) list" where
  "action_context act =
     (case act of
        ReceiveSignal c h sender ps \<Rightarrow> [(''paired_addresses'', ps)]
      | ReceiveMessage c h sender ps \<Rightarrow> [(''paired_addresses'', ps)]
      | _ \<Rightarrow> [])"

definition invoke_entities ::
  "policy_config \<Rightarrow> string \<Rightarrow> string \<Rightarrow> string \<Rightarrow> cedar_policy list \<Rightarrow> string \<Rightarrow> string \<Rightarrow> ('w, cedar_entity list) policy_op" where
  "invoke_entities pc user_id user_handle h ps t g =
     (let tool_entities = build_tool_entities (pc_lib pc) t g
      in qbind (resolve_agent_tools pc user_id user_handle h ps) (\<lambda>tools.
         let all = tool_entities @ [build_agent_principal_entity user_handle h tools]
         in ret (if entities_ok (pc_lib pc) all then all else tool_entities)))"

definition delegation_entities ::
  "policy_config \<Rightarrow> string \<Rightarrow> string \<Rightarrow> string \<Rightarrow> cedar_policy list \<Rightarrow> string \<Rightarrow> ('w, cedar_entity list) policy_op" where
  "delegation_entities pc user_id user_handle h ps target_handle =
     qbind (gets (tool_definitions user_id)) (\<lambda>defs.
     qbind (from_result (delegation_tools (pc_lib pc) user_handle h target_handle ps defs)) (\<lambda>(own, target).
     ret (build_agent_entities (pc_lib pc) user_handle h own target_handle target)))"

definition message_entities ::
  "policy_config \<Rightarrow> string \<Rightarrow> string \<Rightarrow> string \<Rightarrow> cedar_policy list \<Rightarrow> string \<Rightarrow> string \<Rightarrow> policy_contact
   \<Rightarrow> ('w, cedar_entity list) policy_op" where
  "message_entities pc user_id user_handle h ps connector_id channel_handle sender =
     qbind (gets (tool_definitions user_id)) (\<lambda>defs.
     qbind (from_result (permitted_tools (pc_lib pc) user_handle h ps defs)) (\<lambda>tools.
     ret (build_message_source_entities (pc_lib pc) user_handle h tools connector_id channel_handle sender)))"

definition action_entities ::
  "policy_config \<Rightarrow> string \<Rightarrow> string \<Rightarrow> string \<Rightarrow> cedar_policy list \<Rightarrow> policy_action \<Rightarrow> ('w, cedar_entity list) policy_op" where
  "action_entities pc user_id user_handle h ps act =
     (case act of
        InvokeTool t g \<Rightarrow> invoke_entities pc user_id user_handle h ps t g
      | DelegateTask i target \<Rightarrow> delegation_entities pc user_id user_handle h ps target
      | SendMessage i target \<Rightarrow> delegation_entities pc user_id user_handle h ps target
      | ReceiveSignal c ch sender as \<Rightarrow> message_entities pc user_id user_handle h ps c ch sender
      | ReceiveMessage c ch sender as \<Rightarrow> message_entities pc user_id user_handle h ps c ch sender
      | _ \<Rightarrow> fail user_level_error)"

definition authorize :: "policy_config \<Rightarrow> string \<Rightarrow> agent_row \<Rightarrow> policy_action \<Rightarrow> ('w, policy_decision) policy_op" where
  "authorize pc user_id a act =
     (if agr_handle a = ''system'' \<and> is_manage_policy act then ret decision_allow
      else
        qbind (gets (\<lambda>w. decision_cache w (decision_key pc user_id (agr_handle a) act))) (\<lambda>hit.
        case hit of
          Some d \<Rightarrow> ret d
        | None \<Rightarrow>
            qbind (build_policy_set pc user_id) (\<lambda>ps.
            qbind (handle_of (agr_user_id a)) (\<lambda>user_handle.
            qbind (from_result (action_resource user_handle act)) (\<lambda>res.
            qbind (action_entities pc user_id user_handle (agr_handle a) ps act) (\<lambda>es.
            qbind (from_result (evaluate_request (pc_lib pc)
              \<lparr>rq_principal = agent_uid user_handle (agr_handle a), rq_action = entity_uid ''Action'' (cedar_action_name act),
               rq_resource = res, rq_context = action_context act\<rparr> ps es)) (\<lambda>d.
            qbind (modify (\<lambda>w. w\<lparr>decision_cache :=
              (decision_cache w)(decision_key pc user_id (agr_handle a) act \<mapsto> d)\<rparr>)) (\<lambda>_. ret d))))))))"

definition user_action_target :: "policy_action \<Rightarrow> app_error + string" where
  "user_action_target act =
     (case act of
        ListUsers \<Rightarrow> Inr ''*''
      | ViewUsageAnalytics \<Rightarrow> Inr ''*''
      | ManageUsers t \<Rightarrow> Inr t
      | _ \<Rightarrow> Inl (Internal ''authorize_user() called with a non-user action; use authorize() instead''))"

definition authorize_user :: "policy_config \<Rightarrow> string \<Rightarrow> string list \<Rightarrow> policy_action \<Rightarrow> ('w, policy_decision) policy_op" where
  "authorize_user pc user_id grps act =
     qbind (from_result (user_action_target act)) (\<lambda>target_id.
     qbind (build_policy_set pc user_id) (\<lambda>ps.
     from_result (evaluate_request (pc_lib pc)
       \<lparr>rq_principal = user_uid user_id, rq_action = entity_uid ''Action'' (cedar_action_name act),
        rq_resource = user_uid target_id, rq_context = []\<rparr> ps
       (build_user_action_entities (pc_lib pc) user_id grps target_id))))"

section \<open>The policy of a sandbox\<close>

record sandbox_principal =
  sp_user_id :: string
  sp_user_handle :: string
  sp_handle :: string
  sp_kind :: sandbox_kind

definition cache_prefix :: "sandbox_kind \<Rightarrow> string" where
  "cache_prefix k = (case k of AgentSandbox \<Rightarrow> ''agent'' | McpSandbox \<Rightarrow> ''mcp_server'' | AppSandbox \<Rightarrow> ''app'')"

definition cache_key :: "sandbox_principal \<Rightarrow> string" where
  "cache_key p = sp_user_id p @ '':'' @ cache_prefix (sp_kind p) @ '':'' @ sp_handle p"

definition sandbox_entity :: "policy_config \<Rightarrow> sandbox_principal \<Rightarrow> cedar_policy list \<Rightarrow> ('w, cedar_entity) policy_op" where
  "sandbox_entity pc p ps =
     (case sp_kind p of
        AgentSandbox \<Rightarrow>
          qbind (resolve_agent_tools pc (sp_user_id p) (sp_user_handle p) (sp_handle p) ps) (\<lambda>tools.
          ret (build_agent_principal_entity (sp_user_handle p) (sp_handle p) tools))
      | McpSandbox \<Rightarrow> ret (build_mcp_principal_entity (sp_user_handle p) (sp_handle p))
      | AppSandbox \<Rightarrow> ret (build_app_principal_entity (sp_user_handle p) (sp_handle p)))"

definition raw_sandbox_policy :: "policy_config \<Rightarrow> sandbox_principal \<Rightarrow> ('w, sandbox_policy) policy_op" where
  "raw_sandbox_policy pc p =
     qbind (gets (\<lambda>w. sandbox_cache w (cache_key p))) (\<lambda>cached.
     case cached of
       Some sb \<Rightarrow> ret sb
     | None \<Rightarrow>
         qbind (build_policy_set pc (sp_user_id p)) (\<lambda>ps.
         qbind (sandbox_entity pc p ps) (\<lambda>who.
         qbind (ok_or (panicked ''stack overflow'') (sandbox_policy_of (pc_lib pc) ps who)) (\<lambda>sb.
         qbind (modify (\<lambda>w. w\<lparr>sandbox_cache := (sandbox_cache w)(cache_key p \<mapsto> sb)\<rparr>)) (\<lambda>_. ret sb)))))"

definition evaluate_sandbox_policy :: "policy_config \<Rightarrow> sandbox_principal \<Rightarrow> bool \<Rightarrow> ('w, sandbox_policy) policy_op" where
  "evaluate_sandbox_policy pc p resolve_paths =
     (if pc_sandbox_disabled pc then ret permissive
      else
        qbind (raw_sandbox_policy pc p) (\<lambda>sb.
        if resolve_paths then gets (\<lambda>w. resolve_virtual_paths (pc_data_dir pc) (sp_user_handle p) w sb)
        else ret sb))"

section \<open>Planning a reconciliation\<close>

record reconciliation_plan =
  pl_user_id :: string
  pl_fingerprint :: string
  pl_edits :: "edit list"
  pl_conflicts :: "group_conflict list"

text \<open>The verdict \<open>VerificationFailed\<close> is never given.\<close>

datatype reconcile_error = StalePlan | Conflicts "group_conflict list" | Db app_error

definition to_app_error :: "reconcile_error \<Rightarrow> app_error" where
  "to_app_error e =
     (case e of
        Db x \<Rightarrow> x
      | StalePlan \<Rightarrow> Validation ''plan is stale; rerun reconcile''
      | Conflicts cs \<Rightarrow> Validation (show_nat (length cs) @ '' group(s) have unresolvable conflicts''))"

definition in_order :: "'a list \<Rightarrow> 'a list" where
  "in_order xs = rev (remdups (rev xs))"

definition principal_entity :: "string list \<Rightarrow> entity_ref \<Rightarrow> cedar_entity option" where
  "principal_entity tools r =
     (case r of
        AgentRef i \<Rightarrow> Some (build_agent_principal_entity_for_id i tools)
      | McpRef i \<Rightarrow> Some (build_mcp_principal_entity_for_id i)
      | AppRef i \<Rightarrow> Some (build_app_principal_entity_for_id i)
      | UserRef i \<Rightarrow> Some (no_attrs (user_uid i) [])
      | _ \<Rightarrow> None)"

fun tool_entities :: "string list \<Rightarrow> tool_def list \<Rightarrow> cedar_entity list" where
  "tool_entities seen [] = []"
| "tool_entities seen (d # ds) =
     \<lparr>en_uid = tool_uid (td_id d), en_attrs = [(''provider_id'', StringAttr (td_provider_id d))],
      en_parents = [tool_group_uid (td_provider_id d)]\<rparr>
     # (if td_provider_id d \<in> set seen then [] else [no_attrs (tool_group_uid (td_provider_id d)) []])
     @ tool_entities (td_provider_id d # seen) ds"

definition tool_hierarchy :: "tool_def list \<Rightarrow> resource_hierarchy" where
  "tool_hierarchy defs =
     foldl (\<lambda>h d. hierarchy_add h (ToolRef (td_id d)) (ToolGroupRef (td_provider_id d))) no_hierarchy defs"

definition build_entities_for_target ::
  "cedar_lib \<Rightarrow> access_group list \<Rightarrow> tool_def list \<Rightarrow> cedar_entity list \<times> resource_hierarchy" where
  "build_entities_for_target lib grps defs =
     (let principals = List.map_filter (principal_entity (map td_id defs)) (in_order (map ag_principal grps))
      in if list_ex (\<lambda>g. ag_action g = ''invoke_tool'') grps
         then (from_entities lib (principals @ tool_entities [] defs), tool_hierarchy defs)
         else (from_entities lib principals, no_hierarchy))"

fun plan_groups :: "cedar_lib \<Rightarrow> plan_ctx \<Rightarrow> access_group list \<Rightarrow> app_error + (edit list \<times> group_conflict list)" where
  "plan_groups lib ctx [] = Inr ([], [])"
| "plan_groups lib ctx (g # gs) =
     (case plan_for_group lib ctx g of
        Inl (PlanPanic m) \<Rightarrow> Inl (panicked m)
      | Inl (Blocked c) \<Rightarrow> and_then (plan_groups lib ctx gs) (\<lambda>(es, cs). Inr (es, c # cs))
      | Inr es \<Rightarrow> and_then (plan_groups lib ctx gs) (\<lambda>(more, cs). Inr (es @ more, cs)))"

definition reconcile :: "policy_config \<Rightarrow> string \<Rightarrow> access_group list \<Rightarrow> ('w, reconciliation_plan) policy_op" where
  "reconcile pc user_id grps =
     qbind (find_policies_by_user user_id) (\<lambda>own.
     qbind find_system_policies (\<lambda>system.
     qbind (gets managed_policies) (\<lambda>managed.
     qbind (gets (tool_definitions user_id)) (\<lambda>defs.
     let (es, h) = build_entities_for_target (pc_lib pc) grps defs;
         ctx = \<lparr>px_live = own @ system, px_managed = managed, px_entities = es, px_hierarchy = h\<rparr>
     in qbind (from_result (plan_groups (pc_lib pc) ctx grps)) (\<lambda>(edits, conflicts).
        ret \<lparr>pl_user_id = user_id, pl_fingerprint = fingerprint (pc_lib pc) (own @ system),
             pl_edits = edits, pl_conflicts = conflicts\<rparr>)))))"

section \<open>Writing a plan\<close>

type_synonym ('w, 'a) reconcile_op = "(reconcile_error, 'w policy_world_scheme, 'a) op"

definition as_db :: "('w, 'a) policy_op \<Rightarrow> ('w, 'a) reconcile_op" where
  "as_db m w = (case m w of (Inl e, w') \<Rightarrow> (Inl (Db e), w') | (Inr a, w') \<Rightarrow> (Inr a, w'))"

fun apply_edits :: "string \<Rightarrow> edit list \<Rightarrow> nat \<times> nat \<Rightarrow> ('w, nat \<times> nat) policy_op" where
  "apply_edits user_id [] counts = ret counts"
| "apply_edits user_id (Delete i # es) (created, deleted) =
     qbind (repo_find_by_id policies po_id i) (\<lambda>found.
     case found of
       None \<Rightarrow> apply_edits user_id es (created, deleted)
     | Some p \<Rightarrow> qbind (repo_delete policies_update po_id i) (\<lambda>_. apply_edits user_id es (created, Suc deleted)))"
| "apply_edits user_id (Create name txt # es) (created, deleted) =
     qbind (gets clock) (\<lambda>now.
     qbind new_id (\<lambda>i.
     qbind (repo_create policies policies_update po_id
       \<lparr>po_id = i, po_user_id = Some user_id, po_name = name, po_description = [], po_text = txt, po_enabled = True,
        po_created_at = now, po_updated_at = now\<rparr>) (\<lambda>_.
     apply_edits user_id es (Suc created, deleted))))"

definition commit :: "policy_config \<Rightarrow> reconciliation_plan \<Rightarrow> ('w, nat \<times> nat) reconcile_op" where
  "commit pc plan =
     (if pl_conflicts plan \<noteq> [] then fail (Conflicts (pl_conflicts plan))
      else
        qbind (as_db (find_policies_by_user (pl_user_id plan))) (\<lambda>own.
        qbind (as_db find_system_policies) (\<lambda>system.
        if fingerprint (pc_lib pc) (own @ system) \<noteq> pl_fingerprint plan then fail StalePlan
        else
          qbind (as_db (apply_edits (pl_user_id plan) (pl_edits plan) (0, 0))) (\<lambda>counts.
          qbind (as_db (invalidate_cache (pl_user_id plan))) (\<lambda>_. ret counts)))))"

definition reconcile_or_fail :: "policy_config \<Rightarrow> string \<Rightarrow> access_group list \<Rightarrow> ('w, nat \<times> nat) reconcile_op" where
  "reconcile_or_fail pc user_id grps = qbind (as_db (reconcile pc user_id grps)) (commit pc)"

definition overrides_of :: "('a \<Rightarrow> entity_ref) \<Rightarrow> access_intent \<Rightarrow> 'a list \<Rightarrow> access_override list" where
  "overrides_of f intent xs = map (\<lambda>x. \<lparr>ov_resource = f x, ov_intent = intent\<rparr>) xs"

definition sandbox_policy_to_groups :: "entity_ref \<Rightarrow> sandbox_policy \<Rightarrow> access_group list" where
  "sandbox_policy_to_groups who sb =
     (let denied = overrides_of PathRef Deny (sb_denied_paths sb);
          restrict_connect = (\<not> sb_network_access sb \<or> sb_network_destinations sb \<noteq> [])
      in [\<lparr>ag_principal = who, ag_action = ''read'', ag_default = None,
           ag_overrides = overrides_of PathRef Allow (sb_read_paths sb) @ denied\<rparr>,
          \<lparr>ag_principal = who, ag_action = ''write'', ag_default = None,
           ag_overrides = overrides_of PathRef Allow (sb_write_paths sb) @ denied\<rparr>,
          \<lparr>ag_principal = who, ag_action = ''connect'', ag_default = (if restrict_connect then Some Deny else None),
           ag_overrides = (if sb_network_access sb then overrides_of NetworkDestinationRef Allow (sb_network_destinations sb) else [])
             @ overrides_of NetworkDestinationRef Deny (sb_blocked_networks sb)\<rparr>,
          \<lparr>ag_principal = who, ag_action = ''bind'', ag_default = None,
           ag_overrides = overrides_of (\<lambda>port. NetworkDestinationRef (show_nat port)) Allow (sb_bind_ports sb)\<rparr>])"

definition reconcile_sandbox_policy :: "policy_config \<Rightarrow> string \<Rightarrow> entity_ref \<Rightarrow> sandbox_policy \<Rightarrow> ('w, nat \<times> nat) reconcile_op" where
  "reconcile_sandbox_policy pc user_id who sb = reconcile_or_fail pc user_id (sandbox_policy_to_groups who sb)"

definition agent_tools_group :: "string \<Rightarrow> string \<Rightarrow> string list \<Rightarrow> tool_def list \<Rightarrow> access_group" where
  "agent_tools_group user_handle agent_handle selected universe =
     \<lparr>ag_principal = agent_ref user_handle agent_handle, ag_action = ''invoke_tool'', ag_default = None,
      ag_overrides = map (\<lambda>d. \<lparr>ov_resource = ToolRef (td_id d),
        ov_intent = (if td_id d \<in> set selected then Allow else Deny)\<rparr>) universe\<rparr>"

definition reconcile_agent_tools ::
  "policy_config \<Rightarrow> string \<Rightarrow> string \<Rightarrow> string \<Rightarrow> string list \<Rightarrow> ('w, nat \<times> nat) reconcile_op" where
  "reconcile_agent_tools pc user_id user_handle agent_handle selected =
     qbind (gets (tool_definitions user_id)) (\<lambda>universe.
     reconcile_or_fail pc user_id [agent_tools_group user_handle agent_handle selected universe])"

end
