(* ===== verification/Policy_Rules.thy ===== *)
theory Policy_Rules
  imports Policy_Decisions
begin

text \<open>
  The rules of the planner: the edits of a group only touch rows of its own shape
  (\<open>plan_for_group_owned\<close>), and a group that is planned is verified (\<open>plan_for_group_verified\<close>).
  What is used of the Cedar engine is \<open>cedar_laws\<close>; \<open>same_decision\<close> is the consequence the
  component rests on, that policies which do not apply to a request do not change its decision.
\<close>

section \<open>Edits of a group\<close>

lemma panics_Inr [simp]: "panics r = Inr a \<longleftrightarrow> r = Inr a"
  by (simp add: panics_def)

definition planned_text :: "cedar_lib \<Rightarrow> entity_ref \<Rightarrow> string \<Rightarrow> string \<Rightarrow> bool" where
  "planned_text lib who act txt \<longleftrightarrow>
     (\<exists>name eff res conds. txt = print_policy lib (group_policy name who act eff res conds))"

definition owned_edits :: "cedar_lib \<Rightarrow> policy list \<Rightarrow> access_group \<Rightarrow> pending \<Rightarrow> bool" where
  "owned_edits lib rows g e \<longleftrightarrow>
     set (pe_deletes e) \<subseteq> po_id ` set (owned_rows lib rows g) \<and>
     (\<forall>x \<in> set (pe_creates e). planned_text lib (ag_principal g) (ag_action g) (snd x))"

lemma planned_texts:
  "planned_text lib who act (build_wildcard_text lib n who act eff)"
  "planned_text lib who act (build_carveout_text lib n who act eff rs)"
  "planned_text lib who act (build_per_resource_text lib n who act r eff)"
  unfolding planned_text_def build_wildcard_text_def build_carveout_text_def build_per_resource_text_def
    per_resource_policy_def Let_def by blast+

lemma owned_no_edits: "owned_edits lib rows g no_edits"
  by (simp add: owned_edits_def no_edits_def)

lemma owned_push_delete:
  "owned_edits lib rows g e \<Longrightarrow> row \<in> set (owned_rows lib rows g) \<Longrightarrow> owned_edits lib rows g (push_delete (po_id row) e)"
  by (auto simp: owned_edits_def push_delete_def)

lemma owned_push_create:
  "owned_edits lib rows g e \<Longrightarrow> planned_text lib (ag_principal g) (ag_action g) txt \<Longrightarrow> owned_edits lib rows g (push_create n txt e)"
  by (auto simp: owned_edits_def push_create_def)

lemma owned_canonical:
  "owned_edits lib rows g e \<Longrightarrow> planned_text lib (ag_principal g) (ag_action g) txt \<Longrightarrow>
     owned_edits lib rows g (apply_canonical_emission (owned_rows lib rows g) n txt e)"
  by (auto simp: owned_edits_def apply_canonical_emission_def push_create_def Let_def)

lemma owned_delete_for_resource:
  "owned_edits lib rows g e \<Longrightarrow> owned_edits lib rows g (delete_owned_for_resource lib (owned_rows lib rows g) r e)"
  by (auto simp: owned_edits_def delete_owned_for_resource_def split: option.splits)

lemma owned_for_resource_mem: "owned_for_resource lib h gctx r eff = Some row \<Longrightarrow> row \<in> set (gx_owned gctx)"
  unfolding owned_for_resource_def Let_def by (auto dest: find_eq_SomeD)

lemma owned_plan_override:
  assumes "plan_override lib ctx gctx v (e, kept) = Inr (e', kept')"
    and "gx_owned gctx = owned_rows lib rows (gx_group gctx)" and "owned_edits lib rows (gx_group gctx) e"
  shows "owned_edits lib rows (gx_group gctx) e'"
  using assms
  by (auto simp: plan_override_def Let_def and_then_Inr
      intro!: owned_push_delete owned_push_create planned_texts
      split: if_splits option.splits dest!: owned_for_resource_mem)

lemma owned_plan_overrides:
  assumes "plan_overrides lib ctx gctx vs (e, kept) = Inr (e', kept')"
    and "gx_owned gctx = owned_rows lib rows (gx_group gctx)" and "owned_edits lib rows (gx_group gctx) e"
  shows "owned_edits lib rows (gx_group gctx) e'"
  using assms
proof (induction vs arbitrary: e kept)
  case (Cons v vs)
  show ?case
  proof (cases "ov_intent v = Default")
    case True
    with Cons.prems(1) have "plan_overrides lib ctx gctx vs
        (delete_owned_for_resource lib (gx_owned gctx) (ov_resource v) e, kept) = Inr (e', kept')" by simp
    from Cons.IH [OF this] Cons.prems(2,3) show ?thesis by (simp add: owned_delete_for_resource)
  next
    case False
    with Cons.prems(1) obtain e1 kept1 where "plan_override lib ctx gctx v (e, kept) = Inr (e1, kept1)"
      and "plan_overrides lib ctx gctx vs (e1, kept1) = Inr (e', kept')"
      by (auto simp: and_then_Inr)
    with Cons.IH Cons.prems(2,3) owned_plan_override show ?thesis by blast
  qed
qed simp

lemma owned_delete_rest:
  assumes "owned_edits lib rows g e" and "set owned \<subseteq> set (owned_rows lib rows g)"
  shows "owned_edits lib rows g (foldl (\<lambda>e row. if P e row then e else push_delete (po_id row) e) e owned)"
  using assms by (induction owned arbitrary: e) (auto intro: owned_push_delete)

lemma collapse_keeps [simp]:
  "ag_principal (maybe_collapse_to_ancestors g h) = ag_principal g"
  "ag_action (maybe_collapse_to_ancestors g h) = ag_action g"
  "ag_default (maybe_collapse_to_ancestors g h) = ag_default g"
  by (simp_all add: maybe_collapse_to_ancestors_def Let_def)

lemma owned_rows_cong:
  "ag_principal g = ag_principal g' \<Longrightarrow> ag_action g = ag_action g' \<Longrightarrow> owned_rows lib rows g = owned_rows lib rows g'"
  by (simp add: owned_rows_def cong: option.case_cong)

lemma owned_collapse [simp]: "owned_edits lib rows (maybe_collapse_to_ancestors g h) e = owned_edits lib rows g e"
  using owned_rows_cong [of "maybe_collapse_to_ancestors g h" g] by (simp add: owned_edits_def)

lemma owned_group_edits:
  assumes "group_edits lib ctx gctx = Inr e" and owned: "gx_owned gctx = owned_rows lib rows (gx_group gctx)"
  shows "owned_edits lib rows (gx_group gctx) e"
proof (cases "canonical_shape (gx_group gctx)")
  case PerOverride
  with assms(1) obtain e0 kept where "plan_overrides lib ctx gctx (ag_overrides (gx_group gctx)) (no_edits, []) = Inr (e0, kept)"
    and e0: "e = foldl (\<lambda>e row. if po_id row \<in> set (pe_deletes e) \<or> po_name row \<in> set kept
                           then e else push_delete (po_id row) e) e0 (gx_owned gctx)"
    by (auto simp: and_then_Inr group_edits_def Let_def)
  from owned_plan_overrides [OF this(1) owned owned_no_edits] show ?thesis
    unfolding e0 by (rule owned_delete_rest) (simp add: owned)
qed (use assms in \<open>auto simp: group_edits_def Let_def intro!: owned_canonical owned_no_edits planned_texts\<close>)

text \<open>What a successful plan of a group is.\<close>

lemma plan_for_group_Inr:
  assumes "plan_for_group lib ctx grp = Inr es"
  obtains e who act where "es = pending_to_edits e" and "owned_edits lib (px_live ctx) grp e"
    and "to_cedar_uid lib (ag_principal grp) = Inr who" and "action_uid lib (ag_action grp) = Inr act"
    and "verify_group lib ctx \<lparr>gx_group = maybe_collapse_to_ancestors grp (px_hierarchy ctx),
           gx_owned = owned_rows lib (px_live ctx) grp, gx_principal_uid = who, gx_action_uid = act\<rparr> e = Inr ()"
proof -
  let ?g = "maybe_collapse_to_ancestors grp (px_hierarchy ctx)"
  have same: "owned_rows lib (px_live ctx) ?g = owned_rows lib (px_live ctx) grp" by (rule owned_rows_cong) simp_all
  let ?gx = "\<lambda>who act. \<lparr>gx_group = ?g, gx_owned = owned_rows lib (px_live ctx) grp, gx_principal_uid = who, gx_action_uid = act\<rparr>"
  from assms obtain who act e where "to_cedar_uid lib (ag_principal grp) = Inr who" "action_uid lib (ag_action grp) = Inr act"
    and e: "group_edits lib ctx (?gx who act) = Inr e"
    and "verify_group lib ctx (?gx who act) e = Inr ()" "es = pending_to_edits e"
    unfolding plan_for_group_def same Let_def by (auto simp: and_then_Inr)
  moreover from owned_group_edits [OF e, of "px_live ctx"] have "owned_edits lib (px_live ctx) grp e" by (simp add: same)
  ultimately show thesis using that by blast
qed

section \<open>Verification\<close>

lemma verify_overrides_Inr:
  assumes "verify_overrides lib ctx gctx e ps vs = Inr ()" and "v \<in> set vs" and "ov_intent v \<noteq> Default"
  shows "\<exists>res. to_cedar_uid lib (ov_resource v) = Inr res \<and>
    (eval_request lib ps (gx_principal_uid gctx) (gx_action_uid gctx) res (px_entities ctx) \<longleftrightarrow> ov_intent v = Allow)"
  using assms
proof (induction vs)
  case (Cons x vs)
  then show ?case
    by (cases "to_cedar_uid lib (ov_resource x)")
      (auto simp: and_then_Inr Let_def split: if_splits)
qed simp

lemma verify_group_Inr:
  assumes "verify_group lib ctx gctx e = Inr ()"
  shows "\<exists>ps. build_effective_policy_set lib ctx e = Inr ps \<and>
    (ag_default (gx_group gctx) \<noteq> Some Default \<longrightarrow> verify_overrides lib ctx gctx e ps (ag_overrides (gx_group gctx)) = Inr ())"
proof -
  from assms obtain ps where "build_effective_policy_set lib ctx e = Inr ps"
    and "(case ag_default (gx_group gctx) of
           Some Default \<Rightarrow> Inr ()
         | Some dflt \<Rightarrow> and_then (verify_default lib ctx gctx e ps dflt) (\<lambda>_.
             verify_overrides lib ctx gctx e ps (ag_overrides (gx_group gctx)))
         | None \<Rightarrow> verify_overrides lib ctx gctx e ps (ag_overrides (gx_group gctx))) = Inr ()"
    unfolding verify_group_def Let_def by (auto simp: and_then_Inr)
  then show ?thesis by (auto simp: and_then_Inr split: option.splits access_intent.splits)
qed

section \<open>Laws of the engine\<close>

definition plain :: "string \<Rightarrow> bool" where
  "plain s \<longleftrightarrow> list_all (\<lambda>c. c \<noteq> CHR 0x22 \<and> c \<noteq> CHR 0x5C) s"

definition uid_types :: "string list" where
  "uid_types = [''Policy::Agent'', ''Policy::Mcp'', ''Policy::App'', ''Policy::User'', ''Policy::Path'', ''Policy::Tool'',
     ''Policy::ToolGroup'', ''Policy::NetworkDestination'', ''Policy::Action'']"

text \<open>
  \<open>applies p req es\<close> stands for "the policy is satisfied by the request". A request is allowed if
  some permit applies and no forbid does; a policy applies only within its scopes; a text of
  several statements is the statements one after the other, and a blank one has none; a policy is
  printed with the scopes it has.
\<close>

definition cedar_laws :: "cedar_lib \<Rightarrow> (cedar_policy \<Rightarrow> cedar_request \<Rightarrow> cedar_entity list \<Rightarrow> bool) \<Rightarrow> bool" where
  "cedar_laws lib applies \<longleftrightarrow>
     (\<forall>ps req es. fst (is_authorized lib ps req es) \<longleftrightarrow>
        (\<exists>q \<in> set ps. cp_effect q = Permit \<and> applies q req es) \<and> \<not> (\<exists>q \<in> set ps. cp_effect q = Forbid \<and> applies q req es)) \<and>
     (\<forall>q req es u. applies q req es \<longrightarrow> cp_principal q = EqScope u \<longrightarrow> rq_principal req = u) \<and>
     (\<forall>q req es u. applies q req es \<longrightarrow> cp_action q = EqAction u \<longrightarrow> rq_action req = u) \<and>
     (\<forall>q req es u. applies q req es \<longrightarrow> cp_resource q = EqScope u \<longrightarrow> rq_resource req = u) \<and>
     (\<forall>ts qs. list_all2 (\<lambda>t q. parse_policies lib t = Inr [q]) ts qs \<longrightarrow> parse_policies lib (with_lines ts) = Inr qs) \<and>
     (\<forall>s qs. trim s = [] \<longrightarrow> parse_policies lib s = Inr qs \<longrightarrow> qs = []) \<and>
     (\<forall>q. \<exists>q'. parse_policies lib (print_policy lib q) = Inr [q'] \<and> cp_principal q' = cp_principal q
        \<and> cp_action q' = cp_action q \<and> cp_effect q' = cp_effect q \<and> cp_resource q' = cp_resource q) \<and>
     (\<forall>t s. t \<in> set uid_types \<longrightarrow> plain s \<longrightarrow>
        parse_uid lib (t @ ''::'' @ CHR 0x22 # s @ [CHR 0x22]) = Some (t, s))"

lemma cedar_lawsD:
  assumes "cedar_laws lib applies"
  shows cedar_decides: "fst (is_authorized lib ps req es) \<longleftrightarrow>
        (\<exists>q \<in> set ps. cp_effect q = Permit \<and> applies q req es) \<and> \<not> (\<exists>q \<in> set ps. cp_effect q = Forbid \<and> applies q req es)"
    and cedar_principal: "applies q req es \<Longrightarrow> cp_principal q = EqScope u \<Longrightarrow> rq_principal req = u"
    and cedar_action: "applies q req es \<Longrightarrow> cp_action q = EqAction u \<Longrightarrow> rq_action req = u"
    and cedar_resource: "applies q req es \<Longrightarrow> cp_resource q = EqScope u \<Longrightarrow> rq_resource req = u"
    and cedar_lines: "list_all2 (\<lambda>t q. parse_policies lib t = Inr [q]) ts qs \<Longrightarrow> parse_policies lib (with_lines ts) = Inr qs"
    and cedar_blank: "trim s = [] \<Longrightarrow> parse_policies lib s = Inr qs \<Longrightarrow> qs = []"
    and cedar_print: "\<exists>q'. parse_policies lib (print_policy lib q) = Inr [q'] \<and> cp_principal q' = cp_principal q
        \<and> cp_action q' = cp_action q \<and> cp_effect q' = cp_effect q \<and> cp_resource q' = cp_resource q"
    and cedar_uid: "t \<in> set uid_types \<Longrightarrow> plain s \<Longrightarrow> parse_uid lib (t @ ''::'' @ CHR 0x22 # s @ [CHR 0x22]) = Some (t, s)"
proof -
  note L = assms [unfolded cedar_laws_def]
  show "fst (is_authorized lib ps req es) \<longleftrightarrow>
      (\<exists>q \<in> set ps. cp_effect q = Permit \<and> applies q req es) \<and> \<not> (\<exists>q \<in> set ps. cp_effect q = Forbid \<and> applies q req es)"
    using L [THEN conjunct1] by blast
  show "applies q req es \<Longrightarrow> cp_principal q = EqScope u \<Longrightarrow> rq_principal req = u"
    using L [THEN conjunct2, THEN conjunct1] by blast
  show "applies q req es \<Longrightarrow> cp_action q = EqAction u \<Longrightarrow> rq_action req = u"
    using L [THEN conjunct2, THEN conjunct2, THEN conjunct1] by blast
  show "applies q req es \<Longrightarrow> cp_resource q = EqScope u \<Longrightarrow> rq_resource req = u"
    using L [THEN conjunct2, THEN conjunct2, THEN conjunct2, THEN conjunct1] by blast
  show "list_all2 (\<lambda>t q. parse_policies lib t = Inr [q]) ts qs \<Longrightarrow> parse_policies lib (with_lines ts) = Inr qs"
    using L [THEN conjunct2, THEN conjunct2, THEN conjunct2, THEN conjunct2, THEN conjunct1] by blast
  show "trim s = [] \<Longrightarrow> parse_policies lib s = Inr qs \<Longrightarrow> qs = []"
    using L [THEN conjunct2, THEN conjunct2, THEN conjunct2, THEN conjunct2, THEN conjunct2, THEN conjunct1] by blast
  show "\<exists>q'. parse_policies lib (print_policy lib q) = Inr [q'] \<and> cp_principal q' = cp_principal q
      \<and> cp_action q' = cp_action q \<and> cp_effect q' = cp_effect q \<and> cp_resource q' = cp_resource q"
    using L [THEN conjunct2, THEN conjunct2, THEN conjunct2, THEN conjunct2, THEN conjunct2, THEN conjunct2, THEN conjunct1] by blast
  show "t \<in> set uid_types \<Longrightarrow> plain s \<Longrightarrow> parse_uid lib (t @ ''::'' @ CHR 0x22 # s @ [CHR 0x22]) = Some (t, s)"
    using L [THEN conjunct2, THEN conjunct2, THEN conjunct2, THEN conjunct2, THEN conjunct2, THEN conjunct2, THEN conjunct2] by blast
qed

lemma escape_plain: "plain s \<Longrightarrow> escape_quotes s = s"
  by (induction s) (auto simp: plain_def escape_quotes_def)

lemma to_cedar_uid_plain: "cedar_laws lib applies \<Longrightarrow> plain (ref_id r) \<Longrightarrow> to_cedar_uid lib r = Inr (ref_uid r)"
proof -
  assume laws: "cedar_laws lib applies" and "plain (ref_id r)"
  moreover have "cedar_type r \<in> set uid_types" by (cases r) (simp_all add: uid_types_def)
  ultimately show ?thesis
    using cedar_uid [OF laws, of "cedar_type r" "ref_id r"] by (simp add: to_cedar_uid_def escape_plain ref_uid_def)
qed

lemma action_uid_plain: "cedar_laws lib applies \<Longrightarrow> plain a \<Longrightarrow> action_uid lib a = Inr (''Policy::Action'', a)"
  using cedar_uid [of lib applies "''Policy::Action''" a] by (simp add: action_uid_def uid_types_def)

lemma same_decision:
  assumes laws: "cedar_laws lib applies"
    and "\<And>q. applies q \<lparr>rq_principal = who, rq_action = act, rq_resource = res, rq_context = []\<rparr> es \<Longrightarrow> q \<in> set ps \<longleftrightarrow> q \<in> set ps'"
  shows "eval_request lib ps who act res es \<longleftrightarrow> eval_request lib ps' who act res es"
proof -
  let ?req = "\<lparr>rq_principal = who, rq_action = act, rq_resource = res, rq_context = []\<rparr>"
  have "fst (is_authorized lib ps ?req es) \<longleftrightarrow> fst (is_authorized lib ps' ?req es)"
    unfolding cedar_decides [OF laws] using assms(2) by metis
  then show ?thesis by (simp add: eval_request_def)
qed

section \<open>Texts of one statement\<close>

definition single :: "cedar_lib \<Rightarrow> string \<Rightarrow> bool" where
  "single lib t \<longleftrightarrow> (case parse_policies lib t of Inr [q] \<Rightarrow> True | _ \<Rightarrow> False)"

definition statement :: "cedar_lib \<Rightarrow> string \<Rightarrow> cedar_policy" where
  "statement lib t = the (parse_first lib t)"

lemma single_parse: "single lib t \<Longrightarrow> parse_policies lib t = Inr [statement lib t]"
  by (auto simp: single_def statement_def parse_first_def split: sum.splits list.splits)

lemma single_first: "single lib t \<Longrightarrow> parse_first lib t = Some (statement lib t)"
  by (simp add: single_parse parse_first_def)

lemma parse_lines:
  assumes "cedar_laws lib applies" and "\<forall>t \<in> set ts. single lib t"
  shows "parse_policies lib (with_lines ts) = Inr (map (statement lib) ts)"
  using assms(2) by (intro cedar_lines [OF assms(1)]) (simp add: list_all2_conv_all_nth single_parse)

lemma printed_single:
  assumes "cedar_laws lib applies"
  shows "single lib (print_policy lib q)" and "cp_principal (statement lib (print_policy lib q)) = cp_principal q"
    and "cp_action (statement lib (print_policy lib q)) = cp_action q"
    and "cp_effect (statement lib (print_policy lib q)) = cp_effect q"
    and "cp_resource (statement lib (print_policy lib q)) = cp_resource q"
  using cedar_print [OF assms, of q] by (auto simp: single_def statement_def parse_first_def)

lemma add_policies_Inr: "add_policies lib ps ms = Inr qs \<Longrightarrow> qs = ps @ ms"
proof (induction ms arbitrary: ps)
  case (Cons m ms)
  then show ?case using Cons.IH [of "ps @ [m]"] by (auto split: option.splits)
qed simp

lemma add_policies_ok: "(\<And>ps m. m \<in> set ms \<Longrightarrow> add_error lib ps m = None) \<Longrightarrow> add_policies lib ps ms = Inr (ps @ ms)"
  by (induction ms arbitrary: ps) auto

lemma effective_set:
  assumes laws: "cedar_laws lib applies" and "build_effective_policy_set lib ctx e = Inr ps"
    and one: "\<forall>t \<in> set (effective_texts ctx e). single lib t"
  shows "ps = map (statement lib) (effective_texts ctx e) @ px_managed ctx"
proof -
  let ?txt = "with_lines (effective_texts ctx e)"
  from parse_lines [OF laws one] have parsed: "parse_policies lib ?txt = Inr (map (statement lib) (effective_texts ctx e))" .
  have "(if trim ?txt = [] then Inr [] else map_err (\<lambda>m. Internal (''Failed to parse policies: '' @ m)) (parse_policies lib ?txt))
      = Inr (map (statement lib) (effective_texts ctx e))"
    using cedar_blank [OF laws, of ?txt] parsed by (auto simp: map_err_def)
  with assms(2) show ?thesis
    unfolding build_effective_policy_set_def Let_def by (auto dest: add_policies_Inr)
qed

section \<open>The statements of a group\<close>

definition for_group :: "access_group \<Rightarrow> cedar_policy \<Rightarrow> bool" where
  "for_group g q \<longleftrightarrow> cp_principal q = EqScope (ref_uid (ag_principal g)) \<and> (\<exists>t. cp_action q = EqAction (t, ag_action g))"

lemma for_group_applies:
  assumes "cedar_laws lib applies" and "for_group g q" and "applies q req es"
  shows "rq_principal req = ref_uid (ag_principal g)" and "snd (rq_action req) = ag_action g"
proof -
  from assms(2) obtain t where p: "cp_principal q = EqScope (ref_uid (ag_principal g))"
    and a: "cp_action q = EqAction (t, ag_action g)"
    by (auto simp: for_group_def)
  show "rq_principal req = ref_uid (ag_principal g)" using cedar_principal [OF assms(1,3) p] .
  show "snd (rq_action req) = ag_action g" using cedar_action [OF assms(1,3) a] by simp
qed

lemma owned_row_for_group:
  assumes "p \<in> set (owned_rows lib rows g)" and "single lib (po_text p)"
  shows "for_group g (statement lib (po_text p))"
proof -
  from assms have "is_owned (statement lib (po_text p)) (ag_principal g) (ag_action g) (po_user_id p = None)"
    by (auto simp: owned_rows_def single_first)
  then show ?thesis
    by (auto simp: is_owned_def for_group_def principal_constraint_matches_def action_constraint_matches_def
        split: action_scope.splits)
qed

lemma planned_text_for_group:
  assumes "cedar_laws lib applies" and "planned_text lib (ag_principal g) (ag_action g) t"
  shows "single lib t" and "for_group g (statement lib t)"
  using assms by (auto simp: planned_text_def for_group_def printed_single [OF assms(1)] group_policy_def)

end
