(* ===== verification/Policy_Engine.thy ===== *)
theory Policy_Engine
  imports Policy_Rules
begin

text \<open>
  A small engine for which \<open>cedar_laws\<close> holds, on which the properties of policies are applied to
  concrete worlds. It prints a policy on one line, with the separators escaped, and decides by the
  scopes; a policy with conditions never applies in it.
\<close>

section \<open>Printing and parsing\<close>

fun enc_str :: "string \<Rightarrow> string" where
  "enc_str [] = ''.''"
| "enc_str (c # cs) =
     (if c = CHR 0x0A then CHR ''%'' # CHR ''n'' # enc_str cs
      else if c = CHR ''.'' then CHR ''%'' # CHR ''d'' # enc_str cs
      else if c = CHR ''%'' then CHR ''%'' # CHR ''e'' # enc_str cs
      else c # enc_str cs)"

definition unescaped :: "char \<Rightarrow> char" where
  "unescaped d = (if d = CHR ''n'' then CHR 0x0A else if d = CHR ''d'' then CHR ''.'' else CHR ''%'')"

fun dec_str :: "string \<Rightarrow> (string \<times> string) option" where
  "dec_str [] = None"
| "dec_str (c # cs) =
     (if c = CHR ''.'' then Some ([], cs)
      else if c = CHR ''%'' then
        (case cs of [] \<Rightarrow> None | d # ds \<Rightarrow> map_option (apfst (Cons (unescaped d))) (dec_str ds))
      else map_option (apfst (Cons c)) (dec_str cs))"

definition enc_uid :: "uid \<Rightarrow> string" where
  "enc_uid u = enc_str (fst u) @ enc_str (snd u)"

definition dec_uid :: "string \<Rightarrow> (uid \<times> string) option" where
  "dec_uid s = Option.bind (dec_str s) (\<lambda>(t, r). Option.bind (dec_str r) (\<lambda>(i, r'). Some ((t, i), r')))"

fun enc_scope :: "scope \<Rightarrow> string" where
  "enc_scope AnyScope = ''A''"
| "enc_scope (EqScope u) = CHR ''E'' # enc_uid u"
| "enc_scope (InScope u) = CHR ''I'' # enc_uid u"
| "enc_scope (IsScope t) = CHR ''T'' # enc_str t"
| "enc_scope (IsInScope t u) = CHR ''Q'' # enc_str t @ enc_uid u"

definition dec_scope :: "string \<Rightarrow> (scope \<times> string) option" where
  "dec_scope s =
     (case s of
        [] \<Rightarrow> None
      | c # r \<Rightarrow>
          if c = CHR ''A'' then Some (AnyScope, r)
          else if c = CHR ''E'' then map_option (apfst EqScope) (dec_uid r)
          else if c = CHR ''I'' then map_option (apfst InScope) (dec_uid r)
          else if c = CHR ''T'' then map_option (apfst IsScope) (dec_str r)
          else Option.bind (dec_str r) (\<lambda>(t, r'). map_option (apfst (IsInScope t)) (dec_uid r')))"

fun enc_uids :: "uid list \<Rightarrow> string" where
  "enc_uids [] = ''Z''"
| "enc_uids (u # us) = CHR ''L'' # enc_uid u @ enc_uids us"

fun dec_uids :: "nat \<Rightarrow> string \<Rightarrow> (uid list \<times> string) option" where
  "dec_uids n [] = None"
| "dec_uids 0 s = None"
| "dec_uids (Suc n) (c # r) =
     (if c = CHR ''Z'' then Some ([], r)
      else Option.bind (dec_uid r) (\<lambda>(u, r'). map_option (apfst (Cons u)) (dec_uids n r')))"

fun enc_action :: "action_scope \<Rightarrow> string" where
  "enc_action AnyAction = ''A''"
| "enc_action (EqAction u) = CHR ''E'' # enc_uid u"
| "enc_action (InActions us) = CHR ''I'' # enc_uids us"

definition dec_action :: "string \<Rightarrow> (action_scope \<times> string) option" where
  "dec_action s =
     (case s of
        [] \<Rightarrow> None
      | c # r \<Rightarrow>
          if c = CHR ''A'' then Some (AnyAction, r)
          else if c = CHR ''E'' then map_option (apfst EqAction) (dec_uid r)
          else map_option (apfst InActions) (dec_uids (length r) r))"

definition enc_policy :: "cedar_policy \<Rightarrow> string" where
  "enc_policy q =
     (if cp_effect q = Permit then CHR ''p'' else CHR ''f'')
     # enc_scope (cp_principal q) @ enc_action (cp_action q) @ enc_scope (cp_resource q)"

definition bare :: "effect \<Rightarrow> scope \<Rightarrow> action_scope \<Rightarrow> scope \<Rightarrow> cedar_policy" where
  "bare eff who act res = \<lparr>cp_annotations = [], cp_effect = eff, cp_principal = who, cp_action = act, cp_resource = res,
     cp_conditions = []\<rparr>"

definition dec_policy :: "string \<Rightarrow> cedar_policy option" where
  "dec_policy s =
     (case s of
        [] \<Rightarrow> None
      | c # r \<Rightarrow>
          if c = CHR ''p'' \<or> c = CHR ''f'' then
            Option.bind (dec_scope r) (\<lambda>(who, r1). Option.bind (dec_action r1) (\<lambda>(act, r2).
            Option.bind (dec_scope r2) (\<lambda>(res, r3).
            Some (bare (if c = CHR ''p'' then Permit else Forbid) who act res))))
          else None)"

fun split_lines :: "string \<Rightarrow> string list" where
  "split_lines [] = [[]]"
| "split_lines (c # cs) =
     (if c = CHR 0x0A then [] # split_lines cs
      else case split_lines cs of [] \<Rightarrow> [[c]] | l # ls \<Rightarrow> (c # l) # ls)"

fun dec_lines :: "string list \<Rightarrow> cedar_policy list option" where
  "dec_lines [] = Some []"
| "dec_lines (l # ls) =
     (if l = [] then dec_lines ls
      else Option.bind (dec_policy l) (\<lambda>q. map_option (Cons q) (dec_lines ls)))"

definition dec_text :: "string \<Rightarrow> string + cedar_policy list" where
  "dec_text s = (case dec_lines (split_lines s) of None \<Rightarrow> Inl ''unexpected token'' | Some qs \<Rightarrow> Inr qs)"

definition demo_parse_uid :: "string \<Rightarrow> uid option" where
  "demo_parse_uid s =
     (let pre = takeWhile (\<lambda>c. c \<noteq> CHR 0x22) s
      in Some (butlast (butlast pre), butlast (drop (length pre + 1) s)))"

section \<open>Deciding\<close>

definition scope_covers :: "cedar_entity list \<Rightarrow> scope \<Rightarrow> uid \<Rightarrow> bool" where
  "scope_covers es s u =
     (case s of
        AnyScope \<Rightarrow> True
      | EqScope v \<Rightarrow> u = v
      | InScope v \<Rightarrow> u = v \<or> list_ex (\<lambda>e. en_uid e = u \<and> v \<in> set (en_parents e)) es
      | IsScope t \<Rightarrow> fst u = t
      | IsInScope t v \<Rightarrow> fst u = t \<and> (u = v \<or> list_ex (\<lambda>e. en_uid e = u \<and> v \<in> set (en_parents e)) es))"

definition action_covers :: "action_scope \<Rightarrow> uid \<Rightarrow> bool" where
  "action_covers s u = (case s of AnyAction \<Rightarrow> True | EqAction v \<Rightarrow> u = v | InActions us \<Rightarrow> u \<in> set us)"

definition demo_applies :: "cedar_policy \<Rightarrow> cedar_request \<Rightarrow> cedar_entity list \<Rightarrow> bool" where
  "demo_applies q req es \<longleftrightarrow> cp_conditions q = [] \<and> scope_covers es (cp_principal q) (rq_principal req)
     \<and> action_covers (cp_action q) (rq_action req) \<and> scope_covers es (cp_resource q) (rq_resource req)"

definition demo_cedar :: cedar_lib where
  "demo_cedar =
     \<lparr>parse_policies = dec_text, print_policy = enc_policy, parse_uid = demo_parse_uid,
      add_error = (\<lambda>ps q. None), entities_ok = (\<lambda>es. True), request_error = (\<lambda>req. None),
      is_authorized = (\<lambda>ps req es.
        (list_ex (\<lambda>q. cp_effect q = Permit \<and> demo_applies q req es) ps
         \<and> \<not> list_ex (\<lambda>q. cp_effect q = Forbid \<and> demo_applies q req es) ps, [])),
      partial_residuals = (\<lambda>ps who act t. filter (\<lambda>q. cp_conditions q = [] \<and> scope_covers [who] (cp_principal q) (en_uid who)
        \<and> action_covers (cp_action q) act \<and> (case cp_resource q of EqScope u \<Rightarrow> fst u = t | _ \<Rightarrow> False)) ps),
      partial_satisfied = (\<lambda>ps who act t. filter (\<lambda>q. cp_conditions q = [] \<and> scope_covers [who] (cp_principal q) (en_uid who)
        \<and> action_covers (cp_action q) act \<and> cp_resource q = AnyScope) ps),
      sha256 = (\<lambda>s. s), rfc3339 = (\<lambda>t. [])\<rparr>"

section \<open>The laws\<close>

lemma dec_enc_str [simp]: "dec_str (enc_str s @ r) = Some (s, r)"
  by (induction s) (auto simp: unescaped_def)

lemma dec_enc_uid [simp]: "dec_uid (enc_uid u @ r) = Some (u, r)"
  by (simp add: dec_uid_def enc_uid_def)

lemma dec_enc_scope [simp]: "dec_scope (enc_scope s @ r) = Some (s, r)"
  by (cases s) (simp_all add: dec_scope_def)

lemma length_enc_uids: "length us < length (enc_uids us)"
  by (induction us) auto

lemma dec_enc_uids: "length us < n \<Longrightarrow> dec_uids n (enc_uids us @ r) = Some (us, r)"
proof (induction us arbitrary: n)
  case Nil
  then show ?case by (cases n) simp_all
next
  case (Cons u us)
  then show ?case by (cases n) simp_all
qed

lemma dec_enc_action [simp]: "dec_action (enc_action s @ r) = Some (s, r)"
  using length_enc_uids by (cases s) (simp_all add: dec_action_def dec_enc_uids trans_less_add1)

lemma dec_enc_policy: "dec_policy (enc_policy q) = Some (bare (cp_effect q) (cp_principal q) (cp_action q) (cp_resource q))"
  using dec_enc_scope [of "cp_resource q" "[]"]
  by (cases "cp_effect q") (simp_all add: dec_policy_def enc_policy_def)

lemma split_lines_append: "split_lines (a @ CHR 0x0A # b) = split_lines a @ split_lines b"
proof (induction a)
  case (Cons c a)
  have "split_lines a \<noteq> []" by (cases a) (auto split: list.splits)
  with Cons show ?case by (auto split: list.splits)
qed simp

lemma dec_lines_append: "dec_lines (xs @ ys) = Option.bind (dec_lines xs) (\<lambda>ps. map_option (\<lambda>qs. ps @ qs) (dec_lines ys))"
  by (induction xs) (auto split: bind_split; cases "dec_lines ys"; simp)+

lemma dec_text_lines: "list_all2 (\<lambda>t q. dec_text t = Inr [q]) ts qs \<Longrightarrow> dec_text (with_lines ts) = Inr qs"
proof -
  assume "list_all2 (\<lambda>t q. dec_text t = Inr [q]) ts qs"
  then have "dec_lines (split_lines (with_lines ts)) = Some qs"
  proof (induction ts qs rule: list_all2_induct)
    case (Cons t ts q qs)
    have "with_lines (t # ts) = t @ CHR 0x0A # with_lines ts" by (simp add: with_lines_def)
    moreover have "dec_lines (split_lines t) = Some [q]" using Cons.hyps(1) by (simp add: dec_text_def split: option.splits)
    ultimately show ?case using Cons.IH by (simp add: split_lines_append dec_lines_append)
  qed (simp add: with_lines_def)
  then show ?thesis by (simp add: dec_text_def)
qed

definition inline :: "string \<Rightarrow> bool" where
  "inline s \<longleftrightarrow> CHR 0x0A \<notin> set s"

lemma inline_simps [simp]: "inline []" "inline (c # s) \<longleftrightarrow> c \<noteq> CHR 0x0A \<and> inline s" "inline (s @ t) \<longleftrightarrow> inline s \<and> inline t"
  by (auto simp: inline_def)

lemma enc_str_inline [simp]: "inline (enc_str s)"
  by (induction s) auto

lemma enc_inline [simp]: "inline (enc_uid u)" "inline (enc_scope s)" "inline (enc_uids us)" "inline (enc_action a)" "inline (enc_policy q)"
proof -
  show uid: "inline (enc_uid u)" for u by (simp add: enc_uid_def)
  show scope: "inline (enc_scope s)" for s by (cases s) (simp_all add: uid)
  show uids: "inline (enc_uids us)" for us by (induction us) (simp_all add: uid)
  show action: "inline (enc_action a)" for a by (cases a) (simp_all add: uid uids)
  show "inline (enc_policy q)" by (simp add: enc_policy_def scope action)
qed

lemma split_inline: "inline s \<Longrightarrow> split_lines s = [s]"
  by (induction s) auto

lemma dec_text_print: "dec_text (enc_policy q) = Inr [bare (cp_effect q) (cp_principal q) (cp_action q) (cp_resource q)]"
proof -
  have "enc_policy q \<noteq> []" by (simp add: enc_policy_def)
  then show ?thesis by (simp add: dec_text_def split_inline dec_enc_policy)
qed

text \<open>A blank text has no statements: a line of the engine starts with a letter that is not blank.\<close>

lemma blank_chars:
  assumes "trim s = []"
  shows "CHR ''p'' \<notin> set s \<and> CHR ''f'' \<notin> set s"
proof -
  let ?D = "dropWhile is_whitespace (chars s)"
  have "dropWhile is_whitespace (rev ?D) = []"
  proof (rule ccontr)
    assume "dropWhile is_whitespace (rev ?D) \<noteq> []"
    then obtain x where "x \<in> set (dropWhile is_whitespace (rev ?D))" by (meson ex_in_conv set_empty)
    moreover from this have "x \<in> set (chars s)" by (metis set_dropWhileD set_rev)
    ultimately show False using assms chars_nonempty [of x s] by (auto simp: trim_def)
  qed
  then have "\<forall>x \<in> set ?D. is_whitespace x" by (simp add: dropWhile_eq_Nil_conv)
  then have "\<forall>x \<in> set (chars s). is_whitespace x"
    by (metis dropWhile_append2 set_dropWhileD takeWhile_dropWhile_id set_takeWhileD Un_iff set_append)
  moreover have "set s = (\<Union>x \<in> set (chars s). set x)" by (metis concat_chars set_concat)
  moreover have "is_whitespace x \<Longrightarrow> CHR ''p'' \<notin> set x \<and> CHR ''f'' \<notin> set x" for x
    by (auto simp: is_whitespace_def whitespace_chars_def)
  ultimately show ?thesis by blast
qed

lemma set_split_lines: "l \<in> set (split_lines s) \<Longrightarrow> set l \<subseteq> set s"
  by (induction s arbitrary: l) (fastforce split: if_splits list.splits)+

lemma dec_lines_blank: "dec_lines ls = Some qs \<Longrightarrow> \<forall>l \<in> set ls. CHR ''p'' \<notin> set l \<and> CHR ''f'' \<notin> set l \<Longrightarrow> qs = []"
  by (induction ls arbitrary: qs) (auto simp: dec_policy_def split: if_splits list.splits bind_splits)

lemma dec_text_blank: "trim s = [] \<Longrightarrow> dec_text s = Inr qs \<Longrightarrow> qs = []"
  using blank_chars [of s] set_split_lines [of _ s]
  by (intro dec_lines_blank [of "split_lines s"]) (auto simp: dec_text_def split: option.splits)

lemma demo_parse_uid_law:
  assumes "CHR 0x22 \<notin> set t"
  shows "demo_parse_uid (t @ CHR '':'' # CHR '':'' # CHR 0x22 # s @ [CHR 0x22]) = Some (t, s)"
proof -
  have "takeWhile (\<lambda>c. c \<noteq> CHR 0x22) (t @ CHR '':'' # CHR '':'' # CHR 0x22 # s @ [CHR 0x22]) = t @ [CHR '':'', CHR '':'']"
    using assms by (induction t) auto
  then show ?thesis by (simp add: demo_parse_uid_def butlast_append)
qed

lemma uid_types_unquoted: "t \<in> set uid_types \<Longrightarrow> CHR 0x22 \<notin> set t"
  by (auto simp: uid_types_def)

lemma demo_cedar_laws: "cedar_laws demo_cedar demo_applies"
  unfolding cedar_laws_def demo_cedar_def
  by (auto simp: dec_text_print bare_def demo_parse_uid_law [OF uid_types_unquoted] demo_applies_def scope_covers_def action_covers_def list_ex_iff
      intro: dec_text_lines dec_text_blank)

end
