(* ===== verification/Policy_Props.thy ===== *)
theory Policy_Props
  imports Policy_Engine
begin

text \<open>
  The properties of reconciliations: one that goes through is in force afterwards, and one changes
  no row but those of its groups.
\<close>

section \<open>A plan, read\<close>

definition plan_context :: "policy_config \<Rightarrow> string \<Rightarrow> access_group list \<Rightarrow> 'w policy_world_scheme \<Rightarrow> plan_ctx" where
  "plan_context pc u grps w =
     (let (es, h) = build_entities_for_target (pc_lib pc) grps (tool_definitions u w)
      in \<lparr>px_live = filter (\<lambda>p. po_user_id p = Some u) (policies w) @ filter (\<lambda>p. po_user_id p = None) (policies w),
          px_managed = managed_policies w, px_entities = es, px_hierarchy = h\<rparr>)"

lemma plan_context_faults [simp]: "plan_context pc u grps (w\<lparr>faults := ff\<rparr>) = plan_context pc u grps w"
  by (simp add: plan_context_def tool_definitions_def registry_of_def split: option.split)

lemma read_find_policies [read_rules]: "read_only (find_policies_by_user u)" "read_only find_system_policies"
  "read_only (find_policy_by_name u n)"
  unfolding find_policies_by_user_def find_system_policies_def find_policy_by_name_def by (intro read_rules)+

lemma reconcile_Inr:
  assumes "reconcile pc u grps w = (Inr plan, w')"
  shows "\<exists>ff. w' = w\<lparr>faults := ff\<rparr>" and "pl_user_id plan = u"
    and "plan_groups (pc_lib pc) (plan_context pc u grps w) grps = Inr (pl_edits plan, pl_conflicts plan)"
proof -
  from assms obtain ff1 ff2 edits conflicts where
    "w' = w\<lparr>faults := ff1, faults := ff2\<rparr>"
    "plan_groups (pc_lib pc) (plan_context pc u grps (w\<lparr>faults := ff1, faults := ff2\<rparr>)) grps = Inr (edits, conflicts)"
    "pl_user_id plan = u" "pl_edits plan = edits" "pl_conflicts plan = conflicts"
    unfolding reconcile_def find_policies_by_user_def find_system_policies_def
    by (auto elim!: qbind_Inr_E dest!: db_read_Inr simp: gets_def from_result_def ret_def plan_context_def Let_def
        split: prod.splits)
  then show "\<exists>ff. w' = w\<lparr>faults := ff\<rparr>" and "pl_user_id plan = u"
    and "plan_groups (pc_lib pc) (plan_context pc u grps w) grps = Inr (pl_edits plan, pl_conflicts plan)"
    by (auto intro: exI [of _ ff2])
qed

lemma plan_groups_Inr:
  "plan_groups lib ctx gs = Inr (es, []) \<Longrightarrow>
     \<exists>ess. list_all2 (\<lambda>g es'. plan_for_group lib ctx g = Inr es') gs ess \<and> es = concat ess"
proof (induction gs arbitrary: es)
  case (Cons g gs)
  then obtain es1 es2 where "plan_for_group lib ctx g = Inr es1" and "plan_groups lib ctx gs = Inr (es2, [])" and "es = es1 @ es2"
    by (auto simp: and_then_Inr split: sum.splits plan_failure.splits prod.splits)
  with Cons.IH obtain ess where "list_all2 (\<lambda>g es'. plan_for_group lib ctx g = Inr es') gs ess" and "es2 = concat ess" by blast
  with \<open>plan_for_group lib ctx g = Inr es1\<close> \<open>es = es1 @ es2\<close> show ?case by (intro exI [of _ "es1 # ess"]) simp
qed simp

section \<open>Edits, applied\<close>

fun edit_deletes :: "edit list \<Rightarrow> string list" where
  "edit_deletes [] = []"
| "edit_deletes (Delete i # es) = i # edit_deletes es"
| "edit_deletes (Create n t # es) = edit_deletes es"

fun edit_creates :: "edit list \<Rightarrow> (string \<times> string) list" where
  "edit_creates [] = []"
| "edit_creates (Delete i # es) = edit_creates es"
| "edit_creates (Create n t # es) = (n, t) # edit_creates es"

lemma edits_append [simp]:
  "edit_deletes (xs @ ys) = edit_deletes xs @ edit_deletes ys" "edit_creates (xs @ ys) = edit_creates xs @ edit_creates ys"
  by (induction xs rule: edit_deletes.induct) simp_all

lemma edits_deletes [simp]: "edit_deletes (map Delete ids) = ids" "edit_creates (map Delete ids) = []"
  by (induction ids) simp_all

lemma edits_creates [simp]:
  "edit_deletes (map (\<lambda>(n, t). Create n t) cs) = []" "edit_creates (map (\<lambda>(n, t). Create n t) cs) = cs"
  by (induction cs) auto

lemma pending_edits [simp]:
  "edit_deletes (pending_to_edits e) = pe_deletes e" "edit_creates (pending_to_edits e) = pe_creates e"
  by (simp_all add: pending_to_edits_def)

lemma edits_concat:
  "edit_deletes (concat ess) = concat (map edit_deletes ess)" "edit_creates (concat ess) = concat (map edit_creates ess)"
  by (induction ess) simp_all

text \<open>The ids that are still to be drawn are not those of rows.\<close>

definition new_names :: "'w vault_world_scheme \<Rightarrow> string set" where
  "new_names w = insert [] (set (new_ids w))"

lemma new_id_step: "new_id w = (r, w') \<Longrightarrow> \<exists>i. r = Inr i \<and> i \<in> new_names w \<and> new_names w' \<subseteq> new_names w
    \<and> (\<exists>is. w' = w\<lparr>new_ids := is\<rparr>)"
proof -
  assume "new_id w = (r, w')"
  moreover have "\<exists>is. w = w\<lparr>new_ids := is\<rparr>" by (rule exI [of _ "new_ids w"]) simp
  ultimately show ?thesis by (auto simp: new_id_def new_names_def split: list.splits)
qed

lemma create_step:
  assumes "repo_create policies policies_update po_id r w = (Inr a, w')"
  shows "a = r" and "policies w' = policies w @ [r]" and "new_ids w' = new_ids w"
  using assms unfolding repo_create_def
  by (auto elim!: db_call_cases simp: create_row_def split: option.splits if_splits)

lemma apply_edits_rows:
  assumes "apply_edits u es c w = (Inr c', w')" and "set (edit_deletes es) \<inter> new_names w = {}"
  shows "\<exists>rows. policies w' = filter (\<lambda>p. po_id p \<notin> set (edit_deletes es)) (policies w) @ rows
    \<and> map (\<lambda>p. (po_name p, po_text p)) rows = edit_creates es \<and> (\<forall>p \<in> set rows. po_user_id p = Some u \<and> po_enabled p)"
  using assms
proof (induction u es c arbitrary: w rule: apply_edits.induct)
  case (1 u c)
  then show ?case by (simp add: ret_def)
next
  case (2 u i es created deleted)
  let ?c = "\<lambda>w1. find_row po_id i (policies w1)"
  from "2.prems"(1) obtain w1 where read: "w1 = w\<lparr>faults := tl (faults w)\<rparr>" and
    step: "(case ?c w1 of None \<Rightarrow> apply_edits u es (created, deleted)
      | Some p \<Rightarrow> qbind (repo_delete policies_update po_id i) (\<lambda>_. apply_edits u es (created, Suc deleted))) w1 = (Inr c', w')"
    by (auto elim!: qbind_Inr_E dest!: db_read_Inr simp: repo_find_by_id_def)
  show ?case
  proof (cases "?c w1")
    case None
    with step have "apply_edits u es (created, deleted) w1 = (Inr c', w')" by simp
    moreover from None read have "filter (\<lambda>p. po_id p \<notin> set (edit_deletes (Delete i # es))) (policies w)
        = filter (\<lambda>p. po_id p \<notin> set (edit_deletes es)) (policies w1)"
      by (auto simp: find_row_None intro!: filter_cong)
    ultimately show ?thesis using "2.IH"(1) [of w1] "2.prems"(2) read by (simp add: new_names_def)
  next
    case (Some p)
    with step obtain w2 where w2: "w2 = policies_update (delete_row po_id i) (w1\<lparr>faults := tl (faults w1)\<rparr>)"
      and rest: "apply_edits u es (created, Suc deleted) w2 = (Inr c', w')"
      by (auto elim!: qbind_Inr_E dest!: db_write_Inr simp: repo_delete_def)
    from "2.IH"(2) [OF rest] "2.prems"(2) w2 read show ?thesis
      by (auto simp: new_names_def delete_row_def conj_commute)
  qed
next
  case (3 u name body es created deleted)
  let ?row = "\<lambda>i w. \<lparr>po_id = i, po_user_id = Some u, po_name = name, po_description = [], po_text = body,
    po_enabled = True, po_created_at = clock w, po_updated_at = clock w\<rparr>"
  from "3.prems"(1) obtain i w1 a w2 where i: "new_id w = (Inr i, w1)"
    and c: "repo_create policies policies_update po_id (?row i w) w1 = (Inr a, w2)"
    and rest: "apply_edits u es (Suc created, deleted) w2 = (Inr c', w')"
    by (auto elim!: qbind_Inr_E simp: gets_def)
  from new_id_step [OF i] have fresh: "i \<in> new_names w" "new_names w1 \<subseteq> new_names w" and w1: "policies w1 = policies w"
    by auto
  note w2 = create_step [OF c]
  have "set (edit_deletes es) \<inter> new_names w2 = {}"
    using "3.prems"(2) fresh(2) w2(3) by (auto simp: new_names_def)
  from "3.IH" [OF rest this] obtain rows where
    "policies w' = filter (\<lambda>p. po_id p \<notin> set (edit_deletes es)) (policies w2) @ rows"
    "map (\<lambda>p. (po_name p, po_text p)) rows = edit_creates es" "\<forall>p \<in> set rows. po_user_id p = Some u \<and> po_enabled p" by blast
  moreover have "i \<notin> set (edit_deletes es)" using "3.prems"(2) fresh(1) by auto
  ultimately show ?case using w2 w1 by (intro exI [of _ "?row i w # rows"]) simp
qed

text \<open>What else an application of edits leaves alone.\<close>

lemma keeps_new_id: "(\<And>w is. P w \<Longrightarrow> P (w\<lparr>new_ids := is\<rparr>)) \<Longrightarrow> keeps P new_id"
  by (rule validI) (auto dest: new_id_step)

lemma keeps_repo_find: "(\<And>w ff. P w \<Longrightarrow> P (w\<lparr>faults := ff\<rparr>)) \<Longrightarrow> keeps P (repo_find_by_id get key i)"
  unfolding repo_find_by_id_def by (rule keeps_db_read)

lemma keeps_policies_write:
  "(\<And>w ff. P w \<Longrightarrow> P (w\<lparr>faults := ff\<rparr>)) \<Longrightarrow> (\<And>w f. P w \<Longrightarrow> P (policies_update f w)) \<Longrightarrow>
     keeps P (repo_delete policies_update po_id i)"
  "(\<And>w ff. P w \<Longrightarrow> P (w\<lparr>faults := ff\<rparr>)) \<Longrightarrow> (\<And>w f. P w \<Longrightarrow> P (policies_update f w)) \<Longrightarrow>
     keeps P (repo_create policies policies_update po_id r)"
  unfolding repo_delete_def repo_create_def by (intro keeps_db_write keeps_db_call; auto split: option.split)+

lemma keeps_apply_edits:
  assumes "\<And>w ff. P w \<Longrightarrow> P (w\<lparr>faults := ff\<rparr>)" and "\<And>w f. P w \<Longrightarrow> P (policies_update f w)"
    and "\<And>w is. P w \<Longrightarrow> P (w\<lparr>new_ids := is\<rparr>)"
  shows "keeps P (apply_edits u es c)"
proof (induction u es c rule: apply_edits.induct)
  case (1 u c)
  show ?case by (simp add: keeps_ret)
next
  case (2 u i es created deleted)
  show ?case unfolding apply_edits.simps
    by (intro keep_rules keeps_repo_find keeps_policies_write assms 2)
next
  case (3 u n t es created deleted)
  show ?case unfolding apply_edits.simps
    by (intro keep_rules keeps_new_id keeps_policies_write assms 3)
qed

lemma as_db_Inr [simp]: "as_db m w = (Inr a, w') \<longleftrightarrow> m w = (Inr a, w')"
  by (auto simp: as_db_def split: prod.splits sum.splits)

definition caches :: "'w policy_world_scheme \<Rightarrow> cedar_policy list \<times> (string \<Rightarrow> cedar_policy list option)
    \<times> (string \<Rightarrow> sandbox_policy option) \<times> (string \<Rightarrow> policy_decision option) \<times> (string \<Rightarrow> string list option)" where
  "caches w = (managed_policies w, policy_cache w, sandbox_cache w, decision_cache w, agent_tools_cache w)"

lemma apply_edits_caches: "apply_edits u es c w = (r, w') \<Longrightarrow> caches w' = caches w"
  by (rule validD [OF keeps_apply_edits [of "\<lambda>v. caches v = caches w"], of w]) (simp_all add: caches_def)

lemma plan_edits_owned:
  assumes "plan_for_group lib ctx g = Inr es"
  shows "set (edit_deletes es) \<subseteq> po_id ` set (owned_rows lib (px_live ctx) g)"
    and "\<forall>x \<in> set (edit_creates es). planned_text lib (ag_principal g) (ag_action g) (snd x)"
proof -
  from plan_for_group_Inr [OF assms] obtain e where "es = pending_to_edits e" and "owned_edits lib (px_live ctx) g e" by metis
  then show "set (edit_deletes es) \<subseteq> po_id ` set (owned_rows lib (px_live ctx) g)"
    and "\<forall>x \<in> set (edit_creates es). planned_text lib (ag_principal g) (ag_action g) (snd x)"
    by (simp_all add: owned_edits_def)
qed

lemma set_px_live: "set (px_live (plan_context pc u grps w)) = {p \<in> set (policies w). po_user_id p = Some u \<or> po_user_id p = None}"
  by (auto simp: plan_context_def split: prod.split)

lemma edits_concat_nth:
  assumes "length ess = n"
  shows "k \<in> set (edit_deletes (concat ess)) \<longleftrightarrow> (\<exists>j < n. k \<in> set (edit_deletes (ess ! j)))"
    and "x \<in> set (edit_creates (concat ess)) \<longleftrightarrow> (\<exists>j < n. x \<in> set (edit_creates (ess ! j)))"
  by (simp add: edits_concat, metis assms in_set_conv_nth)+

text \<open>A successful reconciliation, in one step.\<close>

lemma reconcile_or_fail_Inr:
  assumes run: "reconcile_or_fail pc u grps w = (Inr counts, w')"
    and fresh: "po_id ` set (policies w) \<inter> new_names w = {}"
  obtains ess rows w1 where
    "list_all2 (\<lambda>g es. plan_for_group (pc_lib pc) (plan_context pc u grps w) g = Inr es) grps ess"
    and "policies w' = filter (\<lambda>p. po_id p \<notin> set (edit_deletes (concat ess))) (policies w) @ rows"
    and "map (\<lambda>p. (po_name p, po_text p)) rows = edit_creates (concat ess)"
    and "\<forall>p \<in> set rows. po_user_id p = Some u \<and> po_enabled p"
    and "w' = invalidated u w1" and "caches w1 = caches w"
proof -
  from run obtain plan w1 where plan: "reconcile pc u grps w = (Inr plan, w1)" and commit: "commit pc plan w1 = (Inr counts, w')"
    unfolding reconcile_or_fail_def by (auto elim!: qbind_Inr_E)
  note r = reconcile_Inr [OF plan]
  from commit have clean: "pl_conflicts plan = []" by (auto simp: commit_def fail_def split: if_splits)
  with commit obtain ff w2 w3 c where w2: "w2 = w1\<lparr>faults := ff\<rparr>"
    and edits: "apply_edits u (pl_edits plan) (0, 0) w2 = (Inr c, w3)"
    and w': "w' = invalidated u w3"
    unfolding commit_def find_policies_by_user_def find_system_policies_def
    by (auto elim!: qbind_Inr_E dest!: db_read_Inr simp: fail_def invalidate_cache_def modify_def r(2) ret_def split: if_splits)
  from r(1) w2 have same: "policies w2 = policies w" "new_names w2 = new_names w" "caches w2 = caches w"
    by (auto simp: new_names_def caches_def)
  from plan_groups_Inr [OF r(3) [unfolded clean]] obtain ess where
    ess: "list_all2 (\<lambda>g es. plan_for_group (pc_lib pc) (plan_context pc u grps w) g = Inr es) grps ess"
    and es: "pl_edits plan = concat ess" by blast
  have len: "length ess = length grps" using ess by (simp add: list_all2_lengthD)
  have "set (edit_deletes (ess ! j)) \<subseteq> po_id ` set (policies w)" if "j < length grps" for j
    using plan_edits_owned(1) [OF list_all2_nthD [OF ess that]] set_px_live [of pc u grps w] by (auto simp: owned_rows_def)
  then have "set (edit_deletes (concat ess)) \<inter> new_names w2 = {}" using fresh same(2) edits_concat_nth(1) [OF len] by blast
  from apply_edits_rows [OF edits [unfolded es] this] same obtain rows where
      "policies w3 = filter (\<lambda>p. po_id p \<notin> set (edit_deletes (concat ess))) (policies w) @ rows"
      "map (\<lambda>p. (po_name p, po_text p)) rows = edit_creates (concat ess)"
      "\<forall>p \<in> set rows. po_user_id p = Some u \<and> po_enabled p" by auto
  moreover have "policies w' = policies w3" by (simp add: w' invalidated_def Let_def)
  moreover have "caches w3 = caches w" using apply_edits_caches [OF edits] same(3) by simp
  ultimately show thesis using that [of ess rows w3] ess w' by simp
qed

section \<open>The policy set of the rows\<close>

definition live_rows :: "string \<Rightarrow> 'w policy_world_scheme \<Rightarrow> policy list" where
  "live_rows u w = filter (\<lambda>p. po_user_id p = None) (policies w) @ filter (\<lambda>p. po_user_id p = Some u) (policies w)"

text \<open>What \<open>build_policy_set\<close> makes of the rows when nothing is cached.\<close>

definition policy_set_of :: "cedar_lib \<Rightarrow> string \<Rightarrow> 'w policy_world_scheme \<Rightarrow> app_error + cedar_policy list" where
  "policy_set_of lib u w =
     and_then (map_err (\<lambda>e. Internal (''Failed to parse policies: '' @ e))
       (parse_policies lib (with_lines (map po_text (filter po_enabled (live_rows u w))))))
       (\<lambda>ps. add_policies lib ps (managed_policies w))"

lemma build_policy_set_uncached:
  assumes "policy_cache w u = None"
  shows "\<exists>w'. build_policy_set pc u (w\<lparr>faults := []\<rparr>) = (policy_set_of (pc_lib pc) u w, w')"
proof -
  let ?w = "w\<lparr>faults := []\<rparr>"
  have reads: "find_system_policies ?w = (Inr (filter (\<lambda>p. po_user_id p = None) (policies w)), ?w)"
    "find_policies_by_user u ?w = (Inr (filter (\<lambda>p. po_user_id p = Some u) (policies w)), ?w)"
    by (simp_all add: find_system_policies_def find_policies_by_user_def op_eval)
  show ?thesis
  proof (cases "parse_policies (pc_lib pc) (with_lines (map po_text (filter po_enabled (live_rows u w))))")
    case (Inl e)
    then show ?thesis
      using assms by (simp add: build_policy_set_def policy_set_of_def live_rows_def qbind_Inr [where m = find_system_policies, OF reads(1)] qbind_Inr [where m = "find_policies_by_user u", OF reads(2)]
        map_err_def fail_def)
  next
    case (Inr ps)
    then show ?thesis
      using assms by (cases "add_policies (pc_lib pc) ps (managed_policies w)")
        (simp_all add: build_policy_set_def policy_set_of_def live_rows_def qbind_Inr [where m = find_system_policies, OF reads(1)] qbind_Inr [where m = "find_policies_by_user u", OF reads(2)]
        map_err_def fail_def ret_def)
  qed
qed

section \<open>In force\<close>

text \<open>A policy set in which the group decides as it asks.\<close>

definition decides :: "cedar_lib \<Rightarrow> plan_ctx \<Rightarrow> cedar_policy list \<Rightarrow> access_group \<Rightarrow> bool" where
  "decides lib ctx ps g \<longleftrightarrow>
     (\<forall>v \<in> set (ag_overrides (maybe_collapse_to_ancestors g (px_hierarchy ctx))). ov_intent v \<noteq> Default \<longrightarrow>
        (\<exists>res. to_cedar_uid lib (ov_resource v) = Inr res \<and>
           (eval_request lib ps (ref_uid (ag_principal g)) (''Policy::Action'', ag_action g) res (px_entities ctx)
            \<longleftrightarrow> ov_intent v = Allow)))"

definition plan_texts :: "plan_ctx \<Rightarrow> edit list \<Rightarrow> string list" where
  "plan_texts ctx es = map po_text (filter (\<lambda>p. po_enabled p \<and> po_id p \<notin> set (edit_deletes es)) (px_live ctx))
     @ map snd (edit_creates es)"

lemma plan_decides:
  assumes laws: "cedar_laws lib applies" and plan: "plan_for_group lib ctx g = Inr es"
    and one: "\<forall>p \<in> set (px_live ctx). po_enabled p \<longrightarrow> single lib (po_text p)"
    and "plain (ref_id (ag_principal g))" "plain (ag_action g)" "ag_default g \<noteq> Some Default"
  shows "decides lib ctx (map (statement lib) (plan_texts ctx es) @ px_managed ctx) g"
proof -
  from plan_for_group_Inr [OF plan] obtain e who act where es: "es = pending_to_edits e"
    and owned: "owned_edits lib (px_live ctx) g e"
    and uids: "to_cedar_uid lib (ag_principal g) = Inr who" "action_uid lib (ag_action g) = Inr act"
    and v: "verify_group lib ctx \<lparr>gx_group = maybe_collapse_to_ancestors g (px_hierarchy ctx),
           gx_owned = owned_rows lib (px_live ctx) g, gx_principal_uid = who, gx_action_uid = act\<rparr> e = Inr ()" by metis
  have texts: "plan_texts ctx es = effective_texts ctx e" by (simp add: plan_texts_def effective_texts_def es)
  have "\<forall>t \<in> set (effective_texts ctx e). single lib t"
    using one owned planned_text_for_group(1) [OF laws] by (auto simp: effective_texts_def owned_edits_def)
  with verify_group_Inr [OF v] effective_set [OF laws] assms(6) texts
  have "verify_overrides lib ctx \<lparr>gx_group = maybe_collapse_to_ancestors g (px_hierarchy ctx),
           gx_owned = owned_rows lib (px_live ctx) g, gx_principal_uid = who, gx_action_uid = act\<rparr> e
         (map (statement lib) (plan_texts ctx es) @ px_managed ctx)
         (ag_overrides (maybe_collapse_to_ancestors g (px_hierarchy ctx))) = Inr ()" by auto
  from verify_overrides_Inr [OF this] show ?thesis
    using uids to_cedar_uid_plain [OF laws assms(4)] action_uid_plain [OF laws assms(5)] by (simp add: decides_def)
qed

lemma decides_cong:
  assumes laws: "cedar_laws lib applies" and dec: "decides lib ctx ps g"
    and same: "\<And>q req es. applies q req es \<Longrightarrow> rq_principal req = ref_uid (ag_principal g) \<Longrightarrow> snd (rq_action req) = ag_action g
      \<Longrightarrow> q \<in> set ps \<longleftrightarrow> q \<in> set ps'"
  shows "decides lib ctx ps' g"
proof -
  have "eval_request lib ps (ref_uid (ag_principal g)) (''Policy::Action'', ag_action g) res es
      = eval_request lib ps' (ref_uid (ag_principal g)) (''Policy::Action'', ag_action g) res es" for res es
    by (rule same_decision [OF laws]) (rule same, auto)
  with dec show ?thesis by (simp add: decides_def)
qed

lemma px_managed_context [simp]: "px_managed (plan_context pc u grps w) = managed_policies w"
  by (simp add: plan_context_def split: prod.split)

lemma set_live_rows: "set (live_rows u w) = {p \<in> set (policies w). po_user_id p = None \<or> po_user_id p = Some u}"
  by (auto simp: live_rows_def)

text \<open>The statements of the other groups do not apply to the requests of a group.\<close>

lemma other_group:
  assumes laws: "cedar_laws lib applies" and keys: "distinct (map (\<lambda>g. (ag_principal g, ag_action g)) grps)"
    and "i < length grps" "j < length grps" and "for_group (grps ! j) q" and "applies q req es"
    and "rq_principal req = ref_uid (ag_principal (grps ! i))" and "snd (rq_action req) = ag_action (grps ! i)"
  shows "j = i"
proof -
  note a = for_group_applies [OF laws assms(5,6)]
  have "(ag_principal (grps ! j), ag_action (grps ! j)) = (ag_principal (grps ! i), ag_action (grps ! i))"
    using a assms(7,8) ref_uid_inj by auto
  with keys assms(3,4) show ?thesis
    by (metis (no_types, lifting) length_map nth_eq_iff_index_eq nth_map)
qed

lemma statements_after:
  assumes laws: "cedar_laws lib applies"
    and plans: "list_all2 (\<lambda>g es. plan_for_group lib ctx g = Inr es) grps ess"
    and wf: "wf_rows po_id rows" and live: "set (px_live ctx) \<subseteq> set rows"
    and one: "\<forall>p \<in> set (px_live ctx). po_enabled p \<longrightarrow> single lib (po_text p)"
    and keys: "distinct (map (\<lambda>g. (ag_principal g, ag_action g)) grps)" and i: "i < length grps"
    and a: "applies q req es" "rq_principal req = ref_uid (ag_principal (grps ! i))" "snd (rq_action req) = ag_action (grps ! i)"
  shows "q \<in> statement lib ` set (plan_texts ctx (ess ! i)) \<longleftrightarrow> q \<in> statement lib ` set (plan_texts ctx (concat ess))"
proof -
  have len: "length ess = length grps" using plans by (simp add: list_all2_lengthD)
  have plan: "plan_for_group lib ctx (grps ! j) = Inr (ess ! j)" if "j < length grps" for j
    by (rule list_all2_nthD [OF plans that])
  have kept: "po_id p \<notin> set (edit_deletes (ess ! j))"
    if "p \<in> set (px_live ctx)" "po_enabled p" "q = statement lib (po_text p)" "j < length grps" "po_id p \<notin> set (edit_deletes (ess ! i))" for p j
  proof
    assume "po_id p \<in> set (edit_deletes (ess ! j))"
    with plan_edits_owned(1) [OF plan [OF that(4)]] obtain p' where p': "p' \<in> set (owned_rows lib (px_live ctx) (grps ! j))"
      and "po_id p = po_id p'" by auto
    moreover have "p' \<in> set rows" "p \<in> set rows" using p' that(1) live by (auto simp: owned_rows_def)
    ultimately have "p' = p" by (metis find_row_mem option.inject wf)
    then have "for_group (grps ! j) q"
      using owned_row_for_group [of p lib "px_live ctx" "grps ! j"] p' that(1,2,3) one by simp
    with other_group [OF laws keys i that(4)] a have "j = i" by blast
    with that(5) \<open>po_id p \<in> set (edit_deletes (ess ! j))\<close> show False by simp
  qed
  have created: "j = i" if "x \<in> set (edit_creates (ess ! j))" "q = statement lib (snd x)" "j < length grps" for x j
    using other_group [OF laws keys i that(3)] a planned_text_for_group(2) [OF laws] plan_edits_owned(2) [OF plan [OF that(3)]] that(1,2)
    by blast
  have member: "q \<in> statement lib ` set (plan_texts ctx es) \<longleftrightarrow>
      (\<exists>p \<in> set (px_live ctx). po_enabled p \<and> po_id p \<notin> set (edit_deletes es) \<and> q = statement lib (po_text p))
      \<or> (\<exists>x \<in> set (edit_creates es). q = statement lib (snd x))" for es
    by (auto simp: plan_texts_def)
  note deleted = edits_concat_nth(1) [OF len] and creates = edits_concat_nth(2) [OF len]
  show ?thesis
  proof
    assume "q \<in> statement lib ` set (plan_texts ctx (ess ! i))"
    then show "q \<in> statement lib ` set (plan_texts ctx (concat ess))"
      unfolding member using kept i deleted creates by meson
  next
    assume "q \<in> statement lib ` set (plan_texts ctx (concat ess))"
    then show "q \<in> statement lib ` set (plan_texts ctx (ess ! i))"
      unfolding member using created i deleted creates by metis
  qed
qed

lemma reconciled_in_force:
  assumes laws: "cedar_laws (pc_lib pc) applies"
    and wf: "wf_rows po_id (policies w)" and fresh: "po_id ` set (policies w) \<inter> new_names w = {}"
    and one: "\<forall>p \<in> set (live_rows u w). po_enabled p \<longrightarrow> single (pc_lib pc) (po_text p)"
    and managed: "\<forall>m \<in> set (managed_policies w). \<forall>ps. add_error (pc_lib pc) ps m = None"
    and keys: "distinct (map (\<lambda>g. (ag_principal g, ag_action g)) grps)"
    and names: "\<forall>g \<in> set grps. plain (ref_id (ag_principal g)) \<and> plain (ag_action g)"
    and run: "reconcile_or_fail pc u grps w = (Inr counts, w')"
  shows "\<exists>ps w2. build_policy_set pc u (w'\<lparr>faults := []\<rparr>) = (Inr ps, w2) \<and>
    (\<forall>g \<in> set grps. ag_default g \<noteq> Some Default \<longrightarrow> decides (pc_lib pc) (plan_context pc u grps w) ps g)"
proof -
  let ?lib = "pc_lib pc" and ?ctx = "plan_context pc u grps w"
  obtain ess rows w1 where
    plans: "list_all2 (\<lambda>g es. plan_for_group ?lib ?ctx g = Inr es) grps ess"
    and rows: "policies w' = filter (\<lambda>p. po_id p \<notin> set (edit_deletes (concat ess))) (policies w) @ rows"
    and creates: "map (\<lambda>p. (po_name p, po_text p)) rows = edit_creates (concat ess)"
    and rows_u: "\<forall>p \<in> set rows. po_user_id p = Some u \<and> po_enabled p"
    and w': "w' = invalidated u w1" and caches: "caches w1 = caches w"
    by (rule reconcile_or_fail_Inr [OF run fresh])
  have len: "length ess = length grps" using plans by (simp add: list_all2_lengthD)
  have plan: "plan_for_group ?lib ?ctx (grps ! j) = Inr (ess ! j)" if "j < length grps" for j
    by (rule list_all2_nthD [OF plans that])
  have live: "set (px_live ?ctx) \<subseteq> set (policies w)" by (auto simp: set_px_live)
  have one_live: "\<forall>p \<in> set (px_live ?ctx). po_enabled p \<longrightarrow> single ?lib (po_text p)"
    using one by (auto simp: set_px_live set_live_rows)
  have texts: "set (map po_text (filter po_enabled (live_rows u w'))) = set (plan_texts ?ctx (concat ess))"
    using rows_u unfolding plan_texts_def creates [symmetric] set_map set_filter set_live_rows rows set_append set_px_live
    by (auto simp: image_iff)
  have managed': "managed_policies w' = managed_policies w"
    using caches by (simp add: w' invalidated_def caches_def Let_def)
  have created_one: "single ?lib (snd x)" if "x \<in> set (edit_creates (concat ess))" for x
    using that plan_edits_owned(2) [OF plan] planned_text_for_group(1) [OF laws] edits_concat_nth(2) [OF len] by blast
  have single: "\<forall>t \<in> set (map po_text (filter po_enabled (live_rows u w'))). single ?lib t"
    unfolding texts using one_live created_one by (auto simp: plan_texts_def)
  let ?ps = "map (statement ?lib) (map po_text (filter po_enabled (live_rows u w'))) @ managed_policies w"
  have set_of: "policy_set_of ?lib u w' = Inr ?ps"
    unfolding policy_set_of_def parse_lines [OF laws single] managed'
    using add_policies_ok managed by (simp add: map_err_def)
  have "policy_cache w' u = None" by (simp add: w' invalidated_def Let_def)
  from build_policy_set_uncached [OF this, of pc] obtain w2 where
    built: "build_policy_set pc u (w'\<lparr>faults := []\<rparr>) = (Inr ?ps, w2)" unfolding set_of by blast
  have "decides ?lib ?ctx ?ps (grps ! i)" if i: "i < length grps" and d: "ag_default (grps ! i) \<noteq> Some Default" for i
  proof -
    have "grps ! i \<in> set grps" using i by simp
    with names have p: "plain (ref_id (ag_principal (grps ! i)))" "plain (ag_action (grps ! i))" by blast+
    note dec = plan_decides [OF laws plan [OF i] one_live p d]
    show ?thesis
    proof (rule decides_cong [OF laws dec])
      fix q req es
      assume "applies q req es" "rq_principal req = ref_uid (ag_principal (grps ! i))" "snd (rq_action req) = ag_action (grps ! i)"
      from statements_after [OF laws plans wf live one_live keys i this]
      show "q \<in> set (map (statement ?lib) (plan_texts ?ctx (ess ! i)) @ px_managed ?ctx) \<longleftrightarrow> q \<in> set ?ps"
        by (simp only: set_append set_map [where f = "statement ?lib"] texts px_managed_context Un_iff)
    qed
  qed
  then show ?thesis using built by (auto simp: in_set_conv_nth)
qed

text \<open>How the engine decides for a principal, an action and a resource.\<close>

definition decision :: "cedar_lib \<Rightarrow> cedar_entity list \<Rightarrow> cedar_policy list \<Rightarrow> entity_ref \<Rightarrow> string \<Rightarrow> entity_ref \<Rightarrow> bool option" where
  "decision lib es ps who act r =
     (case to_cedar_uid lib r of
        Inl m \<Rightarrow> None
      | Inr res \<Rightarrow> Some (eval_request lib ps (ref_uid who) (''Policy::Action'', act) res es))"

lemma decides_decision:
  assumes "decides lib ctx ps g" and "hi_parent (px_hierarchy ctx) = []" and "v \<in> set (ag_overrides g)" and "ov_intent v \<noteq> Default"
  shows "decision lib (px_entities ctx) ps (ag_principal g) (ag_action g) (ov_resource v) = Some (ov_intent v = Allow)"
proof -
  have "maybe_collapse_to_ancestors g (px_hierarchy ctx) = g" by (simp add: maybe_collapse_to_ancestors_def assms(2))
  with assms(1,3,4) show ?thesis by (auto simp: decides_def decision_def)
qed

lemma sandbox_groups_simps:
  "map ag_principal (sandbox_policy_to_groups who sb) = [who, who, who, who]"
  "map ag_action (sandbox_policy_to_groups who sb) = [''read'', ''write'', ''connect'', ''bind'']"
  "\<forall>g \<in> set (sandbox_policy_to_groups who sb). ag_default g \<noteq> Some Default"
  by (simp_all add: sandbox_policy_to_groups_def Let_def)

lemma sandbox_hierarchy: "px_hierarchy (plan_context pc u (sandbox_policy_to_groups who sb) w) = no_hierarchy"
  by (simp add: plan_context_def build_entities_for_target_def sandbox_policy_to_groups_def Let_def)

lemma sandbox_keys: "distinct (map (\<lambda>g. (ag_principal g, ag_action g)) (sandbox_policy_to_groups who sb))"
  by (simp add: sandbox_policy_to_groups_def Let_def)

lemma sandbox_names:
  "plain (ref_id who) \<Longrightarrow> \<forall>g \<in> set (sandbox_policy_to_groups who sb). plain (ref_id (ag_principal g)) \<and> plain (ag_action g)"
  by (simp add: sandbox_policy_to_groups_def Let_def plain_def)

text \<open>
  C4. A sandbox policy that was reconciled is in force: afterwards the engine, asked with the
  policy set the server builds from the rows, allows every path, destination and port the policy
  grants and denies every one it refuses.

  What it takes: every enabled row the server reads for the user, its own and those of the
  system, holds exactly one statement (\<open>one\<close>). A row may hold several (\<open>validate_syntax\<close> and
  \<open>manage_policy.md\<close> allow it), and then the claim fails: a reconciliation looks at the first
  statement of a row only and deletes the row whole, see \<open>a_row_of_two_statements_is_lost\<close>.
  Beside that: the documented behaviour of Cedar (\<open>laws\<close>), ids that are unique and new
  (\<open>wf\<close>, \<open>fresh\<close>), managed policies that Cedar accepts (\<open>managed\<close>), and a principal whose
  name Cedar prints unescaped (\<open>name\<close>). The policy set is built without a database fault.
\<close>

theorem sandbox_policy_in_force:
  assumes laws: "cedar_laws (pc_lib pc) applies"
    and wf: "wf_rows po_id (policies w)" and fresh: "po_id ` set (policies w) \<inter> new_names w = {}"
    and one: "\<forall>p \<in> set (live_rows u w). po_enabled p \<longrightarrow> single (pc_lib pc) (po_text p)"
    and managed: "\<forall>m \<in> set (managed_policies w). \<forall>ps. add_error (pc_lib pc) ps m = None"
    and name: "plain (ref_id who)"
    and run: "reconcile_sandbox_policy pc u who sb w = (Inr counts, w')"
    and es: "es = px_entities (plan_context pc u (sandbox_policy_to_groups who sb) w)"
  shows "\<exists>ps w2. build_policy_set pc u (w'\<lparr>faults := []\<rparr>) = (Inr ps, w2) \<and>
    (\<forall>p \<in> set (sb_read_paths sb). decision (pc_lib pc) es ps who ''read'' (PathRef p) = Some True) \<and>
    (\<forall>p \<in> set (sb_write_paths sb). decision (pc_lib pc) es ps who ''write'' (PathRef p) = Some True) \<and>
    (\<forall>p \<in> set (sb_denied_paths sb). decision (pc_lib pc) es ps who ''read'' (PathRef p) = Some False
       \<and> decision (pc_lib pc) es ps who ''write'' (PathRef p) = Some False) \<and>
    (sb_network_access sb \<longrightarrow> (\<forall>d \<in> set (sb_network_destinations sb).
       decision (pc_lib pc) es ps who ''connect'' (NetworkDestinationRef d) = Some True)) \<and>
    (\<forall>d \<in> set (sb_blocked_networks sb). decision (pc_lib pc) es ps who ''connect'' (NetworkDestinationRef d) = Some False) \<and>
    (\<forall>port \<in> set (sb_bind_ports sb). decision (pc_lib pc) es ps who ''bind'' (NetworkDestinationRef (show_nat port)) = Some True)"
proof -
  let ?grps = "sandbox_policy_to_groups who sb" and ?ctx = "plan_context pc u (sandbox_policy_to_groups who sb) w"
  from reconciled_in_force [OF laws wf fresh one managed sandbox_keys sandbox_names [OF name] run [unfolded reconcile_sandbox_policy_def]]
  obtain ps w2 where built: "build_policy_set pc u (w'\<lparr>faults := []\<rparr>) = (Inr ps, w2)"
    and dec: "\<forall>g \<in> set ?grps. decides (pc_lib pc) ?ctx ps g"
    using sandbox_groups_simps(3) by blast
  have "decision (pc_lib pc) es ps (ag_principal g) (ag_action g) (ov_resource v) = Some (ov_intent v = Allow)"
    if "g \<in> set ?grps" "v \<in> set (ag_overrides g)" "ov_intent v \<noteq> Default" for g v
    unfolding es by (rule decides_decision) (use dec that in \<open>simp_all add: sandbox_hierarchy no_hierarchy_def\<close>)
  then have "\<forall>g \<in> set ?grps. \<forall>v \<in> set (ag_overrides g). ov_intent v \<noteq> Default \<longrightarrow>
      decision (pc_lib pc) es ps (ag_principal g) (ag_action g) (ov_resource v) = Some (ov_intent v = Allow)" by blast
  then show ?thesis
    using built unfolding sandbox_policy_to_groups_def overrides_of_def Let_def
    by (intro exI [of _ ps] exI [of _ w2]) (cases "sb_network_access sb"; simp add: ball_Un)
qed

section \<open>A world with policies\<close>

definition demo_policy_config :: policy_config where
  "demo_policy_config = \<lparr>pc_lib = demo_cedar, pc_data_dir = ''/data'', pc_sandbox_disabled = False,
     pc_base_policies = [], pc_debug_action = cedar_action_name\<rparr>"

definition permit_every_connect :: cedar_policy where
  "permit_every_connect = bare Permit AnyScope (EqAction (''Policy::Action'', ''connect'')) AnyScope"

definition demo_policy_row :: "string \<Rightarrow> string option \<Rightarrow> cedar_policy \<Rightarrow> policy" where
  "demo_policy_row i u q = \<lparr>po_id = i, po_user_id = u, po_name = i, po_description = [], po_text = print_policy demo_cedar q,
     po_enabled = True, po_created_at = 0, po_updated_at = 0\<rparr>"

text \<open>A server whose administrator left the network open; the user \<open>u\<close> may be granted more.\<close>

definition demo_policy_world :: policy_world where
  "demo_policy_world = \<lparr>faults = [], clock = 10, duplicate_text = (\<lambda>i. i), notifications = [], keypairs = [],
     signing_cache = (\<lambda>_. None), verifying_cache = (\<lambda>_. None), api_tokens = [],
     users = [\<lparr>usr_id = ''u'', usr_handle = ''bob'', usr_email = [], usr_name = [], usr_deactivated_at = None\<rparr>],
     user_cache = (\<lambda>_. None), agent_rows = [], fs = [], io_faults = [], cwd = None, io_text = (\<lambda>e. []),
     connections = [], grants = [], bindings = [], credentials = [], access_logs = [], managed_items = [],
     new_ids = [''n1'', ''n2'', ''n3''], nonces = [],
     policies = [],
     managed_policies = [permit_every_connect], policy_cache = (\<lambda>_. None), sandbox_cache = (\<lambda>_. None),
     decision_cache = (\<lambda>_. None), agent_tools_cache = (\<lambda>_. None), builtin_tools = [], user_registries = (\<lambda>_. None)\<rparr>"

definition demo_sandbox :: sandbox_policy where
  "demo_sandbox = default_sandbox_policy\<lparr>sb_read_paths := [''/data''], sb_denied_paths := [''/data/x'']\<rparr>"


definition demo_agent_sandbox :: sandbox_principal where
  "demo_agent_sandbox = \<lparr>sp_user_id = ''u'', sp_user_handle = ''bob'', sp_handle = ''dev'', sp_kind = AgentSandbox\<rparr>"

definition demo_in_force :: sandbox_policy where
  "demo_in_force = default_sandbox_policy\<lparr>sb_read_paths := [''/data''], sb_network_access := True\<rparr>"

lemma demo_run:
  "case reconcile_sandbox_policy demo_policy_config ''u'' (AgentRef ''bob/dev'') demo_sandbox demo_policy_world of
     (r, w') \<Rightarrow> r = Inr (2, 0) \<and> fst (evaluate_sandbox_policy demo_policy_config demo_agent_sandbox False w')
       = Inr demo_in_force"
  by code_simp

lemma demo_reconciled:
  obtains w' where "reconcile_sandbox_policy demo_policy_config ''u'' (AgentRef ''bob/dev'') demo_sandbox demo_policy_world
      = (Inr (2, 0), w')"
    and "fst (evaluate_sandbox_policy demo_policy_config demo_agent_sandbox False w') = Inr demo_in_force"
  using demo_run by (auto split: prod.splits)

lemma demo_policy_facts:
  "cedar_laws (pc_lib demo_policy_config) demo_applies" "policies demo_policy_world = []"
  "managed_policies demo_policy_world = [permit_every_connect]" "add_error demo_cedar ps m = None"
  "pc_lib demo_policy_config = demo_cedar"
  by (simp_all add: demo_policy_config_def demo_cedar_laws demo_policy_world_def) (simp add: demo_cedar_def)

theorem sandbox_policy_in_force_witness:
  "\<exists>w' es ps w2. reconcile_sandbox_policy demo_policy_config ''u'' (AgentRef ''bob/dev'') demo_sandbox demo_policy_world = (Inr (2, 0), w')
     \<and> build_policy_set demo_policy_config ''u'' (w'\<lparr>faults := []\<rparr>) = (Inr ps, w2)
     \<and> decision demo_cedar es ps (AgentRef ''bob/dev'') ''read'' (PathRef ''/data'') = Some True"
proof -
  obtain w' where run: "reconcile_sandbox_policy demo_policy_config ''u'' (AgentRef ''bob/dev'') demo_sandbox demo_policy_world
      = (Inr (2, 0), w')" by (rule demo_reconciled)
  have "plain (ref_id (AgentRef ''bob/dev''))" by (simp add: plain_def)
  moreover have "\<forall>p \<in> set (live_rows ''u'' demo_policy_world). po_enabled p \<longrightarrow> single (pc_lib demo_policy_config) (po_text p)"
    by (simp add: live_rows_def demo_policy_facts)
  ultimately show ?thesis
    using sandbox_policy_in_force [OF demo_policy_facts(1) _ _ _ _ _ run refl] run demo_policy_facts
    by (fastforce simp: demo_sandbox_def wf_rows_def)
qed

text \<open>
  Why a row must hold one statement: the user's only row lets the agent read \<open>/x\<close> and write
  \<open>/w\<close>, and the new policy grants the writing of \<open>/w\<close> alone. The row counts as owned by the
  group that reads, which wants nothing of it; the group that writes sees its statement in force
  and plans nothing. So the row is deleted with both statements, and \<open>/w\<close> cannot be written.
\<close>

definition two_statements_world :: policy_world where
  "two_statements_world = demo_policy_world\<lparr>policies :=
     [(demo_policy_row ''r'' (Some ''u'') permit_every_connect)\<lparr>po_text :=
        with_lines (map (\<lambda>(act, p). print_policy demo_cedar
          (bare Permit (EqScope (ref_uid (AgentRef ''bob/dev''))) (EqAction (''Policy::Action'', act)) (EqScope (ref_uid (PathRef p)))))
          [(''read'', ''/x''), (''write'', ''/w'')])\<rparr>]\<rparr>"

definition write_w :: sandbox_policy where
  "write_w = default_sandbox_policy\<lparr>sb_write_paths := [''/w'']\<rparr>"

lemma a_row_of_two_statements_is_lost:
  "case reconcile_sandbox_policy demo_policy_config ''u'' (AgentRef ''bob/dev'') write_w two_statements_world of
     (r, w') \<Rightarrow> r = Inr (1, 1) \<and> (case fst (build_policy_set demo_policy_config ''u'' w') of
        Inr ps \<Rightarrow> decision demo_cedar
          (px_entities (plan_context demo_policy_config ''u'' (sandbox_policy_to_groups (AgentRef ''bob/dev'') write_w) two_statements_world))
          ps (AgentRef ''bob/dev'') ''write'' (PathRef ''/w'') = Some False
      | Inl e \<Rightarrow> False)"
  by code_simp

section \<open>Whose rows change\<close>

lemma plan_groups_owned:
  "plan_groups lib ctx gs = Inr (es, cs) \<Longrightarrow>
     (\<forall>i \<in> set (edit_deletes es). \<exists>g \<in> set gs. i \<in> po_id ` set (owned_rows lib (px_live ctx) g)) \<and>
     (\<forall>x \<in> set (edit_creates es). \<exists>g \<in> set gs. planned_text lib (ag_principal g) (ag_action g) (snd x))"
proof (induction gs arbitrary: es cs)
  case (Cons g gs)
  show ?case
  proof (cases "plan_for_group lib ctx g")
    case (Inl e)
    with Cons.prems obtain c cs' where "e = Blocked c" and "plan_groups lib ctx gs = Inr (es, cs')"
      by (cases e) (auto simp: and_then_Inr)
    with Cons.IH show ?thesis by auto
  next
    case (Inr es1)
    with Cons.prems obtain es2 where "plan_groups lib ctx gs = Inr (es2, cs)" and "es = es1 @ es2" by (auto simp: and_then_Inr)
    with Cons.IH plan_edits_owned [OF Inr] show ?thesis by auto
  qed
qed simp

lemma keeps_row: "po_id p \<notin> set (edit_deletes es) \<Longrightarrow> keeps (\<lambda>w. p \<in> set (policies w)) (apply_edits u es c)"
proof (induction u es c rule: apply_edits.induct)
  case (1 u c)
  show ?case by (simp add: keeps_ret)
next
  case (2 u i es created deleted)
  have "keeps (\<lambda>w. p \<in> set (policies w)) (repo_delete policies_update po_id i)"
    unfolding repo_delete_def using 2(3) by (intro keeps_db_write) (auto simp: delete_row_def)
  with 2 show ?case unfolding apply_edits.simps by (intro keep_rules keeps_repo_find) simp_all
next
  case (3 u n t es created deleted)
  have "keeps (\<lambda>w. p \<in> set (policies w)) (repo_create policies policies_update po_id r)" for r
    unfolding repo_create_def by (intro keeps_db_call) (auto simp: create_row_def split: option.split)
  with 3 show ?case unfolding apply_edits.simps by (intro keep_rules keeps_new_id) simp_all
qed

lemma keeps_new_rows:
  "\<forall>x \<in> set (edit_creates es). T (snd x) \<Longrightarrow>
     keeps (\<lambda>w. \<forall>p \<in> set (policies w). p \<in> R \<or> po_user_id p = Some u \<and> T (po_text p)) (apply_edits u es c :: ('w, nat \<times> nat) policy_op)"
proof (induction u es c rule: apply_edits.induct)
  case (1 u c)
  show ?case by (simp add: keeps_ret)
next
  case (2 u i es created deleted)
  let ?P = "\<lambda>w :: 'w policy_world_scheme. \<forall>p \<in> set (policies w). p \<in> R \<or> po_user_id p = Some u \<and> T (po_text p)"
  have "keeps ?P (repo_delete policies_update po_id i)"
    unfolding repo_delete_def by (intro keeps_db_write) (auto simp: delete_row_def)
  with 2 show ?case unfolding apply_edits.simps by (intro keep_rules keeps_repo_find) auto
next
  case (3 u n t es created deleted)
  let ?P = "\<lambda>w :: 'w policy_world_scheme. \<forall>p \<in> set (policies w). p \<in> R \<or> po_user_id p = Some u \<and> T (po_text p)"
  have "keeps ?P (repo_create policies policies_update po_id r)" if "po_user_id r = Some u" "po_text r = t" for r
    unfolding repo_create_def using 3(2) that by (intro keeps_db_call) (auto simp: create_row_def split: option.split)
  moreover have "keeps ?P (apply_edits u es (Suc created, deleted))" using 3 by auto
  ultimately show ?case unfolding apply_edits.simps by (intro keep_rules keeps_new_id) auto
qed

text \<open>The steps of a reconciliation, whatever its result.\<close>

lemma read_only_prod [read_rules]: "(\<And>a b. read_only (f a b)) \<Longrightarrow> read_only (case x of (a, b) \<Rightarrow> f a b)"
  by (cases x) simp

lemma read_only_reconcile: "read_only (reconcile pc u grps)"
  unfolding reconcile_def Let_def by (intro read_rules)

lemma as_db_simps:
  "as_db m w = (Inl e, w') \<longleftrightarrow> (\<exists>x. e = Db x \<and> m w = (Inl x, w'))"
  by (auto simp: as_db_def split: prod.splits sum.splits)

lemma reconcile_or_fail_cases:
  assumes "reconcile_or_fail pc u grps w = (r, w')"
  obtains (unchanged) ff where "w' = w\<lparr>faults := ff\<rparr>" and "\<exists>e. r = Inl e"
    | (written) plan :: reconciliation_plan and ff w2 c where "plan_groups (pc_lib pc) (plan_context pc u grps w) grps = Inr (pl_edits plan, [])"
        and "apply_edits u (pl_edits plan) (0, 0) (w\<lparr>faults := ff\<rparr>) = (c, w2)"
        and "w' = (case c of Inl e \<Rightarrow> w2 | Inr x \<Rightarrow> invalidated u w2)" and "r = map_sum Db id c"
proof (cases "reconcile pc u grps w")
  case (Pair p w1)
  from read_onlyD [OF read_only_reconcile Pair] obtain ff1 where w1: "w1 = w\<lparr>faults := ff1\<rparr>" by blast
  show thesis
  proof (cases p)
    case (Inl e)
    with Pair assms have "w' = w1" "r = Inl (Db e)" by (simp_all add: reconcile_or_fail_def qbind_def as_db_def)
    with w1 unchanged show thesis by blast
  next
    case (Inr plan)
    note r = reconcile_Inr [OF Pair [unfolded Inr]]
    from Pair Inr assms have c: "commit pc plan w1 = (r, w')" by (simp add: reconcile_or_fail_def qbind_def as_db_def)
    show thesis
    proof (cases "pl_conflicts plan = []")
      case False
      with c w1 unchanged show thesis by (auto simp: commit_def fail_def)
    next
      case True
      from c [unfolded commit_def] True consider (a) e ff where "r = Inl e" "w' = w1\<lparr>faults := ff\<rparr>"
        | (b) ff w2 x where "apply_edits u (pl_edits plan) (0, 0) (w1\<lparr>faults := ff\<rparr>) = (x, w2)"
            "w' = (case x of Inl e \<Rightarrow> w2 | Inr x \<Rightarrow> invalidated u w2)" "r = map_sum Db id x"
        unfolding find_policies_by_user_def find_system_policies_def
        by (auto elim!: qbind_cases dest!: db_read_Inr db_read_Inl simp: as_db_simps fail_def ret_def invalidate_cache_def modify_def r(2)
            split: if_splits)
      then show thesis
      proof cases
        case (a e ff)
        then show thesis using unchanged [of ff] w1 by simp
      next
        case (b ff w2 x)
        then show thesis using written [of plan ff x w2] w1 r(3) True by simp
      qed
    qed
  qed
qed

text \<open>
  C9. A reconciliation, whether it succeeds, is refused or breaks off, removes no row but enabled
  rows of the user that have the shape the planner writes for a principal and an action of its
  groups, and adds none but such rows.
\<close>

theorem a_reconciliation_touches_its_own_rows:
  assumes run: "reconcile_or_fail pc u grps w = (r, w')" and wf: "wf_rows po_id (policies w)"
  shows "(\<forall>p \<in> set (policies w). p \<notin> set (policies w') \<longrightarrow> po_user_id p = Some u \<and> po_enabled p \<and>
      (\<exists>g \<in> set grps. \<exists>q. parse_first (pc_lib pc) (po_text p) = Some q \<and> is_owned q (ag_principal g) (ag_action g) False)) \<and>
    (\<forall>p \<in> set (policies w'). p \<notin> set (policies w) \<longrightarrow> po_user_id p = Some u \<and>
      (\<exists>g \<in> set grps. planned_text (pc_lib pc) (ag_principal g) (ag_action g) (po_text p)))"
  using run
proof (cases rule: reconcile_or_fail_cases)
  case (unchanged ff)
  then show ?thesis by auto
next
  case (written plan ff w2 c)
  let ?ctx = "plan_context pc u grps w"
  note owned = plan_groups_owned [OF written(1)]
  have same: "policies w' = policies w2" using written(3) by (auto simp: invalidated_def Let_def split: sum.splits)
  have "po_user_id p = Some u \<and> po_enabled p \<and>
      (\<exists>g \<in> set grps. \<exists>q. parse_first (pc_lib pc) (po_text p) = Some q \<and> is_owned q (ag_principal g) (ag_action g) False)"
    if p: "p \<in> set (policies w)" "p \<notin> set (policies w2)" for p
  proof -
    have "po_id p \<in> set (edit_deletes (pl_edits plan))"
      using validD [OF keeps_row [of p "pl_edits plan" u "(0, 0)"] _ written(2)] p by fastforce
    with owned obtain g p' where g: "g \<in> set grps" "p' \<in> set (owned_rows (pc_lib pc) (px_live ?ctx) g)" "po_id p = po_id p'" by auto
    then have "p' \<in> set (px_live ?ctx)" "po_user_id p' \<noteq> None" by (simp_all add: owned_rows_def)
    then have "p' \<in> set (policies w)" "po_user_id p' = Some u" by (auto simp: set_px_live)
    moreover from this p(1) g(3) wf have "p' = p" by (metis find_row_mem option.inject)
    ultimately show ?thesis using g(1,2) by (auto simp: owned_rows_def split: option.splits)
  qed
  moreover have "po_user_id p = Some u \<and> (\<exists>g \<in> set grps. planned_text (pc_lib pc) (ag_principal g) (ag_action g) (po_text p))"
    if "p \<in> set (policies w2)" "p \<notin> set (policies w)" for p
    using validD [OF keeps_new_rows [of "pl_edits plan" "\<lambda>t. \<exists>g \<in> set grps. planned_text (pc_lib pc) (ag_principal g) (ag_action g) t"
        "set (policies w)" u "(0, 0)"] _ written(2)] owned that by auto
  ultimately show ?thesis unfolding same by blast
qed

theorem a_reconciliation_touches_its_own_rows_witness:
  "\<exists>w'. reconcile_or_fail demo_policy_config ''u'' (sandbox_policy_to_groups (AgentRef ''bob/dev'') demo_sandbox) demo_policy_world
      = (Inr (2, 0), w') \<and> (\<forall>p \<in> set (policies w'). po_user_id p = Some ''u'')"
proof -
  obtain w' where run: "reconcile_or_fail demo_policy_config ''u'' (sandbox_policy_to_groups (AgentRef ''bob/dev'') demo_sandbox)
      demo_policy_world = (Inr (2, 0), w')"
    by (rule demo_reconciled) (simp add: reconcile_sandbox_policy_def)
  from a_reconciliation_touches_its_own_rows [OF run] run show ?thesis by (auto simp: demo_policy_facts wf_rows_def)
qed

end
