(* ===== verification/Policy_Sandbox.thy ===== *)
theory Policy_Sandbox
  imports Policy_Props
begin

text \<open>
  What of a policy reaches the sandbox. The rows decide as asked (\<open>Policy_Props\<close>), but the sandbox
  does not ask the engine: it is given the lists that \<open>sandbox_policy_of\<close> reads off the rows, and
  two wishes are lost on the way, a sandbox without network and a denied path.
\<close>

section \<open>The network of a sandbox\<close>

text \<open>An unconditional policy for everyone and everything is satisfied before the resource is known.\<close>

definition satisfied_law :: "cedar_lib \<Rightarrow> bool" where
  "satisfied_law lib \<longleftrightarrow> (\<forall>ps who act t q. q \<in> set ps \<and> cp_conditions q = [] \<and> cp_principal q = AnyScope
      \<and> cp_action q = EqAction act \<and> cp_resource q = AnyScope \<longrightarrow> q \<in> set (partial_satisfied lib ps who act t))"

definition opens_network :: "cedar_policy \<Rightarrow> bool" where
  "opens_network q \<longleftrightarrow> cp_effect q = Permit \<and> cp_conditions q = [] \<and> cp_principal q = AnyScope
     \<and> cp_action q = EqAction (''Policy::Action'', ''connect'') \<and> cp_resource q = AnyScope"

lemma add_rule_network: "sb_network_access (foldl add_rule sb rules) = sb_network_access sb"
proof (induction rules arbitrary: sb)
  case (Cons r rules)
  have "sb_network_access (add_rule sb r) = sb_network_access sb"
    by (simp add: add_rule_def split: rule_effect.split rule_kind.split option.split)
  with Cons show ?case by simp
qed simp

lemma rules_network: "sb_network_access (rules_to_policy rules)
    \<longleftrightarrow> (\<exists>r \<in> set rules. ru_kind r = ConnectRule \<and> ru_effect r = RuleAllow)"
  by (simp add: rules_to_policy_def add_rule_network list_ex_iff)

lemma open_network_sandbox:
  assumes law: "satisfied_law lib" and m: "m \<in> set ps" "opens_network m" and sb: "sandbox_policy_of lib ps who = Some sb"
  shows "sb_network_access sb"
proof -
  from sb obtain rules where rules: "all_rules lib ps who SANDBOX_ACTIONS = Some rules" and sb': "sb = rules_to_policy rules"
    by (auto simp: sandbox_policy_of_def)
  have "m \<in> set (partial_satisfied lib ps who (entity_uid ''Action'' ''connect'') ''Policy::NetworkDestination'')"
    using law m unfolding satisfied_law_def opens_network_def by (simp add: entity_uid_def)
  moreover from rules obtain rs where "action_rules lib ps who (''connect'', ConnectRule) = Some rs" and "set rs \<subseteq> set rules"
    by (fastforce simp: SANDBOX_ACTIONS_def bind_eq_Some_conv)
  ultimately have "satisfied_rule ConnectRule m \<in> set rules"
    by (auto simp: action_rules_def Let_def bind_eq_Some_conv)
  then show ?thesis
    unfolding sb' rules_network
    by (intro bexI [of _ "satisfied_rule ConnectRule m"]) (use m in \<open>simp_all add: satisfied_rule_def rule_effect_of_def opens_network_def\<close>)
qed

lemma build_policy_set_managed:
  assumes "build_policy_set pc u w = (Inr ps, w')" and "policy_cache w u = None"
  shows "set (managed_policies w) \<subseteq> set ps"
  using assms unfolding build_policy_set_def find_system_policies_def find_policies_by_user_def
  by (auto elim!: qbind_Inr_E dest!: db_read_Inr add_policies_Inr simp: gets_def from_result_def modify_def ret_def)

text \<open>
  C6. Where the administrator left the network open (the default), a sandbox cannot be taken off
  it: after a sandbox policy has been reconciled for any principal of a user, be it one without
  network access, every sandbox of that user is still evaluated to one with network access.
\<close>

theorem a_sandbox_is_never_taken_off_the_network:
  assumes law: "satisfied_law (pc_lib pc)" and m: "m \<in> set (managed_policies w)" "opens_network m"
    and run: "reconcile_sandbox_policy pc u who sb w = (Inr counts, w1)"
    and eval: "evaluate_sandbox_policy pc p translate w1 = (Inr sb', w2)" and u: "sp_user_id p = u"
  shows "sb_network_access sb'"
proof (cases "pc_sandbox_disabled pc")
  case True
  with eval show ?thesis by (auto simp: evaluate_sandbox_policy_def permissive_def ret_def)
next
  case False
  from run [unfolded reconcile_sandbox_policy_def] obtain w0 where w1: "w1 = invalidated u w0" and caches: "caches w0 = caches w"
  proof (cases rule: reconcile_or_fail_cases)
    case (written plan ff w3 c)
    then obtain x where "w1 = invalidated u w3" by (cases c) auto
    moreover have "caches w3 = caches w" using apply_edits_caches [OF written(2)] by (simp add: caches_def)
    ultimately show thesis by (rule that)
  qed auto
  have managed: "managed_policies w1 = managed_policies w" using caches by (simp add: w1 invalidated_def caches_def Let_def)
  have uncached: "policy_cache w1 u = None" "sandbox_cache w1 (cache_key p) = None"
    by (simp_all add: w1 invalidated_def Let_def drop_prefix_def cache_key_def u starts_with_iff)
  from eval False obtain sb1 w3 where raw: "raw_sandbox_policy pc p w1 = (Inr sb1, w3)"
    and sb': "sb_network_access sb' = sb_network_access sb1"
    unfolding evaluate_sandbox_policy_def
    by (auto elim!: qbind_Inr_E simp: gets_def ret_def resolve_virtual_paths_def split: if_splits)
  from raw uncached(2) obtain ps w4 who' w5 where "build_policy_set pc u w1 = (Inr ps, w4)"
    and of_ps: "sandbox_policy_of (pc_lib pc) ps who' = Some sb1"
    unfolding raw_sandbox_policy_def u
    by (auto elim!: qbind_Inr_E simp: gets_def ret_def ok_or_def fail_def modify_def split: option.splits)
  from build_policy_set_managed [OF this(1) uncached(1)] m(1) managed have "m \<in> set ps" by auto
  from open_network_sandbox [OF law this m(2) of_ps] show ?thesis unfolding sb' .
qed

theorem a_sandbox_is_never_taken_off_the_network_witness:
  "\<not> sb_network_access demo_sandbox \<and>
   (\<exists>w1 sb' w2. reconcile_sandbox_policy demo_policy_config ''u'' (AgentRef ''bob/dev'') demo_sandbox demo_policy_world = (Inr (2, 0), w1)
      \<and> evaluate_sandbox_policy demo_policy_config demo_agent_sandbox False w1 = (Inr sb', w2) \<and> sb_network_access sb')"
proof
  show "\<not> sb_network_access demo_sandbox" by (simp add: demo_sandbox_def default_sandbox_policy_def)
  obtain w1 where run: "reconcile_sandbox_policy demo_policy_config ''u'' (AgentRef ''bob/dev'') demo_sandbox demo_policy_world
      = (Inr (2, 0), w1)"
    and "fst (evaluate_sandbox_policy demo_policy_config demo_agent_sandbox False w1) = Inr demo_in_force"
    by (rule demo_reconciled)
  then obtain sb' w2 where eval: "evaluate_sandbox_policy demo_policy_config demo_agent_sandbox False w1 = (Inr sb', w2)"
    by (cases "evaluate_sandbox_policy demo_policy_config demo_agent_sandbox False w1") auto
  have law: "satisfied_law (pc_lib demo_policy_config)"
    by (simp add: satisfied_law_def demo_policy_config_def demo_cedar_def scope_covers_def action_covers_def)
  have m: "permit_every_connect \<in> set (managed_policies demo_policy_world)" "opens_network permit_every_connect"
    by (simp_all add: demo_policy_facts opens_network_def permit_every_connect_def bare_def)
  from a_sandbox_is_never_taken_off_the_network [OF law m run eval] run eval
  show "\<exists>w1 sb' w2. reconcile_sandbox_policy demo_policy_config ''u'' (AgentRef ''bob/dev'') demo_sandbox demo_policy_world = (Inr (2, 0), w1)
      \<and> evaluate_sandbox_policy demo_policy_config demo_agent_sandbox False w1 = (Inr sb', w2) \<and> sb_network_access sb'"
    by (auto simp: demo_agent_sandbox_def)
qed

section \<open>Denied paths\<close>

text \<open>The edits so far only permit some of the resources \<open>R\<close>.\<close>

definition only_permits :: "cedar_lib \<Rightarrow> entity_ref \<Rightarrow> string \<Rightarrow> entity_ref set \<Rightarrow> pending \<Rightarrow> bool" where
  "only_permits lib who act R e \<longleftrightarrow>
     (\<forall>x \<in> set (pe_creates e). \<exists>n. \<exists>r \<in> R. snd x = print_policy lib (per_resource_policy n who act r Permit))"

lemma only_permits_push:
  "only_permits lib who act R e \<Longrightarrow> r \<in> R \<Longrightarrow> only_permits lib who act R (push_create n (build_per_resource_text lib n who act r Permit) e)"
  unfolding only_permits_def push_create_def build_per_resource_text_def by auto

lemma only_permits_overrides:
  assumes "plan_overrides lib ctx gctx vs (e, kept) = Inr (e', kept')" and none: "gx_owned gctx = []"
    and "only_permits lib (ag_principal (gx_group gctx)) (ag_action (gx_group gctx)) R e"
    and "\<forall>v \<in> set vs. ov_intent v = Allow \<and> ov_resource v \<in> R \<or> ov_intent v = Deny \<and>
      (\<forall>res e. only_permits lib (ag_principal (gx_group gctx)) (ag_action (gx_group gctx)) R e \<longrightarrow>
         to_cedar_uid lib (ov_resource v) = Inr res \<longrightarrow> eval_now lib ctx gctx res e = Inr False)"
  shows "only_permits lib (ag_principal (gx_group gctx)) (ag_action (gx_group gctx)) R e'"
  using assms(1,3,4)
proof (induction vs arbitrary: e kept)
  case (Cons v vs)
  let ?P = "only_permits lib (ag_principal (gx_group gctx)) (ag_action (gx_group gctx)) R"
  have none': "owned_for_resource lib h gctx r eff = None" for h r eff
    by (simp add: owned_for_resource_def none)
  have nd: "ov_intent v \<noteq> Default" using Cons.prems(3) by auto
  with Cons.prems(1) obtain e1 kept1 where step: "plan_override lib ctx gctx v (e, kept) = Inr (e1, kept1)"
    and rest: "plan_overrides lib ctx gctx vs (e1, kept1) = Inr (e', kept')"
    by (auto simp: and_then_Inr)
  have "?P e1"
  proof (cases "ov_intent v = Allow")
    case True
    with Cons.prems(3) have "ov_resource v \<in> R" by auto
    moreover from step True have "e1 = e \<or> (\<exists>n. e1 = push_create n (build_per_resource_text lib n
        (ag_principal (gx_group gctx)) (ag_action (gx_group gctx)) (ov_resource v) Permit) e)"
      by (auto simp: plan_override_def Let_def and_then_Inr none' split: if_splits)
    ultimately show ?thesis using Cons.prems(2) only_permits_push by blast
  next
    case False
    with Cons.prems(2,3) have "\<And>res. to_cedar_uid lib (ov_resource v) = Inr res \<Longrightarrow> eval_now lib ctx gctx res e = Inr False"
      by auto
    with step False have "e1 = e"
      by (auto simp: plan_override_def Let_def and_then_Inr none' split: if_splits)
    with Cons.prems(2) show ?thesis by simp
  qed
  from Cons.IH [OF rest this] Cons.prems(3) show ?case by simp
qed simp

lemma silent_eval:
  assumes laws: "cedar_laws lib applies" and e: "only_permits lib who act R e" and res: "\<forall>r \<in> R. ref_uid r \<noteq> res"
    and R: "\<forall>r \<in> R. \<not> uses_in_constraint r"
    and one: "\<forall>p \<in> set (px_live ctx). po_enabled p \<longrightarrow> single lib (po_text p)"
    and managed: "\<forall>m \<in> set (px_managed ctx). \<forall>ps. add_error lib ps m = None"
    and silent: "\<forall>q es. q \<in> statement lib ` po_text ` set (px_live ctx) \<union> set (px_managed ctx) \<longrightarrow>
      \<not> applies q \<lparr>rq_principal = gx_principal_uid gctx, rq_action = gx_action_uid gctx, rq_resource = res, rq_context = []\<rparr> es"
  shows "eval_now lib ctx gctx res e = Inr False"
proof -
  let ?req = "\<lparr>rq_principal = gx_principal_uid gctx, rq_action = gx_action_uid gctx, rq_resource = res, rq_context = []\<rparr>"
  let ?ps = "map (statement lib) (effective_texts ctx e) @ px_managed ctx"
  have single: "\<forall>t \<in> set (effective_texts ctx e). single lib t"
    using one e printed_single(1) [OF laws] by (auto simp: effective_texts_def only_permits_def)
  let ?txt = "with_lines (effective_texts ctx e)"
  have built: "build_effective_policy_set lib ctx e = Inr ?ps"
    using parse_lines [OF laws single] cedar_blank [OF laws, of ?txt] add_policies_ok [of "px_managed ctx" lib] managed
    by (auto simp: build_effective_policy_set_def Let_def map_err_def)
  have "\<not> applies q ?req es" if "q \<in> set ?ps" for q es
  proof (cases "q \<in> statement lib ` snd ` set (pe_creates e)")
    case True
    with e obtain n r where r: "r \<in> R" and q: "q = statement lib (print_policy lib (per_resource_policy n who act r Permit))"
      by (auto simp: only_permits_def)
    have "cp_resource q = EqScope (ref_uid r)"
      using R r by (simp add: q printed_single(5) [OF laws] per_resource_policy_def group_policy_def)
    with cedar_resource [OF laws] res r show ?thesis by fastforce
  next
    case False
    with that silent show ?thesis by (auto simp: effective_texts_def)
  qed
  then have "\<not> eval_request lib ?ps (gx_principal_uid gctx) (gx_action_uid gctx) res (px_entities ctx)"
    unfolding eval_request_def Let_def cedar_decides [OF laws] by (auto simp del: map_append)
  then show ?thesis by (simp add: eval_now_def built)
qed

lemma path_group_permits:
  assumes laws: "cedar_laws lib applies" and plan: "plan_for_group lib ctx g = Inr es"
    and g: "ag_default g = None" "ag_overrides g = overrides_of PathRef Allow granted @ overrides_of PathRef Deny refused"
    and names: "\<forall>d \<in> set refused. plain d" "set refused \<inter> set granted = {}" "plain (ref_id (ag_principal g))" "plain (ag_action g)"
    and h: "px_hierarchy ctx = no_hierarchy" and none: "owned_rows lib (px_live ctx) g = []"
    and one: "\<forall>p \<in> set (px_live ctx). po_enabled p \<longrightarrow> single lib (po_text p)"
    and managed: "\<forall>m \<in> set (px_managed ctx). \<forall>ps. add_error lib ps m = None"
    and silent: "\<forall>q req es. q \<in> statement lib ` po_text ` set (px_live ctx) \<union> set (px_managed ctx) \<longrightarrow>
      snd (rq_action req) = ag_action g \<longrightarrow> \<not> applies q req es"
    and x: "x \<in> set (edit_creates es)"
  shows "cp_effect (statement lib (snd x)) = Permit"
proof -
  have same: "maybe_collapse_to_ancestors g (px_hierarchy ctx) = g" by (simp add: maybe_collapse_to_ancestors_def h no_hierarchy_def)
  let ?gctx = "\<lparr>gx_group = g, gx_owned = [], gx_principal_uid = ref_uid (ag_principal g), gx_action_uid = (''Policy::Action'', ag_action g)\<rparr>"
  let ?R = "PathRef ` set granted"
  from plan obtain e where e: "group_edits lib ctx ?gctx = Inr e" and es: "es = pending_to_edits e"
    unfolding plan_for_group_def same none Let_def
    by (auto simp: and_then_Inr to_cedar_uid_plain [OF laws names(3)] action_uid_plain [OF laws names(4)])
  have "canonical_shape g = PerOverride" by (simp add: canonical_shape_def g)
  with e obtain kept where ov: "plan_overrides lib ctx ?gctx (ag_overrides g) (no_edits, []) = Inr (e, kept)"
    by (auto simp: group_edits_def Let_def and_then_Inr)
  have "eval_now lib ctx ?gctx res e' = Inr False"
    if "d \<in> set refused" "to_cedar_uid lib (PathRef d) = Inr res" "only_permits lib (ag_principal g) (ag_action g) ?R e'" for d res e'
  proof (rule silent_eval [OF laws that(3) _ _ one managed])
    have "res = ref_uid (PathRef d)" using that(2) to_cedar_uid_plain [OF laws, of "PathRef d"] names(1) that(1) by simp
    with names(2) that(1) show "\<forall>r \<in> ?R. ref_uid r \<noteq> res" by (auto simp: ref_uid_def)
  qed (use silent in \<open>auto simp: uses_in_constraint_def\<close>)
  then have "\<forall>v \<in> set (ag_overrides g). ov_intent v = Allow \<and> ov_resource v \<in> ?R \<or> ov_intent v = Deny \<and>
      (\<forall>res e. only_permits lib (ag_principal g) (ag_action g) ?R e \<longrightarrow>
         to_cedar_uid lib (ov_resource v) = Inr res \<longrightarrow> eval_now lib ctx ?gctx res e = Inr False)"
    by (simp add: g overrides_of_def ball_Un)
  moreover have "only_permits lib (ag_principal g) (ag_action g) ?R no_edits" by (simp add: only_permits_def no_edits_def)
  ultimately have "only_permits lib (ag_principal g) (ag_action g) ?R e"
    using only_permits_overrides [OF ov, of ?R] by simp
  with x es show ?thesis
    by (auto simp: only_permits_def printed_single(4) [OF laws] per_resource_policy_def group_policy_def)
qed

text \<open>
  C15. A path that is denied inside a directory that is granted is not written down: where nothing
  permits reading or writing yet, the engine denies the path anyway, so the planner sees no need
  for a row, and every row a reconciliation writes about reading or writing is a permit. The
  sandbox, which grants a directory with all below it, never learns of the path. (The user has no
  row yet, every enabled row of the table holds one statement, no other statement speaks of
  reading or writing, and no path is both denied and granted.)
\<close>

theorem denied_paths_are_not_written:
  assumes laws: "cedar_laws (pc_lib pc) applies"
    and none: "\<forall>p \<in> set (policies w). po_user_id p \<noteq> Some u" and fresh: "po_id ` set (policies w) \<inter> new_names w = {}"
    and one: "\<forall>p \<in> set (policies w). po_enabled p \<longrightarrow> single (pc_lib pc) (po_text p)"
    and managed: "\<forall>m \<in> set (managed_policies w). \<forall>ps. add_error (pc_lib pc) ps m = None"
    and silent: "\<forall>q req es. q \<in> statement (pc_lib pc) ` po_text ` set (policies w) \<union> set (managed_policies w) \<longrightarrow>
      snd (rq_action req) \<in> {''read'', ''write''} \<longrightarrow> \<not> applies q req es"
    and names: "\<forall>d \<in> set (sb_denied_paths sb). plain d" "plain (ref_id who)"
    and apart: "set (sb_denied_paths sb) \<inter> (set (sb_read_paths sb) \<union> set (sb_write_paths sb)) = {}"
    and run: "reconcile_sandbox_policy pc u who sb w = (Inr counts, w')"
  shows "\<forall>p \<in> set (policies w'). po_user_id p = Some u \<longrightarrow>
    (\<forall>a \<in> {''read'', ''write''}. cp_action (statement (pc_lib pc) (po_text p)) = EqAction (''Policy::Action'', a)
       \<longrightarrow> cp_effect (statement (pc_lib pc) (po_text p)) = Permit)"
proof (intro ballI impI)
  fix p a assume p: "p \<in> set (policies w')" "po_user_id p = Some u" and a: "a \<in> {''read'', ''write''}"
    and act: "cp_action (statement (pc_lib pc) (po_text p)) = EqAction (''Policy::Action'', a)"
  let ?grps = "sandbox_policy_to_groups who sb" and ?ctx = "plan_context pc u (sandbox_policy_to_groups who sb) w"
  obtain ess rows w1 where plans: "list_all2 (\<lambda>g es. plan_for_group (pc_lib pc) ?ctx g = Inr es) ?grps ess"
    and rows: "policies w' = filter (\<lambda>p. po_id p \<notin> set (edit_deletes (concat ess))) (policies w) @ rows"
      "map (\<lambda>p. (po_name p, po_text p)) rows = edit_creates (concat ess)"
    by (rule reconcile_or_fail_Inr [OF run [unfolded reconcile_sandbox_policy_def] fresh])
  have len: "length ess = length ?grps" using plans by (simp add: list_all2_lengthD)
  from p rows(1) none have "p \<in> set rows" by auto
  then have "(po_name p, po_text p) \<in> set (map (\<lambda>p. (po_name p, po_text p)) rows)" by force
  then have "(po_name p, po_text p) \<in> set (edit_creates (concat ess))" by (simp only: rows(2))
  then obtain j where j: "j < length ?grps" "(po_name p, po_text p) \<in> set (edit_creates (ess ! j))"
    using edits_concat_nth(2) [OF len] by blast
  note plan = list_all2_nthD [OF plans j(1)]
  let ?g = "?grps ! j"
  have "for_group ?g (statement (pc_lib pc) (po_text p))"
    using plan_edits_owned(2) [OF plan] j(2) planned_text_for_group(2) [OF laws] by fastforce
  with act have ag: "ag_action ?g = a" by (auto simp: for_group_def)
  have live: "px_live ?ctx = filter (\<lambda>p. po_user_id p = None) (policies w)"
    using none by (simp add: plan_context_def filter_empty_conv split: prod.split)
  have no_rows: "owned_rows (pc_lib pc) (px_live ?ctx) ?g = []" by (auto simp: owned_rows_def live filter_empty_conv)
  have "\<exists>granted. ag_default ?g = None \<and> ag_principal ?g = who
      \<and> ag_overrides ?g = overrides_of PathRef Allow granted @ overrides_of PathRef Deny (sb_denied_paths sb)
      \<and> set granted \<subseteq> set (sb_read_paths sb) \<union> set (sb_write_paths sb)"
    using j(1) ag a by (auto simp: sandbox_policy_to_groups_def Let_def less_Suc_eq nth_Cons split: nat.splits)
  then obtain granted where g: "ag_default ?g = None" "ag_principal ?g = who"
      "ag_overrides ?g = overrides_of PathRef Allow granted @ overrides_of PathRef Deny (sb_denied_paths sb)"
      "set granted \<subseteq> set (sb_read_paths sb) \<union> set (sb_write_paths sb)" by blast
  have "plain a" using a by (auto simp: plain_def)
  show "cp_effect (statement (pc_lib pc) (po_text p)) = Permit"
    using path_group_permits [OF laws plan g(1,3) names(1) _ _ _ sandbox_hierarchy no_rows _ _ _ j(2)]
      apart g(2,4) names(2) ag \<open>plain a\<close> one managed silent a by (fastforce simp: live)
qed

theorem denied_paths_are_not_written_witness:
  "\<exists>w'. reconcile_sandbox_policy demo_policy_config ''u'' (AgentRef ''bob/dev'') demo_sandbox demo_policy_world = (Inr (2, 0), w')
     \<and> (\<forall>p \<in> set (policies w'). cp_action (statement demo_cedar (po_text p)) = EqAction (''Policy::Action'', ''read'')
          \<longrightarrow> cp_effect (statement demo_cedar (po_text p)) = Permit)
     \<and> fst (evaluate_sandbox_policy demo_policy_config demo_agent_sandbox False w') = Inr demo_in_force"
proof -
  obtain w' where run: "reconcile_sandbox_policy demo_policy_config ''u'' (AgentRef ''bob/dev'') demo_sandbox demo_policy_world
      = (Inr (2, 0), w')"
    and sandbox: "fst (evaluate_sandbox_policy demo_policy_config demo_agent_sandbox False w') = Inr demo_in_force"
    by (rule demo_reconciled)
  have users: "\<forall>p \<in> set (policies w'). po_user_id p = Some ''u''"
    by (rule reconcile_or_fail_Inr [OF run [unfolded reconcile_sandbox_policy_def]]) (auto simp: demo_policy_facts)
  have silent: "\<not> demo_applies permit_every_connect req es" if "snd (rq_action req) \<in> {''read'', ''write''}" for req es
    using that by (auto simp: demo_applies_def permit_every_connect_def bare_def action_covers_def)
  have "\<forall>p \<in> set (policies w'). po_user_id p = Some ''u'' \<longrightarrow>
    (\<forall>a \<in> {''read'', ''write''}. cp_action (statement demo_cedar (po_text p)) = EqAction (''Policy::Action'', a)
       \<longrightarrow> cp_effect (statement demo_cedar (po_text p)) = Permit)"
    using denied_paths_are_not_written [OF demo_policy_facts(1) _ _ _ _ _ _ _ _ run] silent
    by (simp add: demo_policy_facts demo_sandbox_def default_sandbox_policy_def plain_def)
  with users run sandbox show ?thesis by blast
qed

end
