(* ===== verification/Policy_Caches.thy ===== *)
theory Policy_Caches
  imports Policy_Props
begin

text \<open>
  What the policy service remembers: the policy sets are those of the rows as long as no write
  breaks off midway, and the decisions are shared by agents with one handle.
\<close>

section \<open>Decisions by handle\<close>

text \<open>
  C16. A decision is remembered under the user and the handle of the agent, not under the agent:
  after one agent was authorised, every agent with the same handle, whoever owns it, gets the same
  decision for the same action, and nothing is evaluated.
\<close>

theorem agents_with_one_handle_share_decisions:
  assumes run: "authorize pc u a act w = (Inr d, w1)" and same: "agr_handle b = agr_handle a"
  shows "authorize pc u b act w1 = (Inr d, w1)"
proof (cases "agr_handle a = ''system'' \<and> is_manage_policy act")
  case True
  with run same show ?thesis by (auto simp: authorize_def ret_def)
next
  case False
  let ?k = "decision_key pc u (agr_handle a) act"
  have "decision_cache w1 ?k = Some d"
  proof (cases "decision_cache w ?k")
    case None
    with run False show ?thesis
      by (auto simp: authorize_def gets_def modify_def ret_def simp del: qbind_gets elim!: qbind_Inr_E)
  next
    case (Some d')
    with run False show ?thesis by (simp add: authorize_def ret_def)
  qed
  with False same show ?thesis by (auto simp: authorize_def ret_def)
qed

text \<open>Two agents with one handle; a policy permits the tools to the first only.\<close>

definition demo_decision_world :: policy_world where
  "demo_decision_world = demo_policy_world\<lparr>
     users := [\<lparr>usr_id = ''u'', usr_handle = ''bob'', usr_email = [], usr_name = [], usr_deactivated_at = None\<rparr>,
               \<lparr>usr_id = ''v'', usr_handle = ''eve'', usr_email = [], usr_name = [], usr_deactivated_at = None\<rparr>],
     policies := [demo_policy_row ''p'' (Some ''u'')
       (bare Permit (EqScope (''Policy::Agent'', ''bob/dev'')) (EqAction (''Policy::Action'', ''invoke_tool'')) AnyScope)]\<rparr>"

definition demo_agent :: "string \<Rightarrow> agent_row" where
  "demo_agent owner = \<lparr>agr_id = owner, agr_user_id = owner, agr_handle = ''dev''\<rparr>"

lemma demo_decisions:
  "fst (authorize demo_policy_config ''u'' (demo_agent ''u'') (InvokeTool ''t'' ''g'') demo_decision_world) = Inr decision_allow
   \<and> fst (authorize demo_policy_config ''u'' (demo_agent ''v'') (InvokeTool ''t'' ''g'') demo_decision_world)
     = Inr (decision_deny ''No matching permit policy'')"
  by code_simp

theorem agents_with_one_handle_share_decisions_witness:
  "fst (authorize demo_policy_config ''u'' (demo_agent ''v'') (InvokeTool ''t'' ''g'') demo_decision_world)
     = Inr (decision_deny ''No matching permit policy'')
   \<and> (\<exists>w1. authorize demo_policy_config ''u'' (demo_agent ''u'') (InvokeTool ''t'' ''g'') demo_decision_world = (Inr decision_allow, w1)
      \<and> authorize demo_policy_config ''u'' (demo_agent ''v'') (InvokeTool ''t'' ''g'') w1 = (Inr decision_allow, w1))"
proof -
  obtain w1 where run: "authorize demo_policy_config ''u'' (demo_agent ''u'') (InvokeTool ''t'' ''g'') demo_decision_world
      = (Inr decision_allow, w1)"
    using demo_decisions
    by (cases "authorize demo_policy_config ''u'' (demo_agent ''u'') (InvokeTool ''t'' ''g'') demo_decision_world") auto
  from agents_with_one_handle_share_decisions [OF run, of "demo_agent ''v''"] run demo_decisions show ?thesis
    by (auto simp: demo_agent_def)
qed

section \<open>Caches\<close>

text \<open>
  C19. A reconciliation that breaks off leaves every cache as it was, although it may have written
  some of its rows: what was remembered for the user goes on being answered.
\<close>

theorem a_reconciliation_that_breaks_off_keeps_the_caches:
  assumes run: "reconcile_or_fail pc u grps w = (Inl e, w')"
  shows "caches w' = caches w"
  using run
proof (cases rule: reconcile_or_fail_cases)
  case (unchanged ff)
  then show ?thesis by (simp add: caches_def)
next
  case (written plan ff w2 c)
  then have "w' = w2" by (cases c) auto
  with apply_edits_caches [OF written(2)] show ?thesis by (simp add: caches_def)
qed

definition demo_broken_world :: policy_world where
  "demo_broken_world = demo_policy_world\<lparr>faults := [None, None, None, None, None, Some ''down''],
     policy_cache := (\<lambda>_. Some [permit_every_connect])\<rparr>"

lemma demo_breaks:
  "case reconcile_or_fail demo_policy_config ''u'' (sandbox_policy_to_groups (AgentRef ''bob/dev'') demo_sandbox) demo_broken_world of
     (r, w') \<Rightarrow> r = Inl (Db (Database ''down'')) \<and> length (policies w') = 1"
  by code_simp

theorem a_reconciliation_that_breaks_off_keeps_the_caches_witness:
  "\<exists>w'. reconcile_or_fail demo_policy_config ''u'' (sandbox_policy_to_groups (AgentRef ''bob/dev'') demo_sandbox) demo_broken_world
      = (Inl (Db (Database ''down'')), w') \<and> length (policies w') = 1 \<and> policy_cache w' ''u'' = Some [permit_every_connect]"
proof -
  obtain w' where run: "reconcile_or_fail demo_policy_config ''u'' (sandbox_policy_to_groups (AgentRef ''bob/dev'') demo_sandbox)
      demo_broken_world = (Inl (Db (Database ''down'')), w')" and "length (policies w') = 1"
    using demo_breaks by (auto split: prod.splits)
  moreover from a_reconciliation_that_breaks_off_keeps_the_caches [OF run]
  have "policy_cache w' ''u'' = Some [permit_every_connect]" by (simp add: caches_def demo_broken_world_def)
  ultimately show ?thesis by blast
qed

text \<open>The remembered policy set of a user is the one of the rows.\<close>

definition caches_true :: "cedar_lib \<Rightarrow> 'w policy_world_scheme \<Rightarrow> bool" where
  "caches_true lib w \<longleftrightarrow> (\<forall>u ps. policy_cache w u = Some ps \<longrightarrow> policy_set_of lib u w = Inr ps)"

lemma policy_set_of_cong:
  "live_rows u w' = live_rows u w \<Longrightarrow> managed_policies w' = managed_policies w \<Longrightarrow> policy_set_of lib u w' = policy_set_of lib u w"
  by (simp add: policy_set_of_def)

lemma caches_true_step:
  assumes "caches_true lib w" and "policy_cache w1 = policy_cache w" and "managed_policies w1 = managed_policies w"
    and "\<And>v. v \<noteq> u \<Longrightarrow> live_rows v w1 = live_rows v w"
  shows "caches_true lib (invalidated u w1)"
  using assms policy_set_of_cong [of _ "invalidated u w1" w]
  by (auto simp: caches_true_def invalidated_def Let_def live_rows_def)

lemma live_rows_append: "policies w' = policies w @ [r] \<Longrightarrow> po_user_id r = Some u \<Longrightarrow> v \<noteq> u \<Longrightarrow> live_rows v w' = live_rows v w"
  by (simp add: live_rows_def)

lemma live_rows_filter:
  "policies w' = filter P (policies w) \<Longrightarrow> \<forall>p \<in> set (policies w). \<not> P p \<longrightarrow> po_user_id p = Some u \<Longrightarrow> v \<noteq> u
     \<Longrightarrow> live_rows v w' = live_rows v w"
  by (auto simp: live_rows_def intro!: arg_cong2 [where f = append] filter_cong)

lemma live_rows_map:
  "policies w' = map f (policies w) \<Longrightarrow> \<forall>p \<in> set (policies w). f p = p \<or> po_user_id p = Some u \<and> po_user_id (f p) = Some u \<Longrightarrow> v \<noteq> u
     \<Longrightarrow> live_rows v w' = live_rows v w"
proof -
  assume m: "policies w' = map f (policies w)" and f: "\<forall>p \<in> set (policies w). f p = p \<or> po_user_id p = Some u \<and> po_user_id (f p) = Some u"
    and "v \<noteq> u"
  have "filter Q (map f ps) = filter Q ps" if "\<forall>p \<in> set ps. f p = p \<or> \<not> Q p \<and> \<not> Q (f p)" for Q ps
    using that by (induction ps) auto
  from this [of "policies w" "\<lambda>p. po_user_id p = None"] this [of "policies w" "\<lambda>p. po_user_id p = Some v"]
  show ?thesis unfolding live_rows_def m using f \<open>v \<noteq> u\<close> by fastforce
qed

lemma caches_step:
  assumes "caches_true lib w" and "caches w1 = caches w" and "\<And>v. v \<noteq> u \<Longrightarrow> live_rows v w1 = live_rows v w"
  shows "caches_true lib (invalidated u w1)"
  using assms by (intro caches_true_step) (simp_all add: caches_def)

lemma caches_read: "read_only m \<Longrightarrow> m w = (r, w') \<Longrightarrow> policies w' = policies w \<and> caches w' = caches w"
  by (drule (1) read_onlyD) (auto simp: caches_def)

lemma invalidate_Inr [simp]: "invalidate_cache u w = (Inr x, w') \<longleftrightarrow> w' = invalidated u w"
  by (auto simp: invalidate_cache_def modify_def)

lemma create_caches: "repo_create policies policies_update po_id r w = (x, w') \<Longrightarrow> caches w' = caches w"
  unfolding repo_create_def by (auto elim!: db_call_cases simp: caches_def split: option.splits)

lemma create_policy_caches:
  assumes run: "create_policy pc u body w = (Inr r, w')" and true: "caches_true lib w"
  shows "caches_true lib w'"
proof -
  from run obtain w1 w2 i w3 now name descr w4 a where find: "find_policy_by_name u name w1 = (Inr None, w2)" and w1: "w1 = w"
    and i: "new_id w2 = (Inr i, w3)" and c: "repo_create policies policies_update po_id
       \<lparr>po_id = i, po_user_id = Some u, po_name = name, po_description = descr, po_text = body, po_enabled = True,
        po_created_at = now, po_updated_at = now\<rparr> w3 = (Inr a, w4)" and w': "w' = invalidated u w4"
    unfolding create_policy_def
    by (auto elim!: qbind_Inr_E simp: from_result_def ok_or_def gets_def ret_def fail_def split: option.splits if_splits prod.splits)
  have "policies w3 = policies w \<and> caches w3 = caches w"
    using caches_read [OF read_find_policies(3) find] new_id_step [OF i] by (auto simp: w1 caches_def)
  with create_step [OF c] create_caches [OF c]
  have "policies w4 = policies w @ [a]" "po_user_id a = Some u" "caches w4 = caches w" by auto
  then show ?thesis unfolding w' by (intro caches_step [OF true] live_rows_append [where u = u]) auto
qed
lemma owned_policy_Inr:
  assumes "owned_policy u i w = (Inr p, w')"
  shows "po_id p = i" and "po_user_id p = Some u" and "p \<in> set (policies w)" and "policies w' = policies w" and "caches w' = caches w"
  using assms unfolding owned_policy_def repo_find_by_id_def
  by (auto elim!: qbind_Inr_E dest!: db_read_Inr find_row_Some simp: ok_or_def fail_def ret_def caches_def split: option.splits if_splits)

lemma write_row:
  assumes "db_write (policies_update f) w = (Inr x, w')"
  shows "policies w' = f (policies w)" and "caches w' = caches w"
  using db_write_Inr [OF assms] by (simp_all add: caches_def)

lemma update_policy_caches:
  assumes run: "update_policy pc u i body w = (Inr r, w')" and true: "caches_true lib w" and wf: "wf_rows po_id (policies w)"
  shows "caches_true lib w'"
proof -
  from run obtain p w1 w2 w3 q x where owned: "owned_policy u i w = (Inr p, w1)"
    and same: "policies w2 = policies w1 \<and> caches w2 = caches w1"
    and upd: "db_write (policies_update (update_row po_id q)) w2 = (Inr x, w3)"
    and q: "po_id q = po_id p" "po_user_id q = po_user_id p" and w': "w' = invalidated u w3"
    unfolding update_policy_def repo_update_def
    by (auto elim!: qbind_Inr_E dest!: caches_read [OF read_find_policies(3)] simp: from_result_def gets_def ret_def fail_def
        split: option.splits if_splits prod.splits)
  note o = owned_policy_Inr [OF owned] and w = write_row [OF upd]
  have "policies w3 = map (\<lambda>r. if po_id r = po_id q then q else r) (policies w)"
    using w(1) same o(4) by (simp add: update_row_def)
  moreover have "\<forall>r \<in> set (policies w). po_id r = po_id q \<longrightarrow> r = p"
    using o(1,3) q(1) wf by (metis find_row_mem option.inject)
  then have "\<forall>r \<in> set (policies w). (if po_id r = po_id q then q else r) = r
      \<or> po_user_id r = Some u \<and> po_user_id (if po_id r = po_id q then q else r) = Some u"
    using q(2) o(2) by auto
  ultimately have "live_rows v w3 = live_rows v w" if "v \<noteq> u" for v
    using that by (rule live_rows_map)
  then show ?thesis unfolding w' by (intro caches_step [OF true]) (use w(2) same o(5) in auto)
qed

lemma delete_policy_caches:
  assumes run: "delete_policy u i w = (Inr r, w')" and true: "caches_true lib w" and wf: "wf_rows po_id (policies w)"
  shows "caches_true lib w'"
proof -
  from run obtain p w1 w3 x where owned: "owned_policy u i w = (Inr p, w1)"
    and del: "db_write (policies_update (delete_row po_id i)) w1 = (Inr x, w3)" and w': "w' = invalidated u w3"
    unfolding delete_policy_def repo_delete_def by (auto elim!: qbind_Inr_E)
  note o = owned_policy_Inr [OF owned] and w = write_row [OF del]
  have "\<forall>r \<in> set (policies w). po_id r = i \<longrightarrow> r = p" using o(1,3) wf by (metis find_row_mem option.inject)
  then have gone: "\<forall>r \<in> set (policies w). \<not> po_id r \<noteq> i \<longrightarrow> po_user_id r = Some u" using o(2) by blast
  have "policies w3 = filter (\<lambda>r. po_id r \<noteq> i) (policies w)" by (simp add: w(1) o(4) delete_row_def)
  from live_rows_filter [OF this gone] have "live_rows v w3 = live_rows v w" if "v \<noteq> u" for v using that .
  then show ?thesis unfolding w' by (intro caches_step [OF true]) (use w(2) o(5) in auto)
qed

text \<open>Rows of a user that go, by their ids.\<close>

lemma deleted_rows_caches:
  assumes true: "caches_true lib w" and wf: "wf_rows po_id (policies w)" and same: "caches w1 = caches w"
    and rows: "policies w1 = filter (\<lambda>r. po_id r \<notin> ids) (policies w)"
    and own: "ids \<subseteq> po_id ` {p \<in> set (policies w). po_user_id p = Some u}"
  shows "caches_true lib (invalidated u w1)"
proof (intro caches_step [OF true same] live_rows_filter [OF rows])
  show "\<forall>p \<in> set (policies w). \<not> po_id p \<notin> ids \<longrightarrow> po_user_id p = Some u"
  proof (intro ballI impI)
    fix p assume p: "p \<in> set (policies w)" "\<not> po_id p \<notin> ids"
    with own obtain q where q: "q \<in> set (policies w)" "po_user_id q = Some u" "po_id q = po_id p" by auto
    with p(1) wf have "q = p" by (metis find_row_mem option.inject)
    with q(2) show "po_user_id p = Some u" by simp
  qed
qed

lemma delete_policy_by_name_caches:
  assumes run: "delete_policy_by_name u n w = (Inr r, w')" and true: "caches_true lib w" and wf: "wf_rows po_id (policies w)"
  shows "caches_true lib w'"
proof -
  let ?hit = "\<lambda>p. po_user_id p = Some u \<and> po_name p = n"
  from run obtain p ff w3 x where p: "find ?hit (policies w) = Some p"
    and del: "db_write (policies_update (delete_row po_id (po_id p))) (w\<lparr>faults := ff\<rparr>) = (Inr x, w3)" and w': "w' = invalidated u w3"
    unfolding delete_policy_by_name_def repo_delete_def find_policy_by_name_def
    by (auto elim!: qbind_Inr_E dest!: db_read_Inr simp: ok_or_def fail_def ret_def split: option.splits)
  note w = write_row [OF del]
  show ?thesis unfolding w'
    using find_eq_SomeD [OF p] w
    by (intro deleted_rows_caches [OF true wf, of _ "{po_id p}"]) (auto simp: caches_def delete_row_def)
qed

lemma delete_by_ids_Inr:
  assumes "delete_by_ids ids w = (Inr x, w')"
  shows "policies w' = filter (\<lambda>r. po_id r \<notin> set ids) (policies w) \<and> caches w' = caches w"
  using assms unfolding delete_by_ids_def
proof (induction ids arbitrary: w)
  case (Cons i ids)
  then obtain y w1 where one: "db_write (\<lambda>w. w\<lparr>policies := delete_row po_id i (policies w)\<rparr>) w = (Inr y, w1)"
    and rest: "for_each ids (\<lambda>i. db_write (\<lambda>w. w\<lparr>policies := delete_row po_id i (policies w)\<rparr>)) w1 = (Inr x, w')"
    by (auto elim!: qbind_Inr_E)
  from db_write_Inr [OF one] have "policies w1 = delete_row po_id i (policies w)" "caches w1 = caches w"
    by (simp_all add: caches_def)
  with Cons.IH [OF rest] show ?case by (simp add: delete_row_def conj_commute)
qed (simp add: ret_def)

lemma delete_agent_policies_caches:
  assumes run: "delete_agent_policies pc u uh h w = (Inr r, w')" and true: "caches_true lib w" and wf: "wf_rows po_id (policies w)"
  shows "caches_true lib w'"
proof -
  define ids where "ids = map po_id (filter (\<lambda>p. references_agent (pc_lib pc) (po_text p) uh h)
    (filter (\<lambda>p. po_user_id p = Some u) (policies w)))"
  from run obtain rows w0 where read: "find_policies_by_user u w = (Inr rows, w0)"
    and rest: "(let ids = map po_id (filter (\<lambda>p. references_agent (pc_lib pc) (po_text p) uh h) rows)
      in if ids = [] then ret () else qbind (delete_by_ids ids) (\<lambda>_. invalidate_cache u)) w0 = (Inr r, w')"
    unfolding delete_agent_policies_def by (rule qbind_Inr_E)
  from read obtain ff where "rows = filter (\<lambda>p. po_user_id p = Some u) (policies w)" and w0: "w0 = w\<lparr>faults := ff\<rparr>"
    by (auto simp: find_policies_by_user_def dest!: db_read_Inr)
  with rest have rest: "(if ids = [] then ret () else qbind (delete_by_ids ids) (\<lambda>_. invalidate_cache u)) (w\<lparr>faults := ff\<rparr>) = (Inr r, w')"
    by (simp only: Let_def ids_def)
  show ?thesis
  proof (cases "ids = []")
    case True
    with rest have "w' = w\<lparr>faults := ff\<rparr>" by (simp add: ret_def)
    with true policy_set_of_cong [of _ w' w] show ?thesis by (auto simp: caches_true_def live_rows_def)
  next
    case False
    with rest obtain x w1 where del: "delete_by_ids ids (w\<lparr>faults := ff\<rparr>) = (Inr x, w1)" and w': "w' = invalidated u w1"
      by (auto elim!: qbind_Inr_E)
    from delete_by_ids_Inr [OF del] show ?thesis unfolding w'
      by (intro deleted_rows_caches [OF true wf, of _ "set ids"]) (auto simp: caches_def ids_def)
  qed
qed

text \<open>Where a row or a managed policy of the server changes, every set is forgotten.\<close>

lemma forgotten_caches:
  assumes "sync_base_policies pc w = (Inr x, w') \<or> register_managed_policy q w = (Inr x, w')"
  shows "caches_true lib w'"
  using assms unfolding sync_base_policies_def register_managed_policy_def Let_def
  by (auto elim!: qbind_Inr_E simp: invalidate_all_caches_def modify_def caches_true_def)

lemma reconcile_caches:
  assumes run: "reconcile_or_fail pc u grps w = (Inr counts, w')" and true: "caches_true lib w" and wf: "wf_rows po_id (policies w)"
    and fresh: "po_id ` set (policies w) \<inter> new_names w = {}"
  shows "caches_true lib w'"
proof -
  obtain ess rows w1 where plans: "list_all2 (\<lambda>g es. plan_for_group (pc_lib pc) (plan_context pc u grps w) g = Inr es) grps ess"
    and rows: "policies w' = filter (\<lambda>p. po_id p \<notin> set (edit_deletes (concat ess))) (policies w) @ rows"
      "\<forall>p \<in> set rows. po_user_id p = Some u \<and> po_enabled p"
    and w': "w' = invalidated u w1" and c: "caches w1 = caches w"
    by (rule reconcile_or_fail_Inr [OF run fresh])
  have len: "length ess = length grps" using plans by (simp add: list_all2_lengthD)
  have gone: "po_user_id p = Some u" if p: "p \<in> set (policies w)" "po_id p \<in> set (edit_deletes (concat ess))" for p
  proof -
    from p(2) obtain j where "j < length grps" "po_id p \<in> set (edit_deletes (ess ! j))" using edits_concat_nth(1) [OF len] by blast
    with plan_edits_owned(1) [OF list_all2_nthD [OF plans]] obtain p' where
      p': "p' \<in> set (owned_rows (pc_lib pc) (px_live (plan_context pc u grps w)) (grps ! j))" "po_id p = po_id p'" by blast
    then have "p' \<in> set (policies w)" "po_user_id p' = Some u" using set_px_live [of pc u grps w] by (auto simp: owned_rows_def)
    with p(1) p'(2) wf show ?thesis by (metis find_row_mem option.inject)
  qed
  have "policies w1 = policies w'" by (simp add: w' invalidated_def Let_def)
  then have "live_rows v w1 = live_rows v w" if "v \<noteq> u" for v
    using rows gone that by (auto simp: live_rows_def filter_empty_conv intro!: arg_cong2 [where f = append] filter_cong)
  then show ?thesis unfolding w' by (intro caches_step [OF true c])
qed

lemma build_policy_set_caches:
  assumes run: "build_policy_set pc u w = (Inr ps, w')" and true: "caches_true (pc_lib pc) w"
  shows "caches_true (pc_lib pc) w'" and "policy_set_of (pc_lib pc) u w = Inr ps" and "policies w' = policies w"
proof -
  have "caches_true (pc_lib pc) w' \<and> policy_set_of (pc_lib pc) u w = Inr ps \<and> policies w' = policies w"
  proof (cases "policy_cache w u")
    case (Some qs)
    with run true show ?thesis by (auto simp: build_policy_set_def ret_def caches_true_def)
  next
    case None
    with run obtain ff where w': "w' = w\<lparr>faults := ff\<rparr>\<lparr>policy_cache := (policy_cache w)(u \<mapsto> ps)\<rparr>"
      and of_rows: "policy_set_of (pc_lib pc) u w = Inr ps"
      unfolding build_policy_set_def find_system_policies_def find_policies_by_user_def policy_set_of_def
      by (auto elim!: qbind_Inr_E dest!: db_read_Inr simp: gets_def from_result_def modify_def ret_def live_rows_def and_then_Inr
          simp del: qbind_gets)
    have "policy_set_of (pc_lib pc) v w' = policy_set_of (pc_lib pc) v w" for v
      by (rule policy_set_of_cong) (simp_all add: w' live_rows_def)
    with true of_rows show ?thesis by (auto simp: caches_true_def w')
  qed
  then show "caches_true (pc_lib pc) w'" and "policy_set_of (pc_lib pc) u w = Inr ps" and "policies w' = policies w" by auto
qed

text \<open>
  C14. The policy sets that are remembered are the ones the rows say, and stay so through every
  operation that writes rows when it succeeds: creating, changing and deleting a policy by id or
  by name, deleting those of an agent, a reconciliation, and, for the rows and the policies of the
  server itself, the synchronisation at start-up and the registration of a managed policy. So what
  a decision is made on is the rows of the user and of the server, not an earlier state of them.
\<close>

theorem remembered_policies_are_the_rows:
  assumes true: "caches_true (pc_lib pc) w" and wf: "wf_rows po_id (policies w)"
    and fresh: "po_id ` set (policies w) \<inter> new_names w = {}"
  shows "(\<forall>body p w'. create_policy pc u body w = (Inr p, w') \<longrightarrow> caches_true (pc_lib pc) w') \<and>
    (\<forall>i body p w'. update_policy pc u i body w = (Inr p, w') \<longrightarrow> caches_true (pc_lib pc) w') \<and>
    (\<forall>i x w'. delete_policy u i w = (Inr x, w') \<longrightarrow> caches_true (pc_lib pc) w') \<and>
    (\<forall>n x w'. delete_policy_by_name u n w = (Inr x, w') \<longrightarrow> caches_true (pc_lib pc) w') \<and>
    (\<forall>uh h x w'. delete_agent_policies pc u uh h w = (Inr x, w') \<longrightarrow> caches_true (pc_lib pc) w') \<and>
    (\<forall>x w'. sync_base_policies pc w = (Inr x, w') \<longrightarrow> caches_true (pc_lib pc) w') \<and>
    (\<forall>q x w'. register_managed_policy q w = (Inr x, w') \<longrightarrow> caches_true (pc_lib pc) w') \<and>
    (\<forall>grps counts w'. reconcile_or_fail pc u grps w = (Inr counts, w') \<longrightarrow> caches_true (pc_lib pc) w') \<and>
    (\<forall>ps w'. build_policy_set pc u w = (Inr ps, w') \<longrightarrow> caches_true (pc_lib pc) w' \<and> policy_set_of (pc_lib pc) u w = Inr ps)"
  by (intro conjI allI impI)
    (erule create_policy_caches [OF _ true] update_policy_caches [OF _ true wf] delete_policy_caches [OF _ true wf]
      delete_policy_by_name_caches [OF _ true wf] delete_agent_policies_caches [OF _ true wf]
      forgotten_caches [OF disjI1] forgotten_caches [OF disjI2]
      reconcile_caches [OF _ true wf fresh] build_policy_set_caches [OF _ true])+

theorem remembered_policies_are_the_rows_witness:
  "\<exists>w'. reconcile_or_fail demo_policy_config ''u'' (sandbox_policy_to_groups (AgentRef ''bob/dev'') demo_sandbox) demo_policy_world
      = (Inr (2, 0), w') \<and> caches_true demo_cedar w'"
proof -
  obtain w' where run: "reconcile_or_fail demo_policy_config ''u'' (sandbox_policy_to_groups (AgentRef ''bob/dev'') demo_sandbox)
      demo_policy_world = (Inr (2, 0), w')"
    by (rule demo_reconciled) (simp add: reconcile_sandbox_policy_def)
  have "caches_true (pc_lib demo_policy_config) demo_policy_world" by (simp add: caches_true_def demo_policy_world_def)
  from remembered_policies_are_the_rows [OF this, of "''u''"] run show ?thesis
    by (auto simp: demo_policy_facts wf_rows_def)
qed

end
