(* ===== verification/Task_Model.thy ===== *)
theory Task_Model
  imports Store Task_Schema "HOL-Library.Option_ord"
begin

text \<open>
  Tasks: the data of \<open>agent/task/models.rs\<close> and the queries of \<open>db/repo/tasks.rs\<close>. Field names
  carry the prefix \<open>t_\<close> (\<open>r_\<close> for requests, \<open>resp_\<close> for responses). Timestamps are
  milliseconds. A query is a filter of the table followed by its \<open>ORDER BY\<close>. The engine orders
  a missing value before every other value, so the comparison of a missing next run with the
  current time is true.
\<close>

datatype task_status = Pending | InProgress | Completed | Failed | Cancelled

datatype signal_mode = Once | Continuous

datatype cron_mode = Singleton | PerInstance

datatype cron_concurrency = Allow | Forbid | Replace

datatype task_kind =
    Direct (direct_source_chat: "string option")
  | Delegation string string bool
  | Cron (cron_expression: string) (cron_timezone: "string option") (cron_next_run_at: "int option")
      "string option" "string option" cron_mode cron_concurrency bool
  | CronRun (source_cron_id: string) "string option" "string option" (fire_at: int) (sequence_num: nat)
  | Signal string bool signal_mode "string list" "string list" "string list"
      (expires_at: "int option") (max_evaluations: nat) (evaluation_count: nat)

fun source_chat_id :: "task_kind \<Rightarrow> string option" where
  "source_chat_id (Direct c) = c"
| "source_chat_id (Delegation a c r) = Some c"
| "source_chat_id (Cron e tz n a c m cc p) = c"
| "source_chat_id (CronRun i c a f n) = c"
| "source_chat_id (Signal c r m cats chans conts e mx n) = Some c"

record task =
  t_id :: string
  t_user_id :: string
  t_agent_id :: string
  t_space_id :: "string option"
  t_chat_id :: "string option"
  t_title :: string
  t_description :: string
  t_status :: task_status
  t_kind :: task_kind
  t_run_at :: "int option"
  t_result_summary :: "string option"
  t_error_message :: "string option"
  t_quarantined :: bool
  t_result_schema :: "json option"
  t_result_description :: "string option"
  t_created_at :: int
  t_updated_at :: int

definition effective_result_schema :: "task \<Rightarrow> json option" where
  "effective_result_schema t =
     (case t_result_schema t of
        Some schema \<Rightarrow> Some schema
      | None \<Rightarrow> (case t_result_description t of
                   None \<Rightarrow> None
                 | Some description \<Rightarrow>
                     Some (JObject [(''description'', JString description), (''type'', JString ''string'')])))"

record create_task_request =
  r_agent_id :: string
  r_space_id :: "string option"
  r_chat_id :: "string option"
  r_title :: string
  r_description :: "string option"
  r_source_agent_id :: "string option"
  r_source_chat_id :: "string option"
  r_resume_parent :: "bool option"
  r_run_at :: "int option"
  r_quarantined :: bool
  r_result_schema :: "json option"
  r_result_description :: "string option"

record update_task_request =
  u_title :: "string option"
  u_description :: "string option"
  u_status :: "task_status option"

record task_response =
  resp_id :: string
  resp_agent_id :: string
  resp_space_id :: "string option"
  resp_chat_id :: "string option"
  resp_title :: string
  resp_description :: string
  resp_status :: task_status
  resp_kind :: task_kind
  resp_run_at :: "int option"
  resp_result_summary :: "string option"
  resp_error_message :: "string option"
  resp_quarantined :: bool
  resp_result_schema :: "json option"
  resp_result_description :: "string option"
  resp_created_at :: int
  resp_updated_at :: int

definition to_response :: "task \<Rightarrow> task_response" where
  "to_response t =
     \<lparr>resp_id = t_id t, resp_agent_id = t_agent_id t, resp_space_id = t_space_id t,
      resp_chat_id = t_chat_id t, resp_title = t_title t, resp_description = t_description t,
      resp_status = t_status t, resp_kind = t_kind t, resp_run_at = t_run_at t,
      resp_result_summary = t_result_summary t, resp_error_message = t_error_message t,
      resp_quarantined = t_quarantined t, resp_result_schema = t_result_schema t,
      resp_result_description = t_result_description t, resp_created_at = t_created_at t,
      resp_updated_at = t_updated_at t\<rparr>"

section \<open>The world of the task service\<close>

record task_event =
  ev_user_id :: string
  ev_task_id :: string
  ev_status :: string
  ev_title :: string
  ev_chat_id :: "string option"
  ev_source_chat_id :: "string option"
  ev_result_summary :: "string option"

record task_world = env +
  tasks :: "task list"
  task_events :: "task_event list"

section \<open>Queries\<close>

definition is_active :: "task \<Rightarrow> bool" where
  "is_active t \<longleftrightarrow> t_status t = Pending \<or> t_status t = InProgress"

definition find_active_by_user_id :: "string \<Rightarrow> (app_error, 'w task_world_scheme, task list) op" where
  "find_active_by_user_id user =
     db_read (\<lambda>w. sort_key (\<lambda>t. - t_created_at t)
                    (filter (\<lambda>t. t_user_id t = user \<and> is_active t) (tasks w)))"

definition find_all_by_user_id :: "string \<Rightarrow> (app_error, 'w task_world_scheme, task list) op" where
  "find_all_by_user_id user =
     db_read (\<lambda>w. sort_key (\<lambda>t. - t_created_at t) (filter (\<lambda>t. t_user_id t = user) (tasks w)))"

definition resumable :: "int \<Rightarrow> task \<Rightarrow> bool" where
  "resumable now t \<longleftrightarrow> is_active t \<and> \<not> is_Cron (t_kind t)
     \<and> (case t_run_at t of None \<Rightarrow> True | Some r \<Rightarrow> r \<le> now)"

definition find_resumable :: "(app_error, 'w task_world_scheme, task list) op" where
  "find_resumable = db_read (\<lambda>w. sort_key t_created_at (filter (resumable (clock w)) (tasks w)))"

definition find_by_chat_id :: "string \<Rightarrow> (app_error, 'w task_world_scheme, task option) op" where
  "find_by_chat_id chat = db_read (\<lambda>w. find (\<lambda>t. t_chat_id t = Some chat) (tasks w))"

definition find_by_source_chat_id :: "string \<Rightarrow> (app_error, 'w task_world_scheme, task list) op" where
  "find_by_source_chat_id chat =
     db_read (\<lambda>w. sort_key t_created_at (filter (\<lambda>t. source_chat_id (t_kind t) = Some chat) (tasks w)))"

definition cron_due :: "int \<Rightarrow> task \<Rightarrow> bool" where
  "cron_due now t \<longleftrightarrow> is_Cron (t_kind t) \<and> t_status t = Pending
     \<and> (case cron_next_run_at (t_kind t) of None \<Rightarrow> True | Some n \<Rightarrow> n \<le> now)"

definition find_due_cron_templates :: "(app_error, 'w task_world_scheme, task list) op" where
  "find_due_cron_templates =
     db_read (\<lambda>w. sort_key (\<lambda>t. cron_next_run_at (t_kind t)) (filter (cron_due (clock w)) (tasks w)))"

definition run_of :: "string \<Rightarrow> task \<Rightarrow> bool" where
  "run_of cron t \<longleftrightarrow> is_CronRun (t_kind t) \<and> source_cron_id (t_kind t) = cron"

definition find_runs_by_cron :: "string \<Rightarrow> (app_error, 'w task_world_scheme, task list) op" where
  "find_runs_by_cron cron =
     db_read (\<lambda>w. sort_key (\<lambda>t. - int (sequence_num (t_kind t))) (filter (run_of cron) (tasks w)))"

definition find_active_runs_by_cron :: "string \<Rightarrow> (app_error, 'w task_world_scheme, task list) op" where
  "find_active_runs_by_cron cron =
     db_read (\<lambda>w. sort_key (\<lambda>t. sequence_num (t_kind t))
                    (filter (\<lambda>t. run_of cron t \<and> is_active t) (tasks w)))"

definition find_orphaned_cron_runs :: "(app_error, 'w task_world_scheme, task list) op" where
  "find_orphaned_cron_runs =
     db_read (\<lambda>w. filter (\<lambda>t. is_CronRun (t_kind t) \<and> t_status t = InProgress) (tasks w))"

definition deferred_due :: "int \<Rightarrow> task \<Rightarrow> bool" where
  "deferred_due now t \<longleftrightarrow> (case t_run_at t of None \<Rightarrow> False | Some r \<Rightarrow> r \<le> now)
     \<and> t_status t = Pending \<and> \<not> is_Cron (t_kind t)"

definition find_deferred_due :: "(app_error, 'w task_world_scheme, task list) op" where
  "find_deferred_due = db_read (\<lambda>w. sort_key t_run_at (filter (deferred_due (clock w)) (tasks w)))"

definition pending_immediate :: "task \<Rightarrow> bool" where
  "pending_immediate t \<longleftrightarrow> t_status t = Pending \<and> t_run_at t = None
     \<and> \<not> is_Cron (t_kind t) \<and> \<not> is_Signal (t_kind t)"

definition find_pending_immediate :: "(app_error, 'w task_world_scheme, task list) op" where
  "find_pending_immediate = db_read (\<lambda>w. sort_key t_created_at (filter pending_immediate (tasks w)))"

definition pending_signal :: "task \<Rightarrow> bool" where
  "pending_signal t \<longleftrightarrow> is_Signal (t_kind t) \<and> t_status t = Pending"

definition find_pending_signal_tasks :: "(app_error, 'w task_world_scheme, task list) op" where
  "find_pending_signal_tasks = db_read (\<lambda>w. sort_key t_created_at (filter pending_signal (tasks w)))"

definition expired_signal :: "int \<Rightarrow> task \<Rightarrow> bool" where
  "expired_signal now t \<longleftrightarrow> pending_signal t
     \<and> (case expires_at (t_kind t) of None \<Rightarrow> False | Some e \<Rightarrow> e \<le> now)"

definition find_expired_signal_tasks :: "(app_error, 'w task_world_scheme, task list) op" where
  "find_expired_signal_tasks =
     db_read (\<lambda>w. sort_key (\<lambda>t. expires_at (t_kind t)) (filter (expired_signal (clock w)) (tasks w)))"

lemmas task_query_defs = find_active_by_user_id_def find_all_by_user_id_def find_resumable_def
  find_by_chat_id_def find_by_source_chat_id_def find_due_cron_templates_def find_runs_by_cron_def
  find_active_runs_by_cron_def find_orphaned_cron_runs_def find_deferred_due_def
  find_pending_immediate_def find_pending_signal_tasks_def find_expired_signal_tasks_def

section \<open>What the scheduler's queries select\<close>

lemma distinct_ids_filter: "wf_rows t_id ts \<Longrightarrow> distinct (map t_id (filter P ts))"
  using wf_rows_filter by (auto simp: wf_rows_def)

lemma distinct_ids_sorted: "wf_rows t_id ts \<Longrightarrow> distinct (map t_id (sort_key k (filter P ts)))"
proof -
  assume "wf_rows t_id ts"
  then have "distinct (map t_id (filter P ts))" by (rule distinct_ids_filter)
  then show ?thesis by (simp add: distinct_map)
qed

lemma ids_disjoint:
  assumes "wf_rows t_id ts" and "\<And>t. P t \<Longrightarrow> \<not> Q t"
  shows "t_id ` set (filter P ts) \<inter> t_id ` set (filter Q ts) = {}"
  using assms by (auto simp: wf_rows_def distinct_map dest: inj_onD)

text \<open>
  The scheduler's queues never hand out the same task twice: the tasks due for an immediate run,
  for a deferred run and as cron templates, read one after the other, have pairwise different
  ids, and everything in the first two is also what a restart would resume.
\<close>

theorem scheduler_queues_disjoint:
  assumes "wf_rows t_id (tasks w)" and "find_pending_immediate w = (Inr a, w1)"
    and "find_deferred_due w1 = (Inr b, w2)" and "find_due_cron_templates w2 = (Inr c, w3)"
  shows "distinct (map t_id (a @ b @ c))
    \<and> set a \<union> set b \<subseteq> {t \<in> set (tasks w). resumable (clock w) t}"
proof (rule conjI)
  let ?q = "\<lambda>P. filter P (tasks w)"
  have a: "a = sort_key t_created_at (?q pending_immediate)"
    and b: "b = sort_key t_run_at (?q (deferred_due (clock w)))"
    and c: "c = sort_key (\<lambda>t. cron_next_run_at (t_kind t)) (?q (cron_due (clock w)))"
    using assms(2-4) by (auto simp: task_query_defs dest!: db_read_Inr)
  have "\<And>t. pending_immediate t \<Longrightarrow> \<not> deferred_due (clock w) t"
    and "\<And>t. pending_immediate t \<Longrightarrow> \<not> cron_due (clock w) t"
    and "\<And>t. deferred_due (clock w) t \<Longrightarrow> \<not> cron_due (clock w) t"
    by (auto simp: pending_immediate_def deferred_due_def cron_due_def)
  note ids_disjoint [OF assms(1) this(1)] ids_disjoint [OF assms(1) this(2)] ids_disjoint [OF assms(1) this(3)]
  moreover have "distinct (map t_id a)" "distinct (map t_id b)" "distinct (map t_id c)"
    unfolding a b c by (rule distinct_ids_sorted [OF assms(1)])+
  ultimately show "distinct (map t_id (a @ b @ c))" by (simp add: a b c Int_Un_distrib)
  show "set a \<union> set b \<subseteq> {t \<in> set (tasks w). resumable (clock w) t}"
    by (auto simp: a b pending_immediate_def deferred_due_def resumable_def is_active_def split: option.splits)
qed

section \<open>A small world for the witnesses\<close>

definition bare_task :: "string \<Rightarrow> string \<Rightarrow> task_status \<Rightarrow> task_kind \<Rightarrow> task" where
  "bare_task i user st k =
     \<lparr>t_id = i, t_user_id = user, t_agent_id = ''a'', t_space_id = None, t_chat_id = None,
      t_title = ''t'', t_description = ''d'', t_status = st, t_kind = k, t_run_at = None,
      t_result_summary = None, t_error_message = None, t_quarantined = False, t_result_schema = None,
      t_result_description = None, t_created_at = 0, t_updated_at = 0\<rparr>"

definition small_world :: "task list \<Rightarrow> task_world" where
  "small_world ts =
     \<lparr>faults = [], clock = 9, duplicate_text = (\<lambda>i. i), tasks = ts, task_events = []\<rparr>"

lemma small_world_simps [simp]:
  "faults (small_world ts) = []" "clock (small_world ts) = 9" "tasks (small_world ts) = ts"
  "task_events (small_world ts) = []"
  by (simp_all add: small_world_def)

theorem scheduler_queues_disjoint_witness:
  "let d = (bare_task ''d'' ''u'' Pending (Direct None))\<lparr>t_run_at := Some 3\<rparr>;
       i = bare_task ''i'' ''u'' Pending (Direct None)
   in fst (find_pending_immediate (small_world [d, i])) = Inr [i]
      \<and> fst (find_deferred_due (small_world [d, i])) = Inr [d]
      \<and> distinct (map t_id ([i] @ [d] @ [])) \<and> resumable 9 d"
proof -
  let ?d = "(bare_task ''d'' ''u'' Pending (Direct None))\<lparr>t_run_at := Some 3\<rparr>"
  let ?i = "bare_task ''i'' ''u'' Pending (Direct None)"
  let ?w = "small_world [?d, ?i]"
  have "wf_rows t_id (tasks ?w)" by (simp add: wf_rows_def bare_task_def)
  moreover have "find_pending_immediate ?w = (Inr [?i], ?w)"
    by (simp add: find_pending_immediate_def op_eval pending_immediate_def bare_task_def)
  moreover have "find_deferred_due ?w = (Inr [?d], ?w)"
    by (simp add: find_deferred_due_def op_eval deferred_due_def bare_task_def)
  moreover have "find_due_cron_templates ?w = (Inr [], ?w)"
    by (simp add: find_due_cron_templates_def op_eval cron_due_def bare_task_def)
  ultimately show ?thesis
    using scheduler_queues_disjoint [of ?w "[?i]" ?w "[?d]" ?w "[]" ?w]
    unfolding Let_def by (simp del: distinct.simps)
qed

end
