(* ===== verification/Task_Service.thy ===== *)
theory Task_Service
  imports Task_Model
begin

text \<open>
  The task service (\<open>agent/task/service.rs\<close>): every operation that creates, reads or changes a
  task, in the order of the source. A fresh record id (\<open>nid\<close>) is an argument of the operations
  that create a record; the current time is the clock of the world. The broadcast of a task
  update (\<open>chat/broadcast.rs\<close>) is appended to the list of events.
\<close>

type_synonym ('w, 'a) task_op = "(app_error, 'w task_world_scheme, 'a) op"

abbreviation task_find :: "string \<Rightarrow> ('w, task option) task_op" where
  "task_find \<equiv> repo_find_by_id tasks t_id"

abbreviation task_create :: "task \<Rightarrow> ('w, task) task_op" where
  "task_create \<equiv> repo_create tasks tasks_update t_id"

abbreviation task_update :: "task \<Rightarrow> ('w, task) task_op" where
  "task_update \<equiv> repo_update tasks_update t_id"

abbreviation task_delete :: "string \<Rightarrow> ('w, unit) task_op" where
  "task_delete \<equiv> repo_delete tasks_update t_id"

abbreviation task_not_found :: app_error where
  "task_not_found \<equiv> NotFound ''Task not found''"

definition get_task :: "app_error \<Rightarrow> string \<Rightarrow> ('w, task) task_op" where
  "get_task e i = qbind (task_find i) (ok_or e)"

section \<open>Broadcasts\<close>

fun status_str :: "task_status \<Rightarrow> string" where
  "status_str Pending = ''pending''"
| "status_str InProgress = ''inprogress''"
| "status_str Completed = ''completed''"
| "status_str Failed = ''failed''"
| "status_str Cancelled = ''cancelled''"

definition broadcast_task_update ::
  "string \<Rightarrow> string \<Rightarrow> string \<Rightarrow> string \<Rightarrow> string option \<Rightarrow> string option \<Rightarrow> string option \<Rightarrow> ('w, unit) task_op" where
  "broadcast_task_update user i status title chat source_chat summary =
     modify (\<lambda>w. w\<lparr>task_events := task_events w @
       [\<lparr>ev_user_id = user, ev_task_id = i, ev_status = status, ev_title = title, ev_chat_id = chat,
         ev_source_chat_id = source_chat, ev_result_summary = summary\<rparr>]\<rparr>)"

definition broadcast :: "task \<Rightarrow> string \<Rightarrow> string option \<Rightarrow> ('w, unit) task_op" where
  "broadcast task status summary =
     broadcast_task_update (t_user_id task) (t_id task) status (t_title task) (t_chat_id task)
       (source_chat_id (t_kind task)) summary"

section \<open>Creating tasks\<close>

definition check_schema :: "json_lib \<Rightarrow> json option \<Rightarrow> ('w, unit) task_op" where
  "check_schema lib schema =
     (case schema of
        None \<Rightarrow> ret ()
      | Some s \<Rightarrow> (case validate_schema_doc lib s of Inl e \<Rightarrow> fail (Validation e) | Inr _ \<Rightarrow> ret ()))"

definition request_kind :: "create_task_request \<Rightarrow> task_kind" where
  "request_kind req =
     (case (r_source_agent_id req, r_source_chat_id req) of
        (Some agent, Some chat) \<Rightarrow>
          Delegation agent chat (case r_resume_parent req of None \<Rightarrow> False | Some b \<Rightarrow> b)
      | (None, chat) \<Rightarrow> Direct chat
      | (Some _, None) \<Rightarrow> Direct None)"

definition create :: "json_lib \<Rightarrow> string \<Rightarrow> string \<Rightarrow> create_task_request \<Rightarrow> ('w, task_response) task_op" where
  "create lib nid user_id req =
     qbind (gets clock) (\<lambda>now.
     qbind (check_schema lib (r_result_schema req)) (\<lambda>_.
     qbind (task_create
       \<lparr>t_id = nid, t_user_id = user_id, t_agent_id = r_agent_id req, t_space_id = r_space_id req,
        t_chat_id = r_chat_id req, t_title = r_title req,
        t_description = (case r_description req of None \<Rightarrow> [] | Some d \<Rightarrow> d),
        t_status = Pending, t_kind = request_kind req, t_run_at = r_run_at req,
        t_result_summary = None, t_error_message = None, t_quarantined = r_quarantined req,
        t_result_schema = r_result_schema req, t_result_description = r_result_description req,
        t_created_at = now, t_updated_at = now\<rparr>) (\<lambda>task.
     qbind (broadcast task ''pending'' None) (\<lambda>_.
     ret (to_response task)))))"

definition create_signal ::
  "json_lib \<Rightarrow> string \<Rightarrow> string \<Rightarrow> string \<Rightarrow> string \<Rightarrow> string \<Rightarrow> string \<Rightarrow> bool \<Rightarrow> signal_mode \<Rightarrow> string list
   \<Rightarrow> string list \<Rightarrow> string list \<Rightarrow> int option \<Rightarrow> nat \<Rightarrow> json option \<Rightarrow> ('w, task) task_op" where
  "create_signal lib nid user_id agent_id source_chat title description resume_parent mode
     expected_categories expected_channels expected_contacts expires max_evals result_schema =
     qbind (check_schema lib result_schema) (\<lambda>_.
     qbind (gets clock) (\<lambda>now.
     task_create
       \<lparr>t_id = nid, t_user_id = user_id, t_agent_id = agent_id, t_space_id = None, t_chat_id = None,
        t_title = title, t_description = description, t_status = Pending,
        t_kind = Signal source_chat resume_parent mode expected_categories expected_channels
          expected_contacts expires max_evals 0,
        t_run_at = None, t_result_summary = None, t_error_message = None, t_quarantined = True,
        t_result_schema = result_schema, t_result_description = None, t_created_at = now,
        t_updated_at = now\<rparr>))"

definition save :: "task \<Rightarrow> ('w, task) task_op" where
  "save task = task_update task"

text \<open>
  What \<open>fire_signal\<close> of \<open>agent/signal/service.rs\<close> does to its copy of a task before it saves it:
  the counter of a signal is a \<open>u32\<close> that saturates.
\<close>

definition bump_evaluation_count :: "task \<Rightarrow> nat \<times> task" where
  "bump_evaluation_count task =
     (case t_kind task of
        Signal c r m cats chans conts e mx n \<Rightarrow>
          (let n' = min (2 ^ 32 - 1) (n + 1) in (n', task\<lparr>t_kind := Signal c r m cats chans conts e mx n'\<rparr>))
      | _ \<Rightarrow> (0, task))"

section \<open>Lists\<close>

definition list_active :: "string \<Rightarrow> ('w, task_response list) task_op" where
  "list_active user_id = qbind (find_active_by_user_id user_id) (\<lambda>ts. ret (map to_response ts))"

definition list_all_tasks :: "string \<Rightarrow> ('w, task_response list) task_op" where
  "list_all_tasks user_id = qbind (find_all_by_user_id user_id) (\<lambda>ts. ret (map to_response ts))"

section \<open>Changing tasks\<close>

definition update :: "string \<Rightarrow> string \<Rightarrow> update_task_request \<Rightarrow> ('w, task_response) task_op" where
  "update user_id task_id req =
     qbind (get_task task_not_found task_id) (\<lambda>task.
     if t_user_id task \<noteq> user_id then fail (Forbidden ''Not your task'') else
     let task = (case u_title req of None \<Rightarrow> task | Some x \<Rightarrow> task\<lparr>t_title := x\<rparr>);
         task = (case u_description req of None \<Rightarrow> task | Some x \<Rightarrow> task\<lparr>t_description := x\<rparr>);
         task = (case u_status req of None \<Rightarrow> task | Some x \<Rightarrow> task\<lparr>t_status := x\<rparr>)
     in qbind (gets clock) (\<lambda>now.
        qbind (task_update (task\<lparr>t_updated_at := now\<rparr>)) (\<lambda>task.
        qbind (broadcast task (status_str (t_status task)) (t_result_summary task)) (\<lambda>_.
        ret (to_response task)))))"

definition delete :: "string \<Rightarrow> string \<Rightarrow> ('w, unit) task_op" where
  "delete user_id task_id =
     qbind (get_task task_not_found task_id) (\<lambda>task.
     if t_user_id task \<noteq> user_id then fail (Forbidden ''Not your task'') else
     qbind (if is_Cron (t_kind task)
            then qbind (or_default [] (find_runs_by_cron task_id)) (\<lambda>runs.
                 for_each runs (\<lambda>run. ignore (task_delete (t_id run))))
            else ret ()) (\<lambda>_.
     qbind (task_delete task_id) (\<lambda>_.
     broadcast task ''cancelled'' None)))"

definition mark_in_progress :: "string \<Rightarrow> string option \<Rightarrow> ('w, task) task_op" where
  "mark_in_progress task_id chat_id =
     qbind (get_task task_not_found task_id) (\<lambda>task.
     let task = task\<lparr>t_status := InProgress\<rparr>;
         task = (case chat_id of None \<Rightarrow> task | Some c \<Rightarrow> task\<lparr>t_chat_id := Some c\<rparr>)
     in qbind (gets clock) (\<lambda>now.
        qbind (task_update (task\<lparr>t_updated_at := now\<rparr>)) (\<lambda>task.
        qbind (broadcast task ''inprogress'' None) (\<lambda>_. ret task))))"

definition mark_completed :: "string \<Rightarrow> string option \<Rightarrow> ('w, task) task_op" where
  "mark_completed task_id summary =
     qbind (get_task task_not_found task_id) (\<lambda>task.
     let task = task\<lparr>t_status := Completed, t_result_summary := summary\<rparr>
     in qbind (gets clock) (\<lambda>now.
        qbind (task_update (task\<lparr>t_updated_at := now\<rparr>)) (\<lambda>task.
        qbind (broadcast task ''completed'' (t_result_summary task)) (\<lambda>_. ret task))))"

definition mark_failed :: "string \<Rightarrow> string \<Rightarrow> ('w, task) task_op" where
  "mark_failed task_id error =
     qbind (get_task task_not_found task_id) (\<lambda>task.
     let task = task\<lparr>t_status := Failed, t_error_message := Some error\<rparr>
     in qbind (gets clock) (\<lambda>now.
        qbind (task_update (task\<lparr>t_updated_at := now\<rparr>)) (\<lambda>task.
        qbind (broadcast task ''failed'' (t_error_message task)) (\<lambda>_. ret task))))"

definition mark_deferred :: "string \<Rightarrow> int \<Rightarrow> string \<Rightarrow> ('w, task) task_op" where
  "mark_deferred task_id run_at reason =
     qbind (get_task task_not_found task_id) (\<lambda>task.
     let task = task\<lparr>t_status := Pending, t_run_at := Some run_at\<rparr>
     in qbind (gets clock) (\<lambda>now.
        qbind (task_update (task\<lparr>t_updated_at := now\<rparr>)) (\<lambda>task.
        qbind (broadcast task ''deferred'' (Some reason)) (\<lambda>_. ret task))))"

definition mark_cancelled :: "string \<Rightarrow> ('w, task) task_op" where
  "mark_cancelled task_id =
     qbind (get_task task_not_found task_id) (\<lambda>task.
     let task = task\<lparr>t_status := Cancelled\<rparr>
     in qbind (gets clock) (\<lambda>now.
        qbind (task_update (task\<lparr>t_updated_at := now\<rparr>)) (\<lambda>task.
        qbind (broadcast task ''cancelled'' None) (\<lambda>_. ret task))))"

definition cancel :: "string \<Rightarrow> string \<Rightarrow> ('w, task) task_op" where
  "cancel user_id task_id =
     qbind (get_task task_not_found task_id) (\<lambda>task.
     if t_user_id task \<noteq> user_id then fail (Forbidden ''Not your task'') else
     if t_status task \<in> {Cancelled, Completed, Failed} then ret task else
     qbind (if is_Cron (t_kind task)
            then qbind (or_default [] (find_active_runs_by_cron task_id)) (\<lambda>active.
                 for_each active (\<lambda>run. ignore (mark_cancelled (t_id run))))
            else ret ()) (\<lambda>_.
     mark_cancelled task_id))"

section \<open>Cron\<close>

definition create_cron_template ::
  "json_lib \<Rightarrow> string \<Rightarrow> string \<Rightarrow> string \<Rightarrow> string \<Rightarrow> string \<Rightarrow> string \<Rightarrow> string \<Rightarrow> int
   \<Rightarrow> string option \<Rightarrow> string option \<Rightarrow> string option \<Rightarrow> int option \<Rightarrow> cron_mode \<Rightarrow> cron_concurrency \<Rightarrow> bool
   \<Rightarrow> json option \<Rightarrow> string option \<Rightarrow> ('w, task) task_op" where
  "create_cron_template lib nid user_id agent_id title description expression timezone next_run_at
     space_id source_agent source_chat run_at mode concurrency process_result result_schema
     result_description =
     qbind (check_schema lib result_schema) (\<lambda>_.
     qbind (gets clock) (\<lambda>now.
     qbind (task_create
       \<lparr>t_id = nid, t_user_id = user_id, t_agent_id = agent_id, t_space_id = space_id,
        t_chat_id = None, t_title = title, t_description = description, t_status = Pending,
        t_kind = Cron expression (Some timezone) (Some next_run_at) source_agent source_chat mode
          concurrency process_result,
        t_run_at = run_at, t_result_summary = None, t_error_message = None, t_quarantined = False,
        t_result_schema = result_schema, t_result_description = result_description,
        t_created_at = now, t_updated_at = now\<rparr>) (\<lambda>task.
     qbind (broadcast task ''pending'' None) (\<lambda>_. ret task))))"

fun set_next_run_at :: "int \<Rightarrow> task_kind \<Rightarrow> task_kind" where
  "set_next_run_at n (Cron e tz old a c m cc p) = Cron e tz (Some n) a c m cc p"
| "set_next_run_at n k = k"

definition advance_cron_template :: "string \<Rightarrow> int \<Rightarrow> ('w, task) task_op" where
  "advance_cron_template task_id next_run_at =
     qbind (get_task (NotFound ''Cron template not found'') task_id) (\<lambda>task.
     qbind (gets clock) (\<lambda>now.
     task_update (task\<lparr>t_kind := set_next_run_at next_run_at (t_kind task), t_updated_at := now\<rparr>)))"

fun cron_sources :: "task_kind \<Rightarrow> (string option \<times> string option) option" where
  "cron_sources (Cron e tz n a c m cc p) = Some (a, c)"
| "cron_sources k = None"

definition spawn_cron_run :: "string \<Rightarrow> task \<Rightarrow> int \<Rightarrow> nat \<Rightarrow> ('w, task) task_op" where
  "spawn_cron_run nid template fire seq =
     (case cron_sources (t_kind template) of
        None \<Rightarrow> fail (Internal ''spawn_cron_run requires a Cron template task'')
      | Some (source_agent, source_chat) \<Rightarrow>
          qbind (gets clock) (\<lambda>now.
          qbind (task_create
            \<lparr>t_id = nid, t_user_id = t_user_id template, t_agent_id = t_agent_id template,
             t_space_id = t_space_id template, t_chat_id = None, t_title = t_title template,
             t_description = t_description template, t_status = Pending,
             t_kind = CronRun (t_id template) source_chat source_agent fire seq,
             t_run_at = None, t_result_summary = None, t_error_message = None, t_quarantined = False,
             t_result_schema = t_result_schema template,
             t_result_description = t_result_description template,
             t_created_at = now, t_updated_at = now\<rparr>) (\<lambda>run.
          qbind (broadcast run ''pending'' None) (\<lambda>_. ret run))))"

lemmas mark_defs = mark_in_progress_def mark_completed_def mark_failed_def mark_deferred_def
  mark_cancelled_def

end
