(* ===== verification/Task_Props.thy ===== *)
theory Task_Props
  imports Task_Service
begin

text \<open>
  What the task service guarantees: who owns a task and what it is never changes, only its owner
  can change, cancel or delete it, cancelling or deleting a cron template takes its runs with
  it, and creation refuses an invalid result schema before anything is written.
\<close>

section \<open>Evaluation without faults\<close>

lemma get_task_no_fault [op_eval]:
  "faults w = [] \<Longrightarrow> get_task e i w =
     (case find_row t_id i (tasks w) of None \<Rightarrow> (Inl e, w) | Some t \<Rightarrow> (Inr t, w))"
  by (simp add: get_task_def repo_find_by_id_def qbind_def db_read_no_fault ok_or_def ret_def
      fail_def split: option.split)

lemma task_update_no_fault [op_eval]:
  "faults w = [] \<Longrightarrow> task_update t w = (Inr t, w\<lparr>tasks := update_row t_id t (tasks w)\<rparr>)"
  by (simp add: repo_update_def qbind_def db_write_no_fault ret_def)

lemma task_delete_no_fault [op_eval]:
  "faults w = [] \<Longrightarrow> task_delete i w = (Inr (), w\<lparr>tasks := delete_row t_id i (tasks w)\<rparr>)"
  by (simp add: repo_delete_def db_write_no_fault)

lemma task_create_no_fault [op_eval]:
  "faults w = [] \<Longrightarrow> task_create t w =
     (case create_row t_id t (tasks w) of
        None \<Rightarrow> (Inl (Database (duplicate_text w (t_id t))), w)
      | Some ts \<Rightarrow> (Inr t, w\<lparr>tasks := ts\<rparr>))"
  by (simp add: repo_create_def db_call_no_fault)

lemma qbind_ok: "fst (m w) = Inr a \<Longrightarrow> qbind m f w = f a (snd (m w))"
  by (cases "m w") (simp add: qbind_def)

lemma mark_cancelled_no_fault:
  assumes "faults w = []" and "find_row t_id i (tasks w) = Some t"
  shows "fst (mark_cancelled i w) = Inr (t\<lparr>t_status := Cancelled, t_updated_at := clock w\<rparr>)"
    and "tasks (snd (mark_cancelled i w))
         = update_row t_id (t\<lparr>t_status := Cancelled, t_updated_at := clock w\<rparr>) (tasks w)"
    and "faults (snd (mark_cancelled i w)) = []" and "clock (snd (mark_cancelled i w)) = clock w"
  using assms
  by (simp_all add: mark_cancelled_def qbind_def get_task_no_fault gets_def task_update_no_fault
      broadcast_def broadcast_task_update_def modify_def ret_def)

lemma mark_cancelled_missing:
  "faults w = [] \<Longrightarrow> find_row t_id i (tasks w) = None \<Longrightarrow> mark_cancelled i w = (Inl task_not_found, w)"
  by (simp add: mark_cancelled_def qbind_def get_task_no_fault)

section \<open>The cascades of cancel and delete\<close>

definition cancel_ids :: "int \<Rightarrow> string set \<Rightarrow> task \<Rightarrow> task" where
  "cancel_ids now ids t = (if t_id t \<in> ids then t\<lparr>t_status := Cancelled, t_updated_at := now\<rparr> else t)"

lemma map_cancel_ids_twice: "map (cancel_ids now B \<circ> cancel_ids now A) ts = map (cancel_ids now (A \<union> B)) ts"
  by (simp add: cancel_ids_def)

lemma t_id_cancel_ids [simp]: "t_id (cancel_ids now ids t) = t_id t"
  by (simp add: cancel_ids_def)

lemma cancel_ids_empty [simp]: "cancel_ids now {} = id"
  by (rule ext) (simp add: cancel_ids_def)

lemma cancel_ids_cancel_ids: "cancel_ids now B (cancel_ids now A t) = cancel_ids now (A \<union> B) t"
  by (simp add: cancel_ids_def)

lemma wf_rows_map: "wf_rows t_id ts \<Longrightarrow> (\<And>t. t_id (f t) = t_id t) \<Longrightarrow> wf_rows t_id (map f ts)"
  by (simp add: wf_rows_def comp_def)

lemma update_row_cancel:
  assumes "wf_rows t_id ts" and "find_row t_id i ts = Some t"
  shows "update_row t_id (t\<lparr>t_status := Cancelled, t_updated_at := now\<rparr>) ts = map (cancel_ids now {i}) ts"
proof -
  from assms(2) have t: "t \<in> set ts" "t_id t = i" by (auto dest: find_row_Some)
  then have "x = t" if "x \<in> set ts" "t_id x = i" for x
    using that find_row_mem [OF assms(1)] assms(2) by fastforce
  with t(2) show ?thesis by (auto simp: update_row_def cancel_ids_def)
qed

lemma mark_cancelled_tasks:
  assumes "faults w = []" and "wf_rows t_id (tasks w)"
  shows "tasks (snd (mark_cancelled i w)) = map (cancel_ids (clock w) {i}) (tasks w)"
    and "faults (snd (mark_cancelled i w)) = []" and "clock (snd (mark_cancelled i w)) = clock w"
proof -
  have "cancel_ids (clock w) {i} t = t" if "find_row t_id i (tasks w) = None" "t \<in> set (tasks w)" for t
    using that by (auto simp: cancel_ids_def find_row_None)
  then have none: "map (cancel_ids (clock w) {i}) (tasks w) = tasks w" if "find_row t_id i (tasks w) = None"
    using that by (simp add: map_idI)
  show "tasks (snd (mark_cancelled i w)) = map (cancel_ids (clock w) {i}) (tasks w)"
    using assms none
    by (cases "find_row t_id i (tasks w)")
      (simp_all add: mark_cancelled_missing mark_cancelled_no_fault update_row_cancel)
  show "faults (snd (mark_cancelled i w)) = []" and "clock (snd (mark_cancelled i w)) = clock w"
    using assms(1)
    by (cases "find_row t_id i (tasks w)"; simp add: mark_cancelled_missing mark_cancelled_no_fault)+
qed

lemma for_each_mark_cancelled:
  assumes "faults w = []" and "wf_rows t_id (tasks w)"
  shows "\<exists>w'. for_each runs (\<lambda>run. ignore (mark_cancelled (t_id run))) w = (Inr (), w')
    \<and> tasks w' = map (cancel_ids (clock w) (t_id ` set runs)) (tasks w) \<and> faults w' = [] \<and> clock w' = clock w"
  using assms
proof (induction runs arbitrary: w)
  case Nil
  then show ?case by (simp add: ret_def)
next
  case (Cons r rs)
  let ?w1 = "snd (mark_cancelled (t_id r) w)"
  note m = mark_cancelled_tasks [OF Cons.prems, of "t_id r"]
  have wf: "wf_rows t_id (tasks ?w1)" using Cons.prems(2) by (simp add: m wf_rows_map)
  from Cons.IH [OF m(2) wf] obtain w' where
    "for_each rs (\<lambda>run. ignore (mark_cancelled (t_id run))) ?w1 = (Inr (), w')"
    "tasks w' = map (cancel_ids (clock w) (t_id ` set rs)) (tasks ?w1)" "faults w' = []" "clock w' = clock w"
    unfolding m(3) by blast
  then show ?case by (simp add: m(1) map_cancel_ids_twice)
qed

lemma for_each_task_delete:
  assumes "faults w = []"
  shows "\<exists>w'. for_each runs (\<lambda>run. ignore (task_delete (t_id run))) w = (Inr (), w')
    \<and> tasks w' = filter (\<lambda>t. t_id t \<notin> t_id ` set runs) (tasks w) \<and> faults w' = []"
  using assms
proof (induction runs arbitrary: w)
  case Nil
  then show ?case by (simp add: ret_def)
next
  case (Cons r rs)
  let ?w1 = "w\<lparr>tasks := delete_row t_id (t_id r) (tasks w)\<rparr>"
  have "faults ?w1 = []" using Cons.prems by simp
  from Cons.IH [OF this] Cons.prems show ?case
    by (simp add: task_delete_no_fault delete_row_def conj_commute)
qed

lemma ids_of_filter:
  "wf_rows t_id ts \<Longrightarrow> t \<in> set ts \<Longrightarrow> t_id t \<in> t_id ` set (filter P ts) \<longleftrightarrow> P t"
  by (auto simp: wf_rows_def distinct_map dest: inj_onD)

lemma cancel_tasks:
  assumes "faults w = []" and "wf_rows t_id (tasks w)" and "find_row t_id i (tasks w) = Some t"
    and "t_user_id t = user" and "is_active t" and "is_Cron (t_kind t)"
  shows "tasks (snd (cancel user i w))
    = map (\<lambda>x. if t_id x = i \<or> (run_of i x \<and> is_active x)
               then x\<lparr>t_status := Cancelled, t_updated_at := clock w\<rparr> else x) (tasks w)"
    and "fst (cancel user i w) = Inr (t\<lparr>t_status := Cancelled, t_updated_at := clock w\<rparr>)"
proof -
  let ?runs = "sort_key (\<lambda>t. sequence_num (t_kind t)) (filter (\<lambda>t. run_of i t \<and> is_active t) (tasks w))"
  obtain w1 where w1: "for_each ?runs (\<lambda>run. ignore (mark_cancelled (t_id run))) w = (Inr (), w1)"
    "tasks w1 = map (cancel_ids (clock w) (t_id ` set ?runs)) (tasks w)" "faults w1 = []" "clock w1 = clock w"
    using for_each_mark_cancelled [OF assms(1,2)] by blast
  have "t_status t \<notin> {Cancelled, Completed, Failed}" using assms(5) by (auto simp: is_active_def)
  then have run: "cancel user i w = mark_cancelled i w1"
    using assms w1(1)
    by (simp add: cancel_def qbind_def get_task_no_fault find_active_runs_by_cron_def db_read_no_fault
        or_default_def)
  have wf1: "wf_rows t_id (tasks w1)" using assms(2) by (simp add: w1 wf_rows_map)
  have "tasks (snd (cancel user i w)) = map (cancel_ids (clock w) {i}) (tasks w1)"
    using mark_cancelled_tasks(1) [OF w1(3) wf1, of i] by (simp add: run w1(4))
  also have "\<dots> = map (cancel_ids (clock w) (t_id ` set ?runs \<union> {i})) (tasks w)"
    by (simp add: w1(2) cancel_ids_cancel_ids)
  also have "\<dots> = map (\<lambda>x. if t_id x = i \<or> (run_of i x \<and> is_active x)
               then x\<lparr>t_status := Cancelled, t_updated_at := clock w\<rparr> else x) (tasks w)"
    using ids_of_filter [OF assms(2), where P = "\<lambda>t. run_of i t \<and> is_active t"]
    by (auto simp: cancel_ids_def)
  finally show "tasks (snd (cancel user i w))
    = map (\<lambda>x. if t_id x = i \<or> (run_of i x \<and> is_active x)
               then x\<lparr>t_status := Cancelled, t_updated_at := clock w\<rparr> else x) (tasks w)" .
  have t: "t \<in> set (tasks w)" "t_id t = i" using assms(3) by (auto dest: find_row_Some)
  have "\<not> run_of i t" using assms(6) by (cases "t_kind t") (auto simp: run_of_def)
  then have "cancel_ids (clock w) (t_id ` set ?runs) t = t"
    using ids_of_filter [OF assms(2) t(1)] by (simp add: cancel_ids_def)
  with t w1(2) have "t \<in> set (tasks w1)" by force
  then have "find_row t_id i (tasks w1) = Some t" using find_row_mem [OF wf1] t(2) by metis
  then show "fst (cancel user i w) = Inr (t\<lparr>t_status := Cancelled, t_updated_at := clock w\<rparr>)"
    using mark_cancelled_no_fault(1) [OF w1(3)] by (simp add: run w1(4))
qed

lemma delete_tasks:
  assumes "faults w = []" and "wf_rows t_id (tasks w)" and "find_row t_id i (tasks w) = Some t"
    and "t_user_id t = user" and "is_Cron (t_kind t)"
  shows "fst (delete user i w) = Inr ()"
    and "tasks (snd (delete user i w)) = filter (\<lambda>x. t_id x \<noteq> i \<and> \<not> run_of i x) (tasks w)"
proof -
  let ?runs = "sort_key (\<lambda>t. - int (sequence_num (t_kind t))) (filter (run_of i) (tasks w))"
  obtain w1 where w1: "for_each ?runs (\<lambda>run. ignore (task_delete (t_id run))) w = (Inr (), w1)"
    "tasks w1 = filter (\<lambda>t. t_id t \<notin> t_id ` set ?runs) (tasks w)" "faults w1 = []"
    using for_each_task_delete [OF assms(1)] by blast
  have run: "delete user i w = qbind (task_delete i) (\<lambda>_. broadcast t ''cancelled'' None) w1"
    using assms w1(1)
    by (simp add: delete_def qbind_def get_task_no_fault find_runs_by_cron_def db_read_no_fault
        or_default_def)
  then show "fst (delete user i w) = Inr ()"
    using w1(3) by (simp add: qbind_def task_delete_no_fault broadcast_def broadcast_task_update_def modify_def)
  from run have "tasks (snd (delete user i w)) = delete_row t_id i (tasks w1)"
    using w1(3) by (simp add: qbind_def task_delete_no_fault broadcast_def broadcast_task_update_def modify_def)
  then show "tasks (snd (delete user i w)) = filter (\<lambda>x. t_id x \<noteq> i \<and> \<not> run_of i x) (tasks w)"
    using ids_of_filter [OF assms(2), where P = "run_of i"]
    by (auto simp: w1(2) delete_row_def conj_commute intro!: filter_cong)
qed

section \<open>What never changes about a task\<close>

text \<open>
  The kind of a task without the two counters the service may advance, and the fields that
  say whose task it is and what it was created for.
\<close>

fun kind_core :: "task_kind \<Rightarrow> task_kind" where
  "kind_core (Cron e tz n a c m cc p) = Cron e tz None a c m cc p"
| "kind_core (Signal c r m cats chans conts e mx n) = Signal c r m cats chans conts e mx 0"
| "kind_core k = k"

definition same_identity :: "task \<Rightarrow> task \<Rightarrow> bool" where
  "same_identity a b \<longleftrightarrow> t_user_id a = t_user_id b \<and> t_agent_id a = t_agent_id b
     \<and> kind_core (t_kind a) = kind_core (t_kind b) \<and> t_quarantined a = t_quarantined b
     \<and> t_result_schema a = t_result_schema b \<and> t_created_at a = t_created_at b"

text \<open>\<open>t\<close> is a later version of the record of \<open>B\<close> with its id, if there is one.\<close>

definition version_of :: "task set \<Rightarrow> task \<Rightarrow> bool" where
  "version_of B t \<longleftrightarrow> (\<forall>b \<in> B. t_id b = t_id t \<longrightarrow> same_identity b t)"

definition stable :: "task set \<Rightarrow> 'w task_world_scheme \<Rightarrow> bool" where
  "stable B w \<longleftrightarrow> wf_rows t_id (tasks w) \<and> (\<forall>t \<in> set (tasks w). version_of B t)"

lemma version_of_change:
  "version_of B t \<Longrightarrow> t_id t' = t_id t \<Longrightarrow> same_identity t t' \<Longrightarrow> version_of B t'"
  by (auto simp: version_of_def same_identity_def)

lemma version_of_fresh: "t_id t \<notin> t_id ` B \<Longrightarrow> version_of B t"
  unfolding version_of_def by (metis image_eqI)

lemma version_of_fields [simp]:
  "version_of B (t\<lparr>t_status := st\<rparr>) = version_of B t"
  "version_of B (t\<lparr>t_chat_id := ch\<rparr>) = version_of B t"
  "version_of B (t\<lparr>t_run_at := ra\<rparr>) = version_of B t"
  "version_of B (t\<lparr>t_title := ti\<rparr>) = version_of B t"
  "version_of B (t\<lparr>t_description := de\<rparr>) = version_of B t"
  "version_of B (t\<lparr>t_result_summary := su\<rparr>) = version_of B t"
  "version_of B (t\<lparr>t_error_message := em\<rparr>) = version_of B t"
  "version_of B (t\<lparr>t_updated_at := ua\<rparr>) = version_of B t"
  by (simp_all add: version_of_def same_identity_def)

lemma version_of_kind: "kind_core k = kind_core (t_kind t) \<Longrightarrow> version_of B (t\<lparr>t_kind := k\<rparr>) = version_of B t"
  by (simp add: version_of_def same_identity_def)

lemma kind_core_set_next_run_at [simp]: "kind_core (set_next_run_at n k) = kind_core k"
  by (cases k) auto

lemma stable_faults: "stable B w \<Longrightarrow> stable B (w\<lparr>faults := fs\<rparr>)"
  by (simp add: stable_def)

lemma keeps_stable_read [keep_rules]: "keeps (stable B) (db_read f)"
  by (rule keeps_db_read) (rule stable_faults)

lemma keeps_stable_broadcast [keep_rules]: "keeps (stable B) (broadcast t st su)"
  unfolding broadcast_def broadcast_task_update_def
  by (rule keeps_modify) (simp add: stable_def)

lemma tasks_update_apply: "tasks_update f w = w\<lparr>tasks := f (tasks w)\<rparr>"
  by (cases w) simp

lemma keeps_stable_update:
  assumes "version_of B t"
  shows "keeps (stable B) (task_update t)"
proof -
  have "stable B (tasks_update (update_row t_id t) w)" if "stable B w" for w :: "'a task_world_scheme"
    by (subst tasks_update_apply)
      (use that assms in \<open>auto simp: stable_def rows.wf_update dest: set_update_row\<close>)
  then have "keeps (stable B) (db_write (tasks_update (update_row t_id t)) :: ('a, unit) task_op)"
    by (intro keeps_db_write) (simp_all add: stable_faults)
  then show ?thesis unfolding repo_update_def by (intro keep_rules)
qed

lemma keeps_stable_delete [keep_rules]: "keeps (stable B) (task_delete i)"
  unfolding repo_delete_def
  by (rule keeps_db_write)
    (auto simp: stable_def rows.wf_delete delete_row_def wf_rows_filter)

lemma keeps_stable_create:
  assumes "version_of B t"
  shows "keeps (stable B) (task_create t)"
  unfolding repo_create_def
proof (rule keeps_db_call)
  fix w :: "'a task_world_scheme" assume "stable B w"
  then show "stable B (snd (case create_row t_id t (tasks w) of
      None \<Rightarrow> (Inl (Database (duplicate_text w (t_id t))), w)
    | Some ts \<Rightarrow> (Inr t, w\<lparr>tasks := ts\<rparr>)))"
    using assms
    by (auto simp: stable_def create_row_def wf_rows_def find_row_None split: option.split)
qed (rule stable_faults)

lemma keeps_stable_get_task:
  assumes "\<And>t. version_of B t \<Longrightarrow> keeps (stable B) (f t)"
  shows "keeps (stable B) (qbind (get_task e i) f :: ('w, 'a) task_op)"
proof (rule valid_qbind [where R = "\<lambda>r w. stable B w \<and> (\<forall>t. r = Inr t \<longrightarrow> version_of B t)"])
  show "valid (stable B) (get_task e i :: ('w, task) task_op)
      (\<lambda>r w. stable B w \<and> (\<forall>t. r = Inr t \<longrightarrow> version_of B t))"
  proof (rule validI)
    fix w w' :: "'w task_world_scheme" and r
    assume st: "stable B w" and run: "get_task e i w = (r, w')"
    from run consider (db) e' where "task_find i w = (Inl e', w')" and "r = Inl e'"
      | (found) mt w1 where "task_find i w = (Inr mt, w1)" and "ok_or e mt w1 = (r, w')"
      unfolding get_task_def by (cases rule: qbind_cases)
    then show "stable B w' \<and> (\<forall>t. r = Inr t \<longrightarrow> version_of B t)"
    proof cases
      case db
      with st show ?thesis by (auto simp: repo_find_by_id_def stable_faults dest!: db_read_Inl)
    next
      case found
      then have "w1 = w\<lparr>faults := tl (faults w)\<rparr>" "mt = find_row t_id i (tasks w)"
        by (auto simp: repo_find_by_id_def dest!: db_read_Inr)
      with found st show ?thesis
        by (auto simp: ok_or_def ret_def fail_def stable_def split: option.splits dest: find_row_Some)
    qed
  qed
  show "valid (\<lambda>w. stable B w \<and> (\<forall>t'. Inr t = Inr t' \<longrightarrow> version_of B t')) (f t) (\<lambda>_. stable B)" for t
    using assms [of t] by (auto simp: valid_def)
qed auto

lemmas stable_rules = keep_rules keeps_stable_get_task keeps_stable_update

lemma keeps_stable_mark:
  "keeps (stable B) (mark_in_progress i c)" "keeps (stable B) (mark_completed i s)"
  "keeps (stable B) (mark_failed i e)" "keeps (stable B) (mark_deferred i r x)"
  "keeps (stable B) (mark_cancelled i)"
  unfolding mark_defs Let_def
  by (auto intro!: stable_rules split: option.split)

lemma keeps_stable_advance: "keeps (stable B) (advance_cron_template i n)"
  unfolding advance_cron_template_def
  by (auto intro!: stable_rules simp: version_of_kind)

lemma keeps_stable_update_op: "keeps (stable B) (update user i req)"
  unfolding update_def Let_def
  by (auto intro!: stable_rules split: option.split)

lemma keeps_stable_cancel: "keeps (stable B) (cancel user i)"
  unfolding cancel_def find_active_runs_by_cron_def
  by (auto intro!: stable_rules keeps_stable_mark)

lemma keeps_stable_delete_op: "keeps (stable B) (delete user i)"
  unfolding delete_def find_runs_by_cron_def
  by (auto intro!: stable_rules)

lemma keeps_stable_check_schema: "keeps (stable B) (check_schema lib sc)"
  by (auto simp: check_schema_def intro: keep_rules split: option.split sum.split)

lemma keeps_stable_creates:
  assumes "nid \<notin> t_id ` B"
  shows "keeps (stable B) (create lib nid user req)"
    and "keeps (stable B) (create_signal lib nid user ag sc ti de rp mo cats chans conts ex mx sch)"
    and "keeps (stable B) (create_cron_template lib nid user ag ti de expr tz nr sp sa sk ra cm cc pr osch rd)"
    and "keeps (stable B) (spawn_cron_run nid template fire seq)"
  unfolding create_def create_signal_def create_cron_template_def spawn_cron_run_def
  using assms
  by (auto intro!: keep_rules keeps_stable_create version_of_fresh keeps_stable_check_schema
      split: option.split prod.split)

section \<open>Runs of the service\<close>

text \<open>
  One call of the service from a given set \<open>B\<close> of records, with a fresh id where a record is
  created. A state is the world together with the copies of tasks that callers hold: a caller
  may read a task at any time and keep the copy while the row changes. \<open>save\<close> writes the copy
  it is given over the row; its two callers, \<open>fire_signal\<close> of \<open>agent/signal/service.rs\<close> and
  \<open>run_with_injected_message\<close> of \<open>agent/task/executor.rs\<close>, hand it a copy they hold, perhaps an
  old one, with the evaluation counter advanced or with the chat they created for it. The clock
  may advance and calls to the database may fail at any time.
\<close>

inductive task_step :: "task set \<Rightarrow> task set \<times> task_world \<Rightarrow> task set \<times> task_world \<Rightarrow> bool" for B where
  step_create: "nid \<notin> t_id ` B \<Longrightarrow> task_step B (h, w) (h, snd (create lib nid user req w))"
| step_create_signal: "nid \<notin> t_id ` B \<Longrightarrow>
    task_step B (h, w) (h, snd (create_signal lib nid user ag sc ti de rp mo cats chans conts ex mx sch w))"
| step_create_cron: "nid \<notin> t_id ` B \<Longrightarrow>
    task_step B (h, w) (h, snd (create_cron_template lib nid user ag ti de expr tz nr sp sa sk ra cm cc pr osch rd w))"
| step_spawn: "nid \<notin> t_id ` B \<Longrightarrow> task_step B (h, w) (h, snd (spawn_cron_run nid template fire seq w))"
| step_read: "t \<in> set (tasks w) \<Longrightarrow> task_step B (h, w) (insert t h, w)"
| step_save_count: "t \<in> h \<Longrightarrow> t' = snd (bump_evaluation_count t) \<Longrightarrow>
    task_step B (h, w) (insert t' h, snd (save t' w))"
| step_save_chat: "t \<in> h \<Longrightarrow> t_chat_id t = None \<Longrightarrow> t' = t\<lparr>t_chat_id := Some c\<rparr> \<Longrightarrow>
    task_step B (h, w) (insert t' h, snd (save t' w))"
| step_update: "task_step B (h, w) (h, snd (update user i ureq w))"
| step_delete: "task_step B (h, w) (h, snd (delete user i w))"
| step_in_progress: "task_step B (h, w) (h, snd (mark_in_progress i chat w))"
| step_completed: "task_step B (h, w) (h, snd (mark_completed i summary w))"
| step_failed: "task_step B (h, w) (h, snd (mark_failed i err w))"
| step_deferred: "task_step B (h, w) (h, snd (mark_deferred i at reason w))"
| step_cancelled: "task_step B (h, w) (h, snd (mark_cancelled i w))"
| step_cancel: "task_step B (h, w) (h, snd (cancel user i w))"
| step_advance: "task_step B (h, w) (h, snd (advance_cron_template i at w))"
| step_environment: "task_step B (h, w) (h, w\<lparr>clock := c, faults := fs\<rparr>)"

inductive task_run :: "task set \<Rightarrow> task set \<times> task_world \<Rightarrow> task set \<times> task_world \<Rightarrow> bool" for B where
  run_refl: "task_run B s s"
| run_step: "task_run B s s' \<Longrightarrow> task_step B s' s'' \<Longrightarrow> task_run B s s''"

definition stable_held :: "task set \<Rightarrow> task set \<times> task_world \<Rightarrow> bool" where
  "stable_held B s \<longleftrightarrow> stable B (snd s) \<and> (\<forall>t \<in> fst s. version_of B t)"

lemma version_of_bump [simp]: "version_of B (snd (bump_evaluation_count t)) = version_of B t"
  by (simp add: bump_evaluation_count_def version_of_kind split: task_kind.split)

lemma stable_save:
  assumes "version_of B t" and "stable B w"
  shows "stable B (snd (save t w))"
  using valid_snd [OF keeps_stable_update [OF assms(1)] assms(2)] by (simp add: save_def)

lemma task_step_stable: "task_step B s s' \<Longrightarrow> stable_held B s \<Longrightarrow> stable_held B s'"
proof (induction rule: task_step.induct)
  case (step_read t w h)
  then show ?case by (simp add: stable_held_def stable_def)
next
  case (step_save_count t h t' w)
  then have "version_of B t'" by (simp add: stable_held_def)
  with step_save_count.prems show ?case by (simp add: stable_held_def stable_save)
next
  case (step_save_chat t h t' c w)
  then have "version_of B t'" by (simp add: stable_held_def)
  with step_save_chat.prems show ?case by (simp add: stable_held_def stable_save)
next
  case (step_environment h w c fs)
  then show ?case by (simp add: stable_held_def stable_def)
qed (auto simp: stable_held_def intro: valid_snd keeps_stable_creates keeps_stable_mark keeps_stable_advance
    keeps_stable_update_op keeps_stable_cancel keeps_stable_delete_op)

lemma task_run_stable: "task_run B s s' \<Longrightarrow> stable_held B s \<Longrightarrow> stable_held B s'"
  by (induction rule: task_run.induct) (auto intro: task_step_stable)

text \<open>
  C29. Whatever sequence of calls of the service runs, the saves of outdated copies by the
  executor and the signal service included, with database calls failing at any point: a task
  that is still in the table belongs to the same user and agent as before, has the same kind
  (up to the next run of a template and the evaluation counter of a signal), the same result
  schema and creation time, and a quarantined task is still quarantined. (A run starts with no
  copy held; new tasks get ids no earlier task has.)
\<close>

theorem task_identity_never_changes:
  assumes "wf_rows t_id (tasks w)" and "task_run (set (tasks w)) ({}, w) (h, w')"
    and "t \<in> set (tasks w)" and "t' \<in> set (tasks w')" and "t_id t' = t_id t"
  shows "t_user_id t' = t_user_id t \<and> t_agent_id t' = t_agent_id t
    \<and> kind_core (t_kind t') = kind_core (t_kind t) \<and> t_quarantined t' = t_quarantined t
    \<and> t_result_schema t' = t_result_schema t \<and> t_created_at t' = t_created_at t
    \<and> wf_rows t_id (tasks w')"
proof -
  have "version_of (set (tasks w)) x" if "x \<in> set (tasks w)" for x
    using that assms(1)
    by (auto simp: version_of_def same_identity_def wf_rows_def distinct_map dest: inj_onD)
  then have "stable_held (set (tasks w)) ({}, w)" using assms(1) by (simp add: stable_held_def stable_def)
  from task_run_stable [OF assms(2) this] have "stable (set (tasks w)) w'" by (simp add: stable_held_def)
  with assms(3-5) show ?thesis by (auto simp: stable_def version_of_def same_identity_def)
qed

text \<open>
  The executor holds a copy, the task is completed, and the copy is saved with a chat: the row
  is pending again, but it is still the same task.
\<close>

theorem task_identity_never_changes_witness:
  "let t = (bare_task ''i'' ''u'' Pending (Direct None))\<lparr>t_quarantined := True\<rparr>;
       w1 = snd (mark_completed ''i'' (Some ''done'') (small_world [t]));
       w2 = snd (save (t\<lparr>t_chat_id := Some ''c''\<rparr>) w1)
   in tasks w1 = [t\<lparr>t_status := Completed, t_result_summary := Some ''done'', t_updated_at := 9\<rparr>]
      \<and> tasks w2 = [t\<lparr>t_chat_id := Some ''c''\<rparr>]
      \<and> t_user_id (hd (tasks w2)) = ''u'' \<and> t_quarantined (hd (tasks w2))"
proof -
  let ?t = "(bare_task ''i'' ''u'' Pending (Direct None))\<lparr>t_quarantined := True\<rparr>"
  let ?t' = "?t\<lparr>t_chat_id := Some ''c''\<rparr>"
  let ?w = "small_world [?t]"
  let ?w1 = "snd (mark_completed ''i'' (Some ''done'') ?w)"
  let ?w2 = "snd (save ?t' ?w1)"
  have t1: "tasks ?w1 = [?t\<lparr>t_status := Completed, t_result_summary := Some ''done'', t_updated_at := 9\<rparr>]"
    and f1: "faults ?w1 = []"
    by (simp_all add: mark_completed_def op_eval qbind_def gets_def ret_def broadcast_def
        broadcast_task_update_def modify_def find_row_def update_row_def bare_task_def)
  then have t2: "tasks ?w2 = [?t']"
    by (simp add: save_def repo_update_def db_write_no_fault qbind_def ret_def update_row_def bare_task_def)
  let ?B = "set (tasks ?w)"
  have "task_run ?B ({}, ?w) ({?t}, ?w)" by (rule run_step [OF run_refl step_read]) simp
  then have "task_run ?B ({}, ?w) ({?t}, ?w1)" by (rule run_step [OF _ step_completed])
  then have "task_run ?B ({}, ?w) (insert ?t' {?t}, ?w2)"
    by (rule run_step [OF _ step_save_chat [OF _ _ refl]]) (simp_all add: bare_task_def task.defs)
  from task_identity_never_changes [OF _ this, of ?t ?t'] t2
  have "t_user_id ?t' = t_user_id ?t \<and> t_quarantined ?t' = t_quarantined ?t"
    by (simp add: wf_rows_def bare_task_def)
  with t1 t2 show ?thesis unfolding Let_def by (simp add: bare_task_def)
qed

section \<open>Only the owner\<close>

definition refused :: "(app_error + 'a) \<times> task_world \<Rightarrow> task_world \<Rightarrow> bool" where
  "refused out w \<longleftrightarrow>
     (fst out = Inl (Forbidden ''Not your task'') \<or> (\<exists>msg. fst out = Inl (Database msg)))
     \<and> tasks (snd out) = tasks w \<and> task_events (snd out) = task_events w"

lemma refused_guard:
  assumes "find_row t_id i (tasks w) = Some t" and "t_user_id t \<noteq> user"
  shows "refused (qbind (get_task task_not_found i)
    (\<lambda>task. if t_user_id task \<noteq> user then fail (Forbidden ''Not your task'') else f task) w) w"
    (is "refused (qbind ?g ?k w) w")
proof (cases "qbind ?g ?k w")
  case (Pair r w')
  then show ?thesis
  proof (cases rule: qbind_cases)
    case (error e)
    then have "(\<exists>msg. e = Database msg) \<and> w' = w\<lparr>faults := tl (faults w)\<rparr>" using assms(1)
      by (auto simp: get_task_def repo_find_by_id_def ok_or_def fail_def ret_def elim!: qbind_cases
          dest!: db_read_Inl db_read_Inr split: option.splits)
    with error Pair show ?thesis by (auto simp: refused_def)
  next
    case (okay t0 w1)
    then have "t0 = t" "w1 = w\<lparr>faults := tl (faults w)\<rparr>" using assms(1)
      by (auto simp: get_task_def repo_find_by_id_def ok_or_def fail_def ret_def elim!: qbind_cases
          dest!: db_read_Inr split: option.splits)
    with okay assms(2) Pair show ?thesis by (auto simp: fail_def refused_def)
  qed
qed

text \<open>
  C22. A user who does not own a task can neither change, cancel nor delete it: each of the three
  calls returns the refusal (or the error of the failed lookup), and neither the task table nor
  the list of broadcast events changes, also when database calls fail.
\<close>

theorem only_the_owner_changes_a_task:
  assumes "find_row t_id i (tasks w) = Some t" and "t_user_id t \<noteq> user"
  shows "refused (update user i req w) w \<and> refused (cancel user i w) w \<and> refused (delete user i w) w"
  unfolding update_def cancel_def delete_def by (intro conjI refused_guard [OF assms])

theorem only_the_owner_changes_a_task_witness:
  "let w = small_world [bare_task ''i'' ''u'' Pending (Direct None)]
   in \<forall>req. refused (update ''x'' ''i'' req w) w \<and> refused (cancel ''x'' ''i'' w) w \<and> refused (delete ''x'' ''i'' w) w"
  unfolding Let_def
  by (intro allI only_the_owner_changes_a_task [where t = "bare_task ''i'' ''u'' Pending (Direct None)"])
    (simp_all add: find_row_def bare_task_def)

section \<open>Cancelling and deleting\<close>

text \<open>
  Cancelling an active cron template cancels exactly the template and its active runs, with
  the current time, returns the cancelled template and leaves every other task as it was.
\<close>

theorem cancel_takes_the_active_runs:
  assumes "faults w = []" and "wf_rows t_id (tasks w)" and "find_row t_id i (tasks w) = Some t"
    and "t_user_id t = user" and "is_active t" and "is_Cron (t_kind t)"
  shows "tasks (snd (cancel user i w))
      = map (\<lambda>x. if t_id x = i \<or> (run_of i x \<and> is_active x)
                 then x\<lparr>t_status := Cancelled, t_updated_at := clock w\<rparr> else x) (tasks w)
    \<and> fst (cancel user i w) = Inr (t\<lparr>t_status := Cancelled, t_updated_at := clock w\<rparr>)"
  using cancel_tasks [OF assms] by simp

definition cron_demo :: task_world where
  "cron_demo = small_world
     [bare_task ''c'' ''u'' Pending (Cron ''e'' None None None None Singleton Allow False),
      bare_task ''r'' ''u'' Pending (CronRun ''c'' None None 1 1),
      bare_task ''s'' ''u'' Completed (CronRun ''c'' None None 2 2),
      bare_task ''o'' ''u'' Pending (CronRun ''x'' None None 2 2)]"

lemma cron_demo_facts:
  "faults cron_demo = []" "wf_rows t_id (tasks cron_demo)" "clock cron_demo = 9"
  "find_row t_id ''c'' (tasks cron_demo)
     = Some (bare_task ''c'' ''u'' Pending (Cron ''e'' None None None None Singleton Allow False))"
  by (simp_all add: cron_demo_def wf_rows_def find_row_def bare_task_def)

theorem cancel_takes_the_active_runs_witness:
  "map t_status (tasks (snd (cancel ''u'' ''c'' cron_demo))) = [Cancelled, Cancelled, Completed, Pending]"
proof -
  have "tasks (snd (cancel ''u'' ''c'' cron_demo))
      = map (\<lambda>x. if t_id x = ''c'' \<or> (run_of ''c'' x \<and> is_active x)
                 then x\<lparr>t_status := Cancelled, t_updated_at := clock cron_demo\<rparr> else x) (tasks cron_demo)"
    by (rule cancel_takes_the_active_runs [OF cron_demo_facts(1,2,4), THEN conjunct1])
      (simp_all add: bare_task_def is_active_def)
  then show ?thesis by (simp add: cron_demo_def bare_task_def run_of_def is_active_def)
qed

text \<open>
  Deleting a cron template removes exactly the template and every run it ever spawned, in
  any state.
\<close>

theorem delete_takes_all_runs:
  assumes "faults w = []" and "wf_rows t_id (tasks w)" and "find_row t_id i (tasks w) = Some t"
    and "t_user_id t = user" and "is_Cron (t_kind t)"
  shows "fst (delete user i w) = Inr ()
    \<and> tasks (snd (delete user i w)) = filter (\<lambda>x. t_id x \<noteq> i \<and> \<not> run_of i x) (tasks w)"
  using delete_tasks [OF assms] by simp

theorem delete_takes_all_runs_witness:
  "map t_id (tasks (snd (delete ''u'' ''c'' cron_demo))) = [''o'']"
proof -
  have "tasks (snd (delete ''u'' ''c'' cron_demo)) = filter (\<lambda>x. t_id x \<noteq> ''c'' \<and> \<not> run_of ''c'' x) (tasks cron_demo)"
    by (rule delete_takes_all_runs [OF cron_demo_facts(1,2,4), THEN conjunct2]) (simp_all add: bare_task_def)
  then show ?thesis by (simp add: cron_demo_def bare_task_def run_of_def)
qed

section \<open>Creating\<close>

lemma check_schema_eval:
  "check_schema lib sc w = (case sc of None \<Rightarrow> (Inr (), w)
     | Some s \<Rightarrow> (case validate_schema_doc lib s of Inl e \<Rightarrow> (Inl (Validation e), w) | Inr _ \<Rightarrow> (Inr (), w)))"
  by (simp add: check_schema_def op_defs split: option.split sum.split)

text \<open>
  A request with a result schema that does not compile (or is too large) is refused and
  leaves no trace. Any other request with a fresh id stores exactly one new pending task of the
  caller, at the end of the table, broadcasts one pending event for it and returns its view.
\<close>

theorem create_stores_one_pending_task:
  assumes "faults w = []" and "find_row t_id nid (tasks w) = None"
  shows "(\<exists>sc e. r_result_schema req = Some sc \<and> validate_schema_doc lib sc = Inl e
        \<and> create lib nid user req w = (Inl (Validation e), w))
    \<or> (\<exists>t. fst (create lib nid user req w) = Inr (to_response t)
        \<and> tasks (snd (create lib nid user req w)) = tasks w @ [t]
        \<and> t_id t = nid \<and> t_user_id t = user \<and> t_status t = Pending \<and> t_kind t = request_kind req
        \<and> t_created_at t = clock w \<and> t_quarantined t = r_quarantined req
        \<and> (\<exists>ev. task_events (snd (create lib nid user req w)) = task_events w @ [ev]
             \<and> ev_user_id ev = user \<and> ev_task_id ev = nid \<and> ev_status ev = ''pending''))"
proof (cases "fst (check_schema lib (r_result_schema req) w)")
  case (Inl e)
  then show ?thesis
    by (auto simp: create_def check_schema_eval qbind_def gets_def split: option.splits sum.splits)
next
  case (Inr u)
  then have "check_schema lib (r_result_schema req) w = (Inr (), w)"
    by (auto simp: check_schema_eval split: option.splits sum.splits)
  then have run: "create lib nid user req w = qbind (task_create
       \<lparr>t_id = nid, t_user_id = user, t_agent_id = r_agent_id req, t_space_id = r_space_id req,
        t_chat_id = r_chat_id req, t_title = r_title req,
        t_description = (case r_description req of None \<Rightarrow> [] | Some d \<Rightarrow> d),
        t_status = Pending, t_kind = request_kind req, t_run_at = r_run_at req,
        t_result_summary = None, t_error_message = None, t_quarantined = r_quarantined req,
        t_result_schema = r_result_schema req, t_result_description = r_result_description req,
        t_created_at = clock w, t_updated_at = clock w\<rparr>) (\<lambda>task.
     qbind (broadcast task ''pending'' None) (\<lambda>_. ret (to_response task))) w"
    by (simp add: create_def qbind_Inr)
  show ?thesis
    unfolding run using assms
    by (simp add: qbind_def task_create_no_fault create_row_def broadcast_def broadcast_task_update_def
        modify_def ret_def)
qed

definition demo_request :: create_task_request where
  "demo_request = \<lparr>r_agent_id = ''a'', r_space_id = None, r_chat_id = None, r_title = ''t'',
     r_description = None, r_source_agent_id = Some ''b'', r_source_chat_id = Some ''k'',
     r_resume_parent = Some True, r_run_at = None, r_quarantined = True, r_result_schema = None,
     r_result_description = None\<rparr>"

definition demo_lib :: json_lib where
  "demo_lib = \<lparr>to_text = (\<lambda>_. ''x''), validator_for = (\<lambda>_. Inr ()), schema_errors = (\<lambda>_ _. []),
     from_text = (\<lambda>s. Inr (JString s))\<rparr>"

theorem create_stores_one_pending_task_witness:
  "\<exists>t. tasks (snd (create demo_lib ''n'' ''u'' demo_request (small_world []))) = [t]
     \<and> t_kind t = Delegation ''b'' ''k'' True \<and> t_quarantined t"
  using create_stores_one_pending_task [of "small_world []" "''n''" demo_request demo_lib "''u''"]
  by (auto simp: demo_request_def request_kind_def find_row_def)

end
