(* ===== verification/Inference_Context.thy ===== *)
theory Inference_Context
  imports Rust_Str
begin

text \<open>
  Token estimates and history truncation (\<open>inference/context.rs\<close>). The messages of the
  provider library appear with the constructors the sources match on; the arguments of a tool
  call are their JSON text. Sizes are \<open>usize\<close> values; the one multiplication that configured
  numbers could overflow is kept at 64 bits (\<open>usize_mul\<close>), all other sums are lengths of data
  in memory.
\<close>

section \<open>Messages\<close>

datatype tool_result_content = ResultText string | ResultOther

datatype user_content =
    UserText string
  | ToolResult "tool_result_content list"
  | UserOther

datatype assistant_content =
    AssistantText string
  | ToolCall string string
  | AssistantOther

datatype message =
    UserMsg "user_content list"
  | AssistantMsg "assistant_content list"
  | SystemMsg string

section \<open>Estimates\<close>

definition DEFAULT_CONTEXT_WINDOW :: nat where
  "DEFAULT_CONTEXT_WINDOW = 128000"

definition usize_mul :: "nat \<Rightarrow> nat \<Rightarrow> nat" where
  "usize_mul a b = a * b mod 2 ^ 64"

definition estimate_tokens :: "string \<Rightarrow> nat" where
  "estimate_tokens text = length text div 4 + 4"

fun result_len :: "tool_result_content \<Rightarrow> nat" where
  "result_len (ResultText t) = length t"
| "result_len ResultOther = 100"

fun user_len :: "user_content \<Rightarrow> nat" where
  "user_len (UserText t) = length t"
| "user_len (ToolResult cs) = sum_list (map result_len cs)"
| "user_len UserOther = 100"

fun assistant_len :: "assistant_content \<Rightarrow> nat" where
  "assistant_len (AssistantText t) = length t"
| "assistant_len (ToolCall name arguments) = length name + length arguments"
| "assistant_len AssistantOther = 100"

fun content_len :: "message \<Rightarrow> nat" where
  "content_len (UserMsg content) = sum_list (map user_len content)"
| "content_len (AssistantMsg content) = sum_list (map assistant_len content)"
| "content_len (SystemMsg content) = length content"

definition estimate_message_tokens :: "message \<Rightarrow> nat" where
  "estimate_message_tokens msg = content_len msg div 4 + 4"

definition estimate_messages_tokens :: "message list \<Rightarrow> string \<Rightarrow> nat" where
  "estimate_messages_tokens messages system_prompt =
     estimate_tokens system_prompt + sum_list (map estimate_message_tokens messages)"

definition needs_compaction :: "message list \<Rightarrow> string \<Rightarrow> nat \<Rightarrow> nat \<Rightarrow> nat \<Rightarrow> bool" where
  "needs_compaction messages system_prompt context_window max_output_tokens compaction_trigger_pct \<longleftrightarrow>
     usize_mul (context_window - max_output_tokens) compaction_trigger_pct div 100
       < estimate_messages_tokens messages system_prompt"

section \<open>Truncation\<close>

definition SUMMARY_OPEN_TAG :: string where
  "SUMMARY_OPEN_TAG = ''<conversation_summary>''"

fun is_summary_message :: "message \<Rightarrow> bool" where
  "is_summary_message (UserMsg content) =
     list_ex (\<lambda>c. case c of UserText t \<Rightarrow> starts_with t SUMMARY_OPEN_TAG | _ \<Rightarrow> False) content"
| "is_summary_message _ = False"

fun is_plain_user_message :: "message \<Rightarrow> bool" where
  "is_plain_user_message (UserMsg content) =
     (\<not> list_ex (\<lambda>c. case c of ToolResult cs \<Rightarrow> True | _ \<Rightarrow> False) content)"
| "is_plain_user_message _ = False"

text \<open>
  The loop that takes messages from the newest backwards while they fit; it returns them in the
  order it pushes them.
\<close>

fun take_fitting :: "nat \<Rightarrow> nat \<Rightarrow> message list \<Rightarrow> message list" where
  "take_fitting tail_budget used [] = []"
| "take_fitting tail_budget used (msg # msgs) =
     (let cost = estimate_message_tokens msg
      in if tail_budget < used + cost then []
         else msg # take_fitting tail_budget (used + cost) msgs)"

definition history_budget :: "string \<Rightarrow> nat \<Rightarrow> nat \<Rightarrow> nat \<Rightarrow> nat" where
  "history_budget system_prompt context_window max_output_tokens history_truncation_pct =
     usize_mul (context_window - max_output_tokens - estimate_tokens system_prompt)
       history_truncation_pct div 100"

definition drop_leading_invalid :: "message list \<Rightarrow> message list" where
  "drop_leading_invalid result =
     (let leading_invalid = length (takeWhile (\<lambda>m. \<not> is_plain_user_message m) result)
      in if leading_invalid < length result then drop leading_invalid result else result)"

definition truncate_history :: "message list \<Rightarrow> string \<Rightarrow> nat \<Rightarrow> nat \<Rightarrow> nat \<Rightarrow> message list" where
  "truncate_history history system_prompt context_window max_output_tokens history_truncation_pct =
     (let budget = history_budget system_prompt context_window max_output_tokens history_truncation_pct;
          total = sum_list (map estimate_message_tokens history)
      in if total \<le> budget then history
         else
           let pinned = (case history of m # ms \<Rightarrow> if is_summary_message m then Some m else None | [] \<Rightarrow> None);
               pinned_cost = (case pinned of Some m \<Rightarrow> estimate_message_tokens m | None \<Rightarrow> 0);
               tail_budget = budget - pinned_cost;
               tail_start = (case pinned of Some m \<Rightarrow> 1 | None \<Rightarrow> 0);
               result = rev (take_fitting tail_budget 0 (rev (drop tail_start history)));
               result = drop_leading_invalid result
           in (case pinned of Some summary \<Rightarrow> summary # result | None \<Rightarrow> result))"

section \<open>What truncation keeps\<close>

abbreviation cost :: "message list \<Rightarrow> nat" where
  "cost ms \<equiv> sum_list (map estimate_message_tokens ms)"

lemma message_cost_pos: "0 < estimate_message_tokens m"
  by (simp add: estimate_message_tokens_def)

lemma cost_0 [simp]: "cost ms = 0 \<longleftrightarrow> ms = []"
  using message_cost_pos by (cases ms) (auto simp: gr0_conv_Suc)

lemma take_fitting_split:
  assumes "used \<le> b"
  shows "\<exists>rest. msgs = take_fitting b used msgs @ rest \<and> used + cost (take_fitting b used msgs) \<le> b
    \<and> (rest \<noteq> [] \<longrightarrow> b < used + cost (take_fitting b used msgs) + estimate_message_tokens (hd rest))"
  using assms
proof (induction msgs arbitrary: used)
  case (Cons m ms)
  show ?case
  proof (cases "b < used + estimate_message_tokens m")
    case True
    with Cons.prems show ?thesis by (simp add: Let_def)
  next
    case False
    then have "used + estimate_message_tokens m \<le> b" by simp
    from Cons.IH [OF this] False show ?thesis by (auto simp: Let_def add.assoc)
  qed
qed simp

text \<open>The same split seen from the oldest message: a suffix that fits, and no longer one does.\<close>

definition fitting_suffix :: "nat \<Rightarrow> message list \<Rightarrow> message list" where
  "fitting_suffix b ms = rev (take_fitting b 0 (rev ms))"

lemma fitting_suffix_split:
  "\<exists>far. ms = far @ fitting_suffix b ms \<and> cost (fitting_suffix b ms) \<le> b
    \<and> (far \<noteq> [] \<longrightarrow> b < cost (last far # fitting_suffix b ms))"
proof -
  obtain rest where r: "rev ms = take_fitting b 0 (rev ms) @ rest"
    "cost (take_fitting b 0 (rev ms)) \<le> b"
    "rest \<noteq> [] \<longrightarrow> b < cost (take_fitting b 0 (rev ms)) + estimate_message_tokens (hd rest)"
    using take_fitting_split [of 0 b "rev ms"] by auto
  have "ms = rev rest @ fitting_suffix b ms"
    using arg_cong [OF r(1), of rev] by (simp add: fitting_suffix_def)
  moreover have "cost (fitting_suffix b ms) = cost (take_fitting b 0 (rev ms))"
    by (simp add: fitting_suffix_def rev_map [symmetric])
  ultimately show ?thesis
    using r(2,3) by (intro exI [of _ "rev rest"]) (simp add: last_rev add.commute)
qed

lemma drop_leading_invalid_split:
  "\<exists>cut. ms = cut @ drop_leading_invalid ms \<and> (\<forall>m \<in> set cut. \<not> is_plain_user_message m)
    \<and> (list_ex is_plain_user_message ms \<longrightarrow>
        drop_leading_invalid ms \<noteq> [] \<and> is_plain_user_message (hd (drop_leading_invalid ms)))
    \<and> (\<not> list_ex is_plain_user_message ms \<longrightarrow> cut = [])"
proof -
  let ?bad = "\<lambda>m. \<not> is_plain_user_message m"
  have dw: "drop (length (takeWhile ?bad ms)) ms = dropWhile ?bad ms" by (simp add: dropWhile_eq_drop)
  show ?thesis
  proof (cases "list_ex is_plain_user_message ms")
    case True
    then have ne: "dropWhile ?bad ms \<noteq> []" by (auto simp: dropWhile_eq_Nil_conv list_ex_iff)
    then have "length (takeWhile ?bad ms) < length ms"
      using dw by (metis drop_eq_Nil2 linorder_not_less)
    then have "drop_leading_invalid ms = dropWhile ?bad ms"
      using dw by (simp add: drop_leading_invalid_def Let_def)
    then show ?thesis
      using ne hd_dropWhile [OF ne] True
      by (intro exI [of _ "takeWhile ?bad ms"]) (auto dest: set_takeWhileD)
  next
    case False
    then have tw: "takeWhile ?bad ms = ms" by (auto simp: takeWhile_eq_all_conv list_ex_iff)
    have "drop_leading_invalid ms = ms" unfolding drop_leading_invalid_def tw by simp
    with False show ?thesis by (intro exI [of _ "[]"]) simp
  qed
qed

text \<open>The summary that is kept at the front, if the history opens with one.\<close>

definition pinned_summary :: "message list \<Rightarrow> message list" where
  "pinned_summary history = (if history \<noteq> [] \<and> is_summary_message (hd history) then [hd history] else [])"

lemma truncate_history_over:
  assumes "history_budget s w mo pct < cost history"
  shows "truncate_history history s w mo pct = pinned_summary history @
    drop_leading_invalid (fitting_suffix (history_budget s w mo pct - cost (pinned_summary history))
      (drop (length (pinned_summary history)) history))"
  using assms
  by (cases history) (simp_all add: truncate_history_def pinned_summary_def Let_def fitting_suffix_def)

text \<open>
  C37. When the history is over budget, the result is the pinned summary (if the history opens
  with one) followed by the newest messages: a suffix that fits the budget left by the summary,
  cut only of leading turns that are not plain user messages, and the next older message would
  not have fitted. The kept part opens on a plain user message whenever it has one.
\<close>

theorem truncation_keeps_newest_that_fit:
  assumes "history_budget s w mo pct < cost history"
  shows "\<exists>far cut kept. history = pinned_summary history @ far @ cut @ kept
    \<and> truncate_history history s w mo pct = pinned_summary history @ kept
    \<and> cost (cut @ kept) \<le> history_budget s w mo pct - cost (pinned_summary history)
    \<and> (far \<noteq> [] \<longrightarrow> history_budget s w mo pct - cost (pinned_summary history) < cost (last far # cut @ kept))
    \<and> (\<forall>m \<in> set cut. \<not> is_plain_user_message m)
    \<and> (cut \<noteq> [] \<longrightarrow> kept \<noteq> [] \<and> is_plain_user_message (hd kept))
    \<and> (list_ex is_plain_user_message kept \<longrightarrow> is_plain_user_message (hd kept))"
proof -
  let ?pin = "pinned_summary history"
  let ?b = "history_budget s w mo pct - cost ?pin"
  let ?fit = "fitting_suffix ?b (drop (length ?pin) history)"
  let ?kept = "drop_leading_invalid ?fit"
  have hist: "history = ?pin @ drop (length ?pin) history" by (cases history) (simp_all add: pinned_summary_def)
  obtain far where far: "drop (length ?pin) history = far @ ?fit" "cost ?fit \<le> ?b"
    "far \<noteq> [] \<longrightarrow> ?b < cost (last far # ?fit)"
    using fitting_suffix_split [of "drop (length ?pin) history" ?b] by blast
  obtain cut where cut: "?fit = cut @ ?kept" "\<forall>m \<in> set cut. \<not> is_plain_user_message m"
    "list_ex is_plain_user_message ?fit \<longrightarrow> ?kept \<noteq> [] \<and> is_plain_user_message (hd ?kept)"
    "\<not> list_ex is_plain_user_message ?fit \<longrightarrow> cut = []"
    using drop_leading_invalid_split [of ?fit] by blast
  have "list_ex is_plain_user_message ?kept \<longrightarrow> list_ex is_plain_user_message ?fit"
    using arg_cong [OF cut(1), of "list_ex is_plain_user_message"] by simp
  then have "list_ex is_plain_user_message ?kept \<longrightarrow> is_plain_user_message (hd ?kept)"
    using cut(3) by blast
  moreover have "cut \<noteq> [] \<longrightarrow> ?kept \<noteq> [] \<and> is_plain_user_message (hd ?kept)" using cut(3,4) by blast
  moreover have "history = ?pin @ far @ cut @ ?kept" using hist far(1) cut(1) by argo
  ultimately show ?thesis
    using far(2,3) cut(2) truncate_history_over [OF assms] unfolding cut(1) [symmetric]
    by (intro exI [of _ far] exI [of _ cut] exI [of _ ?kept]) (simp only: cut(1) [symmetric] simp_thms)
qed

text \<open>
  Truncation is idempotent: its result is left alone by a second pass with the same budget,
  including the case where the pinned summary alone is over budget.
\<close>

theorem truncation_idempotent:
  "truncate_history (truncate_history history s w mo pct) s w mo pct = truncate_history history s w mo pct"
proof (cases "cost history \<le> history_budget s w mo pct")
  case True
  then show ?thesis by (simp add: truncate_history_def Let_def)
next
  case False
  let ?b = "history_budget s w mo pct"
  let ?pin = "pinned_summary history"
  define fit where "fit = fitting_suffix (?b - cost ?pin) (drop (length ?pin) history)"
  have t: "truncate_history history s w mo pct = ?pin @ drop_leading_invalid fit"
    using False truncate_history_over [of s w mo pct history] by (simp add: fit_def)
  have fit: "cost fit \<le> ?b - cost ?pin"
    using fitting_suffix_split [of "drop (length ?pin) history" "?b - cost ?pin"] by (auto simp: fit_def)
  obtain cut where "cut @ drop_leading_invalid fit = fit" using drop_leading_invalid_split [of fit] by metis
  then have "cost cut + cost (drop_leading_invalid fit) = cost fit"
    by (metis map_append sum_list_append)
  with fit have kept: "cost (drop_leading_invalid fit) \<le> ?b - cost ?pin" by simp
  show ?thesis
  proof (cases "cost ?pin \<le> ?b")
    case True
    with kept have "cost (?pin @ drop_leading_invalid fit) \<le> ?b" by simp
    then show ?thesis unfolding t by (simp add: truncate_history_def Let_def)
  next
    case False
    with kept have "cost (drop_leading_invalid fit) = 0" by simp
    then have "drop_leading_invalid fit = []" by (simp only: cost_0)
    moreover obtain m where pin: "?pin = [m]" "is_summary_message m"
      using False by (auto simp: pinned_summary_def split: if_splits)
    ultimately have r: "truncate_history history s w mo pct = [m]" by (simp add: t)
    have "truncate_history [m] s w mo pct = [m]"
      using pin(2) False by (simp add: truncate_history_def drop_leading_invalid_def Let_def)
    with r show ?thesis by simp
  qed
qed

definition demo_history :: "message list" where
  "demo_history =
     [UserMsg [UserText (SUMMARY_OPEN_TAG @ ''x'')],
      UserMsg [UserText ''aaaaaaaaaaaaaaaaaaaaaaaaaaaaaaaaaaaaaaaa''],
      AssistantMsg [AssistantText ''hello''], UserMsg [UserText ''latest'']]"

theorem truncation_keeps_newest_that_fit_witness:
  "truncate_history demo_history [] 24 0 100 = [hd demo_history, last demo_history]
    \<and> (\<exists>far cut kept. demo_history = [hd demo_history] @ far @ cut @ kept
         \<and> truncate_history demo_history [] 24 0 100 = [hd demo_history] @ kept \<and> cost (cut @ kept) \<le> 11)"
proof -
  have c: "map estimate_message_tokens demo_history = [9, 14, 5, 5]"
    by (simp add: estimate_message_tokens_def demo_history_def SUMMARY_OPEN_TAG_def)
  have b: "history_budget [] 24 0 100 = 20"
    by (simp add: history_budget_def usize_mul_def estimate_tokens_def)
  have pin: "pinned_summary demo_history = [hd demo_history]" "cost [hd demo_history] = 9"
    using c by (simp_all add: pinned_summary_def SUMMARY_OPEN_TAG_def demo_history_def)
  have "truncate_history demo_history [] 24 0 100 = [hd demo_history, last demo_history]"
    using c b
    by (simp add: truncate_history_def drop_leading_invalid_def Let_def demo_history_def SUMMARY_OPEN_TAG_def)
  moreover have "history_budget [] 24 0 100 < cost demo_history" by (simp add: b c)
  note truncation_keeps_newest_that_fit [OF this, unfolded pin b]
  ultimately show ?thesis by (intro conjI) (blast, force)
qed

end
