(* ===== verification/Inference_Retry.thy ===== *)
theory Inference_Retry
  imports Prelude Errors Inference_Context
begin

text \<open>
  Retries, learned output caps and fallbacks (\<open>inference/retry.rs\<close>, and
  \<open>output_token_limit\<close> of \<open>inference/error.rs\<close>). Providers are parameters: functions of the
  request and of the state \<open>net\<close> of the world outside. The retry driver is the documented one of
  the backoff library: run the operation, and on an error that passes the \<open>when\<close> test take
  the next delay of the schedule, notify and run again, until the schedule is used up; the
  schedule of a configuration is a parameter. The world also keeps every request sent, which
  the code does not; nothing reads it. The flag \<open>emitted\<close> is the one of the model being streamed. Wall-clock figures of a usage row are left out, and the
  temperature, which is only handed on, is kept as its text.
\<close>

section \<open>The output limit a provider states\<close>

function replace_all :: "string \<Rightarrow> string \<Rightarrow> string \<Rightarrow> string" where
  "replace_all from to [] = []"
| "replace_all from to (c # cs) =
     (if from \<noteq> [] \<and> starts_with (c # cs) from
      then to @ replace_all from to (drop (length from) (c # cs))
      else c # replace_all from to cs)"
  by pat_completeness auto
termination by (relation "measure (\<lambda>(f, t, s). length s)") auto

text \<open>
  \<open>captures i text\<close> is the first group of the \<open>i\<close>-th limit pattern in \<open>text\<close>, for the four
  patterns of the source; \<open>completion_text\<close> is the display text of an error of the provider
  library; \<open>delays\<close> is the schedule of a retry configuration.
\<close>

record retry_config =
  max_retries :: nat
  initial_backoff_ms :: nat
  backoff_multiplier :: string
  max_backoff_ms :: nat

record retry_lib =
  captures :: "nat \<Rightarrow> string \<Rightarrow> string option"
  completion_text :: "completion_error \<Rightarrow> string"
  delays :: "retry_config \<Rightarrow> nat list"
  lower_table :: "string \<Rightarrow> string"

definition limit_names :: "string list" where
  "limit_names = [''max_tokens'', ''max_completion_tokens'', ''max_output_tokens'', ''maxoutputtokens'']"

definition unescape_angles :: "string \<Rightarrow> string" where
  "unescape_angles message =
     replace_all (CHR 0x5C # ''u003E'') ''>''
       (replace_all (CHR 0x5C # ''u003e'') ''>''
         (replace_all (CHR 0x5C # ''u003C'') ''<''
           (replace_all (CHR 0x5C # ''u003c'') ''<'' message)))"

fun find_map :: "('a \<Rightarrow> 'b option) \<Rightarrow> 'a list \<Rightarrow> 'b option" where
  "find_map f [] = None"
| "find_map f (x # xs) = (case f x of Some y \<Rightarrow> Some y | None \<Rightarrow> find_map f xs)"

definition parse_output_token_limit :: "retry_lib \<Rightarrow> string \<Rightarrow> nat option" where
  "parse_output_token_limit lib message =
     (let text = unescape_angles message;
          lower = to_ascii_lowercase text
      in if \<not> list_ex (contains lower) limit_names then None
         else find_map (\<lambda>i.
           case Option.bind (captures lib i text) parse_u64 of
             None \<Rightarrow> None
           | Some limit \<Rightarrow> if 0 < limit then Some limit else None) [0, 1, 2, 3])"

fun output_token_limit :: "retry_lib \<Rightarrow> inference_error \<Rightarrow> nat option" where
  "output_token_limit lib (ModelFailed p m n source) = output_token_limit lib source"
| "output_token_limit lib (CompletionFailed c) =
     parse_output_token_limit lib (''Completion error: '' @ completion_text lib c)"
| "output_token_limit lib _ = None"

section \<open>Models, providers and the world\<close>

record model_config =
  mc_provider_name :: string
  mc_model_id :: string
  mc_max_tokens :: "nat option"
  mc_temperature :: "string option"

definition model_str :: "model_config \<Rightarrow> string" where
  "model_str m = mc_provider_name m @ ''/'' @ mc_model_id m"

definition for_model :: "inference_error \<Rightarrow> model_config \<Rightarrow> nat \<Rightarrow> inference_error" where
  "for_model e model retry_count = ModelFailed (mc_provider_name model) (mc_model_id model) retry_count e"

record usage =
  input_tokens :: nat
  cached_input_tokens :: nat
  output_tokens :: nat
  total_tokens :: nat

definition default_usage :: usage where
  "default_usage = \<lparr>input_tokens = 0, cached_input_tokens = 0, output_tokens = 0, total_tokens = 0\<rparr>"

record inference_output =
  out_content :: "assistant_content list"
  out_usage :: usage
  out_ttft_ms :: "nat option"

datatype stream_token = TextToken string | ReasoningToken string

text \<open>
  A request: the part after the history is the tools of a completion or the schema of a
  structured extraction, as JSON text.
\<close>

record request =
  rq_model :: string
  rq_system_prompt :: string
  rq_history :: "message list"
  rq_payload :: "string list"
  rq_max_tokens :: "nat option"
  rq_temperature :: "string option"

type_synonym ('n, 'a) call = "request \<Rightarrow> 'n \<Rightarrow> (inference_error + 'a) \<times> 'n"

text \<open>
  A streaming call yields the tokens it sent and its outcome; \<open>None\<close> is a call that was
  cancelled first.
\<close>

record 'n provider =
  p_ensure_usable :: "model_config \<Rightarrow> 'n \<Rightarrow> (inference_error + unit) \<times> 'n"
  p_inference :: "('n, inference_output) call"
  p_structured :: "('n, string) call"
  p_stream :: "request \<Rightarrow> 'n \<Rightarrow> (stream_token list \<times> (inference_error + inference_output) option) \<times> 'n"

record usage_row =
  row_model_ref :: string
  row_usage :: usage
  row_fallback_index :: nat
  row_ttft_ms :: "nat option"
  row_retry_count :: nat

datatype stream_event = TextEvent string | ReasoningEvent string | RetryEvent nat string

record 'n retry_world =
  learned_caps :: "string \<Rightarrow> nat option"
  usage_rows :: "usage_row list"
  stream_events :: "stream_event list"
  emitted :: bool
  accumulated_text :: string
  requests :: "request list"
  net :: 'n

record request_overrides =
  ov_max_tokens :: "nat option"
  ov_temperature :: "string option"

record 'n model_group =
  g_main :: model_config
  g_fallbacks :: "model_config list"
  g_context_window :: nat
  g_retry :: retry_config
  g_default_max_tokens :: nat
  g_truncation_pct :: nat
  g_providers :: "string \<Rightarrow> 'n provider option"

type_synonym ('n, 'a) retry_op = "(inference_error, 'n retry_world, 'a) op"

definition provider_for :: "(string \<Rightarrow> 'n provider option) \<Rightarrow> model_config \<Rightarrow> inference_error + 'n provider" where
  "provider_for providers model =
     (case providers (mc_provider_name model) of
        None \<Rightarrow> Inl (ProviderNotConfigured (mc_provider_name model))
      | Some p \<Rightarrow> Inr p)"

definition on_net :: "('n \<Rightarrow> 'a \<times> 'n) \<Rightarrow> 'n retry_world \<Rightarrow> 'a \<times> 'n retry_world" where
  "on_net f w = (case f (net w) of (a, n) \<Rightarrow> (a, w\<lparr>net := n\<rparr>))"

definition send_request :: "('n, 'a) call \<Rightarrow> request \<Rightarrow> ('n, 'a) retry_op" where
  "send_request c r w = on_net (c r) (w\<lparr>requests := requests w @ [r]\<rparr>)"

section \<open>One model with retries\<close>

record 'a retry_outcome =
  ro_value :: 'a
  ro_retry_count :: nat

text \<open>
  The driver with the delays still to come and the number of retries so far, which the
  operation may read; \<open>notify\<close> runs before each retry.
\<close>

fun run_with_backoff ::
  "(inference_error \<Rightarrow> 'n retry_world \<Rightarrow> bool) \<Rightarrow> (inference_error \<Rightarrow> nat \<Rightarrow> 'n retry_world \<Rightarrow> 'n retry_world)
   \<Rightarrow> (nat \<Rightarrow> ('n, 'a) retry_op) \<Rightarrow> nat list \<Rightarrow> nat \<Rightarrow> 'n retry_world
   \<Rightarrow> (inference_error + 'a) \<times> nat \<times> 'n retry_world" where
  "run_with_backoff when_ok notify op [] n w = (case op n w of (r, w') \<Rightarrow> (r, n, w'))"
| "run_with_backoff when_ok notify op (d # ds) n w =
     (case op n w of
        (Inr v, w') \<Rightarrow> (Inr v, n, w')
      | (Inl e, w') \<Rightarrow>
          if when_ok e w' then run_with_backoff when_ok notify op ds (Suc n) (notify e d w')
          else (Inl e, n, w'))"

definition retry_with_backoff ::
  "retry_lib \<Rightarrow> retry_config \<Rightarrow> model_config \<Rightarrow> ('n, 'a) retry_op \<Rightarrow> ('n, 'a retry_outcome) retry_op" where
  "retry_with_backoff lib retry_config model op w =
     (case run_with_backoff (\<lambda>e w. is_retryable (lower_table lib) e) (\<lambda>e d w. w) (\<lambda>_. op) (delays lib retry_config) 0 w of
        (Inr v, n, w') \<Rightarrow> (Inr \<lparr>ro_value = v, ro_retry_count = n\<rparr>, w')
      | (Inl e, n, w') \<Rightarrow> (Inl (for_model e model n), w'))"

section \<open>Learned caps\<close>

definition capped_max_tokens :: "model_config \<Rightarrow> nat option \<Rightarrow> 'n retry_world \<Rightarrow> nat option" where
  "capped_max_tokens model requested w =
     (case requested of
        None \<Rightarrow> None
      | Some n \<Rightarrow> (case learned_caps w (model_str model) of None \<Rightarrow> Some n | Some cap \<Rightarrow> Some (min n cap)))"

definition learn_output_cap ::
  "retry_lib \<Rightarrow> model_config \<Rightarrow> nat option \<Rightarrow> inference_error \<Rightarrow> 'n retry_world \<Rightarrow> nat option \<times> 'n retry_world" where
  "learn_output_cap lib model sent error w =
     (case (sent, output_token_limit lib error) of
        (Some n, Some limit) \<Rightarrow>
          if limit < n then (Some limit, w\<lparr>learned_caps := (learned_caps w)(model_str model \<mapsto> limit)\<rparr>)
          else (None, w)
      | _ \<Rightarrow> (None, w))"

lemma learn_output_cap_Some:
  "learn_output_cap lib model sent e w = (Some cap, w') \<Longrightarrow>
     \<exists>n. sent = Some n \<and> cap < n \<and> w' = w\<lparr>learned_caps := (learned_caps w)(model_str model \<mapsto> cap)\<rparr>"
  by (auto simp: learn_output_cap_def split: option.splits if_splits)

lemma learn_output_cap_None: "learn_output_cap lib model sent e w = (None, w') \<Longrightarrow> w' = w"
  by (auto simp: learn_output_cap_def split: option.splits if_splits)

text \<open>
  The loop around one model. Each pass lowers the number of tokens asked for, which is why it
  ends.
\<close>

function with_learned_cap ::
  "retry_lib \<Rightarrow> model_config \<Rightarrow> (nat option \<Rightarrow> ('n, 'a) retry_op) \<Rightarrow> nat option \<Rightarrow> ('n, 'a) retry_op" where
  "with_learned_cap lib model attempt max_tokens w =
     (case attempt max_tokens w of
        (Inr v, w') \<Rightarrow> (Inr v, w')
      | (Inl error, w') \<Rightarrow>
          (case learn_output_cap lib model max_tokens error w' of
             (Some cap, w'') \<Rightarrow> with_learned_cap lib model attempt (Some cap) w''
           | (None, w'') \<Rightarrow> (Inl error, w'')))"
  by pat_completeness auto
termination
  by (relation "measure (\<lambda>(lib, model, attempt, mt, w). case mt of None \<Rightarrow> 0 | Some n \<Rightarrow> n)")
    (auto simp: learn_output_cap_def split: option.splits if_splits)

declare with_learned_cap.simps [simp del]

section \<open>Main model and fallbacks\<close>

definition record_usage :: "model_config \<Rightarrow> usage \<Rightarrow> nat \<Rightarrow> nat option \<Rightarrow> nat \<Rightarrow> 'n retry_world \<Rightarrow> 'n retry_world" where
  "record_usage model u fallback_index ttft retry_count w =
     w\<lparr>usage_rows := usage_rows w @
       [\<lparr>row_model_ref = model_str model, row_usage = u, row_fallback_index = fallback_index mod 256,
         row_ttft_ms = ttft, row_retry_count = retry_count\<rparr>]\<rparr>"

definition requested_tokens :: "request_overrides \<Rightarrow> model_config \<Rightarrow> nat option" where
  "requested_tokens ov model = (case ov_max_tokens ov of Some n \<Rightarrow> Some n | None \<Rightarrow> mc_max_tokens model)"

definition requested_temperature :: "request_overrides \<Rightarrow> model_config \<Rightarrow> string option" where
  "requested_temperature ov model = (case ov_temperature ov of Some t \<Rightarrow> Some t | None \<Rightarrow> mc_temperature model)"

definition truncated_for ::
  "'n model_group \<Rightarrow> request_overrides \<Rightarrow> string \<Rightarrow> message list \<Rightarrow> model_config \<Rightarrow> message list" where
  "truncated_for mg ov system_prompt history model =
     truncate_history history system_prompt (g_context_window mg)
       (case requested_tokens ov model of None \<Rightarrow> g_default_max_tokens mg | Some n \<Rightarrow> n)
       (g_truncation_pct mg)"

definition send_to ::
  "'n model_group \<Rightarrow> request_overrides \<Rightarrow> string \<Rightarrow> message list \<Rightarrow> string list
   \<Rightarrow> ('n provider \<Rightarrow> ('n, 'a) call) \<Rightarrow> model_config \<Rightarrow> nat option \<Rightarrow> ('n, 'a) retry_op" where
  "send_to mg ov system_prompt history payload pick model max_tokens w =
     (case provider_for (g_providers mg) model of
        Inl e \<Rightarrow> (Inl e, w)
      | Inr p \<Rightarrow> send_request (pick p)
          \<lparr>rq_model = model_str model, rq_system_prompt = system_prompt,
           rq_history = truncated_for mg ov system_prompt history model, rq_payload = payload,
           rq_max_tokens = max_tokens, rq_temperature = requested_temperature ov model\<rparr> w)"

definition infer_one ::
  "retry_lib \<Rightarrow> 'n model_group \<Rightarrow> request_overrides \<Rightarrow> string \<Rightarrow> message list \<Rightarrow> string list
   \<Rightarrow> ('n provider \<Rightarrow> ('n, 'a) call) \<Rightarrow> model_config \<Rightarrow> ('n, 'a retry_outcome) retry_op" where
  "infer_one lib mg ov system_prompt history payload pick model w =
     with_learned_cap lib model
       (\<lambda>max_tokens. retry_with_backoff lib (g_retry mg) model
          (send_to mg ov system_prompt history payload pick model max_tokens))
       (capped_max_tokens model (requested_tokens ov model) w) w"

text \<open>
  The main model with index 0, then the fallbacks in order; \<open>row\<close> says what is recorded for
  an answer.
\<close>

fun try_models ::
  "(model_config \<Rightarrow> ('n, 'a retry_outcome) retry_op) \<Rightarrow> ('a \<Rightarrow> usage \<times> nat option) \<Rightarrow> model_config list \<Rightarrow> nat
   \<Rightarrow> inference_error list \<Rightarrow> ('n, 'a) retry_op" where
  "try_models one row [] idx errors w = (Inl (AllFallbacksFailed errors), w)"
| "try_models one row (model # models) idx errors w =
     (case one model w of
        (Inr out, w') \<Rightarrow>
          (Inr (ro_value out),
           record_usage model (fst (row (ro_value out))) idx (snd (row (ro_value out))) (ro_retry_count out) w')
      | (Inl e, w') \<Rightarrow> try_models one row models (Suc idx) (errors @ [e]) w')"

definition group_models :: "'n model_group \<Rightarrow> model_config list" where
  "group_models mg = g_main mg # g_fallbacks mg"

fun ensure_usable_from ::
  "(string \<Rightarrow> 'n provider option) \<Rightarrow> model_config list \<Rightarrow> inference_error list \<Rightarrow> ('n, unit) retry_op" where
  "ensure_usable_from providers [] reasons w = (Inl (AllFallbacksFailed reasons), w)"
| "ensure_usable_from providers (model # models) reasons w =
     (case (case provider_for providers model of
              Inl e \<Rightarrow> (Inl e, w)
            | Inr p \<Rightarrow> on_net (p_ensure_usable p model) w) of
        (Inr u, w') \<Rightarrow> (Inr (), w')
      | (Inl e, w') \<Rightarrow> ensure_usable_from providers models (reasons @ [for_model e model 0]) w')"

definition ensure_usable :: "'n model_group \<Rightarrow> ('n, unit) retry_op" where
  "ensure_usable mg = ensure_usable_from (g_providers mg) (group_models mg) []"

definition inference_with_retry_and_fallback ::
  "retry_lib \<Rightarrow> 'n model_group \<Rightarrow> request_overrides \<Rightarrow> string \<Rightarrow> message list \<Rightarrow> string list
   \<Rightarrow> ('n, assistant_content list \<times> usage) retry_op" where
  "inference_with_retry_and_fallback lib mg ov system_prompt history tools =
     qbind (ensure_usable mg) (\<lambda>_.
     qbind (try_models (infer_one lib mg ov system_prompt history tools p_inference)
              (\<lambda>out. (out_usage out, out_ttft_ms out)) (group_models mg) 0 []) (\<lambda>out.
     ret (out_content out, out_usage out)))"

definition structured_inference_with_retry_and_fallback ::
  "retry_lib \<Rightarrow> 'n model_group \<Rightarrow> request_overrides \<Rightarrow> string \<Rightarrow> message list \<Rightarrow> string
   \<Rightarrow> ('n, string) retry_op" where
  "structured_inference_with_retry_and_fallback lib mg ov system_prompt history schema =
     qbind (ensure_usable mg) (\<lambda>_.
     try_models (infer_one lib mg ov system_prompt history [schema] p_structured)
       (\<lambda>out. (default_usage, None)) (group_models mg) 0 [])"

section \<open>Streaming\<close>

datatype stream_result = Contents "assistant_content list" usage | StreamCancelled

fun token_event :: "stream_token \<Rightarrow> stream_event" where
  "token_event (TextToken t) = TextEvent t"
| "token_event (ReasoningToken r) = ReasoningEvent r"

fun token_text :: "stream_token \<Rightarrow> string" where
  "token_text (TextToken t) = t"
| "token_text (ReasoningToken r) = []"

definition forward_tokens :: "stream_token list \<Rightarrow> 'n retry_world \<Rightarrow> 'n retry_world" where
  "forward_tokens tokens w =
     w\<lparr>stream_events := stream_events w @ map token_event tokens, emitted := (emitted w \<or> tokens \<noteq> [])\<rparr>"

fun is_tool_result_turn :: "message \<Rightarrow> bool" where
  "is_tool_result_turn (UserMsg content) = list_ex (\<lambda>c. case c of ToolResult cs \<Rightarrow> True | _ \<Rightarrow> False) content"
| "is_tool_result_turn _ = False"

fun is_assistant_turn :: "message \<Rightarrow> bool" where
  "is_assistant_turn (AssistantMsg content) = True"
| "is_assistant_turn _ = False"

definition may_answer_nothing :: "message list \<Rightarrow> bool" where
  "may_answer_nothing history \<longleftrightarrow>
     history \<noteq> [] \<and> (is_tool_result_turn (last history) \<or> is_assistant_turn (last history))"

definition stream_attempt ::
  "'n provider \<Rightarrow> model_config \<Rightarrow> nat \<Rightarrow> request \<Rightarrow> nat \<Rightarrow> ('n, inference_output \<times> string) retry_op" where
  "stream_attempt p model fallback_index r retries w =
     (case on_net (p_stream p r) (w\<lparr>requests := requests w @ [r]\<rparr>) of
        ((tokens, outcome), w1) \<Rightarrow>
          let w2 = forward_tokens tokens w1;
              turn_text = concat (map token_text tokens)
          in case outcome of
               None \<Rightarrow> (Inl (InferenceCancelled turn_text), w2)
             | Some (Inl e) \<Rightarrow> (Inl e, w2)
             | Some (Inr out) \<Rightarrow>
                 if out_content out = [] \<and> \<not> may_answer_nothing (rq_history r) then (Inl EmptyResponse, w2)
                 else (Inr (out, turn_text),
                       record_usage model (out_usage out) fallback_index (out_ttft_ms out) retries w2))"

definition stream_one_model ::
  "retry_lib \<Rightarrow> 'n model_group \<Rightarrow> 'n provider \<Rightarrow> model_config \<Rightarrow> nat \<Rightarrow> request \<Rightarrow> ('n, stream_result) retry_op" where
  "stream_one_model lib mg p model fallback_index r w =
     (case run_with_backoff (\<lambda>e w. is_retryable (lower_table lib) e \<and> \<not> emitted w)
         (\<lambda>e d w. w\<lparr>stream_events := stream_events w @ [RetryEvent d (retry_reason (lower_table lib) e)]\<rparr>)
         (stream_attempt p model fallback_index r) (delays lib (g_retry mg)) 0 w of
        (Inr (out, text), n, w') \<Rightarrow>
          (Inr (Contents (out_content out) (out_usage out)), w'\<lparr>accumulated_text := accumulated_text w' @ text\<rparr>)
      | (Inl e, n, w') \<Rightarrow>
          (case e of
             InferenceCancelled text \<Rightarrow> (Inr StreamCancelled, w'\<lparr>accumulated_text := accumulated_text w' @ text\<rparr>)
           | _ \<Rightarrow> (Inl (for_model e model n), w')))"

definition stream_request ::
  "request_overrides \<Rightarrow> string \<Rightarrow> message list \<Rightarrow> string list \<Rightarrow> model_config \<Rightarrow> nat option \<Rightarrow> request" where
  "stream_request ov system_prompt history tools model max_tokens =
     \<lparr>rq_model = model_str model, rq_system_prompt = system_prompt, rq_history = history,
      rq_payload = tools, rq_max_tokens = max_tokens, rq_temperature = requested_temperature ov model\<rparr>"

fun stream_models ::
  "retry_lib \<Rightarrow> 'n model_group \<Rightarrow> request_overrides \<Rightarrow> string \<Rightarrow> message list \<Rightarrow> string list
   \<Rightarrow> model_config list \<Rightarrow> nat \<Rightarrow> inference_error list \<Rightarrow> ('n, stream_result) retry_op" where
  "stream_models lib mg ov system_prompt history tools [] index failures w =
     (Inl (AllFallbacksFailed failures), w)"
| "stream_models lib mg ov system_prompt history tools (model # models) index failures w =
     (case provider_for (g_providers mg) model of
        Inl e \<Rightarrow>
          stream_models lib mg ov system_prompt history tools models (Suc index)
            (failures @ [for_model e model 0]) w
      | Inr p \<Rightarrow>
          (case with_learned_cap lib model
              (\<lambda>max_tokens. stream_one_model lib mg p model index
                 (stream_request ov system_prompt history tools model max_tokens))
              (capped_max_tokens model (requested_tokens ov model) w) (w\<lparr>emitted := False\<rparr>) of
             (Inr result, w') \<Rightarrow> (Inr result, w')
           | (Inl e, w') \<Rightarrow>
               if emitted w' then (Inl (AllFallbacksFailed (failures @ [e])), w')
               else stream_models lib mg ov system_prompt history tools models (Suc index)
                      (failures @ [e]) w'))"

definition stream_with_retry_and_fallback ::
  "retry_lib \<Rightarrow> 'n model_group \<Rightarrow> request_overrides \<Rightarrow> string \<Rightarrow> message list \<Rightarrow> string list
   \<Rightarrow> (app_error, 'n retry_world, stream_result) op" where
  "stream_with_retry_and_fallback lib mg ov system_prompt chat_history tools w =
     (case stream_models lib mg ov system_prompt chat_history tools (group_models mg) 0 [] w of
        (Inl e, w') \<Rightarrow> (Inl (Inference e), w')
      | (Inr r, w') \<Rightarrow> (Inr r, w'))"

end
