(* ===== verification/Inference_Props.thy ===== *)
theory Inference_Props
  imports Inference_Retry
begin

text \<open>
  What the retry machinery guarantees: learned output caps only go down and bound every request
  sent, the number of requests is bounded, an answer is recorded for exactly the model that gave
  it and a failure names every model, and a streamed reply never mixes two attempts.
\<close>

section \<open>Learned caps bound every request\<close>

definition ok_request :: "(string \<Rightarrow> nat option) \<Rightarrow> request \<Rightarrow> bool" where
  "ok_request caps r \<longleftrightarrow>
     (case (caps (rq_model r), rq_max_tokens r) of (Some c, Some n) \<Rightarrow> n \<le> c | _ \<Rightarrow> True)"

definition caps_le :: "(string \<Rightarrow> nat option) \<Rightarrow> (string \<Rightarrow> nat option) \<Rightarrow> bool" where
  "caps_le a b \<longleftrightarrow> (\<forall>k c. b k = Some c \<longrightarrow> (\<exists>c'. a k = Some c' \<and> c' \<le> c))"

text \<open>From \<open>w\<close> to \<open>w'\<close> caps went down and all requests sent respect the caps known at \<open>w\<close>.\<close>

definition capped_run :: "'n retry_world \<Rightarrow> 'n retry_world \<Rightarrow> bool" where
  "capped_run w w' \<longleftrightarrow> caps_le (learned_caps w') (learned_caps w)
     \<and> (\<exists>rs. requests w' = requests w @ rs \<and> list_all (ok_request (learned_caps w)) rs)"

lemma caps_le_refl [simp]: "caps_le a a"
  by (simp add: caps_le_def)

lemma caps_le_trans: "caps_le a b \<Longrightarrow> caps_le b c \<Longrightarrow> caps_le a c"
  unfolding caps_le_def by (meson order_trans)

lemma ok_request_weaken: "caps_le a b \<Longrightarrow> ok_request a r \<Longrightarrow> ok_request b r"
  by (fastforce simp: caps_le_def ok_request_def split: option.splits)

lemma capped_run_refl: "capped_run w w"
  by (simp add: capped_run_def)

lemma capped_run_trans: "capped_run a b \<Longrightarrow> capped_run b c \<Longrightarrow> capped_run a c"
  unfolding capped_run_def by (fastforce simp: list_all_iff intro: caps_le_trans ok_request_weaken)

lemma capped_run_same:
  "learned_caps w' = learned_caps w \<Longrightarrow> requests w' = requests w \<Longrightarrow> capped_run w w'"
  by (simp add: capped_run_def)

text \<open>One pass for a model: same caps, and every request asks for \<open>mt\<close> tokens of it.\<close>

definition pass_of :: "model_config \<Rightarrow> nat option \<Rightarrow> 'n retry_world \<Rightarrow> 'n retry_world \<Rightarrow> bool" where
  "pass_of model mt w w' \<longleftrightarrow> learned_caps w' = learned_caps w
     \<and> (\<exists>rs. requests w' = requests w @ rs \<and> list_all (\<lambda>r. rq_model r = model_str model \<and> rq_max_tokens r = mt) rs)"

lemma pass_of_refl: "pass_of model mt w w"
  by (simp add: pass_of_def)

lemma pass_of_trans: "pass_of model mt a b \<Longrightarrow> pass_of model mt b c \<Longrightarrow> pass_of model mt a c"
  by (fastforce simp: pass_of_def)

text \<open>A relation kept by the operation and by the notification is kept by the driver.\<close>

lemma run_with_backoff_rel:
  assumes "\<And>n w r w'. op n w = (r, w') \<Longrightarrow> R w w'" and "\<And>e d w. R w (notify e d w)"
    and "\<And>a b c. R a b \<Longrightarrow> R b c \<Longrightarrow> R a c"
    and "run_with_backoff when_ok notify op ds n w = (r, k, w')"
  shows "R w w'"
  using assms(4)
proof (induction ds arbitrary: n w)
  case Nil
  then show ?case using assms(1) by (auto split: prod.splits)
next
  case (Cons d ds)
  obtain r1 w1 where step: "op n w = (r1, w1)" by (cases "op n w")
  then have R1: "R w w1" by (rule assms(1))
  show ?case
  proof (cases r1)
    case (Inr v)
    with Cons.prems step R1 show ?thesis by simp
  next
    case (Inl e)
    show ?thesis
    proof (cases "when_ok e w1")
      case True
      with Cons.prems step Inl
      have "run_with_backoff when_ok notify op ds (Suc n) (notify e d w1) = (r, k, w')" by simp
      then have "R (notify e d w1) w'" by (rule Cons.IH)
      then show ?thesis using R1 assms(2,3) by blast
    next
      case False
      with Cons.prems step Inl R1 show ?thesis by simp
    qed
  qed
qed

lemma run_with_backoff_count:
  "run_with_backoff when_ok notify op ds n w = (r, k, w') \<Longrightarrow> n \<le> k \<and> k \<le> n + length ds"
proof (induction ds arbitrary: n w)
  case Nil
  then show ?case by (auto split: prod.splits)
next
  case (Cons d ds)
  then show ?case by (fastforce split: prod.splits sum.splits if_splits)
qed

definition fits :: "model_config \<Rightarrow> nat option \<Rightarrow> 'n retry_world \<Rightarrow> bool" where
  "fits model mt w \<longleftrightarrow>
     (case (learned_caps w (model_str model), mt) of (Some c, Some n) \<Rightarrow> n \<le> c | _ \<Rightarrow> True)"

lemma fits_capped: "fits model (capped_max_tokens model mt w) w"
  by (simp add: fits_def capped_max_tokens_def split: option.split)

lemma pass_of_capped_run: "pass_of model mt w w' \<Longrightarrow> fits model mt w \<Longrightarrow> capped_run w w'"
  by (fastforce simp: pass_of_def capped_run_def fits_def ok_request_def list_all_iff split: option.splits)

lemma learn_capped_run:
  assumes "learn_output_cap lib model mt e w = (Some cap, w')" and "fits model mt w"
  shows "capped_run w w' \<and> fits model (Some cap) w'"
proof -
  from assms(1) obtain n where n: "mt = Some n" "cap < n"
    "w' = w\<lparr>learned_caps := (learned_caps w)(model_str model \<mapsto> cap)\<rparr>"
    by (auto dest: learn_output_cap_Some)
  with assms(2) show ?thesis
    by (auto simp: capped_run_def caps_le_def fits_def split: option.splits)
qed

text \<open>The invariant rule of the cap loop.\<close>

lemma with_learned_cap_inv:
  assumes "with_learned_cap lib model attempt mt w = (r, w')" and "I mt w"
    and ok: "\<And>mt w v w1. I mt w \<Longrightarrow> attempt mt w = (Inr v, w1) \<Longrightarrow> Q (Inr v) w1"
    and stop: "\<And>mt w e w1. I mt w \<Longrightarrow> attempt mt w = (Inl e, w1) \<Longrightarrow>
      learn_output_cap lib model mt e w1 = (None, w1) \<Longrightarrow> Q (Inl e) w1"
    and learn: "\<And>mt w e w1 cap w2. I mt w \<Longrightarrow> attempt mt w = (Inl e, w1) \<Longrightarrow>
      learn_output_cap lib model mt e w1 = (Some cap, w2) \<Longrightarrow> I (Some cap) w2"
  shows "Q r w'"
  using assms(1,2)
proof (induction "case mt of None \<Rightarrow> 0 | Some n \<Rightarrow> n" arbitrary: mt w rule: less_induct)
  case less
  obtain r1 w1 where step: "attempt mt w = (r1, w1)" by (cases "attempt mt w")
  show ?case
  proof (cases r1)
    case (Inr v)
    with less.prems step ok show ?thesis by (auto simp: with_learned_cap.simps [of lib model attempt mt w])
  next
    case (Inl e)
    obtain c w2 where l: "learn_output_cap lib model mt e w1 = (c, w2)"
      by (cases "learn_output_cap lib model mt e w1")
    show ?thesis
    proof (cases c)
      case None
      with l have "w2 = w1" by (auto dest: learn_output_cap_None)
      with less.prems step Inl l None stop show ?thesis
        by (auto simp: with_learned_cap.simps [of lib model attempt mt w])
    next
      case (Some cap)
      with l have "(case Some cap of None \<Rightarrow> 0 | Some n \<Rightarrow> n) < (case mt of None \<Rightarrow> 0 | Some n \<Rightarrow> n)"
        by (auto dest: learn_output_cap_Some)
      moreover have "with_learned_cap lib model attempt (Some cap) w2 = (r, w')"
        using less.prems(1) step Inl l Some by (simp add: with_learned_cap.simps [of lib model attempt mt w])
      moreover have "I (Some cap) w2" using learn less.prems(2) step Inl l Some by blast
      ultimately show ?thesis by (rule less.hyps)
    qed
  qed
qed

lemma with_learned_cap_capped:
  assumes "\<And>mt w r w'. attempt mt w = (r, w') \<Longrightarrow> pass_of model mt w w'"
    and "with_learned_cap lib model attempt mt w = (r, w')" and "fits model mt w"
  shows "capped_run w w'"
proof -
  let ?I = "\<lambda>mt v. capped_run w v \<and> fits model mt v"
  have step: "?I mt w1" if "?I mt v" and "attempt mt v = (r1, w1)" for mt v r1 w1
  proof -
    have p: "pass_of model mt v w1" by (rule assms(1)) (rule that(2))
    then have "fits model mt w1" using that(1) by (simp add: pass_of_def fits_def)
    with p that(1) show ?thesis by (blast intro: capped_run_trans pass_of_capped_run)
  qed
  show ?thesis using assms(2)
  proof (rule with_learned_cap_inv [where I = ?I and Q = "\<lambda>_. capped_run w"])
    show "?I mt w" using assms(3) by (simp add: capped_run_refl)
    show "capped_run w w1" if "?I mt v" "attempt mt v = (Inr x, w1)" for mt v x w1
      using step [OF that] by simp
    show "capped_run w w1" if "?I mt v" "attempt mt v = (Inl e, w1)" for mt v e w1
      using step [OF that] by simp
    show "?I (Some cap) w2" if "?I mt v" "attempt mt v = (Inl e, w1)"
      "learn_output_cap lib model mt e w1 = (Some cap, w2)" for mt v e w1 cap w2
      using step [OF that(1,2)] learn_capped_run [OF that(3)] by (blast intro: capped_run_trans)
  qed
qed

lemma send_request_pass:
  "send_request c r w = (x, w') \<Longrightarrow> rq_model r = model_str model \<Longrightarrow> rq_max_tokens r = mt \<Longrightarrow> pass_of model mt w w'"
  by (auto simp: send_request_def on_net_def pass_of_def split: prod.splits)

lemma retry_with_backoff_rel:
  assumes "retry_with_backoff lib cfg model op w = (r, w')"
    and "\<And>w r w'. op w = (r, w') \<Longrightarrow> R w w'" and "\<And>w. R w w" and "\<And>a b c. R a b \<Longrightarrow> R b c \<Longrightarrow> R a c"
  shows "R w w'"
proof -
  from assms(1) obtain r1 n where
    "run_with_backoff (\<lambda>e w. is_retryable (lower_table lib) e) (\<lambda>e d w. w) (\<lambda>_. op) (delays lib cfg) 0 w = (r1, n, w')"
    by (auto simp: retry_with_backoff_def split: prod.splits sum.splits)
  then show ?thesis using assms(2-4) by (rule run_with_backoff_rel [rotated 3]) blast+
qed

lemma send_to_pass: "send_to mg ov sys hist payload pick model mt w = (r, w') \<Longrightarrow> pass_of model mt w w'"
  by (auto simp: send_to_def intro: pass_of_refl send_request_pass split: sum.splits)

lemma infer_one_capped:
  assumes "infer_one lib mg ov sys hist payload pick model w = (r, w')"
  shows "capped_run w w'"
proof (rule with_learned_cap_capped)
  show "with_learned_cap lib model (\<lambda>mt. retry_with_backoff lib (g_retry mg) model
      (send_to mg ov sys hist payload pick model mt)) (capped_max_tokens model (requested_tokens ov model) w) w = (r, w')"
    using assms by (simp add: infer_one_def)
  show "pass_of model mt v v'"
    if "retry_with_backoff lib (g_retry mg) model (send_to mg ov sys hist payload pick model mt) v = (x, v')" for mt v x v'
    using that send_to_pass pass_of_refl pass_of_trans by (rule retry_with_backoff_rel)
qed (rule fits_capped)

lemma record_usage_capped: "capped_run w (record_usage m u i t n w)"
  by (simp add: capped_run_same record_usage_def)

lemma try_models_rel:
  assumes "\<And>m w r w'. one m w = (r, w') \<Longrightarrow> R w w'" and "\<And>m u i t n w. R w (record_usage m u i t n w)"
    and "\<And>w. R w w" and "\<And>a b c. R a b \<Longrightarrow> R b c \<Longrightarrow> R a c"
    and "try_models one row ms idx errs w = (r, w')"
  shows "R w w'"
  using assms(5)
proof (induction ms arbitrary: idx errs w)
  case Nil
  then show ?case using assms(3) by simp
next
  case (Cons m ms)
  obtain r1 w1 where step: "one m w = (r1, w1)" by (cases "one m w")
  then have R1: "R w w1" by (rule assms(1))
  show ?case
  proof (cases r1)
    case (Inl e)
    with Cons step R1 assms(4) show ?thesis by fastforce
  next
    case (Inr out)
    with Cons.prems step have "w' = record_usage m (fst (row (ro_value out))) idx (snd (row (ro_value out))) (ro_retry_count out) w1"
      by simp
    with R1 assms(2,4) show ?thesis by metis
  qed
qed

lemma ensure_usable_from_same:
  "ensure_usable_from ps ms reasons w = (r, w') \<Longrightarrow> \<exists>n. w' = w\<lparr>net := n\<rparr>"
proof (induction ms arbitrary: reasons w)
  case Nil
  then show ?case by (cases w) auto
next
  case (Cons m ms)
  obtain r1 w1 where step: "(case provider_for ps m of Inl e \<Rightarrow> (Inl e, w)
      | Inr p \<Rightarrow> on_net (p_ensure_usable p m) w) = (r1, w1)" by fastforce
  then have "\<exists>n. w1 = w\<lparr>net := n\<rparr>"
    by (cases w) (auto simp: on_net_def split: sum.splits prod.splits)
  with Cons step show ?case by (cases r1) (auto, fastforce)
qed

lemma stream_attempt_pass:
  "stream_attempt p model i r n w = (x, w') \<Longrightarrow> rq_model r = model_str model \<Longrightarrow> rq_max_tokens r = mt \<Longrightarrow>
     pass_of model mt w w'"
  by (auto simp: stream_attempt_def on_net_def pass_of_def forward_tokens_def record_usage_def Let_def
      split: prod.splits option.splits sum.splits if_splits)

lemma pass_of_events: "pass_of model mt w (w\<lparr>stream_events := es\<rparr>)"
  by (simp add: pass_of_def)

lemma stream_one_model_pass:
  assumes "stream_one_model lib mg p model i r w = (x, w')"
    and "rq_model r = model_str model" and "rq_max_tokens r = mt"
  shows "pass_of model mt w w'"
proof -
  let ?run = "run_with_backoff (\<lambda>e w. is_retryable (lower_table lib) e \<and> \<not> emitted w)
      (\<lambda>e d w. w\<lparr>stream_events := stream_events w @ [RetryEvent d (retry_reason (lower_table lib) e)]\<rparr>)
      (stream_attempt p model i r) (delays lib (g_retry mg)) 0 w"
  obtain r1 n w1 where run: "?run = (r1, n, w1)" by (cases ?run) auto
  have "pass_of model mt w w1"
    using stream_attempt_pass [OF _ assms(2,3)] pass_of_events pass_of_trans run
    by (rule run_with_backoff_rel)
  with run assms(1) show ?thesis
    by (cases r1) (auto simp: stream_one_model_def pass_of_def split: inference_error.splits)
qed

lemma stream_request_fields [simp]:
  "rq_model (stream_request ov sys hist tools model mt) = model_str model"
  "rq_max_tokens (stream_request ov sys hist tools model mt) = mt"
  "rq_history (stream_request ov sys hist tools model mt) = hist"
  by (simp_all add: stream_request_def)

lemma stream_models_capped:
  "stream_models lib mg ov sys hist tools ms i errs w = (r, w') \<Longrightarrow> capped_run w w'"
proof (induction ms arbitrary: i errs w)
  case Nil
  then show ?case by (simp add: capped_run_refl)
next
  case (Cons m ms)
  show ?case
  proof (cases "provider_for (g_providers mg) m")
    case (Inl e)
    with Cons show ?thesis by fastforce
  next
    case (Inr p)
    let ?w0 = "w\<lparr>emitted := False\<rparr>"
    let ?run = "with_learned_cap lib m (\<lambda>mt. stream_one_model lib mg p m i (stream_request ov sys hist tools m mt))
      (capped_max_tokens m (requested_tokens ov m) w) ?w0"
    obtain r1 w1 where step: "?run = (r1, w1)" by (cases ?run)
    have "fits m (capped_max_tokens m (requested_tokens ov m) w) ?w0"
      using fits_capped [of m "requested_tokens ov m" w] by (simp add: fits_def)
    with step have "capped_run ?w0 w1"
      by (intro with_learned_cap_capped) (auto intro: stream_one_model_pass)
    moreover have "capped_run w ?w0" by (simp add: capped_run_same)
    ultimately have R1: "capped_run w w1" by (rule capped_run_trans [rotated])
    show ?thesis
    proof (cases r1)
      case (Inr result)
      with Cons.prems step \<open>provider_for _ _ = Inr p\<close> R1 show ?thesis by simp
    next
      case (Inl e)
      show ?thesis
      proof (cases "emitted w1")
        case True
        with Cons.prems step Inl \<open>provider_for _ _ = Inr p\<close> R1 show ?thesis by simp
      next
        case False
        with Cons.prems step Inl \<open>provider_for _ _ = Inr p\<close>
        have "stream_models lib mg ov sys hist tools ms (Suc i) (errs @ [e]) w1 = (r, w')" by simp
        then have "capped_run w1 w'" by (rule Cons.IH)
        with R1 show ?thesis by (rule capped_run_trans)
      qed
    qed
  qed
qed

lemma inference_capped:
  assumes "qbind (ensure_usable mg) (\<lambda>_. try_models (infer_one lib mg ov sys hist payload pick) row ms 0 []) w = (r, w')"
  shows "capped_run w w'"
  using assms
proof (cases rule: qbind_cases)
  case (error e)
  then show ?thesis unfolding ensure_usable_def
    by (auto dest!: ensure_usable_from_same simp: capped_run_same)
next
  case (okay u w1)
  then have "capped_run w w1" unfolding ensure_usable_def
    by (auto dest!: ensure_usable_from_same simp: capped_run_same)
  moreover have "capped_run w1 w'"
    using infer_one_capped record_usage_capped capped_run_refl capped_run_trans okay(2) by (rule try_models_rel)
  ultimately show ?thesis by (rule capped_run_trans)
qed

lemma inference_as_try_models:
  "inference_with_retry_and_fallback lib mg ov sys hist tools =
     qbind (qbind (ensure_usable mg) (\<lambda>_. try_models (infer_one lib mg ov sys hist tools p_inference)
       (\<lambda>out. (out_usage out, out_ttft_ms out)) (group_models mg) 0 [])) (\<lambda>out. ret (out_content out, out_usage out))"
  by (simp add: inference_with_retry_and_fallback_def qbind_assoc)

text \<open>
  Whatever the providers answer, a completion, a structured extraction and a stream only ever
  lower the output caps learned for a model, and every request they send asks for no more
  output tokens than the cap that was known for its model when the call started.
\<close>

theorem learned_caps_bound_requests:
  "capped_run w (snd (inference_with_retry_and_fallback lib mg ov sys hist tools w))
   \<and> capped_run w (snd (structured_inference_with_retry_and_fallback lib mg ov sys hist schema w))
   \<and> capped_run w (snd (stream_with_retry_and_fallback lib mg ov sys hist tools w))"
proof (intro conjI)
  show "capped_run w (snd (inference_with_retry_and_fallback lib mg ov sys hist tools w))"
    unfolding inference_as_try_models
    by (simp add: qbind_def [of "qbind _ _"] ret_def split: prod.split sum.split)
      (blast intro: inference_capped)
  show "capped_run w (snd (structured_inference_with_retry_and_fallback lib mg ov sys hist schema w))"
    unfolding structured_inference_with_retry_and_fallback_def
    by (metis inference_capped prod.collapse)
  show "capped_run w (snd (stream_with_retry_and_fallback lib mg ov sys hist tools w))"
    by (auto simp: stream_with_retry_and_fallback_def split: prod.split sum.split intro: stream_models_capped)
qed

section \<open>Who answered, and what a failure says\<close>

definition failure_of :: "model_config \<Rightarrow> inference_error \<Rightarrow> bool" where
  "failure_of model e \<longleftrightarrow> (\<exists>n e0. e = ModelFailed (mc_provider_name model) (mc_model_id model) n e0)"

lemma failure_of_for_model [simp]: "failure_of model (for_model e model n)"
  by (simp add: failure_of_def for_model_def)

text \<open>One model: nothing is recorded yet, and the retries stay within the schedule.\<close>

definition one_answer :: "nat \<Rightarrow> 'n retry_world \<Rightarrow> model_config \<Rightarrow> inference_error + 'a retry_outcome \<Rightarrow> 'n retry_world \<Rightarrow> bool" where
  "one_answer limit w model r w' \<longleftrightarrow> usage_rows w' = usage_rows w
     \<and> (case r of Inl e \<Rightarrow> failure_of model e | Inr out \<Rightarrow> ro_retry_count out \<le> limit)"

lemma retry_with_backoff_answer:
  assumes "retry_with_backoff lib cfg model op w = (r, w')"
    and rows: "\<And>w r w'. op w = (r, w') \<Longrightarrow> usage_rows w' = usage_rows w"
  shows "one_answer (length (delays lib cfg)) w model r w'"
proof -
  let ?run = "run_with_backoff (\<lambda>e w. is_retryable (lower_table lib) e) (\<lambda>e d w. w) (\<lambda>_. op) (delays lib cfg) 0 w"
  obtain r1 n w1 where run: "?run = (r1, n, w1)" by (cases ?run) auto
  have "n \<le> length (delays lib cfg)" using run_with_backoff_count [OF run] by simp
  moreover have "usage_rows w' = usage_rows w"
    using assms(1) rows by (rule retry_with_backoff_rel) simp_all
  ultimately show ?thesis using run assms(1)
    by (cases r1) (auto simp: one_answer_def retry_with_backoff_def)
qed

lemma send_to_rows: "send_to mg ov sys hist payload pick model mt w = (r, w') \<Longrightarrow> usage_rows w' = usage_rows w"
  by (auto simp: send_to_def send_request_def on_net_def split: sum.splits prod.splits)

lemma infer_one_answer:
  assumes "infer_one lib mg ov sys hist payload pick model w = (r, w')"
  shows "one_answer (length (delays lib (g_retry mg))) w model r w'"
proof (rule with_learned_cap_inv [where I = "\<lambda>mt v. usage_rows v = usage_rows w"])
  let ?attempt = "\<lambda>mt. retry_with_backoff lib (g_retry mg) model (send_to mg ov sys hist payload pick model mt)"
  show "with_learned_cap lib model ?attempt (capped_max_tokens model (requested_tokens ov model) w) w = (r, w')"
    using assms by (simp add: infer_one_def)
  have step: "one_answer (length (delays lib (g_retry mg))) v0 model x w1" if "?attempt mt v0 = (x, w1)" for mt v0 x w1
    using that send_to_rows by (rule retry_with_backoff_answer)
  show "one_answer (length (delays lib (g_retry mg))) w model (Inr v) w1"
    if "usage_rows v0 = usage_rows w" "?attempt mt v0 = (Inr v, w1)" for mt v0 v w1
    using step [OF that(2)] that(1) by (simp add: one_answer_def)
  show "one_answer (length (delays lib (g_retry mg))) w model (Inl e) w1"
    if "usage_rows v0 = usage_rows w" "?attempt mt v0 = (Inl e, w1)" for mt v0 e w1
    using step [OF that(2)] that(1) by (simp add: one_answer_def)
  show "usage_rows w2 = usage_rows w"
    if "usage_rows v0 = usage_rows w" "?attempt mt v0 = (Inl e, w1)"
      "learn_output_cap lib model mt e w1 = (Some cap, w2)" for mt v0 e w1 cap w2
    using step [OF that(2)] that(1) learn_output_cap_Some [OF that(3)] by (auto simp: one_answer_def)
qed simp

lemma try_models_answer:
  assumes one: "\<And>m w r w'. one m w = (r, w') \<Longrightarrow> one_answer limit w m r w'"
    and "try_models one row ms i errs w = (r, w')"
  shows "case r of
      Inl e \<Rightarrow> usage_rows w' = usage_rows w
        \<and> (\<exists>es. e = AllFallbacksFailed (errs @ es) \<and> list_all2 failure_of ms es)
    | Inr v \<Rightarrow> (\<exists>k < length ms. \<exists>u. usage_rows w' = usage_rows w @ [u] \<and> row_model_ref u = model_str (ms ! k)
        \<and> row_fallback_index u = (i + k) mod 256 \<and> row_usage u = fst (row v) \<and> row_retry_count u \<le> limit)"
  using assms(2)
proof (induction ms arbitrary: i errs w)
  case Nil
  then show ?case by auto
next
  case (Cons m ms)
  obtain r1 w1 where step: "one m w = (r1, w1)" by (cases "one m w")
  note ans = one [OF step]
  show ?case
  proof (cases r1)
    case (Inr out)
    with Cons.prems step ans show ?thesis
      by (auto simp: one_answer_def record_usage_def intro!: exI [of _ "0::nat"])
  next
    case (Inl e)
    with Cons.prems step have rest: "try_models one row ms (Suc i) (errs @ [e]) w1 = (r, w')" by simp
    have same: "usage_rows w1 = usage_rows w" "failure_of m e" using ans Inl by (simp_all add: one_answer_def)
    show ?thesis
    proof (cases r)
      case (Inl e')
      with Cons.IH [OF rest] obtain es where "e' = AllFallbacksFailed ((errs @ [e]) @ es)"
        "list_all2 failure_of ms es" "usage_rows w' = usage_rows w1" by auto
      with same Inl show ?thesis by (auto intro!: exI [of _ "e # es"])
    next
      case (Inr v)
      with Cons.IH [OF rest] obtain k u where "k < length ms" "usage_rows w' = usage_rows w1 @ [u]"
        "row_model_ref u = model_str (ms ! k)" "row_fallback_index u = (Suc i + k) mod 256"
        "row_usage u = fst (row v)" "row_retry_count u \<le> limit" by auto
      with same Inr show ?thesis by (auto intro!: exI [of _ "Suc k"])
    qed
  qed
qed

lemma ensure_usable_from_answer:
  assumes "ensure_usable_from ps ms errs w = (r, w')"
  shows "usage_rows w' = usage_rows w
    \<and> (case r of Inl e \<Rightarrow> \<exists>es. e = AllFallbacksFailed (errs @ es) \<and> list_all2 failure_of ms es | Inr u \<Rightarrow> True)"
proof (rule conjI)
  show "usage_rows w' = usage_rows w" using ensure_usable_from_same [OF assms] by auto
  show "case r of Inl e \<Rightarrow> \<exists>es. e = AllFallbacksFailed (errs @ es) \<and> list_all2 failure_of ms es | Inr u \<Rightarrow> True"
    using assms
  proof (induction ms arbitrary: errs w)
    case Nil
    then show ?case by auto
  next
    case (Cons m ms)
    let ?s = "case provider_for ps m of Inl e \<Rightarrow> (Inl e, w) | Inr p \<Rightarrow> on_net (p_ensure_usable p m) w"
    obtain r1 w1 where step: "?s = (r1, w1)" by (cases ?s)
    show ?case
    proof (cases r1)
      case (Inr u)
      with Cons.prems step show ?thesis by auto
    next
      case (Inl e)
      with Cons.prems step have "ensure_usable_from ps ms (errs @ [for_model e m 0]) w1 = (r, w')" by simp
      from Cons.IH [OF this] show ?thesis
        by (cases r) (auto simp del: list_all2_Cons1 intro!: list.rel_intros(2))
    qed
  qed
qed

text \<open>The result of a whole call, for the list \<open>ms\<close> of models it may use.\<close>

definition call_outcome ::
  "nat \<Rightarrow> model_config list \<Rightarrow> 'n retry_world \<Rightarrow> usage option \<Rightarrow> (inference_error + 'a) \<times> 'n retry_world \<Rightarrow> bool" where
  "call_outcome limit ms w u out \<longleftrightarrow>
     (case out of
        (Inl e, w') \<Rightarrow> usage_rows w' = usage_rows w
          \<and> (\<exists>es. e = AllFallbacksFailed es \<and> list_all2 failure_of ms es)
      | (Inr v, w') \<Rightarrow> (\<exists>k < length ms. \<exists>row. usage_rows w' = usage_rows w @ [row]
          \<and> row_model_ref row = model_str (ms ! k) \<and> row_fallback_index row = k mod 256
          \<and> u = Some (row_usage row) \<and> row_retry_count row \<le> limit))"

lemma call_outcome_models:
  assumes "qbind (ensure_usable mg) (\<lambda>_. try_models (infer_one lib mg ov sys hist payload pick) row (group_models mg) 0 []) w
      = (r, w')"
  shows "call_outcome (length (delays lib (g_retry mg))) (group_models mg) w
    (case r of Inl e \<Rightarrow> None | Inr v \<Rightarrow> Some (fst (row v))) (r, w')"
  using assms
proof (cases rule: qbind_cases)
  case (error e)
  with ensure_usable_from_answer [of "g_providers mg" "group_models mg" "[]" w "Inl e" w']
  show ?thesis by (simp add: ensure_usable_def call_outcome_def)
next
  case (okay u w1)
  from okay(1) have "usage_rows w1 = usage_rows w"
    using ensure_usable_from_answer [of "g_providers mg" "group_models mg" "[]" w "Inr u" w1]
    by (simp add: ensure_usable_def)
  moreover note try_models_answer [where limit = "length (delays lib (g_retry mg))", OF infer_one_answer okay(2)]
  ultimately show ?thesis
    by (cases r) (simp_all add: call_outcome_def eq_commute [of "fst _"])
qed

text \<open>
  A completion and a structured extraction that fail name every model of the group, in order,
  each with its own last error, and record no usage. When they answer, exactly one usage row is
  recorded, for the model that answered and with its position in the group, its retries within
  the schedule; a completion returns the usage it recorded.
\<close>

theorem answer_is_recorded_once:
  "call_outcome (length (delays lib (g_retry mg))) (group_models mg) w
     (case fst (inference_with_retry_and_fallback lib mg ov sys hist tools w) of
        Inl e \<Rightarrow> None | Inr (content, u) \<Rightarrow> Some u)
     (inference_with_retry_and_fallback lib mg ov sys hist tools w)
   \<and> call_outcome (length (delays lib (g_retry mg))) (group_models mg) w (Some default_usage)
     (structured_inference_with_retry_and_fallback lib mg ov sys hist schema w)"
proof (rule conjI)
  let ?m = "qbind (ensure_usable mg) (\<lambda>_. try_models (infer_one lib mg ov sys hist tools p_inference)
       (\<lambda>out. (out_usage out, out_ttft_ms out)) (group_models mg) 0 [])"
  obtain r w' where m: "?m w = (r, w')" by (cases "?m w")
  have run: "inference_with_retry_and_fallback lib mg ov sys hist tools w
      = (map_sum id (\<lambda>out. (out_content out, out_usage out)) r, w')"
    unfolding inference_as_try_models by (cases r) (simp_all add: qbind_def [of ?m] m ret_def)
  show "call_outcome (length (delays lib (g_retry mg))) (group_models mg) w
     (case fst (inference_with_retry_and_fallback lib mg ov sys hist tools w) of
        Inl e \<Rightarrow> None | Inr (content, u) \<Rightarrow> Some u)
     (inference_with_retry_and_fallback lib mg ov sys hist tools w)"
    using call_outcome_models [OF m] unfolding run by (cases r) (simp_all add: call_outcome_def)
  let ?s = "structured_inference_with_retry_and_fallback lib mg ov sys hist schema"
  obtain r' w'' where s: "?s w = (r', w'')" by (cases "?s w")
  then have "call_outcome (length (delays lib (g_retry mg))) (group_models mg) w
    (case r' of Inl e \<Rightarrow> None | Inr v \<Rightarrow> Some default_usage) (r', w'')"
    unfolding structured_inference_with_retry_and_fallback_def
    by (rule call_outcome_models [THEN subst [rotated, of "\<lambda>u. call_outcome _ _ _ u _"]]) (cases r'; simp)
  then show "call_outcome (length (delays lib (g_retry mg))) (group_models mg) w (Some default_usage) (?s w)"
    unfolding s by (cases r') (simp_all add: call_outcome_def)
qed

section \<open>One attempt per streamed reply\<close>

definition is_retry_event :: "stream_event \<Rightarrow> bool" where
  "is_retry_event ev = (case ev of RetryEvent d reason \<Rightarrow> True | _ \<Rightarrow> False)"

text \<open>Between \<open>w\<close> and \<open>w'\<close> the client saw retry notices and then the tokens \<open>toks\<close> of one attempt.\<close>

definition streamed :: "'n retry_world \<Rightarrow> stream_token list \<Rightarrow> 'n retry_world \<Rightarrow> bool" where
  "streamed w toks w' \<longleftrightarrow> emitted w' = (emitted w \<or> toks \<noteq> [])
     \<and> (\<exists>notices. list_all is_retry_event notices
          \<and> stream_events w' = stream_events w @ notices @ map token_event toks)"

lemma streamed_trans: "streamed w [] w1 \<Longrightarrow> streamed w1 toks w2 \<Longrightarrow> streamed w toks w2"
  by (fastforce simp: streamed_def)

lemma streamed_notice: "streamed w [] w1 \<Longrightarrow> streamed w [] (w1\<lparr>stream_events := stream_events w1 @ [RetryEvent d s]\<rparr>)"
  by (fastforce simp: streamed_def is_retry_event_def)

text \<open>
  The error of a cancelled stream is made by \<open>stream_one_model\<close> alone; no provider returns it.
\<close>

definition leaves_cancelling :: "'n provider \<Rightarrow> bool" where
  "leaves_cancelling p \<longleftrightarrow> (\<forall>r n toks t n'. p_stream p r n \<noteq> ((toks, Some (Inl (InferenceCancelled t))), n'))"

text \<open>
  What the client may see before the attempt that counts: retry notices, and the tokens of
  attempts that were given up because the provider, after it had sent them, answered that the
  output limit asked for is too high.
\<close>

inductive abandoned :: "retry_lib \<Rightarrow> 'n model_group \<Rightarrow> stream_event list \<Rightarrow> bool" for lib mg where
  nothing: "abandoned lib mg []"
| notice: "abandoned lib mg evs \<Longrightarrow> abandoned lib mg (evs @ [RetryEvent d reason])"
| given_up: "abandoned lib mg evs \<Longrightarrow> g_providers mg name = Some p \<Longrightarrow> p_stream p r n = ((toks, Some (Inl e)), n') \<Longrightarrow>
    rq_max_tokens r = Some sent \<Longrightarrow> output_token_limit lib e = Some limit \<Longrightarrow> limit < sent \<Longrightarrow>
    abandoned lib mg (evs @ map token_event toks)"

lemma abandoned_append: "abandoned lib mg b \<Longrightarrow> abandoned lib mg a \<Longrightarrow> abandoned lib mg (a @ b)"
proof (induction b rule: abandoned.induct)
  case (notice evs d reason)
  with abandoned.notice [of lib mg "a @ evs" d reason] show ?case by simp
next
  case (given_up evs name p r n toks e n' sent limit)
  with abandoned.given_up [of lib mg "a @ evs" name p r n toks e n' sent limit] show ?case by simp
qed simp

lemma abandoned_notices: "list_all is_retry_event ns \<Longrightarrow> abandoned lib mg ns"
proof (induction ns rule: rev_induct)
  case (snoc ev ns)
  then obtain d reason where "ev = RetryEvent d reason" by (auto simp: is_retry_event_def split: stream_event.splits)
  with snoc show ?case by (simp add: abandoned.notice)
qed (rule abandoned.nothing)

lemma abandoned_only_notices:
  assumes "abandoned lib mg evs"
    and "\<forall>name p r n toks e n'. g_providers mg name = Some p \<longrightarrow> p_stream p r n = ((toks, Some (Inl e)), n') \<longrightarrow>
      toks = [] \<or> output_token_limit lib e = None"
  shows "list_all is_retry_event evs"
  using assms(1)
proof (induction rule: abandoned.induct)
  case (given_up evs name p r n toks e n' sent limit)
  with assms(2) have "toks = []" by (metis option.distinct(1))
  with given_up show ?case by simp
qed (simp_all add: is_retry_event_def)

abbreviation text_of :: "stream_token list \<Rightarrow> string" where
  "text_of toks \<equiv> concat (map token_text toks)"

text \<open>The outcome of an attempt at \<open>r\<close> that streamed \<open>toks\<close>.\<close>

definition attempt_result ::
  "retry_lib \<Rightarrow> 'n provider \<Rightarrow> request \<Rightarrow> stream_token list \<Rightarrow> inference_error + (inference_output \<times> string) \<Rightarrow> bool" where
  "attempt_result lib p r toks x \<longleftrightarrow>
     (case x of
        Inr (out, text) \<Rightarrow> text = text_of toks
      | Inl (InferenceCancelled text) \<Rightarrow> text = text_of toks
      | Inl e \<Rightarrow> output_token_limit lib e = None \<or> (\<exists>n n'. p_stream p r n = ((toks, Some (Inl e)), n')))"

lemma stream_attempt_streamed:
  assumes "leaves_cancelling p" and "stream_attempt p model i r n w = (x, w')"
  shows "\<exists>toks. streamed w toks w' \<and> attempt_result lib p r toks x \<and> accumulated_text w' = accumulated_text w"
proof -
  obtain toks outcome w1 where net: "on_net (p_stream p r) (w\<lparr>requests := requests w @ [r]\<rparr>) = ((toks, outcome), w1)"
    by (metis prod.exhaust)
  then have w1: "stream_events w1 = stream_events w" "emitted w1 = emitted w" "accumulated_text w1 = accumulated_text w"
    and out: "\<exists>m m'. p_stream p r m = ((toks, outcome), m')"
    by (auto simp: on_net_def split: prod.splits)
  have "attempt_result lib p r toks x" using assms net out
    by (fastforce simp: stream_attempt_def attempt_result_def leaves_cancelling_def Let_def
        split: option.splits sum.splits if_splits inference_error.splits)
  moreover have "stream_events w' = stream_events w @ map token_event toks" "emitted w' = (emitted w \<or> toks \<noteq> [])"
    "accumulated_text w' = accumulated_text w"
    using assms(2) net w1
    by (auto simp: stream_attempt_def forward_tokens_def record_usage_def Let_def
        split: option.splits sum.splits if_splits)
  then have "streamed w toks w'" "accumulated_text w' = accumulated_text w"
    by (auto simp: streamed_def intro!: exI [of _ "[]"])
  ultimately show ?thesis by blast
qed

abbreviation stream_driver where
  "stream_driver lib p model i r \<equiv> run_with_backoff (\<lambda>e w. is_retryable (lower_table lib) e \<and> \<not> emitted w)
     (\<lambda>e d w. w\<lparr>stream_events := stream_events w @ [RetryEvent d (retry_reason (lower_table lib) e)]\<rparr>)
     (stream_attempt p model i r)"

lemma stream_driver_streamed:
  assumes "leaves_cancelling p"
  shows "stream_driver lib p model i r ds n w = (x, k, w') \<Longrightarrow>
    \<exists>toks. streamed w toks w' \<and> attempt_result lib p r toks x \<and> accumulated_text w' = accumulated_text w"
proof (induction ds arbitrary: n w)
  case Nil
  then show ?case using stream_attempt_streamed [OF assms] by (auto split: prod.splits)
next
  case (Cons d ds)
  obtain x1 w1 where step: "stream_attempt p model i r n w = (x1, w1)" by (cases "stream_attempt p model i r n w")
  obtain toks where t: "streamed w toks w1" "attempt_result lib p r toks x1" "accumulated_text w1 = accumulated_text w"
    using stream_attempt_streamed [OF assms step] by blast
  show ?case
  proof (cases "\<exists>e. x1 = Inl e \<and> is_retryable (lower_table lib) e \<and> \<not> emitted w1")
    case True
    then obtain e where e: "x1 = Inl e" "is_retryable (lower_table lib) e" "\<not> emitted w1" by blast
    let ?w2 = "w1\<lparr>stream_events := stream_events w1 @ [RetryEvent d (retry_reason (lower_table lib) e)]\<rparr>"
    from t(1) e(3) have "streamed w [] ?w2" by (intro streamed_notice) (auto simp: streamed_def)
    moreover from Cons.prems step e have "stream_driver lib p model i r ds (Suc n) ?w2 = (x, k, w')" by simp
    then have "\<exists>toks. streamed ?w2 toks w' \<and> attempt_result lib p r toks x \<and> accumulated_text w' = accumulated_text ?w2"
      by (rule Cons.IH)
    ultimately show ?thesis using t(3) by (auto intro: streamed_trans)
  next
    case False
    with Cons.prems step have "x = x1" "w' = w1" by (auto split: sum.splits if_splits)
    with t show ?thesis by blast
  qed
qed

text \<open>The whole of one model, learned caps included.\<close>

definition model_result ::
  "retry_lib \<Rightarrow> 'n provider \<Rightarrow> request \<Rightarrow> stream_token list \<Rightarrow> inference_error + stream_result \<Rightarrow> bool" where
  "model_result lib p r toks x \<longleftrightarrow> (case x of Inr y \<Rightarrow> True | Inl e \<Rightarrow> output_token_limit lib e = None
     \<or> (\<exists>n n' e0. p_stream p r n = ((toks, Some (Inl e0)), n') \<and> output_token_limit lib e0 = output_token_limit lib e))"

definition shown :: "stream_token list \<Rightarrow> 'e + stream_result \<Rightarrow> 'n retry_world \<Rightarrow> 'n retry_world \<Rightarrow> bool" where
  "shown toks r w w' \<longleftrightarrow>
     accumulated_text w' = accumulated_text w @ (case r of Inl e \<Rightarrow> [] | Inr x \<Rightarrow> text_of toks)"

lemma stream_one_model_streamed:
  assumes "leaves_cancelling p" and "stream_one_model lib mg p model i r w = (x, w')"
  shows "\<exists>toks. streamed w toks w' \<and> model_result lib p r toks x \<and> shown toks x w w'"
proof -
  let ?run = "stream_driver lib p model i r (delays lib (g_retry mg)) 0 w"
  obtain r1 n w1 where run: "?run = (r1, n, w1)" by (cases ?run) auto
  obtain toks where t: "streamed w toks w1" "attempt_result lib p r toks r1" "accumulated_text w1 = accumulated_text w"
    using stream_driver_streamed [OF assms(1) run] by blast
  note run' = stream_one_model_def [of lib mg p model i r w, unfolded run]
  show ?thesis
  proof (cases r1)
    case (Inr v)
    obtain out tx where v: "v = (out, tx)" by (cases v)
    then have "stream_one_model lib mg p model i r w
      = (Inr (Contents (out_content out) (out_usage out)), w1\<lparr>accumulated_text := accumulated_text w1 @ tx\<rparr>)"
      using run' Inr by simp
    moreover have "tx = text_of toks" using t(2) Inr v by (simp add: attempt_result_def)
    ultimately show ?thesis using t(1,3) assms(2)
      by (intro exI [of _ toks]) (auto simp: streamed_def model_result_def shown_def)
  next
    case (Inl e)
    show ?thesis
    proof (cases "\<exists>tx. e = InferenceCancelled tx")
      case True
      then obtain tx where e: "e = InferenceCancelled tx" by blast
      then have "stream_one_model lib mg p model i r w
        = (Inr StreamCancelled, w1\<lparr>accumulated_text := accumulated_text w1 @ tx\<rparr>)"
        using run' Inl by simp
      moreover have "tx = text_of toks" using t(2) Inl e by (simp add: attempt_result_def)
      ultimately show ?thesis using t(1,3) assms(2)
        by (intro exI [of _ toks]) (auto simp: streamed_def model_result_def shown_def)
    next
      case False
      then have "stream_one_model lib mg p model i r w = (Inl (for_model e model n), w1)"
        using run' Inl by (cases e) simp_all
      then have "x = Inl (for_model e model n)" "w' = w1" using assms(2) by simp_all
      moreover have "output_token_limit lib e = None \<or> (\<exists>n n'. p_stream p r n = ((toks, Some (Inl e)), n'))"
        using t(2) False unfolding Inl by (cases e) (simp_all add: attempt_result_def)
      ultimately show ?thesis using t(1,3)
        by (intro exI [of _ toks]) (auto simp: model_result_def shown_def for_model_def)
    qed
  qed
qed

text \<open>What the client has seen: what was abandoned, then the tokens of the attempt that counts.\<close>

definition told :: "retry_lib \<Rightarrow> 'n model_group \<Rightarrow> 'n retry_world \<Rightarrow> stream_token list \<Rightarrow> 'n retry_world \<Rightarrow> bool" where
  "told lib mg w toks w' \<longleftrightarrow> (\<exists>evs. abandoned lib mg evs \<and> stream_events w' = stream_events w @ evs @ map token_event toks)"

lemma told_refl: "told lib mg w [] w"
  by (auto simp: told_def intro!: exI [of _ "[]"] abandoned.nothing)

lemma told_streamed: "told lib mg w [] w1 \<Longrightarrow> streamed w1 toks w2 \<Longrightarrow> told lib mg w toks w2"
  by (fastforce simp: told_def streamed_def intro: abandoned_append abandoned_notices)

lemma told_trans: "told lib mg w [] w1 \<Longrightarrow> told lib mg w1 toks w2 \<Longrightarrow> told lib mg w toks w2"
  by (fastforce simp: told_def intro: abandoned_append)

lemma cap_loop_told:
  assumes p: "g_providers mg name = Some p" "leaves_cancelling p" and rq: "\<And>mt. rq_max_tokens (rq mt) = mt"
    and run: "with_learned_cap lib model (\<lambda>mt. stream_one_model lib mg p model i (rq mt)) mt w = (x, w')"
  shows "\<exists>toks. told lib mg w toks w' \<and> shown toks x w w' \<and> (emitted w' \<or> toks = [])"
  using run
proof (rule with_learned_cap_inv [where I = "\<lambda>mt v. told lib mg w [] v \<and> accumulated_text v = accumulated_text w"])
  let ?I = "\<lambda>v. told lib mg w [] v \<and> accumulated_text v = accumulated_text w"
  show "?I w" by (simp add: told_refl)
  have step: "\<exists>toks. streamed v toks w1 \<and> told lib mg w toks w1 \<and> model_result lib p (rq m) toks y \<and> shown toks y w w1
      \<and> (emitted w1 \<or> toks = [])"
    if I: "?I v" and one: "stream_one_model lib mg p model i (rq m) v = (y, w1)" for v m y w1
  proof -
    obtain toks where t: "streamed v toks w1" "model_result lib p (rq m) toks y" "shown toks y v w1"
      using stream_one_model_streamed [OF p(2) one] by blast
    moreover from t(1) have "emitted w1 \<or> toks = []" by (auto simp: streamed_def)
    moreover from told_streamed [of lib mg w v toks w1] I t(1) have "told lib mg w toks w1" by blast
    ultimately show ?thesis using I by (auto simp: shown_def)
  qed
  show "\<exists>toks. told lib mg w toks w1 \<and> shown toks (Inr y :: inference_error + stream_result) w w1 \<and> (emitted w1 \<or> toks = [])"
    if "?I v" "stream_one_model lib mg p model i (rq m) v = (Inr y, w1)" for m v y w1
    using step [OF that] by blast
  show "\<exists>toks. told lib mg w toks w1 \<and> shown toks (Inl e :: inference_error + stream_result) w w1 \<and> (emitted w1 \<or> toks = [])"
    if "?I v" "stream_one_model lib mg p model i (rq m) v = (Inl e, w1)" for m v e w1
    using step [OF that] by blast
  show "?I w2"
    if I: "?I v" and one: "stream_one_model lib mg p model i (rq m) v = (Inl e, w1)"
      and learn: "learn_output_cap lib model m e w1 = (Some cap, w2)" for m v e w1 cap w2
  proof -
    obtain toks where t: "told lib mg w toks w1" "model_result lib p (rq m) toks (Inl e :: inference_error + stream_result)"
      "shown toks (Inl e :: inference_error + stream_result) w w1"
      using step [OF I one] by blast
    obtain sent where sent: "m = Some sent" "cap < sent" and limit: "output_token_limit lib e = Some cap"
      and w2: "stream_events w2 = stream_events w1" "accumulated_text w2 = accumulated_text w1"
      using learn by (auto simp: learn_output_cap_def split: option.splits if_splits)
    from t(2) limit obtain n n' e0 where call: "p_stream p (rq m) n = ((toks, Some (Inl e0)), n')"
      and "output_token_limit lib e0 = Some cap"
      by (auto simp: model_result_def)
    with abandoned.given_up [OF _ p(1) call, of lib _ sent cap] rq [of m] sent
    have "abandoned lib mg evs \<Longrightarrow> abandoned lib mg (evs @ map token_event toks)" for evs by simp
    with t(1) have "told lib mg w [] w1" by (fastforce simp: told_def)
    with t(3) w2 show ?thesis by (auto simp: told_def shown_def)
  qed
qed

lemma stream_models_told:
  assumes "\<And>name p. g_providers mg name = Some p \<Longrightarrow> leaves_cancelling p"
    and "stream_models lib mg ov sys hist tools ms i errs w = (x, w')"
  shows "\<exists>toks. told lib mg w toks w' \<and> shown toks x w w'"
  using assms(2)
proof (induction ms arbitrary: i errs w)
  case Nil
  then have "w' = w" "x = Inl (AllFallbacksFailed errs)" by auto
  then show ?case using told_refl [of lib mg w] by (auto simp: shown_def)
next
  case (Cons m ms)
  show ?case
  proof (cases "provider_for (g_providers mg) m")
    case (Inl e)
    with Cons show ?thesis by fastforce
  next
    case (Inr p)
    then obtain name where p: "g_providers mg name = Some p" by (auto simp: provider_for_def split: option.splits)
    let ?w0 = "w\<lparr>emitted := False\<rparr>"
    let ?run = "with_learned_cap lib m (\<lambda>mt. stream_one_model lib mg p m i (stream_request ov sys hist tools m mt))
      (capped_max_tokens m (requested_tokens ov m) w) ?w0"
    obtain r1 w1 where step: "?run = (r1, w1)" by (cases ?run)
    obtain toks where "told lib mg ?w0 toks w1" "shown toks r1 ?w0 w1" and em: "emitted w1 \<or> toks = []"
      using cap_loop_told [OF p assms(1) [OF p] _ step] by auto
    then have t: "told lib mg w toks w1" "shown toks r1 w w1" by (simp_all add: told_def shown_def)
    show ?thesis
    proof (cases "\<exists>e. r1 = Inl e \<and> \<not> emitted w1")
      case True
      then obtain e where e: "r1 = Inl e" "\<not> emitted w1" by blast
      with Cons.prems step Inr have "stream_models lib mg ov sys hist tools ms (Suc i) (errs @ [e]) w1 = (x, w')" by simp
      from Cons.IH [OF this] obtain toks' where "told lib mg w1 toks' w'" "shown toks' x w1 w'" by blast
      moreover from t e em have "told lib mg w [] w1" "accumulated_text w1 = accumulated_text w"
        by (auto simp: shown_def)
      ultimately show ?thesis by (auto simp: shown_def intro: told_trans)
    next
      case False
      with Cons.prems step Inr have "w' = w1" "shown toks x w w'"
        using t(2) by (cases r1; auto simp: shown_def)+
      with t(1) show ?thesis by blast
    qed
  qed
qed

text \<open>
  C23. The reply of a stream is that of one attempt, across all retries, lowered caps and
  fallbacks: the text added to it is exactly the text of the tokens sent last, when the call
  returns contents or was cancelled, and nothing when it fails. What the client received before
  those tokens is retry notices and, of other attempts, only the tokens of those that a provider
  ended, after it had begun to answer, by stating an output limit below the one asked for; where
  providers state their limits before they answer, nothing but notices. (Only \<open>stream_one_model\<close>
  makes the error of a cancelled stream, so a provider is taken not to return it.)
\<close>

theorem streamed_reply_is_one_attempt:
  assumes "\<And>name p. g_providers mg name = Some p \<Longrightarrow> leaves_cancelling p"
  shows "\<exists>before toks. abandoned lib mg before
    \<and> stream_events (snd (stream_with_retry_and_fallback lib mg ov sys hist tools w))
        = stream_events w @ before @ map token_event toks
    \<and> shown toks (fst (stream_with_retry_and_fallback lib mg ov sys hist tools w)) w
        (snd (stream_with_retry_and_fallback lib mg ov sys hist tools w))
    \<and> ((\<forall>name p r n ts e n'. g_providers mg name = Some p \<longrightarrow> p_stream p r n = ((ts, Some (Inl e)), n') \<longrightarrow>
          ts = [] \<or> output_token_limit lib e = None) \<longrightarrow> list_all is_retry_event before)"
proof -
  let ?run = "stream_models lib mg ov sys hist tools (group_models mg) 0 [] w"
  obtain r w' where run: "?run = (r, w')" by (cases ?run)
  have "\<exists>toks. told lib mg w toks w' \<and> shown toks r w w'" by (rule stream_models_told [OF _ run]) (rule assms)
  then obtain before toks where "abandoned lib mg before"
    "stream_events w' = stream_events w @ before @ map token_event toks" "shown toks r w w'"
    by (auto simp: told_def)
  with run abandoned_only_notices [of lib mg before] show ?thesis
    by (intro exI [of _ before] exI [of _ toks] conjI impI)
      (cases r; simp add: stream_with_retry_and_fallback_def shown_def)+
qed

definition demo_retry_lib :: retry_lib where
  "demo_retry_lib = \<lparr>captures = (\<lambda>_ _. None), completion_text = (\<lambda>_. []), delays = (\<lambda>_. [5, 10]),
     lower_table = (\<lambda>c. c)\<rparr>"

text \<open>A provider that is rate limited on its first call and then streams a greeting.\<close>

definition demo_stream :: "request \<Rightarrow> nat \<Rightarrow> (stream_token list \<times> (inference_error + inference_output) option) \<times> nat" where
  "demo_stream r n =
     (if n = 0 then (([], Some (Inl (RateLimited 1))), 1)
      else (([TextToken ''h'', TextToken ''i''],
             Some (Inr \<lparr>out_content = [AssistantText ''hi''], out_usage = default_usage, out_ttft_ms = None\<rparr>)), n))"

definition demo_provider :: "nat provider" where
  "demo_provider = \<lparr>p_ensure_usable = (\<lambda>m n. (Inr (), n)), p_inference = (\<lambda>r n. (Inl EmptyResponse, n)),
     p_structured = (\<lambda>r n. (Inl EmptyResponse, n)), p_stream = demo_stream\<rparr>"

definition demo_group :: "nat model_group" where
  "demo_group = \<lparr>g_main = \<lparr>mc_provider_name = ''p'', mc_model_id = ''m'', mc_max_tokens = None, mc_temperature = None\<rparr>,
     g_fallbacks = [], g_context_window = 1000,
     g_retry = \<lparr>max_retries = 2, initial_backoff_ms = 5, backoff_multiplier = ''2'', max_backoff_ms = 10\<rparr>,
     g_default_max_tokens = 100, g_truncation_pct = 80,
     g_providers = (\<lambda>name. if name = ''p'' then Some demo_provider else None)\<rparr>"

definition demo_retry_world :: "nat retry_world" where
  "demo_retry_world = \<lparr>learned_caps = (\<lambda>_. None), usage_rows = [], stream_events = [], emitted = False,
     accumulated_text = ''>'', requests = [], net = 0\<rparr>"

definition no_overrides :: request_overrides where
  "no_overrides = \<lparr>ov_max_tokens = None, ov_temperature = None\<rparr>"

lemmas demo_defs = demo_retry_lib_def demo_stream_def demo_provider_def demo_group_def demo_retry_world_def
  no_overrides_def default_usage_def

lemma demo_stream_run:
  "stream_events (snd (stream_with_retry_and_fallback demo_retry_lib demo_group no_overrides [] [] [] demo_retry_world))
     = [RetryEvent 5 ''rate_limited'', TextEvent ''h'', TextEvent ''i'']"
  "accumulated_text (snd (stream_with_retry_and_fallback demo_retry_lib demo_group no_overrides [] [] [] demo_retry_world)) = ''>hi''"
  by (simp_all add: stream_with_retry_and_fallback_def group_models_def demo_defs provider_for_def
      with_learned_cap.simps stream_one_model_def stream_attempt_def on_net_def forward_tokens_def Let_def
      record_usage_def stream_request_def)

theorem streamed_reply_is_one_attempt_witness:
  "let w' = snd (stream_with_retry_and_fallback demo_retry_lib demo_group no_overrides [] [] [] demo_retry_world)
   in accumulated_text w' = ''>hi'' \<and>
      (\<exists>notices toks. list_all is_retry_event notices
         \<and> [RetryEvent 5 ''rate_limited'', TextEvent ''h'', TextEvent ''i''] = notices @ map token_event toks)"
proof -
  let ?out = "stream_with_retry_and_fallback demo_retry_lib demo_group no_overrides [] [] [] demo_retry_world"
  have lc: "leaves_cancelling p" if "g_providers demo_group name = Some p" for name p
    using that by (auto simp: demo_defs leaves_cancelling_def split: if_splits)
  have early: "\<forall>name p r n ts e n'. g_providers demo_group name = Some p \<longrightarrow> p_stream p r n = ((ts, Some (Inl e)), n') \<longrightarrow>
      ts = [] \<or> output_token_limit demo_retry_lib e = None"
    by (auto simp: demo_defs split: if_splits)
  have "\<exists>before toks. abandoned demo_retry_lib demo_group before
      \<and> stream_events (snd ?out) = stream_events demo_retry_world @ before @ map token_event toks
      \<and> shown toks (fst ?out) demo_retry_world (snd ?out)
      \<and> ((\<forall>name p r n ts e n'. g_providers demo_group name = Some p \<longrightarrow> p_stream p r n = ((ts, Some (Inl e)), n') \<longrightarrow>
            ts = [] \<or> output_token_limit demo_retry_lib e = None) \<longrightarrow> list_all is_retry_event before)"
    by (rule streamed_reply_is_one_attempt) (rule lc)
  with early obtain notices toks where "list_all is_retry_event notices"
    "[RetryEvent 5 ''rate_limited'', TextEvent ''h'', TextEvent ''i''] = notices @ map token_event toks"
    unfolding demo_stream_run by (auto simp: demo_retry_world_def)
  then show ?thesis unfolding Let_def demo_stream_run(2) by blast
qed

section \<open>How many requests a call sends\<close>

abbreviation tokens :: "nat option \<Rightarrow> nat" where
  "tokens mt \<equiv> (case mt of None \<Rightarrow> 0 | Some n \<Rightarrow> n)"

abbreviation sent :: "'n retry_world \<Rightarrow> nat" where
  "sent w \<equiv> length (requests w)"

lemma run_with_backoff_sent:
  assumes "\<And>n w r w'. op n w = (r, w') \<Longrightarrow> sent w' \<le> Suc (sent w)" and "\<And>e d w. sent (notify e d w) = sent w"
  shows "run_with_backoff when_ok notify op ds n w = (r, k, w') \<Longrightarrow> sent w' \<le> sent w + Suc (length ds)"
proof (induction ds arbitrary: n w)
  case Nil
  then show ?case using assms(1) by (auto split: prod.splits)
next
  case (Cons d ds)
  obtain r1 w1 where step: "op n w = (r1, w1)" by (cases "op n w")
  note one = assms(1) [OF step]
  show ?case
  proof (cases "\<exists>e. r1 = Inl e \<and> when_ok e w1")
    case True
    then obtain e where "r1 = Inl e" "when_ok e w1" by blast
    with Cons.prems step have "run_with_backoff when_ok notify op ds (Suc n) (notify e d w1) = (r, k, w')" by simp
    from Cons.IH [OF this] one show ?thesis by (simp add: assms(2))
  next
    case False
    with Cons.prems step have "w' = w1" by (auto split: sum.splits if_splits)
    with one show ?thesis by simp
  qed
qed

lemma with_learned_cap_sent:
  assumes "\<And>mt w r w'. attempt mt w = (r, w') \<Longrightarrow> sent w' \<le> sent w + k"
    and "with_learned_cap lib model attempt mt w = (r, w')"
  shows "sent w' \<le> sent w + k * Suc (tokens mt)"
  using assms(2)
proof (rule with_learned_cap_inv [where
      I = "\<lambda>m v. sent v + k * Suc (tokens m) \<le> sent w + k * Suc (tokens mt)" and
      Q = "\<lambda>_ v. sent v \<le> sent w + k * Suc (tokens mt)"])
  show "sent w1 \<le> sent w + k * Suc (tokens mt)"
    if "sent v + k * Suc (tokens m) \<le> sent w + k * Suc (tokens mt)" "attempt m v = (Inr x, w1)" for m v x w1
    using assms(1) [OF that(2)] that(1) by simp
  show "sent w1 \<le> sent w + k * Suc (tokens mt)"
    if "sent v + k * Suc (tokens m) \<le> sent w + k * Suc (tokens mt)" "attempt m v = (Inl e, w1)" for m v e w1
    using assms(1) [OF that(2)] that(1) by simp
  show "sent w2 + k * Suc (tokens (Some cap)) \<le> sent w + k * Suc (tokens mt)"
    if "sent v + k * Suc (tokens m) \<le> sent w + k * Suc (tokens mt)" "attempt m v = (Inl e, w1)"
      "learn_output_cap lib model m e w1 = (Some cap, w2)" for m v e w1 cap w2
  proof -
    from learn_output_cap_Some [OF that(3)] obtain n where n: "m = Some n" "cap < n" "sent w2 = sent w1" by auto
    then have "k * Suc cap + k \<le> k * Suc n"
      by (metis Suc_leI Suc_le_mono add.commute mult_Suc_right mult_le_mono2)
    with n assms(1) [OF that(2)] that(1) show ?thesis by simp
  qed
qed simp

lemma retry_with_backoff_sent:
  assumes "\<And>w r w'. op w = (r, w') \<Longrightarrow> sent w' \<le> Suc (sent w)"
    and "retry_with_backoff lib cfg model op w = (r, w')"
  shows "sent w' \<le> sent w + Suc (length (delays lib cfg))"
proof -
  let ?run = "run_with_backoff (\<lambda>e w. is_retryable (lower_table lib) e) (\<lambda>e d w. w) (\<lambda>_. op) (delays lib cfg) 0 w"
  obtain r1 n w1 where run: "?run = (r1, n, w1)" by (cases ?run) auto
  have "sent w1 \<le> sent w + Suc (length (delays lib cfg))"
    using assms(1) refl run by (rule run_with_backoff_sent)
  with run assms(2) show ?thesis by (cases r1) (auto simp: retry_with_backoff_def)
qed

lemma send_to_sent: "send_to mg ov sys hist payload pick model mt w = (r, w') \<Longrightarrow> sent w' \<le> Suc (sent w)"
  by (auto simp: send_to_def send_request_def on_net_def split: sum.splits prod.splits)

text \<open>The most requests one model can cause.\<close>

definition model_limit :: "retry_lib \<Rightarrow> 'n model_group \<Rightarrow> request_overrides \<Rightarrow> model_config \<Rightarrow> nat" where
  "model_limit lib mg ov model = Suc (length (delays lib (g_retry mg))) * Suc (tokens (requested_tokens ov model))"

lemma tokens_capped: "tokens (capped_max_tokens model mt w) \<le> tokens mt"
  by (simp add: capped_max_tokens_def split: option.split)

lemma model_limit_capped:
  "Suc (length (delays lib (g_retry mg))) * Suc (tokens (capped_max_tokens model (requested_tokens ov model) w))
     \<le> model_limit lib mg ov model"
  unfolding model_limit_def by (intro mult_le_mono2) (use tokens_capped in auto)

lemma infer_one_sent:
  assumes "infer_one lib mg ov sys hist payload pick model w = (r, w')"
  shows "sent w' \<le> sent w + model_limit lib mg ov model"
proof -
  have "sent w' \<le> sent w + Suc (length (delays lib (g_retry mg)))
      * Suc (tokens (capped_max_tokens model (requested_tokens ov model) w))"
    by (rule with_learned_cap_sent [OF _ assms [unfolded infer_one_def]]) (rule retry_with_backoff_sent [OF send_to_sent])
  with model_limit_capped [of lib mg model ov w] show ?thesis by linarith
qed

lemma try_models_sent:
  assumes "\<And>m w r w'. one m w = (r, w') \<Longrightarrow> sent w' \<le> sent w + limit m"
  shows "try_models one row ms i errs w = (r, w') \<Longrightarrow> sent w' \<le> sent w + sum_list (map limit ms)"
proof (induction ms arbitrary: i errs w)
  case (Cons m ms)
  obtain r1 w1 where step: "one m w = (r1, w1)" by (cases "one m w")
  show ?case
  proof (cases r1)
    case (Inl e)
    with Cons.prems step have "try_models one row ms (Suc i) (errs @ [e]) w1 = (r, w')" by simp
    from Cons.IH [OF this] assms [OF step] show ?thesis by simp
  next
    case (Inr v)
    with Cons.prems step assms [OF step] show ?thesis by (auto simp: record_usage_def)
  qed
qed simp

lemma call_sent:
  "sent (snd (qbind (ensure_usable mg) (\<lambda>_. try_models (infer_one lib mg ov sys hist payload pick) row ms 0 []) w))
      \<le> sent w + sum_list (map (model_limit lib mg ov) ms)"
proof (cases "ensure_usable mg w")
  case (Pair u w1)
  then have same: "sent w1 = sent w" unfolding ensure_usable_def by (auto dest!: ensure_usable_from_same)
  obtain r w2 where t: "try_models (infer_one lib mg ov sys hist payload pick) row ms 0 [] w1 = (r, w2)"
    by (cases "try_models (infer_one lib mg ov sys hist payload pick) row ms 0 [] w1")
  have "sent w2 \<le> sent w1 + sum_list (map (model_limit lib mg ov) ms)"
    using infer_one_sent t by (rule try_models_sent)
  with Pair same t show ?thesis by (cases u) (simp_all add: qbind_def)
qed

lemma qbind_ret_world: "snd (qbind m (\<lambda>x. ret (f x)) w) = snd (m w)"
  by (simp add: qbind_def ret_def split: prod.split sum.split)

text \<open>
  C28. Retries, lowered caps and fallbacks always come to an end: a completion or structured
  extraction sends at most one request per entry of the retry schedule plus one, for each of
  the models and each value the requested number of tokens can be lowered to.
\<close>

theorem requests_are_bounded:
  "sent (snd (inference_with_retry_and_fallback lib mg ov sys hist tools w))
      \<le> sent w + sum_list (map (model_limit lib mg ov) (group_models mg))
   \<and> sent (snd (structured_inference_with_retry_and_fallback lib mg ov sys hist schema w))
      \<le> sent w + sum_list (map (model_limit lib mg ov) (group_models mg))"
  unfolding inference_as_try_models structured_inference_with_retry_and_fallback_def qbind_ret_world
  by (intro conjI call_sent)

end
