(* ===== verification/Token_Props.thy ===== *)
theory Token_Props
  imports Token_Service
begin

text \<open>
  What the token service guarantees: which tokens each entry point accepts, that the two halves of
  a signing key always match, that a fresh access token is accepted, that a refresh token works
  once, and that revoking ends every session of a user.
\<close>

section \<open>Tokens that are gone stay gone\<close>

definition absent :: "string set \<Rightarrow> 'w token_world_scheme \<Rightarrow> bool" where
  "absent X w \<longleftrightarrow> (\<forall>t \<in> set (api_tokens w). k_id t \<notin> X)"

lemma absent_update [simp]:
  "absent X (w\<lparr>faults := fs\<rparr>) = absent X w" "absent X (w\<lparr>keypairs := ks\<rparr>) = absent X w"
  "absent X (w\<lparr>signing_cache := a\<rparr>) = absent X w" "absent X (w\<lparr>verifying_cache := b\<rparr>) = absent X w"
  "absent X (w\<lparr>user_cache := c\<rparr>) = absent X w" "absent X (w\<lparr>clock := d\<rparr>) = absent X w"
  by (simp_all add: absent_def)

lemma absent_keypairs_update [simp]: "absent X (keypairs_update f w) = absent X w"
  by (cases w) (simp add: absent_def)

lemma absent_filter: "absent X w \<Longrightarrow> absent X (w\<lparr>api_tokens := filter P (api_tokens w)\<rparr>)"
  by (simp add: absent_def)

lemma keeps_absent_read [keep_rules]: "keeps (absent X) (db_read f)"
  by (rule keeps_db_read) simp

lemma keeps_absent_create [keep_rules]:
  assumes "k_id t \<notin> X"
  shows "keeps (absent X) (repo_create api_tokens api_tokens_update k_id t)"
  unfolding repo_create_def
  by (rule keeps_db_call) (use assms in \<open>auto simp: absent_def create_row_def split: option.split\<close>)

lemma keeps_absent_create_key [keep_rules]: "keeps (absent X) (repo_create keypairs keypairs_update kp_id kp)"
  unfolding repo_create_def by (rule keeps_db_call) (auto split: option.split)

lemma keeps_absent_delete_key [keep_rules]: "keeps (absent X) (repo_delete keypairs_update kp_id i)"
  unfolding repo_delete_def by (rule keeps_db_write) auto

lemma keeps_absent_modify_cache [keep_rules]:
  "keeps (absent X) (modify (\<lambda>w. w\<lparr>signing_cache := f w\<rparr>))" "keeps (absent X) (modify (\<lambda>w. w\<lparr>verifying_cache := g w\<rparr>))"
  "keeps (absent X) (modify (\<lambda>w. w\<lparr>user_cache := h w\<rparr>))"
  by (rule keeps_modify, simp)+

lemma api_tokens_update_apply: "api_tokens_update f w = w\<lparr>api_tokens := f (api_tokens w)\<rparr>"
  by (cases w) simp

lemma absent_delete: "absent X w \<Longrightarrow> absent X (api_tokens_update (delete_row k_id i) w)"
  by (cases w) (simp add: absent_def delete_row_def)

lemma absent_users [simp]: "absent X (w\<lparr>users := us\<rparr>) = absent X w"
  by (simp add: absent_def)

lemma keeps_absent_repo [keep_rules]:
  "keeps (absent X) (update_last_used i)" "keeps (absent X) delete_expired" "keeps (absent X) (delete_by_refresh_pair p)"
  "keeps (absent X) (delete_by_user_id u)" "keeps (absent X) (repo_delete api_tokens_update k_id i)"
proof -
  show "keeps (absent X) (update_last_used i)" unfolding update_last_used_def
    by (rule keeps_db_write) (auto simp: absent_def)
  show "keeps (absent X) delete_expired" unfolding delete_expired_def
    by (intro keep_rules keeps_db_write) (simp_all add: absent_filter)
  show "keeps (absent X) (delete_by_refresh_pair p)" unfolding delete_by_refresh_pair_def
    by (rule keeps_db_call) (simp_all add: absent_filter)
  show "keeps (absent X) (delete_by_user_id u)" unfolding delete_by_user_id_def
    by (rule keeps_db_write) (simp_all add: absent_filter)
  show "keeps (absent X) (repo_delete api_tokens_update k_id i)" unfolding repo_delete_def
    by (rule keeps_db_write) (simp_all add: absent_delete)
qed

lemma keeps_absent_queries [keep_rules]:
  "keeps (absent X) (find_by_user_id u)" "keeps (absent X) (find_active_by_id i)"
  "keeps (absent X) (find_active_by_owner ow)" "keeps (absent X) (repo_find_by_id users usr_id i)"
  unfolding find_by_user_id_def find_active_by_id_def find_active_by_owner_def repo_find_by_id_def
  by (intro keep_rules)+

lemma keeps_absent_find_user [keep_rules]: "keeps (absent X) (find_user i)"
  unfolding find_user_def by (intro keep_rules)

lemma keeps_absent_get_or_create [keep_rules]: "keeps (absent X) (get_or_create crypto ek fk ow)"
  unfolding get_or_create_def by (auto intro!: keep_rules split: option.split)

lemma keeps_absent_private_bytes [keep_rules]: "keeps (absent X) (private_bytes crypto ek fk ow kp)"
  unfolding private_bytes_def by (auto intro!: keep_rules split: sum.split app_error.split)

lemma keeps_absent_keys [keep_rules]:
  "keeps (absent X) (get_signing_key crypto ek fk1 fk2 ow)" "keeps (absent X) (get_verifying_key kid)"
  unfolding get_signing_key_def get_verifying_key_def find_by_kid_def
  by (auto intro!: keep_rules split: option.split)

lemma keeps_absent_create_token [keep_rules]:
  "ft_id ft \<notin> X \<Longrightarrow> keeps (absent X) (create_token cfg ft user req)"
  unfolding create_token_def by (auto intro!: keep_rules split: prod.split)

lemma keeps_absent_mint [keep_rules]:
  "ft_id ft \<notin> X \<Longrightarrow> keeps (absent X) (create_access_token cfg ft user name)"
  "ft_id ft \<notin> X \<Longrightarrow> keeps (absent X) (create_app_gate_code cfg ft user)"
  "ft_id ft \<notin> X \<Longrightarrow> keeps (absent X) (create_app_session cfg ft user)"
  "ft_id ft \<notin> X \<Longrightarrow> keeps (absent X) (create_pat cfg ft user preq)"
  "ft_id ft \<notin> X \<Longrightarrow> ft_id ft2 \<notin> X \<Longrightarrow> keeps (absent X) (create_session_pair cfg pair ft ft2 user)"
  unfolding create_access_token_def create_app_gate_code_def create_app_session_def create_pat_def
    create_session_pair_def Let_def
  by (intro keep_rules; assumption)+

lemma keeps_absent_validate_any [keep_rules]: "keeps (absent X) (validate_any cfg tok)"
  unfolding validate_any_def by (intro keep_rules)

lemma keeps_absent_validate [keep_rules]:
  "keeps (absent X) (validate cfg tok)" "keeps (absent X) (validate_refresh cfg tok)"
  "keeps (absent X) (validate_scoped cfg tok scope)" "keeps (absent X) (validate_agent_trigger cfg tok)"
  unfolding validate_def validate_refresh_def validate_scoped_def validate_agent_trigger_def
  by (intro keep_rules)+

lemma keeps_absent_session [keep_rules]:
  "keeps (absent X) (consume_pair found)"
  "ft_id ft \<notin> X \<Longrightarrow> ft_id ft2 \<notin> X \<Longrightarrow> keeps (absent X) (new_session cfg pair ft ft2 c)"
  unfolding consume_pair_def new_session_def by (auto intro!: keep_rules split: option.split prod.split)

lemma keeps_absent_refresh [keep_rules]:
  "ft_id ft \<notin> X \<Longrightarrow> ft_id ft2 \<notin> X \<Longrightarrow> keeps (absent X) (refresh_session cfg pair ft ft2 tok)"
  unfolding refresh_session_def by (intro keep_rules)

lemma keeps_absent_revoke [keep_rules]:
  "keeps (absent X) (revoke_session p)" "keeps (absent X) (delete_pat u i)" "keeps (absent X) cleanup_expired"
  unfolding revoke_session_def delete_pat_def cleanup_expired_def by (intro keep_rules)+

lemma absent_revoke_loop: "absent X w \<Longrightarrow> absent X (snd (revoke_loop u a w))"
proof (induction u a w rule: revoke_loop.induct)
  case (1 u a w)
  obtain r w1 where d: "delete_by_user_id u w = (r, w1)" by (cases "delete_by_user_id u w")
  have "absent X w1" using validD [OF keeps_absent_repo(4) 1(2) d] .
  with 1(1) d show ?case by (cases r) (auto simp: revoke_loop.simps [of u a w])
qed

lemma keeps_absent_revoke_all [keep_rules]: "keeps (absent X) (revoke_all_for_user u)"
  using absent_revoke_loop by (fastforce simp: valid_def revoke_all_for_user_def split_beta)

section \<open>Runs of the service\<close>

text \<open>
  One call of the service, with fresh ids outside \<open>X\<close> where it creates tokens; the clock may
  move, calls to the database may fail, caches may be evicted and users change at any time.
\<close>

inductive token_step :: "string set \<Rightarrow> token_world \<Rightarrow> token_world \<Rightarrow> bool" for X where
  step_session: "ft_id ft \<notin> X \<Longrightarrow> ft_id ft2 \<notin> X \<Longrightarrow> token_step X w (snd (create_session_pair cfg pair ft ft2 user w))"
| step_access: "ft_id ft \<notin> X \<Longrightarrow> token_step X w (snd (create_access_token cfg ft user name w))"
| step_gate: "ft_id ft \<notin> X \<Longrightarrow> token_step X w (snd (create_app_gate_code cfg ft user w))"
| step_app: "ft_id ft \<notin> X \<Longrightarrow> token_step X w (snd (create_app_session cfg ft user w))"
| step_pat: "ft_id ft \<notin> X \<Longrightarrow> token_step X w (snd (create_pat cfg ft user preq w))"
| step_refresh: "ft_id ft \<notin> X \<Longrightarrow> ft_id ft2 \<notin> X \<Longrightarrow> token_step X w (snd (refresh_session cfg pair ft ft2 tok w))"
| step_validate: "token_step X w (snd (validate cfg tok w))"
| step_validate_refresh: "token_step X w (snd (validate_refresh cfg tok w))"
| step_validate_scoped: "token_step X w (snd (validate_scoped cfg tok scope w))"
| step_validate_trigger: "token_step X w (snd (validate_agent_trigger cfg tok w))"
| step_revoke: "token_step X w (snd (revoke_session p w))"
| step_delete_pat: "token_step X w (snd (delete_pat u i w))"
| step_cleanup: "token_step X w (snd (cleanup_expired w))"
| step_revoke_all: "token_step X w (snd (revoke_all_for_user u w))"
| step_outside: "token_step X w (w\<lparr>clock := c, faults := fs, users := us, user_cache := uc,
    keypairs := ks, signing_cache := sc, verifying_cache := vc\<rparr>)"

inductive token_run :: "string set \<Rightarrow> token_world \<Rightarrow> token_world \<Rightarrow> bool" for X where
  token_refl: "token_run X w w"
| token_next: "token_run X w w' \<Longrightarrow> token_step X w' w'' \<Longrightarrow> token_run X w w''"

lemma token_step_absent: "token_step X w w' \<Longrightarrow> absent X w \<Longrightarrow> absent X w'"
  by (induction rule: token_step.induct) (auto intro: valid_snd keep_rules)

lemma token_run_absent: "token_run X w w' \<Longrightarrow> absent X w \<Longrightarrow> absent X w'"
  by (induction rule: token_run.induct) (auto intro: token_step_absent)

section \<open>What is accepted\<close>

text \<open>The tables and the clock, which looking up a verifying key leaves alone.\<close>

definition same_tables :: "'w token_world_scheme \<Rightarrow> 'w token_world_scheme \<Rightarrow> bool" where
  "same_tables w w' \<longleftrightarrow> api_tokens w' = api_tokens w \<and> clock w' = clock w \<and> keypairs w' = keypairs w"

lemma same_tables_faults: "same_tables w v \<Longrightarrow> same_tables w (v\<lparr>faults := fs\<rparr>)"
  by (simp add: same_tables_def)

lemma get_verifying_key_same: "keeps (same_tables w) (get_verifying_key kid)"
  unfolding get_verifying_key_def find_by_kid_def find_active_by_owner_def
  by (auto intro!: keep_rules keeps_db_read keeps_modify split: option.split simp: same_tables_def)

lemma find_active_by_id_run:
  assumes "qbind (find_active_by_id i) (ok_or e) w = (r, w')"
  shows "w' = w\<lparr>faults := tl (faults w)\<rparr> \<and>
    (\<forall>t. r = Inr t \<longrightarrow> t \<in> set (api_tokens w) \<and> k_id t = i \<and> live (clock w) t)
    \<and> ((\<forall>t \<in> set (api_tokens w). k_id t \<noteq> i) \<longrightarrow> (\<exists>e'. r = Inl e'))"
  using assms
proof (cases rule: qbind_cases)
  case (error e')
  then show ?thesis by (auto simp: find_active_by_id_def dest!: db_read_Inl)
next
  case (okay found w1)
  then have w1: "w1 = w\<lparr>faults := tl (faults w)\<rparr>"
    and found: "found = find (\<lambda>t. k_id t = i \<and> live (clock w) t) (api_tokens w)"
    by (auto simp: find_active_by_id_def dest!: db_read_Inr)
  show ?thesis
  proof (cases found)
    case None
    with okay(2) w1 show ?thesis by (auto simp: ok_or_def fail_def)
  next
    case (Some t)
    with found have t: "t \<in> set (api_tokens w)" "k_id t = i" "live (clock w) t"
      by (auto dest!: find_eq_SomeD [OF sym])
    from okay(2) Some have "r = Inr t" "w' = w1" by (simp_all add: ok_or_def ret_def)
    with t w1 show ?thesis by auto
  qed
qed

definition presented :: "token_config \<Rightarrow> string \<Rightarrow> 'w token_world_scheme \<Rightarrow> claims \<Rightarrow> bool" where
  "presented cfg tok w c \<longleftrightarrow> (\<exists>kid key w1. jwt_header_kid (tc_jwt cfg) tok = Inr (Some kid)
     \<and> get_verifying_key kid w = (Inr key, w1) \<and> jwt_decode (tc_jwt cfg) tok key (clock w) = Inr c)"

text \<open>The steps of a successful check, with the world it leaves behind.\<close>

lemma validate_any_Inr:
  assumes "validate_any cfg tok w = (Inr c, w')"
  shows "presented cfg tok w c \<and> map (\<lambda>t. (k_id t, k_refresh_pair_id t)) (api_tokens w')
      = map (\<lambda>t. (k_id t, k_refresh_pair_id t)) (api_tokens w)
    \<and> (c_token_type c = token_type_str Ephemeral
       \<or> (\<exists>t \<in> set (api_tokens w). k_id t = c_token_id c \<and> live (clock w) t))"
proof -
  obtain kid where kid: "jwt_header_kid (tc_jwt cfg) tok = Inr (Some kid)"
    using assms by (auto simp: validate_any_def from_result_def decode_unverified_header_def ok_or_def fail_def
        elim!: qbind_Inr_E split: option.splits)
  with assms have run: "qbind (get_verifying_key kid) (\<lambda>decoding_key.
     qbind (gets clock) (\<lambda>now.
     qbind (from_result (jwt_verify (tc_jwt cfg) now tok decoding_key)) (\<lambda>c.
     if c_token_type c = token_type_str Ephemeral then ret c else
     qbind (qbind (find_active_by_id (c_token_id c)) (ok_or (token_invalid ''Token revoked''))) (\<lambda>db_token.
     qbind (ignore (update_last_used (k_id db_token))) (\<lambda>_.
     ret c))))) w = (Inr c, w')"
    by (simp add: validate_any_def qbind_def [of "from_result _"] from_result_def decode_unverified_header_def
        map_err_def ok_or_def)
  then obtain key w1 where key: "get_verifying_key kid w = (Inr key, w1)"
    and rest: "qbind (from_result (jwt_verify (tc_jwt cfg) (clock w1) tok key)) (\<lambda>c.
     if c_token_type c = token_type_str Ephemeral then ret c else
     qbind (qbind (find_active_by_id (c_token_id c)) (ok_or (token_invalid ''Token revoked''))) (\<lambda>db_token.
     qbind (ignore (update_last_used (k_id db_token))) (\<lambda>_. ret c))) w1 = (Inr c, w')"
    by (rule qbind_Inr_E) auto
  have same: "same_tables w w1"
    by (rule validD [OF get_verifying_key_same _ key]) (simp add: same_tables_def)
  from rest obtain c0 where c0: "jwt_decode (tc_jwt cfg) tok key (clock w1) = Inr c0"
    and tail: "(if c_token_type c0 = token_type_str Ephemeral then ret c0 else
     qbind (qbind (find_active_by_id (c_token_id c0)) (ok_or (token_invalid ''Token revoked''))) (\<lambda>db_token.
     qbind (ignore (update_last_used (k_id db_token))) (\<lambda>_. ret c0))) w1 = (Inr c, w')"
    by (rule qbind_Inr_E) (auto simp: jwt_verify_def from_result_def)
  show ?thesis
  proof (cases "c_token_type c0 = token_type_str Ephemeral")
    case True
    with tail have "c = c0" "w' = w1" by (auto simp: ret_def)
    with True kid key c0 same show ?thesis by (auto simp: presented_def same_tables_def)
  next
    case False
    with tail obtain t w2 where t: "qbind (find_active_by_id (c_token_id c0)) (ok_or (token_invalid ''Token revoked'')) w1 = (Inr t, w2)"
      and fin: "qbind (ignore (update_last_used (k_id t))) (\<lambda>_. ret c0) w2 = (Inr c, w')"
      by (auto simp only: if_False elim: qbind_Inr_E)
    from fin have "c = c0" and w': "w' = snd (update_last_used (k_id t) w2)" by (simp_all add: ret_def)
    from w' have "map (\<lambda>t. (k_id t, k_refresh_pair_id t)) (api_tokens w') = map (\<lambda>t. (k_id t, k_refresh_pair_id t)) (api_tokens w2)"
      by (auto simp: update_last_used_def db_write_def db_call_def split: list.split option.split)
    with find_active_by_id_run [OF t] kid key c0 same \<open>c = c0\<close> show ?thesis
      by (auto simp: presented_def same_tables_def)
  qed
qed

lemma presented_active_key:
  assumes "keys_ok crypto ek w" and "presented cfg tok w c"
  shows "\<exists>kid kp. jwt_header_kid (tc_jwt cfg) tok = Inr (Some kid) \<and> active_key w kid kp
    \<and> jwt_decode (tc_jwt cfg) tok (kp_public kp) (clock w) = Inr c"
proof -
  from assms(2) obtain kid key w1 where k: "jwt_header_kid (tc_jwt cfg) tok = Inr (Some kid)"
    "get_verifying_key kid w = (Inr key, w1)" "jwt_decode (tc_jwt cfg) tok key (clock w) = Inr c"
    by (auto simp: presented_def)
  from validD [OF get_verifying_key_valid assms(1) k(2)] obtain kp where "active_key w1 kid kp" "kp_public kp = key" by auto
  moreover have "same_tables w w1" by (rule validD [OF get_verifying_key_same _ k(2)]) (simp add: same_tables_def)
  ultimately show ?thesis using k by (auto simp: active_key_def same_tables_def)
qed

text \<open>
  C25. A token accepted for an API route is signed under the active key its header names, is an
  access, personal or ephemeral token, carries none of the scopes reserved for agent triggers
  and for the apps origin, and, unless ephemeral, has a row in the table that has not expired.
  A refresh token is never accepted there.
\<close>

theorem validate_accepts_only_api_tokens:
  assumes "keys_ok crypto ek w" and "validate cfg tok w = (Inr c, w')"
  shows "c_token_type c \<in> {''access'', ''pat'', ''ephemeral''}
    \<and> \<not> has_scope c AGENT_TRIGGER_SCOPE \<and> \<not> has_scope c APP_GATE_SCOPE \<and> \<not> has_scope c APP_SESSION_SCOPE
    \<and> (\<exists>kid kp. jwt_header_kid (tc_jwt cfg) tok = Inr (Some kid) \<and> active_key w kid kp
         \<and> jwt_decode (tc_jwt cfg) tok (kp_public kp) (clock w) = Inr c)
    \<and> (c_token_type c = ''ephemeral'' \<or> (\<exists>t \<in> set (api_tokens w). k_id t = c_token_id c \<and> clock w < k_expires_at t))"
proof -
  from assms(2) obtain c0 w1 where any: "validate_any cfg tok w = (Inr c0, w1)" and "c0 = c"
    and scopes: "\<not> is_trigger_only c0" "reject_app_scoped c0 = Inr ()" "require_type c0 API_TOKEN_TYPES = Inr ()"
    by (auto simp: validate_def from_result_def ret_def fail_def elim!: qbind_Inr_E split: if_splits)
  from scopes \<open>c0 = c\<close> have "c_token_type c \<in> {''access'', ''pat'', ''ephemeral''}"
    and "\<not> has_scope c AGENT_TRIGGER_SCOPE \<and> \<not> has_scope c APP_GATE_SCOPE \<and> \<not> has_scope c APP_SESSION_SCOPE"
    by (auto simp: is_trigger_only_def has_scope_def reject_app_scoped_def require_type_def API_TOKEN_TYPES_def
        split: if_splits)
  with validate_any_Inr [OF any] \<open>c0 = c\<close> presented_active_key [OF assms(1)] show ?thesis
    by (auto simp: live_def)
qed

section \<open>A small world for the witnesses\<close>

definition demo_crypto :: crypto_lib where
  "demo_crypto = \<lparr>public_of = (\<lambda>k. k), aes_new = (\<lambda>_. Inr ()), aes_encrypt = (\<lambda>k n p. Inr p),
     aes_decrypt = (\<lambda>k n c. Inr c)\<rparr>"

definition demo_claims :: "string \<Rightarrow> claims" where
  "demo_claims ty = \<lparr>c_sub = ''u'', c_handle = ''h'', c_email = ''e'', c_exp = 100, c_iat = 0,
     c_token_id = ty, c_token_type = ty, c_principal = principal_user ''u'', c_scopes = None, c_extensions = None\<rparr>"

text \<open>A signature scheme whose tokens are the name of their type; it signs the demo claims only.\<close>

definition demo_jwt :: jwt_lib where
  "demo_jwt = \<lparr>jwt_encode = (\<lambda>c sk kid. if kid = ''user:u'' \<and> c = demo_claims (c_token_type c) then Inr (c_token_type c)
        else Inl ''unknown''),
     jwt_header_kid = (\<lambda>tok. Inr (Some ''user:u'')),
     jwt_decode = (\<lambda>tok k now. if now < 100000 then Inr (demo_claims tok) else Inl ExpiredSignature)\<rparr>"

definition demo_config :: token_config where
  "demo_config = \<lparr>tc_crypto = demo_crypto, tc_encryption_key = [], tc_jwt = demo_jwt, tc_access_expiry_secs = 100,
     tc_refresh_expiry_secs = 100, tc_min_time = - (2 ^ 50), tc_max_time = 2 ^ 50\<rparr>"

definition demo_user :: user where
  "demo_user = \<lparr>usr_id = ''u'', usr_handle = ''h'', usr_email = ''e'', usr_name = ''n'', usr_deactivated_at = None\<rparr>"

definition demo_key :: fresh_key where
  "demo_key = \<lparr>fk_id = ''k'', fk_private = ''12345678901234567890123456789012'', fk_nonce = ''123456789012''\<rparr>"

definition demo_fresh :: "string \<Rightarrow> fresh_token" where
  "demo_fresh i = \<lparr>ft_id = i, ft_key1 = demo_key, ft_key2 = demo_key\<rparr>"

definition demo_row :: "string \<Rightarrow> token_type \<Rightarrow> string option \<Rightarrow> api_token" where
  "demo_row i ty pair = \<lparr>k_id = i, k_user_id = ''u'', k_name = ''n'', k_type = ty, k_principal = principal_user ''u'',
     k_scopes = [], k_prefix = [], k_expires_at = 100000, k_last_used_at = None, k_refresh_pair_id = pair,
     k_created_at = 0, k_updated_at = 0\<rparr>"

definition demo_keypair :: keypair where
  "demo_keypair = \<lparr>kp_id = ''k'', kp_owner = ''user:u'', kp_public = fk_private demo_key,
     kp_private_enc = fk_private demo_key, kp_nonce = fk_nonce demo_key, kp_active = True, kp_created_at = 0, kp_updated_at = 0\<rparr>"

definition demo_world :: "api_token list \<Rightarrow> token_world" where
  "demo_world ts = \<lparr>faults = [], clock = 0, duplicate_text = (\<lambda>i. i), notifications = [], keypairs = [demo_keypair],
     signing_cache = (\<lambda>_. None), verifying_cache = (\<lambda>_. None), api_tokens = ts, users = [demo_user],
     user_cache = (\<lambda>_. None)\<rparr>"

lemma demo_selectors [simp]:
  "tc_jwt demo_config = demo_jwt" "tc_crypto demo_config = demo_crypto" "clock (demo_world ts) = 0"
  "faults (demo_world ts) = []" "api_tokens (demo_world ts) = ts"
  by (simp_all add: demo_config_def demo_world_def)

lemma demo_keys_ok: "keys_ok demo_crypto ek (demo_world ts)"
  by (auto simp: keys_ok_def demo_world_def active_key_def wf_rows_def halves_match_def demo_crypto_def demo_keypair_def)

lemma demo_crypto_ok: "crypto_ok demo_crypto"
  by (simp add: crypto_ok_def demo_crypto_def)

lemmas token_eval = qbind_def ret_def fail_def from_result_def gets_def modify_def ok_or_def ignore_def map_err_def
  get_verifying_key_def find_by_kid_def find_active_by_owner_def db_read_no_fault db_write_no_fault db_call_no_fault
  find_active_by_id_def update_last_used_def

lemmas demo_token_defs = demo_world_def demo_config_def demo_jwt_def demo_keypair_def demo_row_def demo_key_def
  demo_claims_def demo_user_def demo_fresh_def demo_crypto_def

lemma demo_validate_any:
  "validate_any demo_config ''access'' (demo_world [demo_row ''access'' Access None])
     = (Inr (demo_claims ''access''), (demo_world [demo_row ''access'' Access None])
          \<lparr>verifying_cache := [''user:u'' \<mapsto> fk_private demo_key],
           api_tokens := [(demo_row ''access'' Access None)\<lparr>k_last_used_at := Some 0\<rparr>]\<rparr>)"
  by (simp add: validate_any_def token_eval decode_unverified_header_def jwt_verify_def live_def demo_token_defs)

theorem validate_accepts_only_api_tokens_witness:
  "fst (validate demo_config ''access'' (demo_world [demo_row ''access'' Access None])) = Inr (demo_claims ''access'')
    \<and> (\<exists>kid kp. active_key (demo_world [demo_row ''access'' Access None]) kid kp
         \<and> jwt_decode demo_jwt ''access'' (kp_public kp) 0 = Inr (demo_claims ''access''))"
proof -
  let ?w = "demo_world [demo_row ''access'' Access None]"
  obtain w' where run: "validate demo_config ''access'' ?w = (Inr (demo_claims ''access''), w')"
    by (simp add: validate_def qbind_def [of "validate_any _ _"] demo_validate_any)
      (simp add: token_eval is_trigger_only_def reject_app_scoped_def has_scope_def require_type_def
        API_TOKEN_TYPES_def demo_claims_def)
  have "fst (validate demo_config ''access'' ?w) = Inr (demo_claims ''access'')" by (simp add: run)
  moreover from validate_accepts_only_api_tokens [OF demo_keys_ok run]
  obtain kid kp where "active_key ?w kid kp" "jwt_decode demo_jwt ''access'' (kp_public kp) 0 = Inr (demo_claims ''access'')"
    by (simp only: demo_selectors) blast
  ultimately show ?thesis by blast
qed

section \<open>A refresh token works once\<close>

text \<open>The claims of a token are its payload; a key and a time only decide whether it is accepted.\<close>

definition payload_fixed :: "jwt_lib \<Rightarrow> bool" where
  "payload_fixed lib \<longleftrightarrow> (\<forall>tok k k' n n' c c'.
     jwt_decode lib tok k n = Inr c \<longrightarrow> jwt_decode lib tok k' n' = Inr c' \<longrightarrow> c = c')"

lemma validate_any_gone:
  assumes "payload_fixed (tc_jwt cfg)" and "presented cfg tok w0 c" and "c_token_type c \<noteq> ''ephemeral''"
    and "absent {c_token_id c} w"
  shows "\<exists>e. fst (validate_any cfg tok w) = Inl e"
proof (rule ccontr)
  assume "\<nexists>e. fst (validate_any cfg tok w) = Inl e"
  then obtain c' w' where ok: "validate_any cfg tok w = (Inr c', w')"
    by (cases "validate_any cfg tok w"; cases "fst (validate_any cfg tok w)") auto
  from validate_any_Inr [OF ok] assms(1,2) have "c' = c" by (auto simp: presented_def payload_fixed_def)
  with validate_any_Inr [OF ok] assms(3,4) show False by (auto simp: absent_def)
qed

lemma consume_pair_Inr:
  assumes "consume_pair found w = (Inr u, w')"
  shows "\<exists>t old. found = Some t \<and> k_refresh_pair_id t = Some old \<and> delete_by_refresh_pair old w = (Inr True, w')"
proof (cases "Option.bind found k_refresh_pair_id")
  case None
  with assms show ?thesis by (simp add: consume_pair_def fail_def)
next
  case (Some old)
  then obtain t where "found = Some t" "k_refresh_pair_id t = Some old" by (auto simp: bind_eq_Some_conv)
  with assms Some show ?thesis
    by (auto simp: consume_pair_def fail_def ret_def elim!: qbind_Inr_E split: if_splits)
qed

lemma refresh_consumes:
  assumes "wf_rows k_id (api_tokens w)" and "refresh_session cfg pair ft1 ft2 tok w = (Inr (a, r, c), w')"
    and "ft_id ft1 \<noteq> c_token_id c" and "ft_id ft2 \<noteq> c_token_id c"
  shows "presented cfg tok w c \<and> c_token_type c = ''refresh'' \<and> absent {c_token_id c} w'"
proof -
  from assms(2) obtain c0 w1 found w2 w3 where v: "validate_refresh cfg tok w = (Inr c0, w1)"
    and f: "find_active_by_id (c_token_id c0) w1 = (Inr found, w2)"
    and con: "consume_pair found w2 = (Inr (), w3)" and new: "new_session cfg pair ft1 ft2 c0 w3 = (Inr (a, r, c), w')"
    unfolding refresh_session_def by (auto elim!: qbind_Inr_E)
  from v have any: "validate_any cfg tok w = (Inr c0, w1)" and ty: "c_token_type c0 = ''refresh''"
    by (auto simp: validate_refresh_def require_type_def from_result_def ret_def elim!: qbind_Inr_E split: if_splits)
  note va = validate_any_Inr [OF any]
  have cc: "c = c0" using new
    by (auto simp: new_session_def fail_def ret_def elim!: qbind_Inr_E split: if_splits prod.splits)
  from f have w2: "api_tokens w2 = api_tokens w1"
    and found: "found = find (\<lambda>t. k_id t = c_token_id c0 \<and> live (clock w1) t) (api_tokens w1)"
    by (auto simp: find_active_by_id_def dest!: db_read_Inr)
  from consume_pair_Inr [OF con] obtain t old where t: "found = Some t" "k_refresh_pair_id t = Some old"
    and del: "delete_by_refresh_pair old w2 = (Inr True, w3)" by blast
  from found t have tin: "t \<in> set (api_tokens w1)" "k_id t = c_token_id c0" by (auto dest!: find_eq_SomeD [OF sym])
  have "distinct (map k_id (api_tokens w1))"
    using assms(1) arg_cong [of _ _ "map fst", OF conjunct1 [OF conjunct2 [OF va]]] by (simp add: wf_rows_def comp_def)
  then have uniq: "x = t" if "x \<in> set (api_tokens w1)" "k_id x = c_token_id c0" for x
    using that tin by (auto simp: distinct_map inj_on_def)
  have gone: "absent {c_token_id c0} w3" using del uniq t(2) w2
    by (auto simp: delete_by_refresh_pair_def absent_def elim!: db_call_cases)
  have "absent {c_token_id c0} w'"
    by (rule validD [OF keeps_absent_session(2) gone new]) (use assms(3,4) cc in auto)
  with va ty cc show ?thesis by auto
qed

text \<open>
  C2. Once a refresh token has been exchanged for a new session, it is refused for ever after:
  whatever the service does next, with ids that are fresh, the same token neither validates for
  any purpose nor refreshes again.
\<close>

theorem refresh_token_works_once:
  assumes "payload_fixed (tc_jwt cfg)" and "wf_rows k_id (api_tokens w)"
    and "refresh_session cfg pair ft1 ft2 tok w = (Inr (a, r, c), w1)"
    and "ft_id ft1 \<noteq> c_token_id c" and "ft_id ft2 \<noteq> c_token_id c"
    and "token_run {c_token_id c} w1 w2"
  shows "(\<exists>e. fst (validate_any cfg tok w2) = Inl e)
    \<and> (\<exists>e. fst (refresh_session cfg pair' ft1' ft2' tok w2) = Inl e)"
proof -
  note once = refresh_consumes [OF assms(2-5)]
  have "absent {c_token_id c} w2" using token_run_absent [OF assms(6)] once by blast
  then obtain e where e: "fst (validate_any cfg tok w2) = Inl e"
    using validate_any_gone [OF assms(1)] once by force
  then have "fst (refresh_session cfg pair' ft1' ft2' tok w2) = Inl e"
    by (cases "validate_any cfg tok w2") (simp add: refresh_session_def validate_refresh_def qbind_def)
  with e show ?thesis by blast
qed

definition demo_refresh_world :: token_world where
  "demo_refresh_world = demo_world [demo_row ''refresh'' Refresh (Some ''p'')]"

text \<open>The demo scheme names a token after its type; the new pair is signed for other ids.\<close>

definition demo_pair_jwt :: jwt_lib where
  "demo_pair_jwt = demo_jwt\<lparr>jwt_encode := (\<lambda>c sk kid. Inr (c_token_id c))\<rparr>"

definition demo_pair_config :: token_config where
  "demo_pair_config = demo_config\<lparr>tc_jwt := demo_pair_jwt\<rparr>"

lemma demo_refresh_run:
  "fst (refresh_session demo_pair_config ''q'' (demo_fresh ''x'') (demo_fresh ''y'') ''refresh'' demo_refresh_world)
     = Inr (''x'', ''y'', demo_claims ''refresh'')"
  by (simp add: refresh_session_def validate_refresh_def validate_any_def decode_unverified_header_def jwt_verify_def
      require_type_def consume_pair_def delete_by_refresh_pair_def new_session_def find_user_def repo_find_by_id_def
      find_row_def create_session_pair_def create_token_def expiry_def as_i64_def get_signing_key_def get_or_create_def
      private_bytes_def decrypt_private_key_def jwt_sign_def repo_create_def create_row_def is_stateless_def
      demo_refresh_world_def demo_pair_config_def demo_pair_jwt_def token_eval live_def demo_token_defs Let_def)

theorem refresh_token_works_once_witness:
  "fst (refresh_session demo_pair_config ''q'' (demo_fresh ''x'') (demo_fresh ''y'') ''refresh'' demo_refresh_world)
     = Inr (''x'', ''y'', demo_claims ''refresh'')
   \<and> (\<exists>e. fst (refresh_session demo_pair_config ''z'' (demo_fresh ''v'') (demo_fresh ''w'') ''refresh''
        (snd (refresh_session demo_pair_config ''q'' (demo_fresh ''x'') (demo_fresh ''y'') ''refresh'' demo_refresh_world))) = Inl e)"
proof -
  let ?run = "refresh_session demo_pair_config ''q'' (demo_fresh ''x'') (demo_fresh ''y'') ''refresh'' demo_refresh_world"
  have run: "?run = (Inr (''x'', ''y'', demo_claims ''refresh''), snd ?run)"
    using demo_refresh_run by (cases ?run) simp
  have "payload_fixed (tc_jwt demo_pair_config)"
    by (auto simp: payload_fixed_def demo_pair_config_def demo_pair_jwt_def demo_jwt_def)
  moreover have "wf_rows k_id (api_tokens demo_refresh_world)" by (simp add: demo_refresh_world_def wf_rows_def)
  ultimately show ?thesis
    using refresh_token_works_once [OF _ _ run _ _ token_refl] demo_refresh_run
    by (simp add: demo_fresh_def demo_claims_def)
qed

section \<open>Revoking\<close>

lemma delete_by_user_id_cases:
  assumes "delete_by_user_id u w = (r, w')"
  shows "(\<exists>msg fs. faults w = Some msg # fs \<and> r = Inl (Database msg) \<and> w' = w\<lparr>faults := fs\<rparr>)
    \<or> (r = Inr () \<and> api_tokens w' = filter (\<lambda>t. k_user_id t \<noteq> u) (api_tokens w))"
  using assms by (auto simp: delete_by_user_id_def db_write_def db_call_def split: list.splits option.splits)

text \<open>
  Revoking all sessions of a user either removes every token of the user and no other token,
  or reports the error of the third failed attempt in a row and removes nothing; up to two
  failures of the database are survived.
\<close>

theorem revoke_all_is_all_or_error:
  "case revoke_all_for_user u w of
     (Inr _, w') \<Rightarrow> api_tokens w' = filter (\<lambda>t. k_user_id t \<noteq> u) (api_tokens w)
   | (Inl e, w') \<Rightarrow> api_tokens w' = api_tokens w
       \<and> (\<exists>a b c fs. faults w = Some a # Some b # Some c # fs \<and> e = Database c)"
proof -
  obtain r1 w1 where d1: "delete_by_user_id u w = (r1, w1)" by (cases "delete_by_user_id u w")
  obtain r2 w2 where d2: "delete_by_user_id u w1 = (r2, w2)" by (cases "delete_by_user_id u w1")
  obtain r3 w3 where d3: "delete_by_user_id u w2 = (r3, w3)" by (cases "delete_by_user_id u w2")
  have "revoke_all_for_user u w = (case r1 of Inr _ \<Rightarrow> (Inr (), w1) | Inl _ \<Rightarrow>
      (case r2 of Inr _ \<Rightarrow> (Inr (), w2) | Inl _ \<Rightarrow> (case r3 of Inr _ \<Rightarrow> (Inr (), w3) | Inl e \<Rightarrow> (Inl e, w3))))"
    by (simp add: revoke_all_for_user_def revoke_loop.simps [of u _ w] revoke_loop.simps [of u _ w1]
        revoke_loop.simps [of u _ w2] d1 d2 d3 REVOKE_ATTEMPTS_def split: sum.split)
  then show ?thesis
    using delete_by_user_id_cases [OF d1] delete_by_user_id_cases [OF d2] delete_by_user_id_cases [OF d3]
    by (cases r1; cases r2; cases r3) auto
qed

lemma delete_token_cases:
  assumes "repo_delete api_tokens_update k_id i w = (r, w')"
  shows "(\<exists>e. r = Inl e) \<and> api_tokens w' = api_tokens w
    \<or> r = Inr () \<and> api_tokens w' = filter (\<lambda>t. k_id t \<noteq> i) (api_tokens w)"
  using assms by (auto simp: repo_delete_def db_write_def db_call_def delete_row_def split: list.splits option.splits)

text \<open>
  Deleting a personal token succeeds only for a token of the caller that is a personal one and
  has not expired, and then removes exactly it; in every other case the table is unchanged.
\<close>

theorem delete_pat_removes_only_own_pats:
  "case delete_pat u i w of
     (Inr _, w') \<Rightarrow> (\<exists>t \<in> set (api_tokens w). k_id t = i \<and> k_user_id t = u \<and> k_type t = Pat \<and> clock w < k_expires_at t)
       \<and> api_tokens w' = filter (\<lambda>t. k_id t \<noteq> i) (api_tokens w)
   | (Inl e, w') \<Rightarrow> api_tokens w' = api_tokens w"
proof -
  obtain r w' where run: "delete_pat u i w = (r, w')" by (cases "delete_pat u i w")
  from run[unfolded delete_pat_def] show ?thesis unfolding run
  proof (cases rule: qbind_cases)
    case (error e)
    with find_active_by_id_run [OF error(1)] show "case (r, w') of
     (Inr _, w') \<Rightarrow> (\<exists>t \<in> set (api_tokens w). k_id t = i \<and> k_user_id t = u \<and> k_type t = Pat \<and> clock w < k_expires_at t)
       \<and> api_tokens w' = filter (\<lambda>t. k_id t \<noteq> i) (api_tokens w)
   | (Inl e, w') \<Rightarrow> api_tokens w' = api_tokens w" by auto
  next
    case (okay t w1)
    note f = find_active_by_id_run [OF okay(1)]
    show "case (r, w') of
     (Inr _, w') \<Rightarrow> (\<exists>t \<in> set (api_tokens w). k_id t = i \<and> k_user_id t = u \<and> k_type t = Pat \<and> clock w < k_expires_at t)
       \<and> api_tokens w' = filter (\<lambda>t. k_id t \<noteq> i) (api_tokens w)
   | (Inl e, w') \<Rightarrow> api_tokens w' = api_tokens w"
    proof (cases "k_user_id t = u \<and> k_type t = Pat")
      case True
      with okay(2) have "repo_delete api_tokens_update k_id i w1 = (r, w')" by simp
      from delete_token_cases [OF this] f True show ?thesis by (cases r) (auto simp: live_def)
    next
      case False
      with okay(2) f show ?thesis by (auto simp: fail_def split: if_splits)
    qed
  qed
qed

section \<open>A fresh token is accepted\<close>

text \<open>What is expected of the signature scheme: a signed token decodes to its claims under the
  public half of the key until it expires, and its header names the key.\<close>

definition jwt_ok :: "jwt_lib \<Rightarrow> crypto_lib \<Rightarrow> bool" where
  "jwt_ok lib crypto \<longleftrightarrow> (\<forall>c bytes kid tok. jwt_encode lib c (pkcs8_prefix @ bytes) kid = Inr tok \<longrightarrow>
     jwt_header_kid lib tok = Inr (Some kid)
     \<and> (\<forall>now. now < 1000 * int (c_exp c) \<longrightarrow> jwt_decode lib tok (public_of crypto bytes) now = Inr c))"

definition same_tokens :: "'w token_world_scheme \<Rightarrow> 'w token_world_scheme \<Rightarrow> bool" where
  "same_tokens w w' \<longleftrightarrow> api_tokens w' = api_tokens w \<and> clock w' = clock w"

lemma same_tokens_update [simp]:
  "same_tokens w (v\<lparr>faults := fs\<rparr>) = same_tokens w v" "same_tokens w (v\<lparr>signing_cache := a\<rparr>) = same_tokens w v"
  "same_tokens w (v\<lparr>verifying_cache := b\<rparr>) = same_tokens w v" "same_tokens w (keypairs_update f v) = same_tokens w v"
  by (simp_all add: same_tokens_def)

lemma keeps_same_tokens_keys:
  "keeps (same_tokens w) (get_or_create crypto ek fk ow)" "keeps (same_tokens w) (private_bytes crypto ek fk ow kp)"
  "keeps (same_tokens w) (get_signing_key crypto ek fk fk2 ow)"
proof -
  show goc: "keeps (same_tokens w) (get_or_create crypto ek fk ow)" for fk
    unfolding get_or_create_def find_active_by_owner_def repo_create_def
    by (auto intro!: keep_rules keeps_db_read keeps_db_call split: option.split)
  show pb: "keeps (same_tokens w) (private_bytes crypto ek fk ow kp)" for fk kp
    unfolding private_bytes_def repo_delete_def
    by (auto intro!: keep_rules goc keeps_db_write keeps_modify split: sum.split app_error.split)
  show "keeps (same_tokens w) (get_signing_key crypto ek fk fk2 ow)"
    unfolding get_signing_key_def by (auto intro!: keep_rules goc pb keeps_modify split: option.split)
qed

definition token_claims :: "fresh_token \<Rightarrow> user \<Rightarrow> create_token_request \<Rightarrow> int \<Rightarrow> int \<Rightarrow> claims" where
  "token_claims ft user req now expires =
     \<lparr>c_sub = usr_id user, c_handle = usr_handle user, c_email = usr_email user,
      c_exp = timestamp expires, c_iat = timestamp now, c_token_id = ft_id ft,
      c_token_type = token_type_str (ct_type req), c_principal = ct_principal req,
      c_scopes = (if ct_scopes req = [] then None else Some (ct_scopes req)),
      c_extensions = ct_extensions req\<rparr>"

text \<open>What is known after a token was made.\<close>

definition token_made ::
  "token_config \<Rightarrow> fresh_token \<Rightarrow> user \<Rightarrow> create_token_request \<Rightarrow> 'w token_world_scheme \<Rightarrow> created_token
   \<Rightarrow> 'w token_world_scheme \<Rightarrow> keypair \<Rightarrow> string \<Rightarrow> bool" where
  "token_made cfg ft user req w cr w' kp bytes \<longleftrightarrow>
     expiry cfg (clock w) (ct_ttl_secs req) = Inr (cr_expires_at cr) \<and> clock w' = clock w \<and> cr_token_id cr = ft_id ft
     \<and> keys_ok (tc_crypto cfg) (tc_encryption_key cfg) w' \<and> active_key w' (''user:'' @ usr_id user) kp
     \<and> kp_public kp = public_of (tc_crypto cfg) bytes
     \<and> jwt_encode (tc_jwt cfg) (token_claims ft user req (clock w) (cr_expires_at cr)) (pkcs8_prefix @ bytes)
         (''user:'' @ usr_id user) = Inr (cr_jwt cr)
     \<and> (ct_type req = Ephemeral \<or> (\<exists>t \<in> set (api_tokens w'). k_id t = ft_id ft \<and> k_expires_at t = cr_expires_at cr))"

lemma create_token_Inr:
  assumes "crypto_ok (tc_crypto cfg)" and "keys_ok (tc_crypto cfg) (tc_encryption_key cfg) w"
    and "create_token cfg ft user req w = (Inr cr, w')"
  shows "\<exists>kp bytes. token_made cfg ft user req w cr w' kp bytes"
proof -
  let ?ek = "tc_encryption_key cfg" and ?owner = "''user:'' @ usr_id user"
  obtain expires where e: "expiry cfg (clock w) (ct_ttl_secs req) = Inr expires"
    using assms(3) by (cases "expiry cfg (clock w) (ct_ttl_secs req)") (simp_all add: create_token_def fail_def)
  let ?c = "token_claims ft user req (clock w) expires"
  let ?row = "\<lambda>jwt. \<lparr>k_id = ft_id ft, k_user_id = usr_id user, k_name = ct_name req, k_type = ct_type req,
                    k_principal = ct_principal req, k_scopes = ct_scopes req, k_prefix = token_prefix jwt,
                    k_expires_at = expires, k_last_used_at = None,
                    k_refresh_pair_id = ct_refresh_pair_id req, k_created_at = clock w, k_updated_at = clock w\<rparr>"
  from assms(3) e have "qbind (get_signing_key (tc_crypto cfg) ?ek (ft_key1 ft) (ft_key2 ft) ?owner) (\<lambda>(encoding_key, kid).
     qbind (from_result (jwt_sign (tc_jwt cfg) ?c encoding_key kid)) (\<lambda>jwt.
     qbind (if is_stateless (ct_type req) then ret ()
            else qbind (repo_create api_tokens api_tokens_update k_id (?row jwt)) (\<lambda>_. ret ())) (\<lambda>_.
     ret \<lparr>cr_jwt = jwt, cr_token_id = ft_id ft, cr_expires_at = expires\<rparr>))) w = (Inr cr, w')"
    by (simp add: create_token_def token_claims_def)
  then obtain sk kid w1 where key: "get_signing_key (tc_crypto cfg) ?ek (ft_key1 ft) (ft_key2 ft) ?owner w = (Inr (sk, kid), w1)"
    and rest0: "qbind (from_result (jwt_sign (tc_jwt cfg) ?c sk kid)) (\<lambda>jwt.
     qbind (if is_stateless (ct_type req) then ret ()
            else qbind (repo_create api_tokens api_tokens_update k_id (?row jwt)) (\<lambda>_. ret ())) (\<lambda>_.
     ret \<lparr>cr_jwt = jwt, cr_token_id = ft_id ft, cr_expires_at = expires\<rparr>)) w1 = (Inr cr, w')"
    by (rule qbind_Inr_E) (simp split: prod.splits)
  from rest0 obtain jwt where
    sign: "jwt_sign (tc_jwt cfg) ?c sk kid = Inr jwt"
    and rest: "qbind (if is_stateless (ct_type req) then ret ()
            else qbind (repo_create api_tokens api_tokens_update k_id (?row jwt)) (\<lambda>_. ret ())) (\<lambda>_.
     ret \<lparr>cr_jwt = jwt, cr_token_id = ft_id ft, cr_expires_at = expires\<rparr>) w1 = (Inr cr, w')"
    by (cases "jwt_sign (tc_jwt cfg) ?c sk kid") (simp_all add: fail_def)
  from validD [OF get_signing_key_valid [OF assms(1)] assms(2) key] obtain kp bytes where k: "kid = ?owner"
    "keys_ok (tc_crypto cfg) ?ek w1" "active_key w1 ?owner kp" "sk = pkcs8_prefix @ bytes" "kp_public kp = public_of (tc_crypto cfg) bytes"
    by (auto simp: signing_post_def)
  have same: "same_tokens w w1" by (rule validD [OF keeps_same_tokens_keys(3) _ key]) (simp add: same_tokens_def)
  show ?thesis
  proof (cases "is_stateless (ct_type req)")
    case True
    with rest have "w' = w1" "cr = \<lparr>cr_jwt = jwt, cr_token_id = ft_id ft, cr_expires_at = expires\<rparr>" by (auto simp: ret_def)
    with True k sign same e have "token_made cfg ft user req w cr w' kp bytes"
      by (auto simp: token_made_def same_tokens_def jwt_sign_def is_stateless_def)
    then show ?thesis by blast
  next
    case False
    with rest obtain r where cre: "repo_create api_tokens api_tokens_update k_id (?row jwt) w1 = (Inr r, w')"
      and cr: "cr = \<lparr>cr_jwt = jwt, cr_token_id = ft_id ft, cr_expires_at = expires\<rparr>"
      by (auto simp: ret_def elim!: qbind_Inr_E)
    from cre have w': "\<exists>fs. w' = w1\<lparr>faults := fs, api_tokens := api_tokens w1 @ [?row jwt]\<rparr>"
      by (auto simp: repo_create_def create_row_def elim!: db_call_cases split: if_splits option.splits)
    then have "active_key w' = active_key w1" "clock w' = clock w1" "keypairs w' = keypairs w1"
      "signing_cache w' = signing_cache w1" "verifying_cache w' = verifying_cache w1"
      by (auto simp: active_key_def fun_eq_iff)
    moreover from this have "keys_ok (tc_crypto cfg) ?ek w'" using k(2) by (simp add: keys_ok_def)
    ultimately have "token_made cfg ft user req w cr w' kp bytes" using k sign same w' cr e
      by (auto simp: token_made_def same_tokens_def jwt_sign_def)
    then show ?thesis by blast
  qed
qed

lemma get_verifying_key_no_fault:
  assumes "keys_ok crypto ek w" and "active_key w kid kp" and "faults w = []"
  shows "\<exists>w1. get_verifying_key kid w = (Inr (kp_public kp), w1) \<and> same_tables w w1 \<and> faults w1 = []"
proof (cases "verifying_cache w kid")
  case (Some pk)
  with keys_ok_verifying [OF assms(1)] obtain kp' where "active_key w kid kp'" "kp_public kp' = pk" by blast
  moreover have "kp' = kp" using assms(1,2) \<open>active_key w kid kp'\<close> by (auto simp: keys_ok_def)
  ultimately show ?thesis using Some assms(3) by (simp add: get_verifying_key_def ret_def same_tables_def)
next
  case None
  obtain kp' where f: "find (\<lambda>kp. kp_owner kp = kid \<and> kp_active kp) (keypairs w) = Some kp'"
    using assms(2) by (cases "find (\<lambda>kp. kp_owner kp = kid \<and> kp_active kp) (keypairs w)")
      (auto simp: find_none_iff active_key_def)
  then have "active_key w kid kp'" by (auto simp: active_key_def dest: find_eq_SomeD)
  with assms(1,2) have "kp' = kp" by (auto simp: keys_ok_def)
  with f None assms(3) show ?thesis by (simp add: token_eval same_tables_def)
qed

lemma validate_any_ok:
  assumes "keys_ok (tc_crypto cfg) ek w" and "active_key w kid kp" and "faults w = []"
    and "jwt_header_kid (tc_jwt cfg) tok = Inr (Some kid)"
    and "jwt_decode (tc_jwt cfg) tok (kp_public kp) (clock w) = Inr c"
    and "t \<in> set (api_tokens w)" and "k_id t = c_token_id c" and "live (clock w) t"
  shows "fst (validate_any cfg tok w) = Inr c"
proof -
  obtain w1 where k: "get_verifying_key kid w = (Inr (kp_public kp), w1)" "same_tables w w1" "faults w1 = []"
    using get_verifying_key_no_fault [OF assms(1-3)] by blast
  obtain t' where "find (\<lambda>t. k_id t = c_token_id c \<and> live (clock w) t) (api_tokens w) = Some t'"
    using assms(6-8) by (cases "find (\<lambda>t. k_id t = c_token_id c \<and> live (clock w) t) (api_tokens w)")
      (auto simp: find_none_iff)
  then have "find (\<lambda>t. k_id t = c_token_id c \<and> live (clock w1) t) (api_tokens w1) = Some t'"
    using k(2) by (simp add: same_tables_def)
  then have look: "qbind (find_active_by_id (c_token_id c)) (ok_or (token_invalid ''Token revoked'')) w1 = (Inr t', w1)"
    using k(3) by (simp add: token_eval)
  have "jwt_verify (tc_jwt cfg) (clock w1) tok (kp_public kp) = Inr c"
    using k(2) assms(5) by (simp add: same_tables_def jwt_verify_def)
  then show ?thesis
    using assms(4) k(1) look
    by (simp add: validate_any_def decode_unverified_header_def map_err_def ok_or_def qbind_Inr ret_def)
qed

text \<open>
  An access token the service has just issued is accepted by \<open>validate\<close> at every later time
  before it expires, as long as nothing revokes it, and the claims it yields are those of its
  owner.
\<close>

theorem fresh_access_token_is_accepted:
  assumes "crypto_ok (tc_crypto cfg)" and "jwt_ok (tc_jwt cfg) (tc_crypto cfg)"
    and "keys_ok (tc_crypto cfg) (tc_encryption_key cfg) w"
    and "create_access_token cfg ft user name w = (Inr tok, w1)"
    and "0 \<le> clock w" and "clock w < 2 ^ 60" and "tc_access_expiry_secs cfg < 2 ^ 50"
    and "n < 1000 * ((clock w + 1000 * int (tc_access_expiry_secs cfg)) div 1000)"
  shows "\<exists>c. fst (validate cfg tok (w1\<lparr>clock := n, faults := []\<rparr>)) = Inr c
    \<and> c_sub c = usr_id user \<and> c_principal c = principal_user (usr_id user) \<and> c_token_id c = ft_id ft"
proof -
  let ?req = "\<lparr>ct_type = Access, ct_principal = principal_user (usr_id user), ct_ttl_secs = tc_access_expiry_secs cfg,
        ct_name = name, ct_scopes = [], ct_refresh_pair_id = None, ct_extensions = None\<rparr>"
  let ?E = "clock w + 1000 * int (tc_access_expiry_secs cfg)" and ?kid = "''user:'' @ usr_id user"
  from assms(4) obtain cr where cr: "create_token cfg ft user ?req w = (Inr cr, w1)" "tok = cr_jwt cr"
    unfolding create_access_token_def by (auto simp: ret_def elim!: qbind_Inr_E)
  define expires where "expires = cr_expires_at cr"
  define c where "c = token_claims ft user ?req (clock w) expires"
  obtain kp bytes where made: "token_made cfg ft user ?req w cr w1 kp bytes"
    using create_token_Inr [OF assms(1,3) cr(1)] by blast
  have t: "expiry cfg (clock w) (tc_access_expiry_secs cfg) = Inr expires"
    "keys_ok (tc_crypto cfg) (tc_encryption_key cfg) w1" "active_key w1 ?kid kp"
    "kp_public kp = public_of (tc_crypto cfg) bytes"
    "jwt_encode (tc_jwt cfg) c (pkcs8_prefix @ bytes) ?kid = Inr tok"
    and row: "\<exists>t \<in> set (api_tokens w1). k_id t = ft_id ft \<and> k_expires_at t = expires"
    using made by (simp_all add: token_made_def c_def expires_def cr(2))
  have c: "c_sub c = usr_id user" "c_exp c = timestamp expires" "c_token_id c = ft_id ft" "c_token_type c = ''access''"
    "c_principal c = principal_user (usr_id user)" "c_scopes c = None"
    by (simp_all add: c_def token_claims_def)
  have "as_i64 (tc_access_expiry_secs cfg) = int (tc_access_expiry_secs cfg)"
    using assms(7) by (simp add: as_i64_def Let_def)
  with t(1) have E: "expires = ?E" by (auto simp: expiry_def Let_def split: if_splits)
  moreover have "?E div 1000 < 2 ^ 64" "0 \<le> ?E div 1000" using assms(5-7) by auto
  ultimately have exp: "int (c_exp c) = ?E div 1000" by (simp add: c timestamp_def as_usize_def)
  let ?w = "w1\<lparr>clock := n, faults := []\<rparr>"
  from row obtain t where tr: "t \<in> set (api_tokens ?w)" "k_id t = c_token_id c" "live (clock ?w) t"
    using assms(8) E by (auto simp: c live_def)
  have "fst (validate_any cfg tok ?w) = Inr c"
  proof (rule validate_any_ok [OF _ _ _ _ _ tr])
    show "keys_ok (tc_crypto cfg) (tc_encryption_key cfg) ?w" using t(2) by (simp add: keys_ok_def active_key_def)
    show "active_key ?w ?kid kp" using t(3) by (simp add: active_key_def)
    show "jwt_header_kid (tc_jwt cfg) tok = Inr (Some ?kid)" using assms(2) t(5) by (auto simp: jwt_ok_def)
    show "jwt_decode (tc_jwt cfg) tok (kp_public kp) (clock ?w) = Inr c"
      using assms(2,8) t(4,5) exp by (auto simp: jwt_ok_def)
  qed simp
  then obtain w2 where "validate_any cfg tok ?w = (Inr c, w2)" by (cases "validate_any cfg tok ?w") auto
  then have "fst (validate cfg tok ?w) = Inr c"
    by (simp add: validate_def qbind_Inr is_trigger_only_def reject_app_scoped_def has_scope_def require_type_def
        API_TOKEN_TYPES_def ret_def c)
  then show ?thesis by (auto simp: c)
qed

theorem fresh_access_token_is_accepted_witness:
  "fst (create_access_token demo_config (demo_fresh ''access'') demo_user ''session'' (demo_world [])) = Inr ''access''
    \<and> (\<exists>c. fst (validate demo_config ''access''
         ((snd (create_access_token demo_config (demo_fresh ''access'') demo_user ''session'' (demo_world [])))
            \<lparr>clock := 99999, faults := []\<rparr>)) = Inr c \<and> c_sub c = ''u'')"
proof -
  let ?run = "create_access_token demo_config (demo_fresh ''access'') demo_user ''session'' (demo_world [])"
  have run: "fst ?run = Inr ''access''"
    by (simp add: create_access_token_def create_token_def expiry_def as_i64_def get_signing_key_def get_or_create_def
      private_bytes_def decrypt_private_key_def jwt_sign_def repo_create_def create_row_def is_stateless_def
      timestamp_def as_usize_def find_row_def token_eval demo_token_defs Let_def)
  then have eq: "?run = (Inr ''access'', snd ?run)" by (cases ?run) simp
  have exp: "c_exp c = 100" if "c = demo_claims (c_token_type c)" for c
    by (subst that) (simp add: demo_claims_def)
  have "jwt_ok demo_jwt demo_crypto"
    by (auto simp: jwt_ok_def demo_jwt_def demo_crypto_def exp split: if_splits)
  moreover have "tc_access_expiry_secs demo_config = 100" "usr_id demo_user = ''u''"
    by (simp_all add: demo_config_def demo_user_def)
  ultimately have "\<exists>c. fst (validate demo_config ''access'' ((snd ?run)\<lparr>clock := 99999, faults := []\<rparr>)) = Inr c
      \<and> c_sub c = ''u'' \<and> c_principal c = principal_user ''u'' \<and> c_token_id c = ft_id (demo_fresh ''access'')"
    using fresh_access_token_is_accepted [OF _ _ _ eq, of 99999] demo_crypto_ok
      demo_keys_ok [of "tc_encryption_key demo_config" "[]"] by simp
  with run show ?thesis by blast
qed

text \<open>
  A personal token lives for the days it was asked for, as long as that many seconds fit a
  signed 64-bit number. Past the point where the seconds saturate the unsigned range, the
  conversion makes the lifetime minus one second: the token is issued already expired.
\<close>

theorem pat_lifetime:
  assumes "crypto_ok (tc_crypto cfg)" and "keys_ok (tc_crypto cfg) (tc_encryption_key cfg) w"
    and "create_pat cfg ft user req w = (Inr resp, w')" and "pat_expires_in_days req = Some d"
  shows "(d * 86400 < 2 ^ 63 \<longrightarrow> patr_expires_at resp = clock w + 1000 * (86400 * int d))
    \<and> (2 ^ 64 - 1 \<le> d * 86400 \<longrightarrow> patr_expires_at resp = clock w - 1000)"
proof -
  let ?ttl = "min (d * 86400) (2 ^ 64 - 1)"
  let ?req = "\<lparr>ct_type = Pat, ct_principal = (case pat_principal req of None \<Rightarrow> principal_user (usr_id user) | Some p \<Rightarrow> p),
      ct_ttl_secs = ?ttl, ct_name = pat_name req,
      ct_scopes = (case pat_scopes req of None \<Rightarrow> [] | Some s \<Rightarrow> s), ct_refresh_pair_id = None, ct_extensions = None\<rparr>"
  from assms(3,4) obtain cr w1 where cr: "create_token cfg ft user ?req w = (Inr cr, w1)"
    and resp: "patr_expires_at resp = cr_expires_at cr"
    unfolding create_pat_def Let_def by (auto simp: ret_def elim!: qbind_Inr_E)
  from create_token_Inr [OF assms(1,2) cr] have "expiry cfg (clock w) ?ttl = Inr (cr_expires_at cr)"
    by (auto simp: token_made_def)
  then have "cr_expires_at cr = clock w + 1000 * as_i64 ?ttl" by (auto simp: expiry_def Let_def split: if_splits)
  moreover have "as_i64 ?ttl = 86400 * int d" if "d * 86400 < 2 ^ 63"
    using that by (simp add: as_i64_def Let_def min_def)
  moreover have "as_i64 ?ttl = -1" if "2 ^ 64 - 1 \<le> d * 86400"
    using that by (simp add: as_i64_def Let_def min_def)
  ultimately show ?thesis using resp by auto
qed

definition demo_pat_request :: create_pat_request where
  "demo_pat_request = \<lparr>pat_name = ''ci'', pat_expires_in_days = Some (10 ^ 15), pat_scopes = None, pat_principal = None\<rparr>"

theorem pat_lifetime_witness:
  "\<exists>resp. fst (create_pat demo_pair_config (demo_fresh ''x'') demo_user demo_pat_request (demo_world [])) = Inr resp
     \<and> patr_expires_at resp = -1000"
proof -
  let ?run = "create_pat demo_pair_config (demo_fresh ''x'') demo_user demo_pat_request (demo_world [])"
  have "\<exists>resp. fst ?run = Inr resp"
    by (simp add: create_pat_def create_token_def expiry_def as_i64_def get_signing_key_def get_or_create_def
      private_bytes_def decrypt_private_key_def jwt_sign_def repo_create_def create_row_def is_stateless_def
      find_row_def token_eval demo_token_defs demo_pair_config_def demo_pair_jwt_def demo_pat_request_def Let_def)
  then obtain resp where "fst ?run = Inr resp" by blast
  then have run: "?run = (Inr resp, snd ?run)" by (cases ?run) simp
  have "tc_crypto demo_pair_config = demo_crypto" by (simp add: demo_pair_config_def demo_config_def)
  then have "patr_expires_at resp = -1000"
    using pat_lifetime [OF _ _ run, of "10 ^ 15"] demo_crypto_ok demo_keys_ok by (simp add: demo_pat_request_def)
  then show ?thesis using \<open>fst ?run = Inr resp\<close> by blast
qed

section \<open>The two halves of a key\<close>

lemma keeps_keypairs_verifying: "keeps (\<lambda>w. keypairs w = ks) (get_verifying_key kid)"
  unfolding get_verifying_key_def find_by_kid_def find_active_by_owner_def
  by (auto intro!: keep_rules keeps_db_read keeps_modify split: option.split)

text \<open>
  C34. The signing key handed out for an owner and the key handed out to verify its signatures are
  the two halves of one active pair, whether they come from the caches, from the table, from a
  new pair or from one regenerated because the stored one could not be decrypted.
\<close>

theorem signing_and_verifying_keys_match:
  assumes "crypto_ok crypto" and "keys_ok crypto ek w"
    and "get_signing_key crypto ek fk1 fk2 owner w = (Inr (sk, kid), w1)"
    and "get_verifying_key kid w1 = (Inr pk, w2)"
  shows "kid = owner \<and> (\<exists>bytes. sk = pkcs8_prefix @ bytes \<and> pk = public_of crypto bytes) \<and> keys_ok crypto ek w2"
proof -
  from validD [OF get_signing_key_valid [OF assms(1)] assms(2,3)] obtain kp bytes where s: "keys_ok crypto ek w1"
    "kid = owner" "active_key w1 owner kp" "sk = pkcs8_prefix @ bytes" "kp_public kp = public_of crypto bytes"
    by (auto simp: signing_post_def)
  from validD [OF get_verifying_key_valid s(1) assms(4)] obtain kp' where v: "keys_ok crypto ek w2"
    "active_key w2 kid kp'" "kp_public kp' = pk" by auto
  have "keypairs w2 = keypairs w1"
    by (rule validD [OF keeps_keypairs_verifying _ assms(4)]) simp
  with s v have "kp' = kp" by (auto simp: keys_ok_def active_key_def)
  with s v show ?thesis by auto
qed

theorem signing_and_verifying_keys_match_witness:
  "let out = get_signing_key demo_crypto [] demo_key demo_key ''user:v'' ((demo_world [])\<lparr>keypairs := []\<rparr>)
   in fst out = Inr (pkcs8_prefix @ fk_private demo_key, ''user:v'')
      \<and> fst (get_verifying_key ''user:v'' (snd out)) = Inr (fk_private demo_key)
      \<and> keys_ok demo_crypto [] (snd (get_verifying_key ''user:v'' (snd out)))"
proof -
  let ?w = "(demo_world [])\<lparr>keypairs := []\<rparr>"
  let ?out = "get_signing_key demo_crypto [] demo_key demo_key ''user:v'' ?w"
  have s: "fst ?out = Inr (pkcs8_prefix @ fk_private demo_key, ''user:v'')"
    and v: "fst (get_verifying_key ''user:v'' (snd ?out)) = Inr (fk_private demo_key)"
    by (simp_all add: get_signing_key_def get_or_create_def private_bytes_def decrypt_private_key_def repo_create_def
        create_row_def find_row_def token_eval demo_token_defs)
  have "keys_ok demo_crypto [] ?w" by (simp add: keys_ok_def demo_world_def active_key_def wf_rows_def)
  moreover have "?out = (Inr (pkcs8_prefix @ fk_private demo_key, ''user:v''), snd ?out)" using s by (cases ?out) simp
  moreover have "get_verifying_key ''user:v'' (snd ?out) = (Inr (fk_private demo_key), snd (get_verifying_key ''user:v'' (snd ?out)))"
    using v by (cases "get_verifying_key ''user:v'' (snd ?out)") simp
  ultimately have "keys_ok demo_crypto [] (snd (get_verifying_key ''user:v'' (snd ?out)))"
    using signing_and_verifying_keys_match [OF demo_crypto_ok] by blast
  with s v show ?thesis by (simp add: Let_def)
qed

end
