(* ===== verification/Split_Plain.thy ===== *)
theory Split_Plain
  imports Rust_Str
begin

text \<open>
  The plain half of the message splitter (\<open>chat/channel/adapter/split.rs\<close>): where a long
  reply is cut (\<open>find_boundary\<close>), the silent splitter and the overflow suffix, with the
  lemmas on cut positions that the Markdown splitters of \<open>Split_Markdown\<close> share. A Rust
  slice \<open>&text[..i]\<close> panics when \<open>i\<close> is not a character boundary; here it is \<open>take i\<close>, and
  the lemmas show that every cut is a boundary.
\<close>

section \<open>Cut positions\<close>

definition newline :: char where
  "newline = CHR 0x0A"

text \<open>The walk back from the target to a character boundary.\<close>

fun boundary_below :: "string \<Rightarrow> nat \<Rightarrow> nat" where
  "boundary_below s 0 = 0"
| "boundary_below s (Suc n) =
     (if is_char_boundary s (Suc n) then Suc n else boundary_below s n)"

text \<open>The walk forward: the \<open>while\<close> loops that start after a position and stop at a boundary.\<close>

function boundary_from :: "string \<Rightarrow> nat \<Rightarrow> nat" where
  "boundary_from s i =
     (if i < length s \<and> \<not> is_char_boundary s i then boundary_from s (i + 1) else i)"
  by pat_completeness auto
termination
  by (relation "measure (\<lambda>(s, i). length s - i)") auto

declare boundary_from.simps [simp del]

lemma boundary_from_ge: "i \<le> boundary_from s i"
proof (induction s i rule: boundary_from.induct)
  case (1 s i)
  then show ?case by (subst boundary_from.simps) auto
qed

lemma boundary_from_pos [simp]: "0 < boundary_from s (Suc 0)"
  using boundary_from_ge [of "Suc 0" s] by simp

lemma newline_ascii [simp]: "is_ascii newline" "is_ascii (CHR '' '')"
  by (simp_all add: newline_def is_ascii_def)

definition find_boundary :: "string \<Rightarrow> nat \<Rightarrow> nat" where
  "find_boundary s target =
     (if length s \<le> target then length s
      else let upper = boundary_below s target
           in if upper = 0 then 0
              else let slice = take upper s
                   in case rfind_str [newline, newline] slice of
                        Some i \<Rightarrow> i + 2
                      | None \<Rightarrow>
                          (case rfind_str [newline] slice of
                             Some i \<Rightarrow> i + 1
                           | None \<Rightarrow>
                               (case rfind_str '' '' slice of Some i \<Rightarrow> i + 1 | None \<Rightarrow> upper)))"

section \<open>Splitting and truncating\<close>

function silent_split_loop :: "nat \<Rightarrow> string \<Rightarrow> string list" where
  "silent_split_loop limit remaining =
     (if remaining = [] then []
      else if length remaining \<le> limit then [remaining]
      else let cut = find_boundary remaining limit
           in if cut = 0
              then take (boundary_from remaining 1) remaining
                   # silent_split_loop limit (drop (boundary_from remaining 1) remaining)
              else take cut remaining # silent_split_loop limit (drop cut remaining))"
  by pat_completeness auto
termination
  by (relation "measure (\<lambda>(l, s). length s)") (auto simp: boundary_from_pos)

declare silent_split_loop.simps [simp del]

definition silent_split_plain :: "string \<Rightarrow> nat \<Rightarrow> string list" where
  "silent_split_plain body limit =
     (if length body \<le> limit then [body] else silent_split_loop limit body)"

definition overflow_prefix :: string where
  "overflow_prefix = [newline, newline] @ ''Full reply: ''"

definition append_overflow :: "string \<Rightarrow> string \<Rightarrow> nat \<Rightarrow> string" where
  "append_overflow body url total_limit =
     (let suffix_len = length overflow_prefix + length url;
          body_budget = total_limit - suffix_len;
          cut = find_boundary body body_budget
      in trim_end (take cut body) @ overflow_prefix @ url)"

section \<open>Facts about characters\<close>

lemma chars_append:
  "ys = [] \<or> \<not> is_cont (hd ys) \<Longrightarrow> chars (xs @ ys) = chars xs @ chars ys"
proof (induction xs rule: chars.induct)
  case (2 c cs)
  have take_w: "takeWhile is_cont (cs @ ys) = takeWhile is_cont cs"
    using "2.prems" by (cases ys) (auto simp: takeWhile_append takeWhile_eq_all_conv [THEN iffD2])
  show ?case
  proof (cases "dropWhile is_cont cs = []")
    case True
    then have "dropWhile is_cont (cs @ ys) = ys"
      using "2.prems" by (cases ys) (auto simp: dropWhile_append)
    with True take_w show ?thesis by (simp del: dropWhile_eq_Nil_conv)
  next
    case False
    then have "dropWhile is_cont (cs @ ys) = dropWhile is_cont cs @ ys"
      by (auto simp: dropWhile_append)
    with 2 take_w show ?thesis by simp
  qed
qed simp

lemma chars_take_drop:
  assumes "is_char_boundary s i"
  shows "chars (take i s) @ chars (drop i s) = chars s"
proof (cases "i = 0 \<or> drop i s = []")
  case False
  then have "\<not> is_cont (hd (drop i s))" using assms is_char_boundary_hd_drop by auto
  then show ?thesis using chars_append [of "drop i s" "take i s"] by simp
qed auto

lemma is_char_boundary_le: "is_char_boundary s i \<Longrightarrow> i \<le> length s"
  by (auto simp: is_char_boundary_def split: if_splits)

lemma is_char_boundary_take:
  "is_char_boundary (take u s) i \<Longrightarrow> is_char_boundary s u \<Longrightarrow> is_char_boundary s i"
  by (auto simp: is_char_boundary_def split: if_splits)

text \<open>The position after an ASCII byte of a text of whole characters is a boundary.\<close>

definition whole_chars :: "string \<Rightarrow> bool" where
  "whole_chars s \<longleftrightarrow> (\<forall>i < length s. Suc i < length s \<and> is_ascii (s ! i) \<longrightarrow> \<not> is_cont (s ! Suc i))"

lemma whole_chars_take: "whole_chars s \<Longrightarrow> whole_chars (take u s)"
  by (auto simp: whole_chars_def)

lemma whole_chars_drop: "whole_chars s \<Longrightarrow> whole_chars (drop u s)"
  by (auto simp: whole_chars_def)

lemma ascii_whole_chars: "list_all is_ascii s \<Longrightarrow> whole_chars s"
  by (auto simp: whole_chars_def list_all_length is_cont_def is_ascii_def)

lemma boundary_after_ascii:
  "whole_chars s \<Longrightarrow> Suc i \<le> length s \<Longrightarrow> is_ascii (s ! i) \<Longrightarrow> is_char_boundary s (Suc i)"
  by (auto simp: whole_chars_def is_char_boundary_def)

section \<open>Facts about the cut positions\<close>

lemma boundary_below_le: "boundary_below s n \<le> n"
  by (induction n) auto

lemma boundary_below_boundary: "is_char_boundary s (boundary_below s n)"
  by (induction n) auto

lemma boundary_below_0: "boundary_below s n = 0 \<Longrightarrow> 0 < i \<Longrightarrow> i \<le> n \<Longrightarrow> \<not> is_char_boundary s i"
  by (induction n) (auto split: if_splits simp: le_Suc_eq)

lemma boundary_from_boundary: "i \<le> length s \<Longrightarrow> is_char_boundary s (boundary_from s i)"
proof (induction s i rule: boundary_from.induct)
  case (1 s i)
  show ?case
  proof (cases "i < length s \<and> \<not> is_char_boundary s i")
    case True
    with 1 show ?thesis by (subst boundary_from.simps) simp
  next
    case False
    with "1.prems" show ?thesis by (subst boundary_from.simps) (auto simp: not_less)
  qed
qed

lemma rfind_newline_ascii:
  assumes "rfind_str p s = Some i" and "j < length p"
  shows "i + j < length s \<and> s ! (i + j) = p ! j"
proof -
  have "i + length p \<le> length s" and eq: "take (length p) (drop i s) = p"
    using rfind_str_Some [OF assms(1)] by auto
  moreover from eq have "p ! j = take (length p) (drop i s) ! j" by (rule arg_cong [OF sym])
  moreover have "take (length p) (drop i s) ! j = s ! (i + j)"
    using assms(2) calculation(1) by simp
  ultimately show ?thesis using assms(2) by simp
qed

lemma find_boundary_cases:
  assumes "target < length s"
  obtains (zero) "find_boundary s target = 0" and "boundary_below s target = 0"
    | (after) k where "find_boundary s target = Suc k" and "Suc k \<le> boundary_below s target"
        and "is_ascii (s ! k)" and "0 < boundary_below s target"
    | (char) "find_boundary s target = boundary_below s target" and "0 < boundary_below s target"
proof (cases "boundary_below s target = 0")
  case True
  with assms that(1) show thesis by (simp add: find_boundary_def)
next
  case False
  let ?u = "boundary_below s target"
  have nth: "take ?u s ! k = s ! k" if "k < length (take ?u s)" for k using that by simp
  show thesis
  proof (cases "rfind_str [newline, newline] (take ?u s)")
    case (Some i)
    from rfind_newline_ascii [OF Some, of 1]
    have "i + 1 < length (take ?u s)" and "take ?u s ! (i + 1) = newline" by auto
    with Some False assms nth [of "i + 1"] show thesis
      by (intro that(2) [of "i + 1"]) (auto simp: find_boundary_def)
  next
    case no_par: None
    show thesis
    proof (cases "rfind_str [newline] (take ?u s)")
      case (Some i)
      from rfind_newline_ascii [OF Some, of 0]
      have "i < length (take ?u s)" and "take ?u s ! i = newline" by auto
      with Some no_par False assms nth [of i] show thesis
        by (intro that(2) [of i]) (auto simp: find_boundary_def)
    next
      case no_line: None
      show thesis
      proof (cases "rfind_str '' '' (take ?u s)")
        case (Some i)
        from rfind_newline_ascii [OF Some, of 0]
        have "i < length (take ?u s)" and "take ?u s ! i = CHR '' ''" by auto
        moreover from this have "is_ascii (s ! i)" using newline_ascii(2) by simp
        ultimately show thesis using Some no_par no_line False assms
          by (intro that(2) [of i]) (auto simp: find_boundary_def)
      next
        case None
        with no_par no_line False assms show thesis
          by (intro that(3)) (auto simp: find_boundary_def)
      qed
    qed
  qed
qed

lemma find_boundary_le: "find_boundary s target \<le> target \<or> length s \<le> target"
proof (cases "target < length s")
  case True
  then show ?thesis
    by (cases rule: find_boundary_cases) (use boundary_below_le [of s target] in auto)
qed simp

lemma find_boundary_le_length: "find_boundary s target \<le> length s"
  using find_boundary_le [of s target] by (auto simp: find_boundary_def)

lemma find_boundary_boundary:
  assumes "whole_chars s"
  shows "is_char_boundary s (find_boundary s target)"
proof (cases "target < length s")
  case True
  then show ?thesis
  proof (cases rule: find_boundary_cases)
    case (after k)
    with assms True boundary_below_le [of s target] show ?thesis
      by (auto intro: boundary_after_ascii)
  qed (auto simp: boundary_below_boundary)
qed (simp add: find_boundary_def)

lemma find_boundary_pos:
  "i \<le> target \<Longrightarrow> 0 < i \<Longrightarrow> is_char_boundary s i \<Longrightarrow> 0 < find_boundary s target"
  by (cases "target < length s", erule find_boundary_cases)
     (auto simp: find_boundary_def dest: boundary_below_0 is_char_boundary_le)

section \<open>The silent splitter\<close>

lemma take_first_char:
  "k \<le> length cs \<Longrightarrow> (\<forall>i < k. is_cont (cs ! i)) \<Longrightarrow>
   take (boundary_from (c # cs) (Suc k)) (c # cs) = c # takeWhile is_cont cs"
proof (induction "length cs - k" arbitrary: k)
  case 0
  then have "k = length cs" and "\<forall>x \<in> set cs. is_cont x" by (auto simp: in_set_conv_nth)
  then show ?case by (subst boundary_from.simps) (simp add: takeWhile_eq_all_conv [THEN iffD2])
next
  case (Suc n)
  show ?case
  proof (cases "is_cont (cs ! k)")
    case True
    with Suc.hyps(2) have "boundary_from (c # cs) (Suc k) = boundary_from (c # cs) (Suc (Suc k))"
      by (subst boundary_from.simps) (auto simp: is_char_boundary_def)
    moreover have "n = length cs - Suc k" and "Suc k \<le> length cs"
      and "\<forall>i < Suc k. is_cont (cs ! i)"
      using Suc.hyps(2) Suc.prems True by (auto simp: less_Suc_eq)
    ultimately show ?thesis using Suc.hyps(1) by simp
  next
    case False
    with Suc.hyps(2) have "boundary_from (c # cs) (Suc k) = Suc k"
      by (subst boundary_from.simps) (auto simp: is_char_boundary_def)
    moreover have "takeWhile is_cont cs = take k cs"
      using False Suc.prems by (intro takeWhile_eq_take_P_nth) (auto simp: is_cont_def)
    ultimately show ?thesis by simp
  qed
qed

definition one_char :: "string \<Rightarrow> bool" where
  "one_char s \<longleftrightarrow> length (chars s) = 1"

lemma chars_first: "chars (c # takeWhile is_cont cs) = [c # takeWhile is_cont cs]"
proof -
  have "\<forall>x \<in> set (takeWhile is_cont cs). is_cont x" by (auto dest: set_takeWhileD)
  then have "dropWhile is_cont (takeWhile is_cont cs) = []" by (simp only: dropWhile_eq_Nil_conv)
  then show ?thesis by (simp del: dropWhile_eq_Nil_conv)
qed

lemma forced_char:
  assumes "s \<noteq> []"
  shows "one_char (take (boundary_from s (Suc 0)) s)"
proof (cases s)
  case (Cons c cs)
  then show ?thesis using take_first_char [of 0 cs c] by (simp add: one_char_def chars_first del: chars.simps)
qed (use assms in simp)

text \<open>What a loop promises of the chunks it cuts a text into.\<close>

definition cuts_into :: "nat \<Rightarrow> string \<Rightarrow> string list \<Rightarrow> bool" where
  "cuts_into limit s cs \<longleftrightarrow>
     concat cs = s \<and> concat (map chars cs) = chars s \<and>
     (\<forall>c \<in> set cs. c \<noteq> [] \<and> (length c \<le> limit \<or> one_char c))"

lemma cuts_into_Cons:
  assumes "is_char_boundary s i" and "0 < i" and "s \<noteq> []"
    and "i \<le> limit \<or> one_char (take i s)" and "cuts_into limit (drop i s) cs"
  shows "cuts_into limit s (take i s # cs)"
  using assms chars_take_drop [OF assms(1)] by (auto simp: cuts_into_def)

lemma silent_split_loop_cuts: "whole_chars s \<Longrightarrow> cuts_into limit s (silent_split_loop limit s)"
proof (induction limit s rule: silent_split_loop.induct)
  case (1 limit s)
  let ?cut = "find_boundary s limit"
  consider (empty) "s = []" | (fits) "s \<noteq> []" "length s \<le> limit"
    | (forced) "s \<noteq> []" "limit < length s" "?cut = 0"
    | (cut) "s \<noteq> []" "limit < length s" "0 < ?cut" by fastforce
  then show ?case
  proof cases
    case forced
    then have "Suc 0 \<le> length s" by (cases s) auto
    with forced 1 show ?thesis
      by (subst silent_split_loop.simps)
         (auto intro!: cuts_into_Cons boundary_from_boundary forced_char whole_chars_drop)
  next
    case cut
    with 1 find_boundary_le [of s limit] show ?thesis
      by (subst silent_split_loop.simps)
         (auto simp: Let_def intro!: cuts_into_Cons find_boundary_boundary whole_chars_drop)
  next
    case empty
    then show ?thesis by (simp add: silent_split_loop.simps [of limit "[]"] cuts_into_def)
  next
    case fits
    then show ?thesis by (simp add: silent_split_loop.simps [of limit s] cuts_into_def)
  qed
qed

text \<open>
  C39. The silent splitter loses, repeats and reorders nothing: the chunks concatenated are the
  text, every cut falls between two characters, and every chunk fits the provider's limit
  unless it is a single character that is longer than the limit by itself. No chunk is empty
  unless the text is.
\<close>

theorem plain_chunks_are_the_text:
  assumes "whole_chars body"
  shows "concat (silent_split_plain body limit) = body
    \<and> concat (map chars (silent_split_plain body limit)) = chars body
    \<and> (\<forall>c \<in> set (silent_split_plain body limit).
         (body \<noteq> [] \<longrightarrow> c \<noteq> []) \<and> (length c \<le> limit \<or> length (chars c) = 1))"
  using silent_split_loop_cuts [OF assms, of limit]
  by (auto simp: silent_split_plain_def cuts_into_def one_char_def)

theorem plain_chunks_witness:
  "concat (silent_split_plain ''one two three'' 6) = ''one two three''
   \<and> silent_split_plain ''one two three'' 6 = [''one '', ''two '', ''three'']"
proof
  have "whole_chars ''one two three''"
    by (rule ascii_whole_chars) (simp add: is_ascii_def)
  then show "concat (silent_split_plain ''one two three'' 6) = ''one two three''"
    using plain_chunks_are_the_text by blast
  show "silent_split_plain ''one two three'' 6 = [''one '', ''two '', ''three'']"
    by (simp add: silent_split_plain_def silent_split_loop.simps find_boundary_def
        is_char_boundary_def is_cont_def newline_def numeral_eq_Suc)
qed

section \<open>The overflow suffix\<close>

lemma trim_end_prefix: "\<exists>t. s = trim_end s @ t"
proof -
  have "rev (chars s) = takeWhile is_whitespace (rev (chars s)) @ dropWhile is_whitespace (rev (chars s))"
    by simp
  then have "chars s = rev (dropWhile is_whitespace (rev (chars s)))
      @ rev (takeWhile is_whitespace (rev (chars s)))"
    by (metis rev_append rev_rev_ident)
  then have "s = trim_end s @ concat (rev (takeWhile is_whitespace (rev (chars s))))"
    by (metis concat_append concat_chars trim_end_def)
  then show ?thesis by blast
qed

lemma overflow_fits:
  assumes "url \<noteq> []"
  shows "\<exists>head rest. append_overflow body url total_limit = head @ overflow_prefix @ url
    \<and> body = head @ rest
    \<and> (length (overflow_prefix @ url) \<le> total_limit
         \<longrightarrow> length (append_overflow body url total_limit) \<le> total_limit)
    \<and> (total_limit \<le> length (overflow_prefix @ url)
         \<longrightarrow> append_overflow body url total_limit = overflow_prefix @ url)"
proof -
  let ?budget = "total_limit - length (overflow_prefix @ url)"
  let ?cut = "find_boundary body ?budget"
  obtain t where t: "take ?cut body = trim_end (take ?cut body) @ t"
    using trim_end_prefix by blast
  have "append_overflow body url total_limit = trim_end (take ?cut body) @ overflow_prefix @ url"
    by (simp add: append_overflow_def Let_def)
  moreover have "body = trim_end (take ?cut body) @ t @ drop ?cut body"
    using t by (metis append.assoc append_take_drop_id)
  moreover have "length (take ?cut body) \<le> ?budget"
    using find_boundary_le [of body ?budget] by auto
  then have "length (trim_end (take ?cut body)) \<le> ?budget"
    using length_trim_end_le le_trans by blast
  moreover from this have "?budget = 0 \<Longrightarrow> trim_end (take ?cut body) = []" by simp
  ultimately show ?thesis by fastforce
qed

text \<open>
  The overflow message is a beginning of the reply, without trailing white space, and
  then the suffix with the whole link; it fits the limit whenever the suffix alone does, and
  a suffix that is longer than the limit leaves the suffix alone.
\<close>

theorem overflow_message_fits:
  assumes "url \<noteq> []"
  shows "\<exists>head rest. append_overflow body url total_limit = head @ overflow_prefix @ url
    \<and> body = head @ rest
    \<and> (length (overflow_prefix @ url) \<le> total_limit
         \<longrightarrow> length (append_overflow body url total_limit) \<le> total_limit)
    \<and> (total_limit \<le> length (overflow_prefix @ url)
         \<longrightarrow> append_overflow body url total_limit = overflow_prefix @ url)"
  using overflow_fits [OF assms, of body total_limit] .

theorem overflow_message_witness:
  "length (append_overflow ''a long reply that does not fit'' ''u'' 26) \<le> 26"
proof -
  have "length (overflow_prefix @ ''u'') \<le> 26" by (simp add: overflow_prefix_def)
  then show ?thesis
    using overflow_message_fits [of "''u''" "''a long reply that does not fit''" 26] by blast
qed

end
