(* ===== verification/Split_Markdown.thy ===== *)
theory Split_Markdown
  imports Split_Plain
begin

text \<open>
  The Markdown splitters of \<open>chat/channel/adapter/split.rs\<close>: the scanner that tells whether
  a position is inside a fenced block or an inline code span, and the two splitting loops,
  which differ in one call only (the Telegram loop moves a cut that falls after a backslash).
  The loop is written once over that call; the locale \<open>cut_adjust\<close> states what it must
  promise, and both splitters interpret it.
\<close>

section \<open>Fence state\<close>

record block_fence =
  marker :: char
  open_len :: nat

record fence_state =
  fence_block :: "block_fence option"
  inline_open :: "nat option"

definition no_fence :: fence_state where
  "no_fence = \<lparr>fence_block = None, inline_open = None\<rparr>"

definition backtick :: char where
  "backtick = CHR 0x60"

definition parse_opening_fence :: "string \<Rightarrow> block_fence option" where
  "parse_opening_fence line =
     (let trimmed = dropWhile (\<lambda>c. c = CHR '' '') line;
          indent = length line - length trimmed
      in if indent > 3 then None
         else case trimmed of
                [] \<Rightarrow> None
              | mk # rest \<Rightarrow>
                  if mk \<noteq> backtick \<and> mk \<noteq> CHR ''~'' then None
                  else let n = length (takeWhile (\<lambda>c. c = mk) trimmed)
                       in if n < 3 then None
                          else if mk = backtick \<and> backtick \<in> set (drop n trimmed) then None
                          else Some \<lparr>marker = mk, open_len = n\<rparr>)"

definition is_closing_fence :: "string \<Rightarrow> block_fence \<Rightarrow> bool" where
  "is_closing_fence line bf =
     (let trimmed = dropWhile (\<lambda>c. c = CHR '' '') line;
          indent = length line - length trimmed;
          n = length (takeWhile (\<lambda>c. c = marker bf) trimmed)
      in if indent > 3 then False
         else if n < open_len bf then False
         else list_all (\<lambda>c. c = CHR '' '' \<or> c = CHR 0x09) (drop n trimmed))"

text \<open>One run of backticks after the other; a run of another length inside a span is content.\<close>

function scan_inline_backticks :: "string \<Rightarrow> nat option \<Rightarrow> nat option" where
  "scan_inline_backticks [] opn = opn"
| "scan_inline_backticks (c # cs) opn =
     (if c \<noteq> backtick then scan_inline_backticks cs opn
      else let n = Suc (length (takeWhile (\<lambda>x. x = backtick) cs));
               opn' = (case opn of None \<Rightarrow> Some n | Some m \<Rightarrow> if m = n then None else Some m)
           in scan_inline_backticks (dropWhile (\<lambda>x. x = backtick) cs) opn')"
  by pat_completeness auto
termination
  by (relation "measure (\<lambda>(s, opn). length s)") (auto simp: less_Suc_eq_le intro: length_dropWhile_le)

definition line_at :: "string \<Rightarrow> nat \<Rightarrow> string" where
  "line_at s i = takeWhile (\<lambda>c. c \<noteq> newline) (drop i s)"

definition scan_line :: "string \<Rightarrow> nat \<Rightarrow> nat \<Rightarrow> fence_state \<Rightarrow> fence_state" where
  "scan_line s fin line_start st =
     (let line = line_at s line_start;
          line_end = line_start + length line
      in case fence_block st of
           Some bf \<Rightarrow> if is_closing_fence line bf then st\<lparr>fence_block := None\<rparr> else st
         | None \<Rightarrow>
             (case parse_opening_fence line of
                Some bf \<Rightarrow> st\<lparr>fence_block := Some bf, inline_open := None\<rparr>
              | None \<Rightarrow>
                  st\<lparr>inline_open := scan_inline_backticks
                       (take (min fin line_end - line_start) (drop line_start s)) (inline_open st)\<rparr>))"

function fence_loop :: "string \<Rightarrow> nat \<Rightarrow> fence_state \<Rightarrow> nat \<Rightarrow> fence_state" where
  "fence_loop s fin st line_start =
     (if line_start < fin
      then let line_end = line_start + length (line_at s line_start);
               st' = scan_line s fin line_start st
           in if line_end \<ge> fin then st'
              else fence_loop s fin
                     (if fence_block st' = None then st'\<lparr>inline_open := None\<rparr> else st') (line_end + 1)
      else st)"
  by pat_completeness auto
termination
  by (relation "measure (\<lambda>(s, fin, st, i). fin - i)") auto

declare fence_loop.simps [simp del]

definition fence_depth_from :: "string \<Rightarrow> nat \<Rightarrow> fence_state \<Rightarrow> fence_state" where
  "fence_depth_from s cursor entry = fence_loop s (min cursor (length s)) entry 0"

definition open_fence_marker :: "block_fence option \<Rightarrow> string" where
  "open_fence_marker b =
     (case b of None \<Rightarrow> [] | Some bf \<Rightarrow> replicate (open_len bf) (marker bf) @ [newline])"

definition close_fence_marker :: "block_fence option \<Rightarrow> string" where
  "close_fence_marker b =
     (case b of None \<Rightarrow> [] | Some bf \<Rightarrow> [newline] @ replicate (open_len bf) (marker bf))"

fun backtrack_to_safe :: "string \<Rightarrow> nat \<Rightarrow> fence_state \<Rightarrow> nat option" where
  "backtrack_to_safe s 0 entry = None"
| "backtrack_to_safe s (Suc pos) entry =
     (if \<not> is_char_boundary s pos then backtrack_to_safe s pos entry
      else if inline_open (fence_depth_from s pos entry) = None then Some pos
      else backtrack_to_safe s pos entry)"

section \<open>The splitting loops\<close>

definition choose_cut ::
    "(string \<Rightarrow> nat \<Rightarrow> nat) \<Rightarrow> string \<Rightarrow> nat \<Rightarrow> fence_state \<Rightarrow> nat \<times> string" where
  "choose_cut adjust remaining candidate entry =
     (let at_candidate = fence_depth_from remaining candidate entry
      in case (fence_block at_candidate, inline_open at_candidate) of
           (None, None) \<Rightarrow> (candidate, [])
         | (b, Some _) \<Rightarrow>
             (case backtrack_to_safe remaining candidate entry of
                Some safe0 \<Rightarrow>
                  let safe = adjust remaining safe0
                  in (safe, close_fence_marker (fence_block (fence_depth_from remaining safe entry)))
              | None \<Rightarrow> (candidate, close_fence_marker b))
         | (Some bf, None) \<Rightarrow> (candidate, close_fence_marker (Some bf)))"

function split_loop ::
    "(string \<Rightarrow> nat \<Rightarrow> nat) \<Rightarrow> string \<Rightarrow> nat \<Rightarrow> nat \<Rightarrow> fence_state \<Rightarrow> string list" where
  "split_loop adjust s limit cursor entry =
     (if cursor < length s
      then let remaining = drop cursor s;
               prefix = open_fence_marker (fence_block entry)
           in if length remaining + length prefix \<le> limit then [prefix @ remaining]
              else let budget = limit - length prefix;
                       candidate = adjust remaining (find_boundary remaining budget);
                       (cut, close) = choose_cut adjust remaining candidate entry
                   in if cut = 0
                      then let i = boundary_from remaining 1
                           in (prefix @ take i remaining)
                              # split_loop adjust s limit (cursor + i)
                                  (fence_depth_from s (cursor + i) no_fence)
                      else (prefix @ take cut remaining @ close)
                           # split_loop adjust s limit (cursor + cut)
                               (fence_depth_from s (cursor + cut) no_fence)
      else [])"
  by pat_completeness auto
termination
  by (relation "measure (\<lambda>(a, s, l, c, e). length s - c)") (auto simp: diff_less_mono2)

declare split_loop.simps [simp del]

definition split_markdown_aware :: "string \<Rightarrow> nat \<Rightarrow> string list" where
  "split_markdown_aware s limit = split_loop (\<lambda>_ cut. cut) s limit 0 no_fence"

definition avoid_split_after_backslash :: "string \<Rightarrow> nat \<Rightarrow> nat" where
  "avoid_split_after_backslash s pos =
     (if pos = 0 \<or> pos \<ge> length s then pos
      else let backslashes = length (takeWhile (\<lambda>c. c = CHR 0x5C) (rev (take pos s)))
           in if backslashes mod 2 = 1 then boundary_from s (pos + 1) else pos)"

definition split_markdown_v2_aware :: "string \<Rightarrow> nat \<Rightarrow> string list" where
  "split_markdown_v2_aware s limit = split_loop avoid_split_after_backslash s limit 0 no_fence"

definition markdown_split :: "nat \<Rightarrow> string \<Rightarrow> string list" where
  "markdown_split provider_limit s =
     (if trim s = [] then []
      else if length s \<le> provider_limit then [s]
      else split_markdown_aware s provider_limit)"

definition telegram_split :: "nat \<Rightarrow> string \<Rightarrow> string list" where
  "telegram_split provider_limit s =
     (if trim s = [] then []
      else if length s \<le> provider_limit then [s]
      else split_markdown_v2_aware s provider_limit)"

section \<open>What the chunks are\<close>

text \<open>
  A chunk is the concatenation of a prefix, a piece of the text and a suffix. \<open>fenced\<close> says
  which prefix and suffix a piece at offset \<open>k\<close> of the text has: the prefix reopens the
  block the text is in at \<open>k\<close>, and the suffix closes the block the scan of the rest finds at
  the end of the piece. Two pieces have no suffix whatever the scan finds: the rest of the text,
  sent as it is, and a single character the loop was forced to emit.
\<close>

type_synonym piece = "string \<times> string \<times> string"

fun glue :: "piece \<Rightarrow> string" where
  "glue (p, b, c) = p @ b @ c"

fun piece_body :: "piece \<Rightarrow> string" where
  "piece_body (p, b, c) = b"

fun fenced :: "string \<Rightarrow> nat \<Rightarrow> piece list \<Rightarrow> bool" where
  "fenced s k [] = True"
| "fenced s k ((p, b, c) # ps) =
     (let entry = fence_depth_from s k no_fence
      in p = open_fence_marker (fence_block entry)
         \<and> (c = close_fence_marker (fence_block (fence_depth_from (drop k s) (length b) entry))
            \<or> c = [] \<and> (b = drop k s \<or> length (chars b) = 1))
         \<and> fenced s (k + length b) ps)"

definition text_ok :: "string \<Rightarrow> bool" where
  "text_ok s \<longleftrightarrow> whole_chars s \<and> (\<forall>ch \<in> set (chars s). length ch \<le> 4)"

text \<open>
  \<open>sound_pieces\<close> is what both loops promise: the pieces are the text, cut between
  characters; each fits the limit (with the allowance \<open>slack\<close>) together with its prefix or is
  a single character; all but the last satisfy \<open>good\<close> or are a single character.
\<close>

definition sound_pieces :: "nat \<Rightarrow> (string \<Rightarrow> bool) \<Rightarrow> string \<Rightarrow> piece list \<Rightarrow> bool" where
  "sound_pieces bound good s ps \<longleftrightarrow>
     concat (map piece_body ps) = s \<and> concat (map (chars \<circ> piece_body) ps) = chars s
     \<and> (\<forall>(p, b, c) \<in> set ps. b \<noteq> [] \<and> (length p + length b \<le> bound \<or> one_char b))
     \<and> (\<forall>(p, b, c) \<in> set (butlast ps). good b \<or> one_char b)"

lemma sound_pieces_Nil [simp]: "sound_pieces bound good [] []"
  by (simp add: sound_pieces_def)

lemma sound_pieces_Cons:
  assumes "is_char_boundary s i" and "0 < i" and "s \<noteq> []"
    and "length p + i \<le> bound \<or> one_char (take i s)"
    and "i < length s \<Longrightarrow> good (take i s) \<or> one_char (take i s)"
    and "sound_pieces bound good (drop i s) ps"
  shows "sound_pieces bound good s ((p, take i s, c) # ps)"
proof -
  have "i \<le> length s" using assms(1) by (rule is_char_boundary_le)
  moreover have "ps \<noteq> [] \<Longrightarrow> i < length s"
    using assms(6) calculation by (cases ps; cases "i = length s") (auto simp: sound_pieces_def)
  ultimately show ?thesis
    using assms chars_take_drop [OF assms(1)] by (auto simp: sound_pieces_def)
qed

lemma is_char_boundary_drop:
  "is_char_boundary (drop k s) i \<Longrightarrow> 0 < i \<Longrightarrow> k \<le> length s \<Longrightarrow> is_char_boundary s (k + i)"
  by (auto simp: is_char_boundary_def split: if_splits)

lemma text_ok_drop: "text_ok s \<Longrightarrow> is_char_boundary s k \<Longrightarrow> text_ok (drop k s)"
  using chars_take_drop [of s k]
  by (auto simp: text_ok_def whole_chars_drop) (metis Un_iff set_append)

section \<open>The contract of the cut adjustment\<close>

locale cut_adjust =
  fixes adjust :: "string \<Rightarrow> nat \<Rightarrow> nat"
    and slack :: nat
    and good :: "string \<Rightarrow> bool"
  assumes adjust_boundary: "is_char_boundary s i \<Longrightarrow> is_char_boundary s (adjust s i)"
    and adjust_zero: "adjust s 0 = 0"
    and adjust_slack: "text_ok s \<Longrightarrow> is_char_boundary s i \<Longrightarrow> adjust s i \<le> i + slack"
    and adjust_next: "is_char_boundary s j \<Longrightarrow> i \<le> j \<Longrightarrow> j < adjust s i \<Longrightarrow> j = i"
    and adjust_good: "is_char_boundary s i \<Longrightarrow> 0 < i \<Longrightarrow> adjust s i < length s \<Longrightarrow> good (take (adjust s i) s)"
begin

lemma backtrack_safe:
  "backtrack_to_safe s i entry = Some j \<Longrightarrow> j < i \<and> is_char_boundary s j"
  by (induction s i entry rule: backtrack_to_safe.induct) (auto split: if_splits)

text \<open>The cut is an adjusted boundary, not past the adjusted boundary the loop starts from.\<close>

lemma choose_cut_adjusted:
  assumes "choose_cut adjust rem (adjust rem raw) entry = (pos, close)" and "is_char_boundary rem raw"
  shows "\<exists>i \<le> raw. is_char_boundary rem i \<and> pos = adjust rem i"
    and "close = close_fence_marker (fence_block (fence_depth_from rem pos entry))"
proof -
  have "\<exists>i \<le> raw. is_char_boundary rem i \<and> adjust rem j = adjust rem i"
    if safe: "backtrack_to_safe rem (adjust rem raw) entry = Some j" for j
  proof (cases "j \<le> raw")
    case False
    with backtrack_safe [OF safe] adjust_next [of rem j raw] show ?thesis by auto
  qed (use backtrack_safe [OF safe] in auto)
  with assms show "\<exists>i \<le> raw. is_char_boundary rem i \<and> pos = adjust rem i"
    by (force simp: choose_cut_def Let_def split: option.splits)
  show "close = close_fence_marker (fence_block (fence_depth_from rem pos entry))"
    using assms(1)
    by (auto simp: choose_cut_def Let_def close_fence_marker_def split: option.splits)
qed

text \<open>The loop's pieces are sound, from any offset: one step, then the whole loop.\<close>

definition pieces_from :: "string \<Rightarrow> nat \<Rightarrow> nat \<Rightarrow> string list \<Rightarrow> bool" where
  "pieces_from s limit cursor cs \<longleftrightarrow>
     (\<exists>ps. cs = map glue ps \<and> sound_pieces (limit + slack) good (drop cursor s) ps \<and> fenced s cursor ps)"

lemma pieces_from_step:
  assumes "pieces_from s limit (cursor + i) cs" and "is_char_boundary (drop cursor s) i"
    and "0 < i" and "cursor < length s"
    and "length p + i \<le> limit + slack \<or> one_char (take i (drop cursor s))"
    and "i < length s - cursor \<Longrightarrow> good (take i (drop cursor s)) \<or> one_char (take i (drop cursor s))"
    and "entry = fence_depth_from s cursor no_fence" and "p = open_fence_marker (fence_block entry)"
    and "c = close_fence_marker (fence_block (fence_depth_from (drop cursor s) i entry))
      \<or> c = [] \<and> (take i (drop cursor s) = drop cursor s \<or> length (chars (take i (drop cursor s))) = 1)"
  shows "pieces_from s limit cursor ((p @ take i (drop cursor s) @ c) # cs)"
proof -
  from assms(1) obtain ps where ps: "cs = map glue ps"
    "sound_pieces (limit + slack) good (drop (cursor + i) s) ps" "fenced s (cursor + i) ps"
    by (auto simp: pieces_from_def)
  have i: "i \<le> length s - cursor" using is_char_boundary_le [OF assms(2)] by simp
  have "sound_pieces (limit + slack) good (drop cursor s) ((p, take i (drop cursor s), c) # ps)"
    using assms(2-6) ps(2) by (intro sound_pieces_Cons) (auto simp: add.commute)
  moreover have "fenced s cursor ((p, take i (drop cursor s), c) # ps)"
    using assms(7-9) ps(3) i by (simp add: Let_def min_absorb2)
  ultimately show ?thesis
    unfolding pieces_from_def using ps(1)
    by (intro exI [of _ "(p, take i (drop cursor s), c) # ps"]) simp
qed

lemma split_loop_pieces:
  assumes "text_ok s" and "entry = fence_depth_from s cursor no_fence" and "cursor \<le> length s"
    and "is_char_boundary s cursor"
  shows "pieces_from s limit cursor (split_loop adjust s limit cursor entry)"
  using assms(2-)
proof (induction "length s - cursor" arbitrary: cursor entry rule: less_induct)
  case less
  let ?rem = "drop cursor s"
  let ?prefix = "open_fence_marker (fence_block entry)"
  let ?raw = "find_boundary ?rem (limit - length ?prefix)"
  have rem_ok: "text_ok ?rem" using assms(1) less.prems(3) by (rule text_ok_drop)
  then have raw_bound: "is_char_boundary ?rem ?raw" by (simp add: text_ok_def find_boundary_boundary)
  obtain pos close where chosen: "choose_cut adjust ?rem (adjust ?rem ?raw) entry = (pos, close)"
    by (cases "choose_cut adjust ?rem (adjust ?rem ?raw) entry")
  have next_ok: "pieces_from s limit (cursor + i)
      (split_loop adjust s limit (cursor + i) (fence_depth_from s (cursor + i) no_fence))"
    if "is_char_boundary ?rem i" "0 < i" "cursor < length s" for i
    using that is_char_boundary_le [OF that(1)] is_char_boundary_drop [OF that(1,2)]
    by (intro less.hyps) auto
  consider (ended) "cursor = length s"
    | (fits) "cursor < length s" "length ?rem + length ?prefix \<le> limit"
    | (forced) "cursor < length s" "limit < length ?rem + length ?prefix" "pos = 0"
    | (cutting) "cursor < length s" "limit < length ?rem + length ?prefix" "0 < pos"
    using less.prems(2) by linarith
  then show ?case
  proof cases
    case ended
    then show ?thesis
      by (subst split_loop.simps) (auto simp: pieces_from_def intro!: exI [of _ "[]"])
  next
    case fits
    then show ?thesis using less.prems(1)
      by (subst split_loop.simps)
         (auto simp: pieces_from_def sound_pieces_def Let_def intro!: exI [of _ "[(?prefix, ?rem, [])]"])
  next
    case forced
    let ?i = "boundary_from ?rem 1"
    have "is_char_boundary ?rem ?i" and "one_char (take ?i ?rem)"
      using forced(1) boundary_from_boundary [of 1 ?rem] forced_char [of ?rem] by auto
    with forced less.prems(1) have "pieces_from s limit cursor ((?prefix @ take ?i ?rem @ []) #
        split_loop adjust s limit (cursor + ?i) (fence_depth_from s (cursor + ?i) no_fence))"
      by (intro pieces_from_step next_ok) (auto simp: one_char_def)
    with forced chosen show ?thesis by (subst split_loop.simps) (simp add: Let_def)
  next
    case cutting
    obtain i where i: "i \<le> ?raw" "is_char_boundary ?rem i" "pos = adjust ?rem i"
      and close: "close = close_fence_marker (fence_block (fence_depth_from ?rem pos entry))"
      using choose_cut_adjusted [OF chosen raw_bound] by blast
    have "0 < i" using i(3) cutting(3) adjust_zero by (cases i) auto
    then have "length ?prefix + i \<le> limit"
      using i(1) cutting(1,2) find_boundary_le [of ?rem "limit - length ?prefix"] by auto
    then have "length ?prefix + pos \<le> limit + slack"
      using adjust_slack [OF rem_ok i(2)] i(3) by simp
    moreover have "is_char_boundary ?rem pos" using i(2,3) adjust_boundary by simp
    moreover have "good (take pos ?rem)" if "pos < length s - cursor"
      using adjust_good [OF i(2) \<open>0 < i\<close>] i(3) that by simp
    ultimately have "pieces_from s limit cursor ((?prefix @ take pos ?rem @ close) #
        split_loop adjust s limit (cursor + pos) (fence_depth_from s (cursor + pos) no_fence))"
      using cutting less.prems(1) close by (intro pieces_from_step next_ok) auto
    with cutting chosen show ?thesis by (subst split_loop.simps) (simp add: Let_def)
  qed
qed

lemma split_pieces:
  assumes "text_ok s"
  shows "\<exists>ps. split_loop adjust s limit 0 no_fence = map glue ps
    \<and> sound_pieces (limit + slack) good s ps \<and> fenced s 0 ps"
  using split_loop_pieces [OF assms, of no_fence 0 limit]
  by (simp add: pieces_from_def fence_depth_from_def fence_loop.simps [of s 0])

end

section \<open>The two adjustments\<close>

interpretation plain_cut: cut_adjust "\<lambda>_ i. i" 0 "\<lambda>_. True"
  by unfold_locales auto

lemma boundary_from_first: "i \<le> j \<Longrightarrow> j < boundary_from s i \<Longrightarrow> \<not> is_char_boundary s j"
proof (induction s i rule: boundary_from.induct)
  case (1 s i)
  show ?case
  proof (cases "i < length s \<and> \<not> is_char_boundary s i")
    case True
    with 1 show ?thesis
      by (cases "j = i") (auto simp: boundary_from.simps [of s i])
  next
    case False
    with "1.prems" show ?thesis by (auto simp: boundary_from.simps [of s i])
  qed
qed

lemma boundary_from_shift:
  "0 < k \<Longrightarrow> i + k \<le> length s \<Longrightarrow> boundary_from s (i + k) = i + boundary_from (drop i s) k"
proof (induction "length s - (i + k)" arbitrary: k)
  case 0
  then show ?case by (simp add: boundary_from.simps [of s] boundary_from.simps [of "drop i s"])
next
  case (Suc n)
  then have "is_char_boundary (drop i s) k = is_char_boundary s (i + k)"
    by (auto simp: is_char_boundary_def)
  moreover have "k < length s - i" using Suc.hyps(2) by simp
  ultimately show ?case
    using Suc Suc.hyps(1) [of "Suc k"]
    by (simp add: boundary_from.simps [of s "i + k"] boundary_from.simps [of "drop i s" k])
qed

lemma boundary_from_char:
  assumes "text_ok s" and "is_char_boundary s i" and "i < length s"
  shows "boundary_from s (i + 1) \<le> i + 4"
proof -
  let ?t = "drop i s" and ?b = "boundary_from (drop i s) (Suc 0)"
  obtain c cs where t: "?t = c # cs" using assms(3) by (cases ?t) auto
  have "c # takeWhile is_cont cs \<in> set (chars s)"
    using chars_take_drop [OF assms(2)] t by (metis Un_iff chars.simps(2) list.set_intros(1) set_append)
  then have "length (c # takeWhile is_cont cs) \<le> 4" using assms(1) by (auto simp: text_ok_def)
  moreover have "take ?b ?t = c # takeWhile is_cont cs" using take_first_char [of 0 cs c] t by simp
  moreover have "?b \<le> length ?t"
    using boundary_from_boundary [of "Suc 0" ?t] t by (intro is_char_boundary_le) simp
  ultimately have "?b \<le> 4" by (metis length_take min_absorb2)
  with assms(3) boundary_from_shift [of 1 i s] show ?thesis by simp
qed

definition even_backslashes :: "string \<Rightarrow> bool" where
  "even_backslashes b \<longleftrightarrow> length (takeWhile (\<lambda>c. c = CHR 0x5C) (rev b)) mod 2 = 0"

lemma even_backslashes_snoc:
  "even_backslashes (b @ [c]) \<longleftrightarrow> c \<noteq> CHR 0x5C \<or> \<not> even_backslashes b"
  by (auto simp: even_backslashes_def mod_Suc)

lemma avoid_even:
  assumes "is_char_boundary s i" and "0 < i" and "avoid_split_after_backslash s i < length s"
  shows "even_backslashes (take (avoid_split_after_backslash s i) s)"
proof (cases "i < length s \<and> \<not> even_backslashes (take i s)")
  case True
  let ?n = "boundary_from s (i + 1)"
  have n: "avoid_split_after_backslash s i = ?n"
    using True assms(2) by (simp add: avoid_split_after_backslash_def even_backslashes_def Let_def)
  then have "?n < length s" using assms(3) by simp
  show ?thesis
  proof (cases "?n = i + 1")
    case True
    with \<open>?n < length s\<close> \<open>i < length s \<and> _\<close> n show ?thesis
      by (simp add: take_Suc_conv_app_nth even_backslashes_snoc)
  next
    case False
    define j where "j = ?n - 1"
    have j: "i + 1 \<le> j" "?n = Suc j"
      using False boundary_from_ge [of "i + 1" s] by (auto simp: j_def)
    then have "\<not> is_char_boundary s j" using boundary_from_first [of "i + 1" j s] by simp
    then have "is_cont (s ! j)" using j \<open>?n < length s\<close> by (auto simp: is_char_boundary_def split: if_splits)
    then have "s ! j \<noteq> CHR 0x5C" by (auto simp: is_cont_def)
    with j n \<open>?n < length s\<close> show ?thesis by (simp add: take_Suc_conv_app_nth even_backslashes_snoc)
  qed
next
  case False
  then show ?thesis
    using assms by (auto simp: avoid_split_after_backslash_def even_backslashes_def Let_def)
qed

interpretation escape_cut: cut_adjust avoid_split_after_backslash 4 even_backslashes
proof
  show "is_char_boundary s (avoid_split_after_backslash s i)" if "is_char_boundary s i" for s i
    using that boundary_from_boundary [of "Suc i" s]
    by (auto simp: avoid_split_after_backslash_def Let_def)
  show "avoid_split_after_backslash s i \<le> i + 4" if "text_ok s" "is_char_boundary s i" for s i
    using boundary_from_char [OF that] by (auto simp: avoid_split_after_backslash_def Let_def)
  show "j = i" if "is_char_boundary s j" "i \<le> j" "j < avoid_split_after_backslash s i" for s i j
  proof (rule ccontr)
    assume "j \<noteq> i"
    with that boundary_from_first [of "Suc i" j s] show False
      by (auto simp: avoid_split_after_backslash_def Let_def split: if_splits)
  qed
qed (auto simp: avoid_even, simp add: avoid_split_after_backslash_def)

section \<open>Properties\<close>

text \<open>The equations that evaluate a splitter on a concrete text.\<close>

lemmas split_eval = split_loop.simps find_boundary_def is_char_boundary_def is_cont_def newline_def
  choose_cut_def fence_depth_from_def fence_loop.simps scan_line_def line_at_def no_fence_def
  open_fence_marker_def close_fence_marker_def parse_opening_fence_def is_closing_fence_def
  backtick_def numeral_eq_Suc

lemma chars_ascii: "list_all is_ascii s \<Longrightarrow> chars s = map (\<lambda>c. [c]) s"
proof (induction s rule: chars.induct)
  case (2 c cs)
  then have "takeWhile is_cont cs = []" "dropWhile is_cont cs = cs"
    by (cases cs; auto simp: is_ascii_def is_cont_def)+
  with 2 show ?case by simp
qed simp

lemma ascii_text_ok:
  "list_all is_ascii s \<Longrightarrow> whole_chars s \<and> (\<forall>ch \<in> set (chars s). length ch \<le> 4)"
  by (auto simp: chars_ascii ascii_whole_chars)


text \<open>
  C24. The chunks of the Markdown splitter are the text with fence markers around its pieces:
  the pieces concatenated are the text, no cut falls inside a character, a piece and the
  marker before it fit the provider's limit (or the piece is one character), the marker
  before a piece reopens exactly the block the text is in there, and every piece is followed by
  the marker that closes the block the scanner finds at its end, nothing when it finds none. Only
  the rest of the text, which is the last piece, and a single character that was forced out for
  want of room may go without that marker.
\<close>

theorem markdown_chunks_are_the_text:
  assumes "whole_chars s" and "\<forall>ch \<in> set (chars s). length ch \<le> 4"
  shows "\<exists>ps. split_markdown_aware s limit = map (\<lambda>(p, b, c). p @ b @ c) ps
    \<and> concat (map (\<lambda>(p, b, c). b) ps) = s
    \<and> concat (map (\<lambda>(p, b, c). chars b) ps) = chars s
    \<and> (\<forall>(p, b, c) \<in> set ps. b \<noteq> [] \<and> (length p + length b \<le> limit \<or> length (chars b) = 1))
    \<and> fenced s 0 ps"
proof -
  have "glue = (\<lambda>(p, b, c). p @ b @ c)" "piece_body = (\<lambda>(p, b, c). b)"
    "chars \<circ> piece_body = (\<lambda>(p, b, c). chars b)" by auto
  then show ?thesis
    using plain_cut.split_pieces [of s limit] assms
    by (simp add: text_ok_def split_markdown_aware_def sound_pieces_def one_char_def)
qed

theorem markdown_chunks_witness:
  "\<exists>ps. [''~~~ab '' @ newline # ''~~~'', ''~~~'' @ newline # ''cd''] = map (\<lambda>(p, b, c). p @ b @ c) ps
    \<and> concat (map (\<lambda>(p, b, c). b) ps) = ''~~~ab cd'' \<and> fenced ''~~~ab cd'' 0 ps"
proof -
  let ?s = "''~~~ab cd''"
  have ok: "list_all is_ascii ?s" by (simp add: is_ascii_def)
  have run: "split_markdown_aware ?s 7 = [''~~~ab '' @ newline # ''~~~'', ''~~~'' @ newline # ''cd'']"
    by (simp add: split_markdown_aware_def split_eval)
  show ?thesis
    using markdown_chunks_are_the_text
      [of ?s 7, OF ascii_text_ok [OF ok, THEN conjunct1] ascii_text_ok [OF ok, THEN conjunct2], unfolded run]
    by (elim exE conjE, intro exI conjI) assumption+
qed

text \<open>
  The Telegram splitter keeps the text in the same way, and never cuts between a backslash
  and the character it escapes: every piece but the last ends in an even number of
  backslashes, unless it is one character the loop was forced to emit. Moving a cut past an
  escaped character may take a chunk over the limit by that character, four bytes at most.
\<close>

theorem telegram_chunks_keep_escapes:
  assumes "whole_chars s" and "\<forall>ch \<in> set (chars s). length ch \<le> 4"
  shows "\<exists>ps. split_markdown_v2_aware s limit = map (\<lambda>(p, b, c). p @ b @ c) ps
    \<and> concat (map (\<lambda>(p, b, c). b) ps) = s
    \<and> concat (map (\<lambda>(p, b, c). chars b) ps) = chars s
    \<and> (\<forall>(p, b, c) \<in> set ps. b \<noteq> [] \<and> (length p + length b \<le> limit + 4 \<or> length (chars b) = 1))
    \<and> (\<forall>(p, b, c) \<in> set (butlast ps).
         length (takeWhile (\<lambda>x. x = CHR 0x5C) (rev b)) mod 2 = 0 \<or> length (chars b) = 1)
    \<and> fenced s 0 ps"
proof -
  have "glue = (\<lambda>(p, b, c). p @ b @ c)" "piece_body = (\<lambda>(p, b, c). b)"
    "chars \<circ> piece_body = (\<lambda>(p, b, c). chars b)" by auto
  then show ?thesis
    using escape_cut.split_pieces [of s limit] assms
    by (simp add: text_ok_def split_markdown_v2_aware_def sound_pieces_def one_char_def
        even_backslashes_def)
qed

theorem telegram_chunks_witness:
  "\<exists>ps. [[CHR ''a'', CHR ''b'', CHR 0x5C, CHR ''.''], ''c''] = map (\<lambda>(p, b, c). p @ b @ c) ps
    \<and> concat (map (\<lambda>(p, b, c). b) ps) = [CHR ''a'', CHR ''b'', CHR 0x5C, CHR ''.'', CHR ''c'']"
proof -
  let ?s = "[CHR ''a'', CHR ''b'', CHR 0x5C, CHR ''.'', CHR ''c'']"
  have ok: "list_all is_ascii ?s" by (simp add: is_ascii_def)
  have run: "split_markdown_v2_aware ?s 3 = [[CHR ''a'', CHR ''b'', CHR 0x5C, CHR ''.''], ''c'']"
    by (simp add: split_markdown_v2_aware_def avoid_split_after_backslash_def boundary_from.simps split_eval)
  show ?thesis
    using telegram_chunks_keep_escapes
      [of ?s 3, OF ascii_text_ok [OF ok, THEN conjunct1] ascii_text_ok [OF ok, THEN conjunct2], unfolded run]
    by (elim exE conjE, intro exI conjI) assumption+
qed

section \<open>Text without fences\<close>

text \<open>No run of three backticks or tildes: nothing in the text opens a block.\<close>

definition fence_free :: "string \<Rightarrow> bool" where
  "fence_free s \<longleftrightarrow> \<not> contains s (replicate 3 backtick) \<and> \<not> contains s (replicate 3 (CHR ''~''))"

lemma contains_sub: "contains b p \<Longrightarrow> contains (a @ b @ c) p"
  by (auto simp: contains_iff) (metis append.assoc)

lemma fence_free_drop: "fence_free s \<Longrightarrow> fence_free (drop k s)"
  using contains_sub [of "drop k s" _ "take k s" "[]"] by (auto simp: fence_free_def)

lemma parse_opening_fence_contains:
  assumes "parse_opening_fence line = Some bf"
  shows "contains line (replicate 3 backtick) \<or> contains line (replicate 3 (CHR ''~''))"
proof -
  let ?t = "dropWhile (\<lambda>c. c = CHR '' '') line"
  from assms obtain mk where mk: "mk = backtick \<or> mk = CHR ''~''"
    and run: "3 \<le> length (takeWhile (\<lambda>c. c = mk) ?t)"
    by (auto simp: parse_opening_fence_def Let_def not_less split: list.splits if_splits)
  have "takeWhile (\<lambda>c. c = mk) ?t = replicate (length (takeWhile (\<lambda>c. c = mk) ?t)) mk"
    by (auto simp: list_eq_iff_nth_eq dest!: nth_mem set_takeWhileD)
  also have "\<dots> = replicate 3 mk @ replicate (length (takeWhile (\<lambda>c. c = mk) ?t) - 3) mk"
    using run by (simp flip: replicate_add)
  finally have "contains ?t (replicate 3 mk)"
    unfolding contains_iff
    by (metis append.assoc append_Nil takeWhile_dropWhile_id)
  then have "contains line (replicate 3 mk)"
    using contains_sub [of ?t "replicate 3 mk" "takeWhile (\<lambda>c. c = CHR '' '') line" "[]"] by simp
  with mk show ?thesis by auto
qed

lemma line_at_sub: "\<exists>a b. s = a @ line_at s i @ b"
  unfolding line_at_def by (metis append_take_drop_id takeWhile_dropWhile_id)

lemma fence_free_line: "fence_free s \<Longrightarrow> parse_opening_fence (line_at s i) = None"
  using line_at_sub [of s i] parse_opening_fence_contains [of "line_at s i"] contains_sub
  by (cases "parse_opening_fence (line_at s i)") (auto simp: fence_free_def, metis+)

lemma fence_free_loop:
  "fence_free s \<Longrightarrow> fence_block st = None \<Longrightarrow> fence_block (fence_loop s fin st i) = None"
proof (induction s fin st i rule: fence_loop.induct)
  case (1 s fin st i)
  have "fence_block (scan_line s fin i st) = None"
    using "1.prems" by (simp add: scan_line_def Let_def fence_free_line)
  with 1 show ?case
    by (subst fence_loop.simps) (simp add: Let_def)
qed

lemma fence_free_depth:
  "fence_free s \<Longrightarrow> fence_block st = None \<Longrightarrow> fence_block (fence_depth_from s i st) = None"
  by (simp add: fence_depth_from_def fence_free_loop)

lemma fenced_fence_free:
  "fence_free s \<Longrightarrow> fenced s k ps \<Longrightarrow> (p, b, c) \<in> set ps \<Longrightarrow> p = [] \<and> c = []"
proof (induction s k ps rule: fenced.induct)
  case (2 s k p b c ps)
  have "fence_block (fence_depth_from s k no_fence) = None"
    using "2.prems"(1) by (simp add: fence_free_depth no_fence_def)
  with 2 fence_free_depth [OF fence_free_drop [of s k]] show ?case
    by (auto simp: Let_def open_fence_marker_def close_fence_marker_def)
qed simp

text \<open>
  A text in which no three backticks and no three tildes stand together is sent like plain
  text: the chunks concatenated are the text, and each fits the provider's limit unless it is
  a single character.
\<close>

theorem fence_free_markdown_fits:
  assumes "whole_chars s" and "\<forall>ch \<in> set (chars s). length ch \<le> 4"
    and "\<not> contains s ''```''" and "\<not> contains s ''~~~''"
  shows "concat (split_markdown_aware s limit) = s
    \<and> (\<forall>c \<in> set (split_markdown_aware s limit). length c \<le> limit \<or> length (chars c) = 1)"
proof -
  have "fence_free s" using assms(3,4) by (simp add: fence_free_def backtick_def numeral_eq_Suc)
  obtain ps where ps: "split_markdown_aware s limit = map glue ps"
    "sound_pieces limit (\<lambda>_. True) s ps" "fenced s 0 ps"
    using plain_cut.split_pieces [of s limit] assms(1,2)
    by (auto simp: text_ok_def split_markdown_aware_def)
  have "p = [] \<and> c = []" if "(p, b, c) \<in> set ps" for p b c
    using fenced_fence_free [OF \<open>fence_free s\<close> ps(3) that] .
  then have "map glue ps = map piece_body ps" by (intro map_cong) force+
  with ps show ?thesis by (auto simp: sound_pieces_def one_char_def)
qed

theorem fence_free_witness:
  "concat (split_markdown_aware ''one two three'' 6) = ''one two three''"
proof -
  let ?s = "''one two three''"
  have "list_all is_ascii ?s" by (simp add: is_ascii_def)
  moreover have "\<not> contains ?s ''```''" "\<not> contains ?s ''~~~''" by (simp_all add: contains_def)
  ultimately show ?thesis using fence_free_markdown_fits [of ?s 6] ascii_text_ok [of ?s] by blast
qed

section \<open>Where the fence rule and the scan of the rest disagree\<close>

text \<open>
  Three tildes in the middle of a line are not a fence, but the loop scans the rest of the
  text as if it began a line: when a cut lands before them, the splitter closes a block that
  was never opened, and the chunk with that marker is longer than the provider's limit.
\<close>

theorem stray_tildes_close_a_block:
  "markdown_split 6 ''and ~~~ more'' = [''and '', ''~~~ '' @ newline # ''~~~'', ''more'']
   \<and> fence_block (fence_depth_from ''and ~~~ more'' 8 no_fence) = None
   \<and> length (''~~~ '' @ newline # ''~~~'') = 8"
proof (intro conjI)
  have "split_markdown_aware ''and ~~~ more'' 6 = [''and '', ''~~~ '' @ newline # ''~~~'', ''more'']"
    by (simp add: split_markdown_aware_def split_eval)
  moreover have "trim ''and ~~~ more'' \<noteq> []"
    by (simp add: trim_def is_cont_def is_whitespace_def whitespace_chars_def)
  ultimately show "markdown_split 6 ''and ~~~ more'' = [''and '', ''~~~ '' @ newline # ''~~~'', ''more'']"
    by (simp add: markdown_split_def)
qed (simp_all add: split_eval)

end
