(* ===== verification/Shares.thy ===== *)
theory Shares
  imports Handles Token_Service Split_Markdown
begin

text \<open>
  Sharing: agents shared for use and chats shared for reading between users
  (\<open>agent/share\<close>, \<open>chat/share\<close> and their repositories), what the agent and the chat service
  grant on the strength of a share (\<open>get_accessible\<close>, \<open>credential_delegation_owner\<close>), the
  handlers an owner calls (\<open>api/routes/agents.rs\<close>, \<open>api/routes/chats.rs\<close>), and the short links
  of \<open>credential/share\<close> with the overflow link of the plain splitter.

  Of an agent and a chat only the columns these operations read are modelled. Times are
  milliseconds. The unique indexes on agent and recipient, and on chat and recipient, are part of
  the two \<open>create\<close> operations, as the schema of \<open>db/init.rs\<close> declares them.
\<close>

section \<open>Data\<close>

datatype share_level = Use

record agent_share =
  as_id :: string
  as_agent_id :: string
  as_owner_id :: string
  as_recipient_id :: string
  as_level :: share_level
  as_delegate_credentials :: bool
  as_created_at :: int
  as_updated_at :: int

record chat_share =
  cs_id :: string
  cs_chat_id :: string
  cs_owner_id :: string
  cs_recipient_id :: string
  cs_created_at :: int

datatype share_kind = File (fs_owner: string) (fs_path: string) (fs_public: bool) | Chat (sk_chat_id: string)

record share =
  sh_id :: string
  sh_user_id :: string
  sh_kind :: share_kind
  sh_expires_at :: int
  sh_created_at :: int

record agent =
  ag_id :: string
  ag_user_id :: string

record chat =
  ch_id :: string
  ch_user_id :: string

record share_world = env +
  accounts :: "user list"
  agents :: "agent list"
  chats :: "chat list"
  agent_shares :: "agent_share list"
  chat_shares :: "chat_share list"
  shares :: "share list"

type_synonym ('w, 'a) share_op = "(app_error, 'w share_world_scheme, 'a) op"

section \<open>Users by handle and by e-mail\<close>

definition find_by_handle :: "string \<Rightarrow> ('w, user option) share_op" where
  "find_by_handle handle = db_read (\<lambda>w. find (\<lambda>u. usr_handle u = handle) (accounts w))"

definition find_by_email :: "(string \<Rightarrow> string) \<Rightarrow> string \<Rightarrow> ('w, user option) share_op" where
  "find_by_email lo email =
     db_read (\<lambda>w. find (\<lambda>u. to_lowercase lo (usr_email u) = to_lowercase lo (trim email)) (accounts w))"

definition no_user :: "string \<Rightarrow> app_error" where
  "no_user trimmed = NotFound (''No user matching '' @ CHR 0x27 # trimmed @ [CHR 0x27])"

definition by_email :: "(string \<Rightarrow> string) \<Rightarrow> string \<Rightarrow> ('w, string) share_op" where
  "by_email lo trimmed =
     (if contains trimmed ''@''
      then qbind (find_by_email lo trimmed) (\<lambda>found.
             case found of Some u \<Rightarrow> ret (usr_id u) | None \<Rightarrow> fail (no_user trimmed))
      else fail (no_user trimmed))"

definition resolve_recipient :: "(string \<Rightarrow> string) \<Rightarrow> string \<Rightarrow> ('w, string) share_op" where
  "resolve_recipient lo recipient_ref =
     (let trimmed = trim recipient_ref
      in if trimmed = [] then fail (Validation ''Recipient is required'')
         else case try_new trimmed of
                Inr handle \<Rightarrow>
                  qbind (find_by_handle handle) (\<lambda>found.
                    case found of Some u \<Rightarrow> ret (usr_id u) | None \<Rightarrow> by_email lo trimmed)
              | Inl _ \<Rightarrow> by_email lo trimmed)"

section \<open>Tables of grants\<close>

text \<open>
  Both share tables hold one row per subject (an agent or a chat) and recipient. The four
  functions are the queries of the two repositories over the columns \<open>subj\<close> and \<open>rcp\<close>.
\<close>

definition find_grant ::
    "('r \<Rightarrow> string) \<Rightarrow> ('r \<Rightarrow> string) \<Rightarrow> string \<Rightarrow> string \<Rightarrow> 'r list \<Rightarrow> 'r option" where
  "find_grant subj rcp i r t = find (\<lambda>s. subj s = i \<and> rcp s = r) t"

definition insert_grant ::
    "('r \<Rightarrow> string) \<Rightarrow> ('r \<Rightarrow> string) \<Rightarrow> ('r \<Rightarrow> string) \<Rightarrow> 'r \<Rightarrow> 'r list \<Rightarrow> 'r list option" where
  "insert_grant key subj rcp s t =
     (if find_grant subj rcp (subj s) (rcp s) t = None then create_row key s t else None)"

definition delete_grant ::
    "('r \<Rightarrow> string) \<Rightarrow> ('r \<Rightarrow> string) \<Rightarrow> string \<Rightarrow> string \<Rightarrow> 'r list \<Rightarrow> 'r list" where
  "delete_grant subj rcp i r t = filter (\<lambda>s. \<not> (subj s = i \<and> rcp s = r)) t"

definition newest_first :: "('r \<Rightarrow> int) \<Rightarrow> ('r \<Rightarrow> bool) \<Rightarrow> 'r list \<Rightarrow> 'r list" where
  "newest_first created_at P t = sort_key (\<lambda>s. - created_at s) (filter P t)"

section \<open>Shared agents\<close>

definition agent_find_one :: "string \<Rightarrow> string \<Rightarrow> ('w, agent_share option) share_op" where
  "agent_find_one agent_id recipient_id =
     db_read (\<lambda>w. find_grant as_agent_id as_recipient_id agent_id recipient_id (agent_shares w))"

definition agent_find_by_agent :: "string \<Rightarrow> ('w, agent_share list) share_op" where
  "agent_find_by_agent agent_id =
     db_read (\<lambda>w. newest_first as_created_at (\<lambda>s. as_agent_id s = agent_id) (agent_shares w))"

definition agent_find_by_recipient :: "string \<Rightarrow> ('w, agent_share list) share_op" where
  "agent_find_by_recipient recipient_id =
     db_read (\<lambda>w. newest_first as_created_at (\<lambda>s. as_recipient_id s = recipient_id) (agent_shares w))"

definition agent_delete_one :: "string \<Rightarrow> string \<Rightarrow> ('w, unit) share_op" where
  "agent_delete_one agent_id recipient_id =
     db_write (agent_shares_update (delete_grant as_agent_id as_recipient_id agent_id recipient_id))"

text \<open>\<open>create\<close> of the generic repository, with the unique index on agent and recipient.\<close>

definition agent_share_create :: "agent_share \<Rightarrow> ('w, agent_share) share_op" where
  "agent_share_create s =
     db_call (\<lambda>w. case insert_grant as_id as_agent_id as_recipient_id s (agent_shares w) of
                     None \<Rightarrow> (Inl (Database (duplicate_text w (as_id s))), w)
                   | Some t \<Rightarrow> (Inr s, w\<lparr>agent_shares := t\<rparr>))"

definition agent_share_grant ::
    "(string \<Rightarrow> string) \<Rightarrow> string \<Rightarrow> string \<Rightarrow> string \<Rightarrow> string \<Rightarrow> ('w, agent_share) share_op" where
  "agent_share_grant lo fresh_id owner_id agent_id recipient_ref =
     qbind (resolve_recipient lo recipient_ref) (\<lambda>recipient_id.
     if recipient_id = owner_id then fail (Validation ''You can't share an agent with yourself'')
     else qbind (agent_find_one agent_id recipient_id) (\<lambda>found.
       case found of
         Some existing \<Rightarrow> ret existing
       | None \<Rightarrow>
           qbind (gets clock) (\<lambda>now.
           agent_share_create
             \<lparr>as_id = fresh_id, as_agent_id = agent_id, as_owner_id = owner_id,
              as_recipient_id = recipient_id, as_level = Use, as_delegate_credentials = False,
              as_created_at = now, as_updated_at = now\<rparr>)))"

definition set_delegation :: "string \<Rightarrow> string \<Rightarrow> bool \<Rightarrow> ('w, agent_share) share_op" where
  "set_delegation agent_id recipient_id delegate =
     qbind (agent_find_one agent_id recipient_id) (\<lambda>found.
     qbind (ok_or (NotFound ''Share not found'') found) (\<lambda>s.
     qbind (gets clock) (\<lambda>now.
     repo_update agent_shares_update as_id
       (s\<lparr>as_delegate_credentials := delegate, as_updated_at := now\<rparr>))))"

definition find_share :: "string \<Rightarrow> string \<Rightarrow> ('w, agent_share option) share_op" where
  "find_share agent_id recipient_id = agent_find_one agent_id recipient_id"

definition agent_unshare :: "string \<Rightarrow> string \<Rightarrow> ('w, unit) share_op" where
  "agent_unshare agent_id recipient_id = agent_delete_one agent_id recipient_id"

definition list_for_agent :: "string \<Rightarrow> ('w, agent_share list) share_op" where
  "list_for_agent agent_id = agent_find_by_agent agent_id"

definition agents_shared_with :: "string \<Rightarrow> ('w, agent_share list) share_op" where
  "agents_shared_with recipient_id = agent_find_by_recipient recipient_id"

definition find_level :: "string \<Rightarrow> string \<Rightarrow> ('w, share_level option) share_op" where
  "find_level agent_id recipient_id =
     qbind (agent_find_one agent_id recipient_id) (\<lambda>s. ret (map_option as_level s))"

text \<open>
  What a share grants, in the agent service. Its optional share service is there, as the server
  sets it at its start; without it \<open>get_accessible\<close> would know no shares.
\<close>

datatype agent_access = Owner | SharedUse

definition agent_get_accessible :: "string \<Rightarrow> string \<Rightarrow> ('w, agent \<times> agent_access) share_op" where
  "agent_get_accessible user_id agent_id =
     qbind (find_or agents ag_id (NotFound ''Agent not found'') agent_id) (\<lambda>a.
     if ag_user_id a = user_id then ret (a, Owner)
     else qbind (find_level agent_id user_id) (\<lambda>level.
       if level \<noteq> None then ret (a, SharedUse) else fail (Forbidden ''Not your agent'')))"

definition agent_get :: "string \<Rightarrow> string \<Rightarrow> ('w, agent) share_op" where
  "agent_get user_id agent_id =
     qbind (find_or agents ag_id (NotFound ''Agent not found'') agent_id) (\<lambda>a.
     if ag_user_id a \<noteq> user_id then fail (Forbidden ''Not your agent'') else ret a)"

definition credential_delegation_owner :: "agent \<Rightarrow> string \<Rightarrow> ('w, string option) share_op" where
  "credential_delegation_owner a runner_id =
     (if ag_user_id a = runner_id then ret None
      else qbind (find_share (ag_id a) runner_id) (\<lambda>s.
        ret (if (case s of None \<Rightarrow> False | Some x \<Rightarrow> as_delegate_credentials x)
             then Some (ag_user_id a) else None)))"

text \<open>The handlers of an owner; the list they return is shown with names looked up per row.\<close>

definition list_agent_shares :: "string \<Rightarrow> string \<Rightarrow> ('w, agent_share list) share_op" where
  "list_agent_shares caller agent_id = qbind (agent_get caller agent_id) (\<lambda>_. list_for_agent agent_id)"

definition share_agent ::
    "(string \<Rightarrow> string) \<Rightarrow> string \<Rightarrow> string \<Rightarrow> string \<Rightarrow> string \<Rightarrow> bool \<Rightarrow> ('w, agent_share list) share_op" where
  "share_agent lo fresh_id caller agent_id recipient delegate =
     qbind (agent_get caller agent_id) (\<lambda>_.
     qbind (agent_share_grant lo fresh_id caller agent_id recipient) (\<lambda>s.
     qbind (if delegate
            then qbind (set_delegation agent_id (as_recipient_id s) True) (\<lambda>_. ret ())
            else ret ()) (\<lambda>_.
     list_for_agent agent_id)))"

definition update_agent_share :: "string \<Rightarrow> string \<Rightarrow> string \<Rightarrow> bool \<Rightarrow> ('w, agent_share list) share_op" where
  "update_agent_share caller agent_id recipient_id delegate =
     qbind (agent_get caller agent_id) (\<lambda>_.
     qbind (set_delegation agent_id recipient_id delegate) (\<lambda>_.
     list_for_agent agent_id))"

definition unshare_agent :: "string \<Rightarrow> string \<Rightarrow> string \<Rightarrow> ('w, agent_share list) share_op" where
  "unshare_agent caller agent_id recipient_id =
     qbind (agent_get caller agent_id) (\<lambda>_.
     qbind (agent_unshare agent_id recipient_id) (\<lambda>_.
     list_for_agent agent_id))"

section \<open>Shared chats\<close>

definition chat_find_one :: "string \<Rightarrow> string \<Rightarrow> ('w, chat_share option) share_op" where
  "chat_find_one chat_id recipient_id =
     db_read (\<lambda>w. find_grant cs_chat_id cs_recipient_id chat_id recipient_id (chat_shares w))"

definition chat_find_by_chat :: "string \<Rightarrow> ('w, chat_share list) share_op" where
  "chat_find_by_chat chat_id =
     db_read (\<lambda>w. newest_first cs_created_at (\<lambda>s. cs_chat_id s = chat_id) (chat_shares w))"

definition chat_find_by_recipient :: "string \<Rightarrow> ('w, chat_share list) share_op" where
  "chat_find_by_recipient recipient_id =
     db_read (\<lambda>w. newest_first cs_created_at (\<lambda>s. cs_recipient_id s = recipient_id) (chat_shares w))"

definition chat_delete_one :: "string \<Rightarrow> string \<Rightarrow> ('w, unit) share_op" where
  "chat_delete_one chat_id recipient_id =
     db_write (chat_shares_update (delete_grant cs_chat_id cs_recipient_id chat_id recipient_id))"

definition chat_share_create :: "chat_share \<Rightarrow> ('w, chat_share) share_op" where
  "chat_share_create s =
     db_call (\<lambda>w. case insert_grant cs_id cs_chat_id cs_recipient_id s (chat_shares w) of
                     None \<Rightarrow> (Inl (Database (duplicate_text w (cs_id s))), w)
                   | Some t \<Rightarrow> (Inr s, w\<lparr>chat_shares := t\<rparr>))"

definition chat_share_grant ::
    "(string \<Rightarrow> string) \<Rightarrow> string \<Rightarrow> string \<Rightarrow> string \<Rightarrow> string \<Rightarrow> ('w, chat_share) share_op" where
  "chat_share_grant lo fresh_id owner_id chat_id recipient_ref =
     qbind (resolve_recipient lo recipient_ref) (\<lambda>recipient_id.
     if recipient_id = owner_id then fail (Validation ''You can't share a chat with yourself'')
     else qbind (chat_find_one chat_id recipient_id) (\<lambda>found.
       case found of
         Some existing \<Rightarrow> ret existing
       | None \<Rightarrow>
           qbind (gets clock) (\<lambda>now.
           chat_share_create
             \<lparr>cs_id = fresh_id, cs_chat_id = chat_id, cs_owner_id = owner_id,
              cs_recipient_id = recipient_id, cs_created_at = now\<rparr>)))"

definition chat_unshare :: "string \<Rightarrow> string \<Rightarrow> ('w, unit) share_op" where
  "chat_unshare chat_id recipient_id = chat_delete_one chat_id recipient_id"

definition list_for_chat :: "string \<Rightarrow> ('w, chat_share list) share_op" where
  "list_for_chat chat_id = chat_find_by_chat chat_id"

definition chats_shared_with :: "string \<Rightarrow> ('w, chat_share list) share_op" where
  "chats_shared_with recipient_id = chat_find_by_recipient recipient_id"

definition is_shared_with :: "string \<Rightarrow> string \<Rightarrow> ('w, bool) share_op" where
  "is_shared_with chat_id recipient_id =
     qbind (chat_find_one chat_id recipient_id) (\<lambda>s. ret (s \<noteq> None))"

definition get_chat :: "string \<Rightarrow> string \<Rightarrow> ('w, chat) share_op" where
  "get_chat user_id chat_id =
     qbind (find_or chats ch_id (NotFound ''Chat not found'') chat_id) (\<lambda>c.
     if ch_user_id c \<noteq> user_id then fail (Forbidden ''Not your chat'') else ret c)"

definition chat_get_accessible :: "string \<Rightarrow> string \<Rightarrow> ('w, chat \<times> bool) share_op" where
  "chat_get_accessible user_id chat_id =
     qbind (find_or chats ch_id (NotFound ''Chat not found'') chat_id) (\<lambda>c.
     if ch_user_id c = user_id then ret (c, True)
     else qbind (is_shared_with chat_id user_id) (\<lambda>b.
       if b then ret (c, False) else fail (Forbidden ''Not your chat'')))"

definition list_chat_shares :: "string \<Rightarrow> string \<Rightarrow> ('w, chat_share list) share_op" where
  "list_chat_shares caller chat_id = qbind (get_chat caller chat_id) (\<lambda>_. list_for_chat chat_id)"

definition share_chat ::
    "(string \<Rightarrow> string) \<Rightarrow> string \<Rightarrow> string \<Rightarrow> string \<Rightarrow> string \<Rightarrow> ('w, chat_share list) share_op" where
  "share_chat lo fresh_id caller chat_id recipient =
     qbind (get_chat caller chat_id) (\<lambda>_.
     qbind (chat_share_grant lo fresh_id caller chat_id recipient) (\<lambda>_.
     list_for_chat chat_id))"

definition unshare_chat :: "string \<Rightarrow> string \<Rightarrow> string \<Rightarrow> ('w, chat_share list) share_op" where
  "unshare_chat caller chat_id recipient_id =
     qbind (get_chat caller chat_id) (\<lambda>_.
     qbind (chat_unshare chat_id recipient_id) (\<lambda>_.
     list_for_chat chat_id))"

section \<open>Short links\<close>

text \<open>\<open>now + Duration::seconds(ttl_secs as i64)\<close>: the cast wraps, the constructor and the sum panic.\<close>

record time_range =
  min_time :: int
  max_time :: int

definition link_expiry :: "time_range \<Rightarrow> int \<Rightarrow> nat \<Rightarrow> app_error + int" where
  "link_expiry tr now ttl_secs =
     (let secs = as_i64 ttl_secs; t = now + 1000 * secs
      in if secs < - ((2 ^ 63 - 1) div 1000) \<or> (2 ^ 63 - 1) div 1000 < secs
         then Inl (panicked ''TimeDelta::seconds out of bounds'')
         else if t < min_time tr \<or> max_time tr < t then Inl (panicked ''DateTime + TimeDelta overflowed'')
         else Inr t)"

definition link_active :: "int \<Rightarrow> share \<Rightarrow> bool" where
  "link_active now s \<longleftrightarrow> now < sh_expires_at s"

definition find_active_by_id :: "string \<Rightarrow> ('w, share option) share_op" where
  "find_active_by_id i = db_read (\<lambda>w. find (\<lambda>s. sh_id s = i \<and> link_active (clock w) s) (shares w))"

definition find_active_chat_share :: "string \<Rightarrow> string \<Rightarrow> ('w, share option) share_op" where
  "find_active_chat_share user_id chat_id =
     db_read (\<lambda>w. find (\<lambda>s. sh_user_id s = user_id \<and> sh_kind s = Chat chat_id \<and> link_active (clock w) s)
       (shares w))"

definition delete_expired_links :: "('w, nat) share_op" where
  "delete_expired_links =
     db_call (\<lambda>w. (Inr (length (filter (\<lambda>s. \<not> link_active (clock w) s) (shares w))),
                  shares_update (filter (link_active (clock w))) w))"

definition issue_link :: "time_range \<Rightarrow> string \<Rightarrow> share_kind \<Rightarrow> string \<Rightarrow> nat \<Rightarrow> ('w, string) share_op" where
  "issue_link tr fresh_id kind user_id ttl_secs =
     qbind (gets clock) (\<lambda>now.
     qbind (from_result (link_expiry tr now ttl_secs)) (\<lambda>expires.
     qbind (repo_create shares shares_update sh_id
       \<lparr>sh_id = fresh_id, sh_user_id = user_id, sh_kind = kind, sh_expires_at = expires,
        sh_created_at = now\<rparr>) (\<lambda>_.
     ret fresh_id)))"

definition issue_file_with_visibility ::
    "time_range \<Rightarrow> string \<Rightarrow> string \<Rightarrow> string \<Rightarrow> string \<Rightarrow> nat \<Rightarrow> bool \<Rightarrow> ('w, string) share_op" where
  "issue_file_with_visibility tr fresh_id own path user_id ttl_secs public =
     issue_link tr fresh_id (File own path public) user_id ttl_secs"

definition issue_file ::
    "time_range \<Rightarrow> string \<Rightarrow> string \<Rightarrow> string \<Rightarrow> string \<Rightarrow> nat \<Rightarrow> ('w, string) share_op" where
  "issue_file tr fresh_id own path user_id ttl_secs =
     issue_file_with_visibility tr fresh_id own path user_id ttl_secs False"

definition issue_file_public ::
    "time_range \<Rightarrow> string \<Rightarrow> string \<Rightarrow> string \<Rightarrow> string \<Rightarrow> nat \<Rightarrow> ('w, string) share_op" where
  "issue_file_public tr fresh_id own path user_id ttl_secs =
     issue_file_with_visibility tr fresh_id own path user_id ttl_secs True"

definition lookup_or_issue_chat ::
    "time_range \<Rightarrow> string \<Rightarrow> string \<Rightarrow> string \<Rightarrow> nat \<Rightarrow> ('w, string) share_op" where
  "lookup_or_issue_chat tr fresh_id chat_id user_id ttl_secs =
     qbind (find_active_chat_share user_id chat_id) (\<lambda>found.
     case found of
       Some existing \<Rightarrow> ret (sh_id existing)
     | None \<Rightarrow> issue_link tr fresh_id (Chat chat_id) user_id ttl_secs)"

definition resolve_link :: "string \<Rightarrow> ('w, share option) share_op" where
  "resolve_link i = find_active_by_id i"

definition cleanup_expired_links :: "('w, nat) share_op" where
  "cleanup_expired_links = delete_expired_links"

section \<open>The plain splitter with its overflow link\<close>

datatype channel_error_kind =
    Transient | ForbiddenKind | NotFoundKind | PayloadInvalid | PayloadTooLarge | Unauthorized | OtherKind

record channel_error =
  ce_message :: string
  ce_kind :: channel_error_kind
  ce_retry_hint :: "nat option"

definition transient :: "string \<Rightarrow> channel_error" where
  "transient message = \<lparr>ce_message = message, ce_kind = Transient, ce_retry_hint = None\<rparr>"

text \<open>How the race between the lookup and the cancellation of the channel ends.\<close>

datatype race = Finished | CancelledBefore | CancelledAfter

record split_env =
  se_base_url :: string
  se_ttl_secs :: nat
  se_race :: race
  se_chat_id :: string
  se_user_id :: string

text \<open>
  A cancelled call drops the lookup, before or after it touched the database. The display text
  of an application error, part of which comes from libraries, is \<open>show_error\<close>.
\<close>

definition ensure_chat_share ::
    "time_range \<Rightarrow> (app_error \<Rightarrow> string) \<Rightarrow> string \<Rightarrow> split_env
     \<Rightarrow> (channel_error, 'w share_world_scheme, string) op" where
  "ensure_chat_share tr show_error fresh_id se w =
     (let run = lookup_or_issue_chat tr fresh_id (se_chat_id se) (se_user_id se) (se_ttl_secs se) w
      in case se_race se of
           CancelledBefore \<Rightarrow> (Inl (transient ''channel cancelled''), w)
         | CancelledAfter \<Rightarrow> (Inl (transient ''channel cancelled''), snd run)
         | Finished \<Rightarrow>
             (case run of
                (Inr i, w') \<Rightarrow> (Inr (se_base_url se @ ''/s/'' @ i), w')
              | (Inl e, w') \<Rightarrow> (Inl (transient (''issue chat share: '' @ show_error e)), w')))"

record plain_splitter =
  provider_limit :: nat
  hard_limit :: "nat option"

definition plain_splitter_split ::
    "time_range \<Rightarrow> (app_error \<Rightarrow> string) \<Rightarrow> plain_splitter \<Rightarrow> string \<Rightarrow> string \<Rightarrow> split_env
     \<Rightarrow> (channel_error, 'w share_world_scheme, string list) op" where
  "plain_splitter_split tr show_error sp fresh_id body se =
     (if trim body = [] then ret []
      else if (case hard_limit sp of None \<Rightarrow> False | Some hard \<Rightarrow> hard < length body)
      then qbind (ensure_chat_share tr show_error fresh_id se) (\<lambda>url.
        ret [append_overflow body url (provider_limit sp)])
      else ret (silent_split_plain body (provider_limit sp)))"

end
