(* ===== verification/Share_Props.thy ===== *)
theory Share_Props
  imports Shares
begin

text \<open>
  What sharing guarantees. The two share tables refine a set of pairs (subject, recipient); the
  laws of such a table are the locale \<open>grant_store\<close>, interpreted on the rows of both. The
  handlers refine the operations grant, delegate and revoke on those sets, access is decided
  by them, and a short link resolves until it expires.
\<close>

section \<open>The contract of a table of grants\<close>

locale grant_store =
  fixes lookup :: "string \<Rightarrow> string \<Rightarrow> 't \<Rightarrow> 'r option"
    and grant :: "'r \<Rightarrow> 't \<Rightarrow> 't option"
    and revoke :: "string \<Rightarrow> string \<Rightarrow> 't \<Rightarrow> 't"
    and pair :: "'r \<Rightarrow> string \<times> string"
    and grants :: "'t \<Rightarrow> (string \<times> string) set"
    and wf :: "'t \<Rightarrow> bool"
  assumes lookup_None: "lookup i r t = None \<longleftrightarrow> (i, r) \<notin> grants t"
    and lookup_pair: "lookup i r t = Some x \<Longrightarrow> pair x = (i, r)"
    and grants_grant: "grant x t = Some t' \<Longrightarrow> pair x \<notin> grants t \<and> grants t' = insert (pair x) (grants t)"
    and grants_revoke: "grants (revoke i r t) = grants t - {(i, r)}"
    and wf_grant: "wf t \<Longrightarrow> grant x t = Some t' \<Longrightarrow> wf t'"
    and wf_revoke: "wf t \<Longrightarrow> wf (revoke i r t)"
begin

lemma lookup_revoke: "lookup i r (revoke i r t) = None"
  by (simp add: lookup_None grants_revoke)

lemma lookup_revoke_other: "(j, q) \<noteq> (i, r) \<Longrightarrow> lookup j q (revoke i r t) = None \<longleftrightarrow> lookup j q t = None"
  by (auto simp: lookup_None grants_revoke)

lemma grant_revoke: "grant x t = Some t' \<Longrightarrow> pair x = (i, r) \<Longrightarrow> grants (revoke i r t') = grants t"
  by (auto simp: grants_revoke dest!: grants_grant)

lemma no_double_grant: "lookup i r t = Some x \<Longrightarrow> pair y = (i, r) \<Longrightarrow> grant y t = None"
  using lookup_None [of i r t] grants_grant [of y t] by (cases "grant y t") auto

end

definition grant_rows_wf :: "('r \<Rightarrow> string) \<Rightarrow> ('r \<Rightarrow> string) \<Rightarrow> ('r \<Rightarrow> string) \<Rightarrow> 'r list \<Rightarrow> bool" where
  "grant_rows_wf key subj rcp t \<longleftrightarrow> wf_rows key t \<and> distinct (map (\<lambda>s. (subj s, rcp s)) t)"

definition grant_pairs :: "('r \<Rightarrow> string) \<Rightarrow> ('r \<Rightarrow> string) \<Rightarrow> 'r list \<Rightarrow> (string \<times> string) set" where
  "grant_pairs subj rcp t = (\<lambda>s. (subj s, rcp s)) ` set t"

lemma find_grant_Some: "find_grant subj rcp i r t = Some x \<Longrightarrow> x \<in> set t \<and> subj x = i \<and> rcp x = r"
  by (auto simp: find_grant_def dest: find_eq_SomeD)

lemma find_grant_None: "find_grant subj rcp i r t = None \<longleftrightarrow> (i, r) \<notin> grant_pairs subj rcp t"
  by (auto simp: find_grant_def grant_pairs_def find_none_iff)

lemma insert_grant_Some:
  "insert_grant key subj rcp x t = Some t' \<Longrightarrow>
     t' = t @ [x] \<and> (subj x, rcp x) \<notin> grant_pairs subj rcp t \<and> find_row key (key x) t = None"
  by (auto simp: insert_grant_def create_row_def find_grant_None split: if_splits)

interpretation grant_rows: grant_store "find_grant subj rcp" "insert_grant key subj rcp"
  "delete_grant subj rcp" "\<lambda>s. (subj s, rcp s)" "grant_pairs subj rcp" "grant_rows_wf key subj rcp"
  for key subj rcp :: "'r \<Rightarrow> string"
proof
  show "find_grant subj rcp i r t = None \<longleftrightarrow> (i, r) \<notin> grant_pairs subj rcp t" for i r t
    by (rule find_grant_None)
  show "(subj x, rcp x) = (i, r)" if "find_grant subj rcp i r t = Some x" for i r t x
    using find_grant_Some [OF that] by simp
  show "grant_pairs subj rcp (delete_grant subj rcp i r t) = grant_pairs subj rcp t - {(i, r)}" for i r t
    by (auto simp: grant_pairs_def delete_grant_def)
  show "grant_rows_wf key subj rcp t'"
    if "grant_rows_wf key subj rcp t" "insert_grant key subj rcp x t = Some t'" for x t t'
    using that insert_grant_Some [OF that(2)]
    by (fastforce simp: grant_rows_wf_def wf_rows_def grant_pairs_def find_row_None)
  show "grant_rows_wf key subj rcp (delete_grant subj rcp i r t)" if "grant_rows_wf key subj rcp t" for i r t
    using that
    by (auto simp: grant_rows_wf_def delete_grant_def distinct_map wf_rows_filter intro: inj_on_subset)
qed (auto simp: grant_pairs_def dest!: insert_grant_Some)

section \<open>Reads of the share tables\<close>

lemma read_only_queries [read_rules]:
  "read_only (agent_find_one i r)" "read_only (find_by_handle h)"
  "read_only (find_by_email lo m)" "read_only (agent_find_by_agent i)" "read_only (chat_find_one i r)"
  "read_only (chat_find_by_chat i)" "read_only (agent_find_by_recipient r)" "read_only (chat_find_by_recipient r)"
  unfolding agent_find_one_def find_by_handle_def find_by_email_def
    agent_find_by_agent_def chat_find_one_def chat_find_by_chat_def agent_find_by_recipient_def
    chat_find_by_recipient_def
  by (intro read_rules)+

lemma read_only_services [read_rules]:
  "read_only (resolve_recipient lo ref)" "read_only (agent_get u i)" "read_only (list_for_agent i)"
  "read_only (get_chat u i)" "read_only (list_for_chat i)" "read_only (find_level i r)"
  "read_only (agent_get_accessible u i)" "read_only (credential_delegation_owner a u)"
  "read_only (is_shared_with i r)" "read_only (chat_get_accessible u i)"
  unfolding resolve_recipient_def by_email_def agent_get_def list_for_agent_def get_chat_def
    list_for_chat_def find_level_def agent_get_accessible_def credential_delegation_owner_def
    find_share_def is_shared_with_def chat_get_accessible_def Let_def
  by (intro read_rules)+

section \<open>One run of each operation on shared agents\<close>

definition agent_pair :: "agent_share \<Rightarrow> string \<times> string" where
  "agent_pair s = (as_agent_id s, as_recipient_id s)"

text \<open>The abstract state: who may use which agent, and who may use its owner's credentials.\<close>

definition used :: "'w share_world_scheme \<Rightarrow> (string \<times> string) set" where
  "used w = agent_pair ` set (agent_shares w)"

definition delegated :: "'w share_world_scheme \<Rightarrow> (string \<times> string) set" where
  "delegated w = agent_pair ` {s \<in> set (agent_shares w). as_delegate_credentials s}"

definition agent_shares_ok :: "agent_share list \<Rightarrow> bool" where
  "agent_shares_ok t \<longleftrightarrow> grant_rows_wf as_id as_agent_id as_recipient_id t
     \<and> (\<forall>s \<in> set t. as_recipient_id s \<noteq> as_owner_id s)"

lemma used_grants: "used w = grant_pairs as_agent_id as_recipient_id (agent_shares w)"
  by (auto simp: used_def grant_pairs_def agent_pair_def)

lemma agent_get_Inr:
  assumes "agent_get caller i w = (Inr a, w')"
  shows "(\<exists>fs. w' = w\<lparr>faults := fs\<rparr>) \<and> find_row ag_id i (agents w) = Some a \<and> ag_user_id a = caller"
proof -
  obtain b w1 where "qbind (repo_find_by_id agents ag_id i) (ok_or (NotFound ''Agent not found'')) w = (Inr b, w1)"
    and "(if ag_user_id b \<noteq> caller then fail (Forbidden ''Not your agent'') else ret b) w1 = (Inr a, w')"
    using assms unfolding agent_get_def by (rule qbind_Inr_E)
  then show ?thesis by (auto simp: fail_def ret_def dest!: find_or_Inr split: if_splits)
qed

lemma agent_find_one_Inr:
  "agent_find_one i r w = (Inr m, w') \<Longrightarrow>
     (\<exists>fs. w' = w\<lparr>faults := fs\<rparr>) \<and> m = find_grant as_agent_id as_recipient_id i r (agent_shares w)"
  by (auto simp: agent_find_one_def dest!: db_read_Inr)

lemma agent_share_create_run:
  assumes "agent_share_create s w = (r, w')"
  obtains (refused) e fs where "r = Inl e" and "w' = w\<lparr>faults := fs\<rparr>"
    | (created) fs t where "r = Inr s" and "w' = w\<lparr>faults := fs, agent_shares := t\<rparr>"
        and "insert_grant as_id as_agent_id as_recipient_id s (agent_shares w) = Some t"
  using assms unfolding agent_share_create_def
  by (auto elim!: db_call_cases split: option.splits)

lemma agent_shares_update_apply:
  "agent_shares_update (update_row key s) w = w\<lparr>agent_shares := update_row key s (agent_shares w)\<rparr>"
  "agent_shares_update (delete_grant subj rcp i r) w =
     w\<lparr>agent_shares := delete_grant subj rcp i r (agent_shares w)\<rparr>"
  by (cases w, simp)+

lemma repo_update_run:
  assumes "repo_update put key r w = (res, w')"
  obtains (refused) e fs where "res = Inl e" and "w' = w\<lparr>faults := fs\<rparr>"
    | (updated) fs where "res = Inr r" and "w' = put (update_row key r) (w\<lparr>faults := fs\<rparr>)"
  using assms unfolding repo_update_def
  by (auto elim!: qbind_cases dest!: db_write_Inl db_write_Inr simp: ret_def)

lemma ok_or_run: "ok_or e x w = (r, w') \<longleftrightarrow> w' = w \<and> r = (case x of None \<Rightarrow> Inl e | Some a \<Rightarrow> Inr a)"
  by (auto simp: ok_or_def fail_def ret_def split: option.split)

text \<open>The three operations on a share, each with what it leaves behind.\<close>

lemma set_delegation_run:
  assumes "set_delegation i r b w = (res, w')"
  obtains (refused) e fs where "res = Inl e" and "w' = w\<lparr>faults := fs\<rparr>"
    | (updated) fs s where "res = Inr (s\<lparr>as_delegate_credentials := b, as_updated_at := clock w\<rparr>)"
        and "find_grant as_agent_id as_recipient_id i r (agent_shares w) = Some s"
        and "w' = w\<lparr>faults := fs, agent_shares := update_row as_id
               (s\<lparr>as_delegate_credentials := b, as_updated_at := clock w\<rparr>) (agent_shares w)\<rparr>"
  using assms unfolding set_delegation_def
proof (cases rule: qbind_cases)
  case (error e)
  with read_onlyD [OF read_only_queries(1) error(1)] show ?thesis using refused by blast
next
  case (okay found w1)
  then obtain fs where w1: "w1 = w\<lparr>faults := fs\<rparr>"
    and found: "found = find_grant as_agent_id as_recipient_id i r (agent_shares w)"
    using agent_find_one_Inr by blast
  show ?thesis
  proof (cases found)
    case None
    with okay(2) w1 refused show ?thesis by (auto simp: ok_or_def fail_def)
  next
    case (Some s)
    with okay(2) have "repo_update agent_shares_update as_id
        (s\<lparr>as_delegate_credentials := b, as_updated_at := clock w\<rparr>) w1 = (res, w')"
      by (simp add: ok_or_def w1)
    then show ?thesis
      by (cases rule: repo_update_run) (use refused updated w1 found Some in \<open>auto simp: agent_shares_update_apply\<close>)
  qed
qed

text \<open>
  The account a reference names: the one with the handle it normalises to, and only when no
  account has that handle, one with that e-mail address, whatever the case of its letters.
\<close>

definition named :: "(string \<Rightarrow> string) \<Rightarrow> user list \<Rightarrow> string \<Rightarrow> string \<Rightarrow> bool" where
  "named lo us ref r \<longleftrightarrow> trim ref \<noteq> [] \<and> (\<exists>u \<in> set us. usr_id u = r \<and>
     (try_new (trim ref) = Inr (usr_handle u)
      \<or> (\<forall>v \<in> set us. try_new (trim ref) \<noteq> Inr (usr_handle v)) \<and> CHR ''@'' \<in> set (trim ref)
        \<and> to_lowercase lo (usr_email u) = to_lowercase lo (trim (trim ref))))"

lemma contains_char: "contains s [c] \<longleftrightarrow> c \<in> set s"
  by (auto simp: contains_iff in_set_conv_decomp)

lemma by_email_Inr:
  assumes "by_email lo t w = (Inr r, w')"
  shows "CHR ''@'' \<in> set t \<and> (\<exists>u \<in> set (accounts w). usr_id u = r
    \<and> to_lowercase lo (usr_email u) = to_lowercase lo (trim t))"
proof -
  from assms have "contains t ''@''" by (auto simp: by_email_def fail_def split: if_splits)
  moreover from this assms obtain u where "find (\<lambda>u. to_lowercase lo (usr_email u) = to_lowercase lo (trim t)) (accounts w) = Some u"
    and "usr_id u = r"
    by (auto simp: by_email_def find_by_email_def fail_def ret_def elim!: qbind_Inr_E dest!: db_read_Inr split: option.splits)
  ultimately show ?thesis by (auto simp: contains_char dest!: find_eq_SomeD)
qed

lemma resolve_recipient_Inr:
  assumes "resolve_recipient lo ref w = (Inr r, w')"
  shows "named lo (accounts w) ref r"
proof -
  have ne: "trim ref \<noteq> []" using assms by (auto simp: resolve_recipient_def fail_def)
  show ?thesis
  proof (cases "try_new (trim ref)")
    case (Inl e)
    with assms ne have "by_email lo (trim ref) w = (Inr r, w')" by (simp add: resolve_recipient_def)
    from by_email_Inr [OF this] Inl ne show ?thesis by (auto simp: named_def)
  next
    case (Inr h)
    let ?found = "find (\<lambda>u. usr_handle u = h) (accounts w)"
    let ?w = "w\<lparr>faults := tl (faults w)\<rparr>"
    from assms ne Inr have run: "(case ?found of Some u \<Rightarrow> ret (usr_id u) | None \<Rightarrow> by_email lo (trim ref)) ?w = (Inr r, w')"
      by (auto simp: resolve_recipient_def find_by_handle_def elim!: qbind_Inr_E dest!: db_read_Inr)
    show ?thesis
    proof (cases ?found)
      case None
      with run by_email_Inr [of lo "trim ref" ?w] ne Inr show ?thesis
        by (auto simp: named_def find_None_iff)
    next
      case (Some u)
      with run ne Inr show ?thesis by (auto simp: named_def ret_def dest!: find_eq_SomeD)
    qed
  qed
qed

definition fresh_grant :: "string \<Rightarrow> string \<Rightarrow> string \<Rightarrow> string \<Rightarrow> int \<Rightarrow> agent_share" where
  "fresh_grant i owner_id agent_id r now =
     \<lparr>as_id = i, as_agent_id = agent_id, as_owner_id = owner_id, as_recipient_id = r, as_level = Use,
      as_delegate_credentials = False, as_created_at = now, as_updated_at = now\<rparr>"

lemma agent_share_grant_run:
  assumes "agent_share_grant lo i owner_id agent_id ref w = (res, w')"
  obtains (refused) e fs where "res = Inl e" and "w' = w\<lparr>faults := fs\<rparr>"
    | (existing) fs s where "res = Inr s" and "w' = w\<lparr>faults := fs\<rparr>" and "s \<in> set (agent_shares w)"
        and "as_agent_id s = agent_id" and "as_recipient_id s \<noteq> owner_id"
        and "named lo (accounts w) ref (as_recipient_id s)"
    | (created) fs r t where "res = Inr (fresh_grant i owner_id agent_id r (clock w))"
        and "w' = w\<lparr>faults := fs, agent_shares := t\<rparr>" and "r \<noteq> owner_id" and "named lo (accounts w) ref r"
        and "insert_grant as_id as_agent_id as_recipient_id
               (fresh_grant i owner_id agent_id r (clock w)) (agent_shares w) = Some t"
  using assms unfolding agent_share_grant_def
proof (cases rule: qbind_cases)
  case (error e)
  with read_onlyD [OF read_only_services(1) error(1)] show ?thesis using refused by blast
next
  case (okay r w1)
  obtain fs where w1: "w1 = w\<lparr>faults := fs\<rparr>" using read_onlyD [OF read_only_services(1) okay(1)] by blast
  note who = resolve_recipient_Inr [OF okay(1)]
  show ?thesis
  proof (cases "r = owner_id")
    case True
    with okay(2) w1 refused show ?thesis by (auto simp: fail_def)
  next
    case False
    with okay(2) have "qbind (agent_find_one agent_id r) (\<lambda>found. case found of
         Some s \<Rightarrow> ret s | None \<Rightarrow> qbind (gets clock) (\<lambda>now. agent_share_create (fresh_grant i owner_id agent_id r now))) w1
       = (res, w')"
      unfolding fresh_grant_def by simp
    then show ?thesis
    proof (cases rule: qbind_cases)
      case (error e)
      with read_onlyD [OF read_only_queries(1) error(1)] w1 show ?thesis using refused by auto
    next
      case (okay found w2)
      then obtain fs2 where w2: "w2 = w\<lparr>faults := fs2\<rparr>"
        and found: "found = find_grant as_agent_id as_recipient_id agent_id r (agent_shares w)"
        using agent_find_one_Inr w1 by force
      show ?thesis
      proof (cases found)
        case (Some s)
        have "res = Inr s" "w' = w\<lparr>faults := fs2\<rparr>" using okay(2) w2 Some by (auto simp: ret_def)
        moreover have "s \<in> set (agent_shares w) \<and> as_agent_id s = agent_id \<and> as_recipient_id s = r"
          using found Some by (intro find_grant_Some) simp
        ultimately show ?thesis using False who by (intro existing) auto
      next
        case None
        with okay(2) have "agent_share_create (fresh_grant i owner_id agent_id r (clock w)) w2 = (res, w')"
          by (simp add: w2)
        then show ?thesis
          by (cases rule: agent_share_create_run) (use refused created w2 False who in auto)
      qed
    qed
  qed
qed

lemma agent_unshare_run:
  assumes "agent_unshare i r w = (res, w')"
  obtains (refused) e fs where "res = Inl e" and "w' = w\<lparr>faults := fs\<rparr>"
    | (revoked) fs where "res = Inr ()" and "w' = w\<lparr>faults := fs,
        agent_shares := delete_grant as_agent_id as_recipient_id i r (agent_shares w)\<rparr>"
  using assms unfolding agent_unshare_def agent_delete_one_def
  by (cases res) (auto simp: agent_shares_update_apply dest!: db_write_Inl db_write_Inr)

section \<open>The three operations on the abstract state\<close>

definition used_in :: "agent_share list \<Rightarrow> (string \<times> string) set" where
  "used_in t = agent_pair ` set t"

definition delegated_in :: "agent_share list \<Rightarrow> (string \<times> string) set" where
  "delegated_in t = agent_pair ` {s \<in> set t. as_delegate_credentials s}"

lemma abstract_state: "used w = used_in (agent_shares w)" "delegated w = delegated_in (agent_shares w)"
  by (simp_all add: used_def used_in_def delegated_def delegated_in_def)

lemma used_in_grants: "used_in t = grant_pairs as_agent_id as_recipient_id t"
  by (auto simp: used_in_def grant_pairs_def agent_pair_def)

lemma pairs_unique:
  "agent_shares_ok t \<Longrightarrow> s \<in> set t \<Longrightarrow> x \<in> set t \<Longrightarrow> agent_pair x = agent_pair s \<Longrightarrow> x = s"
  by (auto simp: agent_shares_ok_def grant_rows_wf_def agent_pair_def distinct_map inj_on_def)

lemma pair_iff:
  "agent_shares_ok t \<Longrightarrow> s \<in> set t \<Longrightarrow> agent_pair s = p \<Longrightarrow> x \<in> set t \<Longrightarrow> agent_pair x = p \<longleftrightarrow> x = s"
  by (auto dest: pairs_unique)

lemma image_filter_neq: "f ` {x \<in> A. f x \<noteq> p} = f ` A - {p}"
  by auto

lemma set_update_row_mem:
  assumes "wf_rows key t" and "s \<in> set t" and "key s' = key s"
  shows "set (update_row key s' t) = insert s' (set t - {s})"
  using assms by (auto simp: update_row_def wf_rows_def distinct_map inj_on_def)

lemma grant_abs:
  assumes "insert_grant as_id as_agent_id as_recipient_id (fresh_grant i ow a r now) t = Some t'"
    and "agent_shares_ok t" and "r \<noteq> ow"
  shows "agent_shares_ok t'" and "used_in t' = insert (a, r) (used_in t)" and "delegated_in t' = delegated_in t"
    and "(a, r) \<notin> used_in t"
proof -
  have t': "t' = t @ [fresh_grant i ow a r now]"
    using insert_grant_Some [OF assms(1)] by simp
  then show "used_in t' = insert (a, r) (used_in t)" "delegated_in t' = delegated_in t"
    by (auto simp: used_in_def delegated_in_def agent_pair_def fresh_grant_def)
  show "(a, r) \<notin> used_in t"
    using insert_grant_Some [OF assms(1)] by (simp add: used_in_grants fresh_grant_def)
  show "agent_shares_ok t'"
    using grant_rows.wf_grant [OF _ assms(1)] assms(2,3) t'
    by (auto simp: agent_shares_ok_def fresh_grant_def)
qed

lemma delegate_abs:
  assumes "find_grant as_agent_id as_recipient_id a r t = Some s" and "agent_shares_ok t"
    and "t' = update_row as_id (s\<lparr>as_delegate_credentials := b, as_updated_at := now\<rparr>) t"
  shows "agent_shares_ok t'" and "used_in t' = used_in t" and "(a, r) \<in> used_in t"
    and "delegated_in t' = (if b then insert (a, r) (delegated_in t) else delegated_in t - {(a, r)})"
proof -
  let ?s = "s\<lparr>as_delegate_credentials := b, as_updated_at := now\<rparr>"
  have s: "s \<in> set t" "agent_pair s = (a, r)" and pair: "agent_pair ?s = (a, r)"
    using find_grant_Some [OF assms(1)] by (auto simp: agent_pair_def)
  have set_t': "set t' = insert ?s (set t - {s})"
    using assms(2,3) s(1) by (simp add: agent_shares_ok_def grant_rows_wf_def set_update_row_mem)
  show mem: "(a, r) \<in> used_in t" unfolding used_in_def using s by (metis image_eqI)
  have pairs: "map agent_pair t' = map agent_pair t"
    using pairs_unique [OF assms(2) s(1)] assms(2,3) s(1)
    by (auto simp: update_row_def agent_pair_def agent_shares_ok_def grant_rows_wf_def wf_rows_def
        distinct_map inj_on_def)
  have "used_in x = set (map agent_pair x)" for x by (simp add: used_in_def)
  then show "used_in t' = used_in t" by (simp only: pairs)
  have "{x \<in> set t - {s}. as_delegate_credentials x}
      = {x \<in> {x \<in> set t. as_delegate_credentials x}. agent_pair x \<noteq> (a, r)}"
    using pair_iff [OF assms(2) s] by auto
  then have "agent_pair ` {x \<in> set t - {s}. as_delegate_credentials x} = delegated_in t - {(a, r)}"
    by (simp only: image_filter_neq delegated_in_def)
  moreover have "{x \<in> set t'. as_delegate_credentials x}
      = (if b then insert ?s else id) {x \<in> set t - {s}. as_delegate_credentials x}"
    by (auto simp: set_t' dest: arg_cong [where f = as_delegate_credentials])
  ultimately show "delegated_in t' = (if b then insert (a, r) (delegated_in t) else delegated_in t - {(a, r)})"
    using pair by (auto simp: delegated_in_def)
  have "\<forall>x \<in> set t'. as_recipient_id x \<noteq> as_owner_id x"
    using assms(2) s(1) unfolding set_t' by (auto simp: agent_shares_ok_def)
  moreover have "grant_rows_wf as_id as_agent_id as_recipient_id t'"
    using assms(2,3) pairs
    by (auto simp: agent_shares_ok_def grant_rows_wf_def wf_rows_def agent_pair_def [abs_def])
  ultimately show "agent_shares_ok t'" by (simp add: agent_shares_ok_def)
qed

lemma revoke_abs:
  assumes "agent_shares_ok t" and "t' = delete_grant as_agent_id as_recipient_id a r t"
  shows "agent_shares_ok t'" and "used_in t' = used_in t - {(a, r)}"
    and "delegated_in t' = delegated_in t - {(a, r)}"
  using assms grant_rows.wf_revoke [of as_id as_agent_id as_recipient_id t a r]
  by (auto simp: agent_shares_ok_def delete_grant_def used_in_def delegated_in_def agent_pair_def)

section \<open>The handlers\<close>

text \<open>The frame every handler keeps, and what its last step, the listing, leaves alone.\<close>

definition owns :: "'w share_world_scheme \<Rightarrow> string \<Rightarrow> string \<Rightarrow> bool" where
  "owns w caller a \<longleftrightarrow> (\<exists>x. find_row ag_id a (agents w) = Some x \<and> ag_user_id x = caller)"

lemma agent_get_qbind:
  assumes "qbind (agent_get caller a) f w = (r, w')"
  obtains (refused) e fs where "r = Inl e" and "w' = w\<lparr>faults := fs\<rparr>"
    | (okay) x fs where "owns w caller a" and "f x (w\<lparr>faults := fs\<rparr>) = (r, w')"
  using assms
proof (cases rule: qbind_cases)
  case (error e)
  with read_onlyD [OF read_only_services(2) error(1)] refused show ?thesis by blast
next
  case (okay x w1)
  with agent_get_Inr [OF okay(1)] that(2) show ?thesis unfolding owns_def by blast
qed

lemma list_for_agent_tables:
  assumes "list_for_agent a w = (r, w')"
  shows "agent_shares w' = agent_shares w \<and> agents w' = agents w"
  using read_onlyD [OF read_only_services(3) assms] by auto

lemma share_agent_run:
  assumes "share_agent lo i caller a ref d w = (res, w')" and "agent_shares_ok (agent_shares w)"
  shows "agents w' = agents w \<and> agent_shares_ok (agent_shares w') \<and>
    (used w' = used w \<and> delegated w' = delegated w \<and> (\<exists>e. res = Inl e)
     \<or> owns w caller a \<and>
       (\<exists>r. named lo (accounts w) ref r \<and> r \<noteq> caller \<and> used w' = insert (a, r) (used w) \<and>
          (delegated w' = (if d then insert (a, r) (delegated w) else delegated w)
           \<or> delegated w' = delegated w \<and> (\<exists>e. res = Inl e))))"
  using assms(1) unfolding share_agent_def
proof (cases rule: agent_get_qbind)
  case (refused e fs)
  with assms(2) show ?thesis by (simp add: abstract_state)
next
  case (okay x fs)
  from okay(2) show ?thesis
  proof (cases rule: qbind_cases)
    case (error e)
    from error(1) show ?thesis
      by (cases rule: agent_share_grant_run) (use error assms(2) in \<open>auto simp: abstract_state\<close>)
  next
    case grantd: (okay s w1)
    obtain r where s: "as_recipient_id s = r" "r \<noteq> caller" "named lo (accounts w) ref r"
      and w1: "agent_shares_ok (agent_shares w1)" "used w1 = insert (a, r) (used w)"
        "delegated w1 = delegated w" "agents w1 = agents w"
      using grantd(1)
    proof (cases rule: agent_share_grant_run)
      case (existing fs2 s2)
      then have "(a, as_recipient_id s2) \<in> used w" by (force simp: used_def agent_pair_def)
      with existing assms(2) that [of "as_recipient_id s2"] show ?thesis
        by (auto simp: abstract_state insert_absorb)
    next
      case (created fs2 r2 t)
      with grant_abs [of i caller a r2 _ "agent_shares w" t] assms(2) that [of r2] show ?thesis
        by (auto simp: abstract_state fresh_grant_def)
    qed auto
    from grantd(2) show ?thesis
    proof (cases rule: qbind_cases)
      case (error e)
      then have "d" by (auto simp: ret_def split: if_splits)
      with error have "\<exists>e2. set_delegation a r True w1 = (Inl e2, w')"
        by (auto simp: s(1) ret_def elim!: qbind_cases)
      then have "agent_shares w' = agent_shares w1 \<and> agents w' = agents w1"
        by (auto elim!: set_delegation_run)
      with w1 s okay(1) error show ?thesis by (auto simp: abstract_state)
    next
      case listing: (okay u w2)
      have w2: "agent_shares_ok (agent_shares w2) \<and> used w2 = insert (a, r) (used w) \<and> agents w2 = agents w
          \<and> delegated w2 = (if d then insert (a, r) (delegated w) else delegated w)"
      proof (cases d)
        case False
        with listing(1) w1 show ?thesis by (simp add: ret_def)
      next
        case True
        with listing(1) obtain s2 where "set_delegation a r True w1 = (Inr s2, w2)"
          by (auto simp: s(1) ret_def elim!: qbind_Inr_E)
        then show ?thesis
        proof (cases rule: set_delegation_run)
          case (updated fs2 s3)
          with delegate_abs [where b = True and now = "clock w1", OF updated(2) w1(1) refl] w1 True show ?thesis
            by (simp add: abstract_state)
        qed simp
      qed
      with list_for_agent_tables [OF listing(2)] s okay(1) show ?thesis by (auto simp: abstract_state)
    qed
  qed
qed

lemma update_agent_share_run:
  assumes "update_agent_share caller a r b w = (res, w')" and "agent_shares_ok (agent_shares w)"
  shows "agents w' = agents w \<and> agent_shares_ok (agent_shares w') \<and>
    (used w' = used w \<and> delegated w' = delegated w \<and> (\<exists>e. res = Inl e)
     \<or> owns w caller a \<and> used w' = used w \<and> (a, r) \<in> used w \<and>
       delegated w' = (if b then insert (a, r) (delegated w) else delegated w - {(a, r)}))"
  using assms(1) unfolding update_agent_share_def
proof (cases rule: agent_get_qbind)
  case (refused e fs)
  with assms(2) show ?thesis by (simp add: abstract_state)
next
  case (okay x fs)
  from okay(2) show ?thesis
  proof (cases rule: qbind_cases)
    case (error e)
    from error(1) show ?thesis
      by (cases rule: set_delegation_run) (use error assms(2) in \<open>auto simp: abstract_state\<close>)
  next
    case listing: (okay s w1)
    from listing(1) show ?thesis
    proof (cases rule: set_delegation_run)
      case (updated fs2 s2)
      with delegate_abs [where b = b and now = "clock w", OF updated(2) [simplified] assms(2) refl] list_for_agent_tables [OF listing(2)]
        okay(1) show ?thesis
        by (simp add: abstract_state)
    qed simp
  qed
qed

lemma unshare_agent_run:
  assumes "unshare_agent caller a r w = (res, w')" and "agent_shares_ok (agent_shares w)"
  shows "agents w' = agents w \<and> agent_shares_ok (agent_shares w') \<and>
    (used w' = used w \<and> delegated w' = delegated w \<and> (\<exists>e. res = Inl e)
     \<or> owns w caller a \<and> used w' = used w - {(a, r)} \<and> delegated w' = delegated w - {(a, r)})"
  using assms(1) unfolding unshare_agent_def
proof (cases rule: agent_get_qbind)
  case (refused e fs)
  with assms(2) show ?thesis by (simp add: abstract_state)
next
  case (okay x fs)
  from okay(2) show ?thesis
  proof (cases rule: qbind_cases)
    case (error e)
    from error(1) show ?thesis
      by (cases rule: agent_unshare_run) (use error assms(2) in \<open>auto simp: abstract_state\<close>)
  next
    case listing: (okay s w1)
    from listing(1) show ?thesis
    proof (cases rule: agent_unshare_run)
      case (revoked fs2)
      with revoke_abs [OF assms(2) refl, of a r] list_for_agent_tables [OF listing(2)] okay(1)
      show ?thesis by (simp add: abstract_state)
    qed simp
  qed
qed

section \<open>A small world\<close>

definition demo_share :: agent_share where
  "demo_share = \<lparr>as_id = ''s'', as_agent_id = ''a'', as_owner_id = ''o'', as_recipient_id = ''r'',
     as_level = Use, as_delegate_credentials = True, as_created_at = 1, as_updated_at = 1\<rparr>"

definition share_demo :: share_world where
  "share_demo = \<lparr>faults = [], clock = 5, duplicate_text = (\<lambda>i. i), accounts = [],
     agents = [\<lparr>ag_id = ''a'', ag_user_id = ''o''\<rparr>], chats = [], agent_shares = [demo_share],
     chat_shares = [], shares = []\<rparr>"

lemma share_demo_simps [simp]:
  "faults share_demo = []" "agents share_demo = [\<lparr>ag_id = ''a'', ag_user_id = ''o''\<rparr>]"
  "agent_shares share_demo = [demo_share]" "shares share_demo = []" "clock share_demo = 5"
  by (simp_all add: share_demo_def)

lemma demo_share_simps [simp]:
  "as_agent_id demo_share = ''a''" "as_recipient_id demo_share = ''r''" "as_owner_id demo_share = ''o''"
  "as_delegate_credentials demo_share"
  by (simp_all add: demo_share_def)

lemma share_demo_ok: "agent_shares_ok (agent_shares share_demo)"
  by (simp add: agent_shares_ok_def grant_rows_wf_def wf_rows_def)

lemma share_demo_abs: "used share_demo = {(''a'', ''r'')}" "delegated share_demo = {(''a'', ''r'')}"
  by (auto simp: used_def delegated_def agent_pair_def)

lemma share_demo_unshare:
  "unshare_agent ''o'' ''a'' ''r'' share_demo = (Inr [], share_demo\<lparr>agent_shares := []\<rparr>)"
  by (simp add: unshare_agent_def agent_get_def repo_find_by_id_def db_read_no_fault find_row_def qbind_def
      ok_or_def ret_def agent_unshare_def agent_delete_one_def db_write_no_fault agent_shares_update_apply
      delete_grant_def list_for_agent_def agent_find_by_agent_def newest_first_def)

lemma share_demo_stranger:
  "update_agent_share ''x'' ''a'' ''r'' False share_demo = (Inl (Forbidden ''Not your agent''), share_demo)"
  by (simp add: update_agent_share_def agent_get_def repo_find_by_id_def db_read_no_fault find_row_def
      qbind_def ok_or_def ret_def fail_def)

section \<open>Properties of shared agents\<close>

text \<open>
  C3. The handlers of an agent's owner refine the operations of an access list. A share adds one
  pair, of the agent and the account the reference names (the one with that handle, or else one
  with that e-mail address), never the owner's own, and delegates the owner's credentials only if
  asked to; an update changes the delegation of an existing pair alone; revoking removes exactly
  the pair it is given from both sets. Whatever the result, the sets are as before or have been
  changed in this way: a handler whose last step, the listing, fails has done its work, and a
  share whose delegation fails has been granted.
\<close>

theorem agent_sharing_refines_access_list:
  assumes "agent_shares_ok (agent_shares w)"
  shows "(share_agent lo i caller a ref d w = (res, w') \<longrightarrow>
      used w' = used w \<and> delegated w' = delegated w \<and> (\<exists>e. res = Inl e)
      \<or> (\<exists>r. named lo (accounts w) ref r \<and> r \<noteq> caller \<and> used w' = insert (a, r) (used w) \<and>
           (delegated w' = (if d then insert (a, r) (delegated w) else delegated w)
            \<or> delegated w' = delegated w \<and> (\<exists>e. res = Inl e))))
    \<and> (update_agent_share caller a r b w = (res, w') \<longrightarrow>
      used w' = used w \<and> (delegated w' = delegated w \<and> (\<exists>e. res = Inl e)
      \<or> (a, r) \<in> used w \<and>
        delegated w' = (if b then insert (a, r) (delegated w) else delegated w - {(a, r)})))
    \<and> (unshare_agent caller a r w = (res, w') \<longrightarrow>
      used w' = used w \<and> delegated w' = delegated w \<and> (\<exists>e. res = Inl e)
      \<or> used w' = used w - {(a, r)} \<and> delegated w' = delegated w - {(a, r)})"
proof (intro conjI impI)
  assume "share_agent lo i caller a ref d w = (res, w')"
  from share_agent_run [OF this assms]
  show "used w' = used w \<and> delegated w' = delegated w \<and> (\<exists>e. res = Inl e)
      \<or> (\<exists>r. named lo (accounts w) ref r \<and> r \<noteq> caller \<and> used w' = insert (a, r) (used w) \<and>
           (delegated w' = (if d then insert (a, r) (delegated w) else delegated w)
            \<or> delegated w' = delegated w \<and> (\<exists>e. res = Inl e)))" by blast
next
  assume "update_agent_share caller a r b w = (res, w')"
  from update_agent_share_run [OF this assms]
  show "used w' = used w" and "delegated w' = delegated w \<and> (\<exists>e. res = Inl e)
      \<or> (a, r) \<in> used w \<and>
        delegated w' = (if b then insert (a, r) (delegated w) else delegated w - {(a, r)})" by auto
next
  assume "unshare_agent caller a r w = (res, w')"
  from unshare_agent_run [OF this assms]
  show "used w' = used w \<and> delegated w' = delegated w \<and> (\<exists>e. res = Inl e)
      \<or> used w' = used w - {(a, r)} \<and> delegated w' = delegated w - {(a, r)}" by blast
qed

theorem agent_sharing_witness:
  "used share_demo = {(''a'', ''r'')} \<and> used (share_demo\<lparr>agent_shares := []\<rparr>) = {}"
proof -
  have "used (share_demo\<lparr>agent_shares := []\<rparr>) = used share_demo - {(''a'', ''r'')}"
    using agent_sharing_refines_access_list [OF share_demo_ok] share_demo_unshare by blast
  then show ?thesis by (simp add: share_demo_abs)
qed

text \<open>
  C33. Only the owner of an agent changes who may use it, and the rows stay well formed: whoever
  else calls one of the three handlers gets an error and leaves both sets as they were; after
  any of them there is at most one share of an agent and a recipient, and nobody holds a share
  of their own.
\<close>

theorem only_the_owner_shares_an_agent:
  assumes "agent_shares_ok (agent_shares w)"
    and "share_agent lo i caller a ref d w = (res, w') \<or> update_agent_share caller a r b w = (res, w')
      \<or> unshare_agent caller a r w = (res, w')"
  shows "agent_shares_ok (agent_shares w') \<and> agents w' = agents w \<and>
    (\<not> owns w caller a \<longrightarrow> used w' = used w \<and> delegated w' = delegated w \<and> (\<exists>e. res = Inl e))"
  using assms(2)
proof (elim disjE)
  assume "share_agent lo i caller a ref d w = (res, w')"
  from share_agent_run [OF this assms(1)] show ?thesis by auto
next
  assume "update_agent_share caller a r b w = (res, w')"
  from update_agent_share_run [OF this assms(1)] show ?thesis by auto
next
  assume "unshare_agent caller a r w = (res, w')"
  from unshare_agent_run [OF this assms(1)] show ?thesis by auto
qed

theorem only_the_owner_shares_witness:
  "\<not> owns share_demo ''x'' ''a'' \<and> delegated share_demo = {(''a'', ''r'')}
   \<and> (\<exists>e. fst (update_agent_share ''x'' ''a'' ''r'' False share_demo) = Inl e)"
proof -
  have "\<not> owns share_demo ''x'' ''a''" by (simp add: owns_def find_row_def)
  moreover have "\<exists>e. Inl (Forbidden ''Not your agent'') = (Inl e :: app_error + agent_share list)"
    using only_the_owner_shares_an_agent [OF share_demo_ok disjI2 [OF disjI1 [OF share_demo_stranger]]]
      calculation by blast
  ultimately show ?thesis by (simp add: share_demo_stranger share_demo_abs)
qed

text \<open>
  C38. Access is what the table of shares says: when the database answers, an agent is available
  to its owner, for use to the users it is shared with, and to nobody else; and a user's runs
  have the credentials of the agent's owner exactly when the share delegates them, never the
  owner's own runs.
\<close>

theorem access_follows_the_shares:
  assumes "faults w = []" and "agent_shares_ok (agent_shares w)" and "find_row ag_id a (agents w) = Some x"
  shows "fst (agent_get_accessible u a w) =
      (if u = ag_user_id x then Inr (x, Owner)
       else if (a, u) \<in> used w then Inr (x, SharedUse) else Inl (Forbidden ''Not your agent''))
    \<and> fst (credential_delegation_owner x u w) =
      Inr (if u \<noteq> ag_user_id x \<and> (a, u) \<in> delegated w then Some (ag_user_id x) else None)"
proof -
  have find: "repo_find_by_id agents ag_id a w = (Inr (Some x), w)"
    by (simp add: repo_find_by_id_def db_read_no_fault assms(1,3))
  have one: "agent_find_one i r w = (Inr (find_grant as_agent_id as_recipient_id i r (agent_shares w)), w)" for i r
    by (simp add: agent_find_one_def db_read_no_fault assms(1))
  have used: "(find_grant as_agent_id as_recipient_id a u (agent_shares w) = None) = ((a, u) \<notin> used w)"
    by (simp add: find_grant_None used_grants)
  have "ag_id x = a" using find_row_Some [OF assms(3)] by simp
  have "(case find_grant as_agent_id as_recipient_id a u (agent_shares w) of
           None \<Rightarrow> False | Some s \<Rightarrow> as_delegate_credentials s) = ((a, u) \<in> delegated w)"
  proof (cases "find_grant as_agent_id as_recipient_id a u (agent_shares w)")
    case None
    then show ?thesis using used by (auto simp: used_def delegated_def)
  next
    case (Some s)
    then have "s \<in> set (agent_shares w)" "agent_pair s = (a, u)"
      by (auto simp: agent_pair_def dest: find_grant_Some)
    note unique = pair_iff [OF assms(2) this]
    have "(a, u) \<in> delegated w \<longleftrightarrow> (\<exists>x \<in> set (agent_shares w). agent_pair x = (a, u) \<and> as_delegate_credentials x)"
      by (auto simp: delegated_def image_iff eq_commute)
    also have "\<dots> \<longleftrightarrow> as_delegate_credentials s"
      using unique \<open>s \<in> set (agent_shares w)\<close> by blast
    finally show ?thesis using Some by simp
  qed
  then show ?thesis
    using used \<open>ag_id x = a\<close>
    by (auto simp: agent_get_accessible_def credential_delegation_owner_def find_share_def find_level_def
        qbind_def find one ok_or_def ret_def fail_def)
qed

theorem access_follows_the_shares_witness:
  "fst (agent_get_accessible ''r'' ''a'' share_demo) = Inr (\<lparr>ag_id = ''a'', ag_user_id = ''o''\<rparr>, SharedUse)
   \<and> fst (credential_delegation_owner \<lparr>ag_id = ''a'', ag_user_id = ''o''\<rparr> ''r'' share_demo) = Inr (Some ''o'')"
  using access_follows_the_shares [of share_demo "''a''" "\<lparr>ag_id = ''a'', ag_user_id = ''o''\<rparr>" "''r''"]
  by (simp add: share_demo_ok [simplified] share_demo_abs find_row_def)

end
