(* ===== verification/Link_Props.thy ===== *)
theory Link_Props
  imports Share_Props
begin

text \<open>
  What short links guarantee: a link resolves to what it was issued for until it expires and to
  nothing after, cleaning up expired links takes no live one, one chat has one live link, and
  the overflow message of the plain splitter carries a link that opens the chat.
\<close>

section \<open>One run of each operation\<close>

lemma as_i64_small: "n < 2 ^ 63 \<Longrightarrow> as_i64 n = int n"
  by (simp add: as_i64_def)

lemma link_expiry_Inr: "link_expiry tr now ttl = Inr t \<Longrightarrow> t = now + 1000 * as_i64 ttl"
  by (auto simp: link_expiry_def Let_def split: if_splits)

lemma shares_update_filter: "shares_update (filter P) w = w\<lparr>shares := filter P (shares w)\<rparr>"
  by (cases w) simp

lemma repo_create_Inr:
  assumes "repo_create shares shares_update sh_id s w = (Inr x, w')"
  shows "\<exists>fs. w' = w\<lparr>faults := fs, shares := shares w @ [s]\<rparr> \<and> find_row sh_id (sh_id s) (shares w) = None"
  using assms unfolding repo_create_def
  by (auto elim!: db_call_cases simp: create_row_def split: option.splits if_splits)

lemma issue_link_Inr:
  assumes "issue_link tr i kind u ttl w = (Inr k, w')"
  obtains fs s where "k = i" and "sh_id s = i" and "sh_user_id s = u" and "sh_kind s = kind"
    and "sh_expires_at s = clock w + 1000 * as_i64 ttl" and "sh_created_at s = clock w"
    and "w' = w\<lparr>faults := fs, shares := shares w @ [s]\<rparr>" and "find_row sh_id i (shares w) = None"
proof -
  obtain t where t: "link_expiry tr (clock w) ttl = Inr t"
    using assms by (cases "link_expiry tr (clock w) ttl") (auto simp: issue_link_def fail_def)
  let ?s = "\<lparr>sh_id = i, sh_user_id = u, sh_kind = kind, sh_expires_at = t, sh_created_at = clock w\<rparr>"
  have "qbind (repo_create shares shares_update sh_id ?s) (\<lambda>_. ret i) w = (Inr k, w')"
    using assms t by (simp add: issue_link_def)
  then obtain x where run: "repo_create shares shares_update sh_id ?s w = (Inr x, w')" and "k = i"
    by (auto simp: ret_def elim!: qbind_Inr_E)
  with that [of ?s] repo_create_Inr [OF run] link_expiry_Inr [OF t] show thesis
    by (auto simp: ret_def)
qed

lemma find_active_by_id_eval:
  "faults w = [] \<Longrightarrow> resolve_link i w = (Inr (find (\<lambda>s. sh_id s = i \<and> link_active (clock w) s) (shares w)), w)"
  by (simp add: resolve_link_def find_active_by_id_def db_read_no_fault)

lemma cleanup_eval:
  "faults w = [] \<Longrightarrow> cleanup_expired_links w =
     (Inr (length (filter (\<lambda>s. \<not> link_active (clock w) s) (shares w))),
      w\<lparr>shares := filter (link_active (clock w)) (shares w)\<rparr>)"
  by (simp add: cleanup_expired_links_def delete_expired_links_def db_call_no_fault shares_update_filter)

lemma find_none_prefix: "find P xs = None \<Longrightarrow> find P (xs @ ys) = find P ys"
  by (induction xs) auto

section \<open>Links resolve until they expire\<close>

text \<open>
  A file link resolves to the file, the visibility and the user it was issued for exactly
  until its lifetime is over, whatever the clock says when it is followed and whether or not a
  cleanup ran before; it is the id the caller was given.
\<close>

theorem file_links_resolve_until_they_expire:
  assumes "issue_file_with_visibility tr i own path u ttl public w = (Inr k, w')" and "ttl < 2 ^ 63"
  shows "k = i \<and> (\<exists>s. sh_id s = i \<and> sh_user_id s = u \<and> sh_kind s = File own path public
    \<and> (\<forall>now. fst (resolve_link k (w'\<lparr>faults := [], clock := now\<rparr>)) =
           Inr (if now < clock w + 1000 * int ttl then Some s else None))
    \<and> (\<forall>before now. before \<le> now \<longrightarrow>
         fst (resolve_link k ((snd (cleanup_expired_links (w'\<lparr>faults := [], clock := before\<rparr>)))\<lparr>clock := now\<rparr>)) =
           Inr (if now < clock w + 1000 * int ttl then Some s else None)))"
proof -
  obtain fs s where s: "k = i" "sh_id s = i" "sh_user_id s = u" "sh_kind s = File own path public"
    "sh_expires_at s = clock w + 1000 * int ttl"
    and w': "w' = w\<lparr>faults := fs, shares := shares w @ [s]\<rparr>" and new: "find_row sh_id i (shares w) = None"
    using assms by (auto simp: issue_file_with_visibility_def as_i64_small elim!: issue_link_Inr)
  have none: "find (\<lambda>s. sh_id s = i \<and> P s) (shares w) = None" for P
    using new by (auto simp: find_none_iff find_row_None)
  have none_filter: "find (\<lambda>s. sh_id s = i \<and> P s) (filter Q (shares w)) = None" for P Q
    using new by (auto simp: find_none_iff find_row_None)
  have direct: "fst (resolve_link k (w'\<lparr>faults := [], clock := now\<rparr>)) =
      Inr (if now < clock w + 1000 * int ttl then Some s else None)" for now
    using s none by (simp add: find_active_by_id_eval w' find_none_prefix link_active_def)
  have "fst (resolve_link k ((snd (cleanup_expired_links (w'\<lparr>faults := [], clock := before\<rparr>)))\<lparr>clock := now\<rparr>)) =
      Inr (if now < clock w + 1000 * int ttl then Some s else None)" if "before \<le> now" for before now
    using s none_filter that
    by (auto simp: cleanup_eval find_active_by_id_eval w' find_none_prefix link_active_def)
  with s direct show ?thesis by blast
qed

definition demo_times :: time_range where
  "demo_times = \<lparr>min_time = - 1000000, max_time = 1000000\<rparr>"

definition demo_link :: "string \<Rightarrow> share_kind \<Rightarrow> share" where
  "demo_link i kind = \<lparr>sh_id = i, sh_user_id = ''u'', sh_kind = kind, sh_expires_at = 60005, sh_created_at = 5\<rparr>"

lemma demo_issue:
  "issue_link demo_times i kind ''u'' 60 share_demo = (Inr i, share_demo\<lparr>shares := [demo_link i kind]\<rparr>)"
proof -
  have expiry: "link_expiry demo_times 5 60 = Inr 60005"
    by (simp add: link_expiry_def as_i64_def demo_times_def)
  have create: "repo_create shares shares_update sh_id (demo_link i kind) share_demo
      = (Inr (demo_link i kind), share_demo\<lparr>shares := [demo_link i kind]\<rparr>)"
    by (simp add: repo_create_def db_call_no_fault create_row_def)
  show ?thesis
    unfolding issue_link_def by (simp add: expiry create [unfolded demo_link_def] qbind_Inr demo_link_def ret_def)
qed

theorem file_links_witness:
  "\<exists>s. sh_kind s = File ''agent'' ''a.md'' False
   \<and> fst (resolve_link ''k'' (share_demo\<lparr>shares := [demo_link ''k'' (File ''agent'' ''a.md'' False)], faults := [], clock := 60004\<rparr>))
       = Inr (Some s)
   \<and> fst (resolve_link ''k'' (share_demo\<lparr>shares := [demo_link ''k'' (File ''agent'' ''a.md'' False)], faults := [], clock := 60005\<rparr>))
       = Inr None"
proof -
  have "issue_file_with_visibility demo_times ''k'' ''agent'' ''a.md'' ''u'' 60 False share_demo
      = (Inr ''k'', share_demo\<lparr>shares := [demo_link ''k'' (File ''agent'' ''a.md'' False)]\<rparr>)"
    by (simp add: issue_file_with_visibility_def demo_issue)
  from file_links_resolve_until_they_expire [OF this]
  obtain s where s: "sh_kind s = File ''agent'' ''a.md'' False"
    and res: "\<forall>now. fst (resolve_link ''k'' (share_demo\<lparr>shares := [demo_link ''k'' (File ''agent'' ''a.md'' False)],
      faults := [], clock := now\<rparr>)) = Inr (if now < clock share_demo + 1000 * int 60 then Some s else None)"
    by auto
  from spec [OF res, of 60004] spec [OF res, of 60005] s show ?thesis
    by (intro exI [of _ s]) simp
qed

section \<open>One live link per chat, and the overflow message that carries it\<close>

lemma find_active_chat_share_Inr:
  "find_active_chat_share u c w = (Inr m, w') \<Longrightarrow>
     (\<exists>fs. w' = w\<lparr>faults := fs\<rparr>)
     \<and> m = find (\<lambda>s. sh_user_id s = u \<and> sh_kind s = Chat c \<and> link_active (clock w) s) (shares w)"
  by (auto simp: find_active_chat_share_def dest!: db_read_Inr)

text \<open>After a successful call the id belongs to a link of this user and chat, first among the live ones.\<close>

lemma lookup_or_issue_Inr:
  assumes "lookup_or_issue_chat tr i c u ttl w = (Inr k, w')" and "ttl < 2 ^ 63" and "wf_rows sh_id (shares w)"
  obtains fs s where "sh_id s = k" and "sh_user_id s = u" and "sh_kind s = Chat c"
    and "w' = w\<lparr>faults := fs, shares := shares w'\<rparr>" and "s \<in> set (shares w')"
    and "wf_rows sh_id (shares w')" and "set (shares w) \<subseteq> set (shares w')"
    and "\<forall>now. clock w \<le> now \<and> link_active now s \<longrightarrow>
           find (\<lambda>s. sh_user_id s = u \<and> sh_kind s = Chat c \<and> link_active now s) (shares w') = Some s"
    and "0 < ttl \<longrightarrow> link_active (clock w) s"
  using assms(1) unfolding lookup_or_issue_chat_def
proof (cases rule: qbind_cases)
  case (okay m w1)
  obtain fs where w1: "w1 = w\<lparr>faults := fs\<rparr>"
    and m: "m = find (\<lambda>s. sh_user_id s = u \<and> sh_kind s = Chat c \<and> link_active (clock w) s) (shares w)"
    using find_active_chat_share_Inr [OF okay(1)] by blast
  show ?thesis
  proof (cases m)
    case (Some s)
    then have s: "find (\<lambda>s. sh_user_id s = u \<and> sh_kind s = Chat c \<and> link_active (clock w) s) (shares w) = Some s"
      using m by simp
    have later: "find (\<lambda>s. sh_user_id s = u \<and> sh_kind s = Chat c \<and> link_active now s) (shares w) = Some s"
      if "clock w \<le> now" "link_active now s" for now
      by (rule find_shrink [OF s]) (use find_eq_SomeD [OF s] that in \<open>auto simp: link_active_def\<close>)
    show ?thesis
      by (rule that [of s fs]) (use okay(2) Some w1 find_eq_SomeD [OF s] later assms(3) in \<open>auto simp: ret_def\<close>)
  next
    case None
    then have none: "find (\<lambda>s. sh_user_id s = u \<and> sh_kind s = Chat c \<and> link_active (clock w) s) (shares w) = None"
      using m by simp
    from okay(2) None have "issue_link tr i (Chat c) u ttl w1 = (Inr k, w')" by simp
    then obtain fs2 s where s: "k = i" "sh_id s = i" "sh_user_id s = u" "sh_kind s = Chat c"
      "sh_expires_at s = clock w + 1000 * int ttl"
      "w' = w\<lparr>faults := fs2, shares := shares w @ [s]\<rparr>" "find_row sh_id i (shares w) = None"
      using w1 assms(2) by (auto simp: as_i64_small elim!: issue_link_Inr)
    have "find (\<lambda>s. sh_user_id s = u \<and> sh_kind s = Chat c \<and> link_active now s) (shares w) = None"
      if "clock w \<le> now" for now
      using none that by (fastforce simp: find_none_iff link_active_def)
    with s show ?thesis
      by (intro that [of s fs2])
         (use assms(3) in \<open>auto simp: find_none_prefix link_active_def wf_rows_def find_row_None\<close>)
  qed
qed simp

text \<open>
  A reply over the hard limit becomes one message that is a beginning of the reply and a
  link, and fits the provider's limit when the link does. The link opens the chat for the user
  it was sent to, and as long as it is alive, asking again for a link to this chat gives the
  same one instead of a new row.
\<close>

theorem overflow_link_opens_the_chat:
  assumes "plain_splitter_split tr show_error sp i body se w = (Inr ms, w')"
    and "hard_limit sp = Some hard" and "hard < length body" and "trim body \<noteq> []"
    and "0 < se_ttl_secs se" and "se_ttl_secs se < 2 ^ 63" and "wf_rows sh_id (shares w)"
  shows "\<exists>k head rest s. ms = [head @ overflow_prefix @ se_base_url se @ ''/s/'' @ k] \<and> body = head @ rest
    \<and> (length (overflow_prefix @ se_base_url se @ ''/s/'' @ k) \<le> provider_limit sp
         \<longrightarrow> length (hd ms) \<le> provider_limit sp)
    \<and> fst (resolve_link k (w'\<lparr>faults := []\<rparr>)) = Inr (Some s)
    \<and> sh_kind s = Chat (se_chat_id se) \<and> sh_user_id s = se_user_id se
    \<and> (\<forall>now tr' j ttl. clock w \<le> now \<and> link_active now s \<longrightarrow>
         fst (lookup_or_issue_chat tr' j (se_chat_id se) (se_user_id se) ttl (w'\<lparr>faults := [], clock := now\<rparr>)) = Inr k)"
proof -
  from assms(1-4) obtain url where url: "ensure_chat_share tr show_error i se w = (Inr url, w')"
    and ms: "ms = [append_overflow body url (provider_limit sp)]"
    by (auto simp: plain_splitter_split_def ret_def elim!: qbind_Inr_E)
  then obtain k where run: "lookup_or_issue_chat tr i (se_chat_id se) (se_user_id se) (se_ttl_secs se) w = (Inr k, w')"
    and k: "url = se_base_url se @ ''/s/'' @ k"
    by (auto simp: ensure_chat_share_def Let_def split: race.splits prod.splits sum.splits)
  obtain fs s where s: "sh_id s = k" "sh_user_id s = se_user_id se" "sh_kind s = Chat (se_chat_id se)"
    "w' = w\<lparr>faults := fs, shares := shares w'\<rparr>" "s \<in> set (shares w')" "wf_rows sh_id (shares w')"
    and "set (shares w) \<subseteq> set (shares w')"
    and first: "\<forall>now. clock w \<le> now \<and> link_active now s \<longrightarrow>
      find (\<lambda>x. sh_user_id x = se_user_id se \<and> sh_kind x = Chat (se_chat_id se) \<and> link_active now x) (shares w') = Some s"
    and alive: "0 < se_ttl_secs se \<longrightarrow> link_active (clock w) s"
    by (rule lookup_or_issue_Inr [OF run assms(6,7)])
  obtain t where "w' = w\<lparr>faults := fs, shares := t\<rparr>" using s(4) by (rule that)
  then have clock: "clock w' = clock w" by simp
  have "find (\<lambda>x. sh_id x = k \<and> link_active (clock w) x) (shares w') = Some s"
    by (rule find_shrink [of "\<lambda>x. sh_id x = k"])
       (use find_row_mem [OF s(6,5)] s(1) alive assms(5) in \<open>auto simp: find_row_def\<close>)
  then have resolved: "fst (resolve_link k (w'\<lparr>faults := []\<rparr>)) = Inr (Some s)"
    by (simp add: find_active_by_id_eval clock)
  have again: "fst (lookup_or_issue_chat tr' j (se_chat_id se) (se_user_id se) ttl (w'\<lparr>faults := [], clock := now\<rparr>)) = Inr k"
    if "clock w \<le> now" "link_active now s" for now tr' j ttl
    using first that s(1)
    by (simp add: lookup_or_issue_chat_def qbind_def find_active_chat_share_def db_read_no_fault ret_def)
  have "url \<noteq> []" using k by simp
  then obtain head rest where "append_overflow body url (provider_limit sp) = head @ overflow_prefix @ url"
    "body = head @ rest" "length (overflow_prefix @ url) \<le> provider_limit sp \<longrightarrow>
      length (append_overflow body url (provider_limit sp)) \<le> provider_limit sp"
    using overflow_fits [of url body "provider_limit sp"] by blast
  note head = this [unfolded k]
  show ?thesis
    by (rule exI [of _ k], rule exI [of _ head], rule exI [of _ rest], rule exI [of _ s], intro conjI allI impI)
       (use head ms resolved again s(2,3) in \<open>simp_all add: k\<close>)
qed

definition demo_split :: split_env where
  "demo_split = \<lparr>se_base_url = ''h'', se_ttl_secs = 60, se_race = Finished, se_chat_id = ''c'', se_user_id = ''u''\<rparr>"

definition demo_splitter :: plain_splitter where
  "demo_splitter = \<lparr>provider_limit = 22, hard_limit = Some 3\<rparr>"

theorem overflow_link_witness:
  "\<exists>k s. fst (resolve_link k (share_demo\<lparr>shares := [demo_link ''k'' (Chat ''c'')], faults := []\<rparr>)) = Inr (Some s)
   \<and> sh_kind s = Chat ''c''"
proof -
  have "trim ''aaaa'' = ''aaaa''"
    by (simp add: trim_def is_cont_def is_whitespace_def whitespace_chars_def)
  moreover have "lookup_or_issue_chat demo_times ''k'' ''c'' ''u'' 60 share_demo
      = (Inr ''k'', share_demo\<lparr>shares := [demo_link ''k'' (Chat ''c'')]\<rparr>)"
    by (simp add: lookup_or_issue_chat_def find_active_chat_share_def db_read_no_fault qbind_def demo_issue)
  ultimately have "plain_splitter_split demo_times (\<lambda>_. []) demo_splitter ''k'' ''aaaa'' demo_split share_demo
      = (Inr [append_overflow ''aaaa'' ''h/s/k'' 22], share_demo\<lparr>shares := [demo_link ''k'' (Chat ''c'')]\<rparr>)"
    by (simp add: plain_splitter_split_def demo_splitter_def demo_split_def ensure_chat_share_def qbind_def ret_def)
  from overflow_link_opens_the_chat [OF this, of 3] \<open>trim ''aaaa'' = ''aaaa''\<close>
  show ?thesis
    by (simp add: demo_splitter_def demo_split_def wf_rows_def) blast
qed

end
