(* ===== verification/Supervisor.thy ===== *)
theory Supervisor
  imports Notifications
begin

text \<open>
  The supervisor of long-running processes, \<open>core/supervisor.rs\<close>: the trait as a record of
  operations, the tick that restarts what died, the tick that hibernates what is idle, the
  restoration at start-up and the loop around them.

  The locale \<open>restart_loop\<close> states what the tick relies on. Its client lemmas say that a tick
  moves every supervised process as \<open>tick_phase\<close> does, and that a process that keeps dying is
  given up after its last restart.
\<close>

section \<open>The trait\<close>

record 'w supervisor =
  sv_label :: string
  sv_find_running :: "(app_error, 'w, string list) op"
  sv_start :: "string \<Rightarrow> (app_error, 'w, unit) op"
  sv_stop :: "string \<Rightarrow> (app_error, 'w, unit) op"
  sv_find_dead :: "(app_error, 'w, string list) op"
  sv_restart_count :: "string \<Rightarrow> 'w \<Rightarrow> nat"
  sv_mark_failed :: "string \<Rightarrow> string \<Rightarrow> (app_error, 'w, unit) op"
  sv_record_access :: "string \<Rightarrow> 'w \<Rightarrow> 'w"
  sv_find_idle :: "nat \<Rightarrow> (app_error, 'w, string list) op"
  sv_mark_hibernated :: "string \<Rightarrow> (app_error, 'w, unit) op"
  sv_owner_of :: "string \<Rightarrow> (app_error, 'w, string) op"
  sv_display_name :: "string \<Rightarrow> 'w \<Rightarrow> string \<times> 'w"
  sv_attempt_auto_fix :: "string \<Rightarrow> 'w \<Rightarrow> bool \<times> 'w"
  sv_notification_data :: "string \<Rightarrow> string \<Rightarrow> 'w \<Rightarrow> notification_data \<times> 'w"

record supervisor_config =
  max_restart_attempts :: nat
  hibernate_after :: "nat option"

section \<open>The ticks\<close>

text \<open>An operation of the ticks never fails: what goes wrong inside it is logged.\<close>

type_synonym 'w tick_op = "(app_error, 'w sup_world_scheme, unit) op"

definition send_notification ::
    "'w sup_world_scheme supervisor \<Rightarrow> string \<Rightarrow> string \<Rightarrow> notification_level \<Rightarrow> string \<Rightarrow> string \<Rightarrow> 'w tick_op" where
  "send_notification sv i act level title body =
     qbind (attempted (sv_owner_of sv i)) (\<lambda>found.
     case found of
       Inl e \<Rightarrow> ret ()
     | Inr user_id \<Rightarrow>
         qbind (always (sv_notification_data sv i act)) (\<lambda>d.
         ignore (create_and_notify user_id d level title body)))"

definition quoted :: "string \<Rightarrow> string" where
  "quoted s = CHR 0x27 # s @ [CHR 0x27]"

definition give_up_reason :: "nat \<Rightarrow> string" where
  "give_up_reason n = ''exceeded '' @ show_nat n @ '' restart attempts''"

definition check_dead :: "'w sup_world_scheme supervisor \<Rightarrow> nat \<Rightarrow> string \<Rightarrow> 'w tick_op" where
  "check_dead sv max_attempts i =
     qbind (always (sv_display_name sv i)) (\<lambda>name.
     qbind (gets (sv_restart_count sv i)) (\<lambda>restarts.
     if max_attempts \<le> restarts
     then qbind (ignore (sv_mark_failed sv i (give_up_reason max_attempts))) (\<lambda>_.
          qbind (send_notification sv i ''crash'' ErrorLevel
                   (sv_label sv @ '' '' @ quoted name @ '' crashed'') (give_up_reason max_attempts)) (\<lambda>_.
          qbind (always (sv_attempt_auto_fix sv i)) (\<lambda>_. ret ())))
     else ignore (sv_start sv i)))"

definition health_tick :: "'w sup_world_scheme supervisor \<Rightarrow> nat \<Rightarrow> 'w tick_op" where
  "health_tick sv max_attempts =
     qbind (attempted (sv_find_dead sv)) (\<lambda>found.
     case found of
       Inl e \<Rightarrow> ret ()
     | Inr dead \<Rightarrow> for_each dead (check_dead sv max_attempts))"

definition hibernate_tick :: "'w sup_world_scheme supervisor \<Rightarrow> nat \<Rightarrow> 'w tick_op" where
  "hibernate_tick sv threshold =
     qbind (attempted (sv_find_idle sv threshold)) (\<lambda>found.
     case found of
       Inl e \<Rightarrow> ret ()
     | Inr idle \<Rightarrow> for_each idle (\<lambda>i.
         qbind (always (sv_display_name sv i)) (\<lambda>name.
         qbind (ignore (sv_stop sv i)) (\<lambda>_.
         ignore (sv_mark_hibernated sv i)))))"

text \<open>\<open>show_error\<close> is the display text of an error, part of which comes from libraries.\<close>

definition restore ::
    "(app_error \<Rightarrow> string) \<Rightarrow> 'w sup_world_scheme supervisor \<Rightarrow> (app_error, 'w sup_world_scheme, nat) op" where
  "restore show_error sv =
     qbind (sv_find_running sv) (\<lambda>ids.
     qbind (for_each ids (\<lambda>i.
       qbind (always (sv_display_name sv i)) (\<lambda>name.
       qbind (attempted (sv_start sv i)) (\<lambda>started.
       case started of
         Inr u \<Rightarrow> ret ()
       | Inl e \<Rightarrow>
           qbind (ignore (sv_mark_failed sv i (show_error e))) (\<lambda>_.
           qbind (always (sv_display_name sv i)) (\<lambda>shown.
           send_notification sv i ''restore'' ErrorLevel
             (sv_label sv @ '' '' @ quoted shown @ '' failed to start'') (show_error e))))))) (\<lambda>_.
     ret (length ids)))"

text \<open>
  One round of the loop, the shutdown, and the whole run: the list says what the rest of the
  system does while the loop sleeps, round by round, until the shutdown token is cancelled.
\<close>

definition supervise_round :: "'w sup_world_scheme supervisor \<Rightarrow> supervisor_config \<Rightarrow> 'w tick_op" where
  "supervise_round sv cfg =
     qbind (health_tick sv (max_restart_attempts cfg)) (\<lambda>_.
     case hibernate_after cfg of
       None \<Rightarrow> ret ()
     | Some threshold \<Rightarrow> hibernate_tick sv threshold)"

definition shutdown :: "'w sup_world_scheme supervisor \<Rightarrow> 'w tick_op" where
  "shutdown sv =
     qbind (attempted (sv_find_running sv)) (\<lambda>found.
     case found of
       Inl e \<Rightarrow> ret ()
     | Inr ids \<Rightarrow> for_each ids (\<lambda>i. ignore (sv_stop sv i)))"

definition supervise ::
    "(app_error \<Rightarrow> string) \<Rightarrow> 'w sup_world_scheme supervisor \<Rightarrow> supervisor_config
     \<Rightarrow> ('w sup_world_scheme \<Rightarrow> 'w sup_world_scheme) list \<Rightarrow> 'w tick_op" where
  "supervise show_error sv cfg meanwhile =
     qbind (ignore (restore show_error sv)) (\<lambda>_.
     qbind (for_each meanwhile (\<lambda>f. qbind (modify f) (\<lambda>_. supervise_round sv cfg))) (\<lambda>_.
     shutdown sv))"

lemma total_send_notification [total_rules]: "total_op (send_notification sv i act l t b)"
  unfolding send_notification_def by (intro total_rules)

lemma total_check_dead [total_rules]: "total_op (check_dead sv n i)"
  unfolding check_dead_def by (intro total_rules)

lemma total_ticks [total_rules]: "total_op (health_tick sv n)" "total_op (hibernate_tick sv t)"
  "total_op (supervise_round sv cfg)" "total_op (shutdown sv)" "total_op (supervise show_error sv cfg fs)"
  unfolding health_tick_def hibernate_tick_def supervise_round_def shutdown_def supervise_def
  by (intro total_rules)+

text \<open>An invariant that every operation of the trait keeps survives the ticks.\<close>

definition sup_keeps :: "('w sup_world_scheme \<Rightarrow> bool) \<Rightarrow> 'w sup_world_scheme supervisor \<Rightarrow> bool" where
  "sup_keeps P sv \<longleftrightarrow> keeps P (sv_find_running sv) \<and> (\<forall>i. keeps P (sv_start sv i))
     \<and> (\<forall>i. keeps P (sv_stop sv i)) \<and> keeps P (sv_find_dead sv) \<and> (\<forall>i r. keeps P (sv_mark_failed sv i r))
     \<and> (\<forall>t. keeps P (sv_find_idle sv t)) \<and> (\<forall>i. keeps P (sv_mark_hibernated sv i))
     \<and> (\<forall>i. keeps P (sv_owner_of sv i)) \<and> (\<forall>i. keeps P (always (sv_display_name sv i) :: (app_error, 'w sup_world_scheme, string) op))
     \<and> (\<forall>i. keeps P (always (sv_attempt_auto_fix sv i) :: (app_error, 'w sup_world_scheme, bool) op))
     \<and> (\<forall>i a. keeps P (always (sv_notification_data sv i a) :: (app_error, 'w sup_world_scheme, notification_data) op))
     \<and> (\<forall>u d l t b. keeps P (create_and_notify u d l t b))"

lemma keeps_ticks:
  assumes "sup_keeps P sv"
  shows "keeps P (send_notification sv i act l t b)" "keeps P (check_dead sv n i)"
    "keeps P (health_tick sv n)" "keeps P (hibernate_tick sv d)" "keeps P (restore show_error sv)"
    "keeps P (supervise_round sv cfg)" "keeps P (shutdown sv)"
proof -
  show n: "keeps P (send_notification sv i act l t b)" for i act l t b
    unfolding send_notification_def by (intro keep_rules) (use assms in \<open>auto simp: sup_keeps_def\<close>)
  show c: "keeps P (check_dead sv n i)" for n i
    unfolding check_dead_def by (intro keep_rules n) (use assms in \<open>auto simp: sup_keeps_def\<close>)
  show h: "keeps P (health_tick sv n)" for n
    unfolding health_tick_def by (intro keep_rules c) (use assms in \<open>auto simp: sup_keeps_def\<close>)
  show i: "keeps P (hibernate_tick sv d)" for d
    unfolding hibernate_tick_def by (intro keep_rules) (use assms in \<open>auto simp: sup_keeps_def\<close>)
  show "keeps P (restore show_error sv)"
    unfolding restore_def by (intro keep_rules n) (use assms in \<open>auto simp: sup_keeps_def\<close>)
  show "keeps P (supervise_round sv cfg)"
    unfolding supervise_round_def by (intro keep_rules h i)
  show "keeps P (shutdown sv)"
    unfolding shutdown_def by (intro keep_rules) (use assms in \<open>auto simp: sup_keeps_def\<close>)
qed

section \<open>The contract of a supervised process\<close>

text \<open>
  What a tick can see of a process: it is managed, alive or dead, with the restarts so far; or
  it has been given up; or it is none of the supervisor's business.
\<close>

datatype phase = Managed bool nat | GivenUp | Unmanaged

fun tick_phase :: "nat \<Rightarrow> phase \<Rightarrow> phase" where
  "tick_phase n (Managed True c) = (if c < n then Managed False (Suc c) else GivenUp)"
| "tick_phase n p = p"

fun killed :: "phase \<Rightarrow> phase" where
  "killed (Managed d c) = Managed True c"
| "killed p = p"

locale restart_loop =
  fixes sv :: "'w sup_world_scheme supervisor"
    and max_attempts :: nat
    and phase_of :: "string \<Rightarrow> 'w sup_world_scheme \<Rightarrow> phase"
    and restartable :: "string \<Rightarrow> 'w sup_world_scheme \<Rightarrow> bool"
    and good :: "'w sup_world_scheme \<Rightarrow> bool"
  assumes find_dead: "good w \<Longrightarrow> \<exists>ids. sv_find_dead sv w = (Inr ids, w) \<and> distinct ids
        \<and> set ids = {i. \<exists>c. phase_of i w = Managed True c}"
    and restart_count: "good w \<Longrightarrow> phase_of i w = Managed d c \<Longrightarrow> sv_restart_count sv i w = c"
    and display_name: "good w \<Longrightarrow> snd (sv_display_name sv i w) = w"
    and start_dead: "good w \<Longrightarrow> restartable i w \<Longrightarrow> phase_of i w = Managed True c \<Longrightarrow> c < max_attempts
        \<Longrightarrow> phase_of i (snd (sv_start sv i w)) = Managed False (Suc c)
          \<and> restartable i (snd (sv_start sv i w))"
    and start_frame: "good w \<Longrightarrow> i \<noteq> j \<Longrightarrow> phase_of j (snd (sv_start sv i w)) = phase_of j w
        \<and> restartable j (snd (sv_start sv i w)) = restartable j w"
    and start_good: "good w \<Longrightarrow> good (snd (sv_start sv i w))"
    and failed: "good w \<Longrightarrow> phase_of i w = Managed d c
        \<Longrightarrow> phase_of i (snd (sv_mark_failed sv i r w)) = GivenUp"
    and failed_frame: "good w \<Longrightarrow> i \<noteq> j \<Longrightarrow> phase_of j (snd (sv_mark_failed sv i r w)) = phase_of j w
        \<and> restartable j (snd (sv_mark_failed sv i r w)) = restartable j w"
    and failed_good: "good w \<Longrightarrow> good (snd (sv_mark_failed sv i r w))"
    and notify_quiet: "good w \<Longrightarrow> w' = snd (send_notification sv i act l t b w)
        \<Longrightarrow> good w' \<and> phase_of j w' = phase_of j w \<and> restartable j w' = restartable j w"
    and auto_fix_quiet: "good w \<Longrightarrow> w' = snd (sv_attempt_auto_fix sv i w)
        \<Longrightarrow> good w' \<and> phase_of j w' = phase_of j w \<and> restartable j w' = restartable j w"
begin

text \<open>What checking one dead process does to it and to the others.\<close>

lemma check_dead_step:
  "snd (check_dead sv max_attempts i w) =
     (let w1 = snd (sv_display_name sv i w)
      in if max_attempts \<le> sv_restart_count sv i w1
         then snd (sv_attempt_auto_fix sv i
                (snd (send_notification sv i ''crash'' ErrorLevel
                        (sv_label sv @ '' '' @ quoted (fst (sv_display_name sv i w)) @ '' crashed'')
                        (give_up_reason max_attempts)
                  (snd (sv_mark_failed sv i (give_up_reason max_attempts) w1)))))
         else snd (sv_start sv i w1))"
  by (simp add: check_dead_def total_step [OF total_send_notification] Let_def ret_def ignore_def)

lemmas quiet = notify_quiet [OF _ refl] auto_fix_quiet [OF _ refl]

lemma check_dead_good: "good w \<Longrightarrow> good (snd (check_dead sv max_attempts i w))"
  by (simp add: check_dead_step Let_def display_name start_good failed_good quiet)

lemma check_dead_frame:
  "good w \<Longrightarrow> i \<noteq> j \<Longrightarrow> phase_of j (snd (check_dead sv max_attempts i w)) = phase_of j w
     \<and> restartable j (snd (check_dead sv max_attempts i w)) = restartable j w"
  by (simp add: check_dead_step Let_def display_name start_frame failed_frame failed_good quiet)

lemma check_dead_self:
  assumes "good w" and "phase_of i w = Managed True c" and "restartable i w"
  shows "phase_of i (snd (check_dead sv max_attempts i w)) = tick_phase max_attempts (Managed True c)
    \<and> (c < max_attempts \<longrightarrow> restartable i (snd (check_dead sv max_attempts i w)))"
  using assms by (simp add: check_dead_step Let_def display_name restart_count start_dead failed failed_good quiet)

lemma for_each_step:
  "snd (for_each (i # ids) (check_dead sv max_attempts) w) =
     snd (for_each ids (check_dead sv max_attempts) (snd (check_dead sv max_attempts i w)))"
  by (simp add: total_step [OF total_check_dead])

lemma checks_good: "good w \<Longrightarrow> good (snd (for_each ids (check_dead sv max_attempts) w))"
proof (induction ids arbitrary: w)
  case Nil
  then show ?case by (simp add: ret_def)
next
  case (Cons i ids)
  then show ?case unfolding for_each_step by (blast intro: check_dead_good)
qed

lemma checks_frame:
  "good w \<Longrightarrow> j \<notin> set ids \<Longrightarrow> phase_of j (snd (for_each ids (check_dead sv max_attempts) w)) = phase_of j w
     \<and> restartable j (snd (for_each ids (check_dead sv max_attempts) w)) = restartable j w"
proof (induction ids arbitrary: w)
  case Nil
  then show ?case by (simp add: ret_def)
next
  case (Cons i ids)
  then show ?case
    using Cons.IH [OF check_dead_good [OF Cons.prems(1)]] check_dead_frame [OF Cons.prems(1), of i j]
    unfolding for_each_step by auto
qed

lemma checks_self:
  "good w \<Longrightarrow> distinct ids \<Longrightarrow> i \<in> set ids \<Longrightarrow> phase_of i w = Managed True c \<Longrightarrow> restartable i w
    \<Longrightarrow> phase_of i (snd (for_each ids (check_dead sv max_attempts) w)) = tick_phase max_attempts (Managed True c)
      \<and> (c < max_attempts \<longrightarrow> restartable i (snd (for_each ids (check_dead sv max_attempts) w)))"
proof (induction ids arbitrary: w)
  case (Cons j ids)
  show ?case
  proof (cases "j = i")
    case True
    then show ?thesis
      using Cons.prems check_dead_self [OF Cons.prems(1,4,5)]
        checks_frame [OF check_dead_good [OF Cons.prems(1)], of i ids]
      unfolding for_each_step by auto
  next
    case False
    then show ?thesis
      using Cons.prems Cons.IH [OF check_dead_good [OF Cons.prems(1)]] check_dead_frame [OF Cons.prems(1) False]
      unfolding for_each_step by auto
  qed
qed simp

text \<open>A tick moves every phase as the abstract step does.\<close>

lemma health_tick_run:
  assumes "good w"
  obtains ids where "distinct ids" and "set ids = {i. \<exists>c. phase_of i w = Managed True c}"
    and "snd (health_tick sv max_attempts w) = snd (for_each ids (check_dead sv max_attempts) w)"
  using find_dead [OF assms] that by (auto simp: health_tick_def)

lemma health_tick_good: "good w \<Longrightarrow> good (snd (health_tick sv max_attempts w))"
  by (metis health_tick_run checks_good)

lemma health_tick_phase:
  assumes "good w" and "restartable i w"
  shows "phase_of i (snd (health_tick sv max_attempts w)) = tick_phase max_attempts (phase_of i w)"
    and "phase_of i (snd (health_tick sv max_attempts w)) \<noteq> GivenUp
         \<Longrightarrow> restartable i (snd (health_tick sv max_attempts w))"
proof -
  obtain ids where ids: "distinct ids" "set ids = {i. \<exists>c. phase_of i w = Managed True c}"
    and run: "snd (health_tick sv max_attempts w) = snd (for_each ids (check_dead sv max_attempts) w)"
    by (rule health_tick_run [OF assms(1)])
  show "phase_of i (snd (health_tick sv max_attempts w)) = tick_phase max_attempts (phase_of i w)"
  proof (cases "i \<in> set ids")
    case True
    with checks_self [OF assms(1) ids(1) True _ assms(2)] ids(2) run show ?thesis by auto
  next
    case False
    with checks_frame [OF assms(1) False] ids(2) run show ?thesis
      by (cases "(max_attempts, phase_of i w)" rule: tick_phase.cases) auto
  qed
  show "restartable i (snd (health_tick sv max_attempts w))"
    if "phase_of i (snd (health_tick sv max_attempts w)) \<noteq> GivenUp"
  proof (cases "i \<in> set ids")
    case True
    with checks_self [OF assms(1) ids(1) True _ assms(2)] ids(2) run that show ?thesis
      by (auto split: if_splits)
  next
    case False
    with checks_frame [OF assms(1) False] run assms(2) show ?thesis by simp
  qed
qed

text \<open>
  A process that is found dead at every tick: \<open>obs\<close> are the worlds the ticks find, each made
  from what the tick before left by a step that kills the process and is otherwise free.
\<close>

lemma crash_loop:
  assumes "good w" and "restartable i w" and "phase_of i w = Managed d c" and "c \<le> max_attempts"
    and "\<forall>f \<in> set fs. \<forall>v. good v \<longrightarrow> good (f v) \<and> phase_of i (f v) = killed (phase_of i v)
           \<and> (restartable i v \<longrightarrow> restartable i (f v))"
    and "run = (\<lambda>v f. snd (health_tick sv max_attempts (f v)))"
  shows "phase_of i (foldl run w fs) =
    (if fs = [] then Managed d c
     else if c + length fs \<le> max_attempts then Managed False (c + length fs) else GivenUp)"
proof -
  have "good (foldl run w fs) \<and> phase_of i (foldl run w fs) =
      (if fs = [] then Managed d c
       else if c + length fs \<le> max_attempts then Managed False (c + length fs) else GivenUp)
      \<and> (phase_of i (foldl run w fs) \<noteq> GivenUp \<longrightarrow> restartable i (foldl run w fs))"
    using assms(5)
  proof (induction fs rule: rev_induct)
    case Nil
    with assms show ?case by simp
  next
    case (snoc f fs)
    let ?v = "foldl run w fs"
    have IH: "good ?v" "phase_of i ?v = (if fs = [] then Managed d c
        else if c + length fs \<le> max_attempts then Managed False (c + length fs) else GivenUp)"
      "phase_of i ?v \<noteq> GivenUp \<longrightarrow> restartable i ?v"
      using snoc by auto
    have f: "good (f ?v)" "phase_of i (f ?v) = killed (phase_of i ?v)" "restartable i ?v \<longrightarrow> restartable i (f ?v)"
      using snoc.prems IH(1) by auto
    show ?case
    proof (cases "phase_of i ?v = GivenUp")
      case True
      then have gone: "phase_of i (f ?v) = GivenUp" using f(2) by simp
      obtain ids where "set ids = {i. \<exists>c. phase_of i (f ?v) = Managed True c}"
        and "snd (health_tick sv max_attempts (f ?v)) = snd (for_each ids (check_dead sv max_attempts) (f ?v))"
        by (rule health_tick_run [OF f(1)])
      then have "phase_of i (run ?v f) = GivenUp"
        using gone checks_frame [OF f(1), of i ids] by (simp add: assms(6))
      then show ?thesis
        using True IH(2) health_tick_good [OF f(1)] by (auto simp: assms(6) split: if_splits)
    next
      case False
      then have r: "restartable i (f ?v)" using IH(3) f(3) by simp
      show ?thesis
        using False IH(2) f(2) health_tick_good [OF f(1)] health_tick_phase [OF f(1) r] assms(4)
        by (auto simp: assms(6) split: if_splits)
    qed
  qed
  then show ?thesis by blast
qed

end

end
