(* ===== verification/App_Manager.thy ===== *)
theory App_Manager
  imports Task_Schema Supervisor "HOL-Library.AList"
begin

text \<open>
  Deployed apps: the data of \<open>app/models.rs\<close>, and the process table and the port allocator of
  \<open>app/manager.rs\<close> with the invariant of its ports.

  A hash map is an association list with distinct keys, whose order is the order of iteration.
  Spawning a process (sandbox, directories, the child itself) is outside the model:
  \<open>spawn_outcomes\<close> says what each call to \<open>spawn_process\<close> returns, an error or the process id,
  and a call past its end succeeds with the id 0. What a child does after that is its
  \<open>child_state\<close>, which the operations read and the environment changes. The log file and its
  tail are not in the model. Each operation runs as one step; a second task that takes one of
  the locks in between is not modelled.
\<close>

section \<open>Data\<close>

datatype app_status = Starting | Running | Stopped | Failed | Serving | Hibernated

record health_check =
  hc_path :: string
  hc_interval_secs :: "nat option"
  hc_timeout_secs :: "nat option"
  hc_initial_delay_secs :: "nat option"
  hc_failure_threshold :: "nat option"

definition effective_interval :: "health_check \<Rightarrow> nat" where
  "effective_interval h = (case hc_interval_secs h of None \<Rightarrow> 10 | Some n \<Rightarrow> n)"

definition effective_timeout :: "health_check \<Rightarrow> nat" where
  "effective_timeout h = (case hc_timeout_secs h of None \<Rightarrow> 2 | Some n \<Rightarrow> n)"

definition effective_initial_delay :: "health_check \<Rightarrow> nat" where
  "effective_initial_delay h = (case hc_initial_delay_secs h of None \<Rightarrow> 5 | Some n \<Rightarrow> n)"

definition effective_failure_threshold :: "health_check \<Rightarrow> nat" where
  "effective_failure_threshold h = (case hc_failure_threshold h of None \<Rightarrow> 3 | Some n \<Rightarrow> n)"

record app_manifest =
  mf_handle :: string
  mf_name :: string
  mf_description :: "string option"
  mf_kind :: "string option"
  mf_command :: "string option"
  mf_restart_policy :: "string option"
  mf_health_check :: "health_check option"
  mf_static_dir :: "string option"
  mf_expose :: "bool option"
  mf_hibernate :: "bool option"

definition effective_kind :: "app_manifest \<Rightarrow> string" where
  "effective_kind m = (case mf_kind m of None \<Rightarrow> ''service'' | Some k \<Rightarrow> k)"

definition effective_expose :: "app_manifest \<Rightarrow> bool" where
  "effective_expose m = (case mf_expose m of None \<Rightarrow> True | Some b \<Rightarrow> b)"

definition effective_hibernate :: "app_manifest \<Rightarrow> bool" where
  "effective_hibernate m = (case mf_hibernate m of None \<Rightarrow> True | Some b \<Rightarrow> b)"

definition effective_restart_policy :: "app_manifest \<Rightarrow> string" where
  "effective_restart_policy m = (case mf_restart_policy m of None \<Rightarrow> ''on_failure'' | Some p \<Rightarrow> p)"

text \<open>
  The \<open>manifest\<close> column of an app is JSON; the library that reads and writes it is
  \<open>manifest_lib\<close>. Of a manifest the model has the fields the operations look at; the icon, the
  resource limits, the sandbox policy and the credentials are read by the parts that are not
  modelled.
\<close>

record app =
  app_id :: string
  app_agent_id :: string
  app_user_id :: string
  app_handle :: string
  app_name :: string
  app_description :: "string option"
  app_kind :: string
  app_command :: "string option"
  app_static_dir :: "string option"
  app_port :: "nat option"
  app_status :: app_status
  app_pid :: "nat option"
  app_manifest :: json
  app_chat_id :: string
  crash_fix_attempts :: nat
  app_last_accessed_at :: "int option"
  app_created_at :: int
  app_updated_at :: int

record manifest_lib =
  to_json :: "app_manifest \<Rightarrow> string + json"
  from_json :: "json \<Rightarrow> string + app_manifest"

text \<open>What \<open>try_wait\<close> reports: still running, exited (with success or not), or an error.\<close>

datatype child_state = ChildRunning | ChildExited bool | WaitError

record managed_process =
  mp_child :: child_state
  mp_port :: nat
  mp_agent_id :: string
  mp_user_id :: string
  mp_manifest :: app_manifest
  mp_credentials :: "(string \<times> string) list"
  mp_restart_count :: nat
  mp_consecutive_failures :: nat

datatype process_status = Alive | Dead "bool option" | NotManaged

record app_world = sup_world +
  apps :: "app list"
  processes :: "(string \<times> managed_process) list"
  allocated_ports :: "nat set"
  port_range :: "nat \<times> nat"
  last_accessed :: "string \<Rightarrow> int option"
  spawn_outcomes :: "(app_error + nat) list"
  handles :: "string \<Rightarrow> string option"
  system_messages :: "(string \<times> string) list"
  fix_tasks :: "app list"

type_synonym ('w, 'a) app_op = "(app_error, 'w app_world_scheme, 'a) op"

definition lookup_process :: "string \<Rightarrow> 'w app_world_scheme \<Rightarrow> managed_process option" where
  "lookup_process i w = map_of (processes w) i"

section \<open>The process table\<close>

definition allocate_port :: "('w, nat) app_op" where
  "allocate_port w =
     (case find (\<lambda>p. p \<notin> allocated_ports w) [fst (port_range w)..<snd (port_range w)] of
        Some p \<Rightarrow> (Inr p, w\<lparr>allocated_ports := insert p (allocated_ports w)\<rparr>)
      | None \<Rightarrow> (Inl (Internal ''No available ports in range''), w))"

definition spawn_process :: "('w, nat) app_op" where
  "spawn_process w =
     (case spawn_outcomes w of
        [] \<Rightarrow> (Inr 0, w)
      | r # rs \<Rightarrow> (r, w\<lparr>spawn_outcomes := rs\<rparr>))"

definition start_app ::
    "string \<Rightarrow> string \<Rightarrow> string \<Rightarrow> string \<Rightarrow> app_manifest \<Rightarrow> (string \<times> string) list \<Rightarrow> ('w, nat \<times> nat) app_op" where
  "start_app i agent_id user_id command manifest creds =
     qbind allocate_port (\<lambda>port.
     qbind spawn_process (\<lambda>pid.
     qbind (modify (\<lambda>w. w\<lparr>processes := AList.update i
         \<lparr>mp_child = ChildRunning, mp_port = port, mp_agent_id = agent_id, mp_user_id = user_id,
          mp_manifest = manifest, mp_credentials = creds, mp_restart_count = 0,
          mp_consecutive_failures = 0\<rparr> (processes w)\<rparr>)) (\<lambda>_.
     ret (port, pid))))"

definition release :: "string \<Rightarrow> 'w app_world_scheme \<Rightarrow> 'w app_world_scheme" where
  "release i w =
     (case lookup_process i w of
        None \<Rightarrow> w
      | Some p \<Rightarrow> w\<lparr>processes := AList.delete i (processes w),
                    allocated_ports := allocated_ports w - {mp_port p}\<rparr>)"

definition stop_app :: "string \<Rightarrow> ('w, unit) app_op" where
  "stop_app i = modify (release i)"

definition remove_process :: "string \<Rightarrow> ('w, unit) app_op" where
  "remove_process i = modify (release i)"

definition check_process :: "string \<Rightarrow> 'w app_world_scheme \<Rightarrow> process_status" where
  "check_process i w =
     (case lookup_process i w of
        None \<Rightarrow> NotManaged
      | Some p \<Rightarrow> (case mp_child p of ChildRunning \<Rightarrow> Alive | ChildExited s \<Rightarrow> Dead (Some s) | WaitError \<Rightarrow> Dead None))"

definition restart_app :: "string \<Rightarrow> string \<Rightarrow> ('w, (nat \<times> nat) option) app_op" where
  "restart_app i agent_id =
     qbind (gets (lookup_process i)) (\<lambda>found.
     case found of
       None \<Rightarrow> ret None
     | Some p \<Rightarrow>
         qbind (stop_app i) (\<lambda>_.
         case mf_command (mp_manifest p) of
           Some cmd \<Rightarrow>
             qbind (start_app i agent_id (mp_user_id p) cmd (mp_manifest p) (mp_credentials p)) (\<lambda>r. ret (Some r))
         | None \<Rightarrow> ret None))"

definition should_restart :: "managed_process \<Rightarrow> bool" where
  "should_restart p =
     (let policy = effective_restart_policy (mp_manifest p)
      in if policy = ''always'' then True
         else if policy = ''on_failure'' then (case mp_child p of ChildExited ok \<Rightarrow> \<not> ok | _ \<Rightarrow> True)
         else False)"

definition set_restart_count :: "string \<Rightarrow> nat \<Rightarrow> ('w, unit) app_op" where
  "set_restart_count i n = modify (\<lambda>w. w\<lparr>processes := AList.map_entry i (mp_restart_count_update (\<lambda>_. n)) (processes w)\<rparr>)"

definition try_restart_crashed :: "string \<Rightarrow> nat \<Rightarrow> ('w, (nat \<times> nat) option) app_op" where
  "try_restart_crashed i max_restarts =
     qbind (gets (lookup_process i)) (\<lambda>found.
     case found of
       None \<Rightarrow> ret None
     | Some p \<Rightarrow>
         if max_restarts \<le> mp_restart_count p then ret None
         else if \<not> should_restart p then ret None
         else qbind (set_restart_count i (Suc (mp_restart_count p))) (\<lambda>_.
              qbind (stop_app i) (\<lambda>_.
              case mf_command (mp_manifest p) of
                None \<Rightarrow> ret None
              | Some cmd \<Rightarrow>
                  qbind (start_app i (mp_agent_id p) (mp_user_id p) cmd (mp_manifest p) (mp_credentials p)) (\<lambda>r.
                  qbind (set_restart_count i (Suc (mp_restart_count p))) (\<lambda>_.
                  ret (Some r))))))"

text \<open>The reads of the table, and the times of last access.\<close>

definition get_process_port :: "string \<Rightarrow> 'w app_world_scheme \<Rightarrow> nat option" where
  "get_process_port i w = map_option mp_port (lookup_process i w)"

definition has_process :: "string \<Rightarrow> 'w app_world_scheme \<Rightarrow> bool" where
  "has_process i w \<longleftrightarrow> lookup_process i w \<noteq> None"

definition get_managed_app_ids :: "'w app_world_scheme \<Rightarrow> string list" where
  "get_managed_app_ids w = map fst (processes w)"

definition restart_count_for :: "string \<Rightarrow> 'w app_world_scheme \<Rightarrow> nat" where
  "restart_count_for i w = (case lookup_process i w of None \<Rightarrow> 0 | Some p \<Rightarrow> mp_restart_count p)"

definition agent_id_for :: "string \<Rightarrow> 'w app_world_scheme \<Rightarrow> string option" where
  "agent_id_for i w = map_option mp_agent_id (lookup_process i w)"

definition record_access :: "string \<Rightarrow> 'w app_world_scheme \<Rightarrow> 'w app_world_scheme" where
  "record_access i w = w\<lparr>last_accessed := (last_accessed w)(i \<mapsto> clock w)\<rparr>"

definition get_last_accessed :: "string \<Rightarrow> 'w app_world_scheme \<Rightarrow> int option" where
  "get_last_accessed i w = last_accessed w i"

definition flush_access_times :: "('w, string \<Rightarrow> int option) app_op" where
  "flush_access_times = qbind (gets last_accessed) (\<lambda>m. qbind (modify (\<lambda>w. w\<lparr>last_accessed := Map.empty\<rparr>)) (\<lambda>_. ret m))"

section \<open>The table and the ports\<close>

text \<open>Every managed process has a port of its own, allocated and inside the range.\<close>

definition ports_ok :: "'w app_world_scheme \<Rightarrow> bool" where
  "ports_ok w \<longleftrightarrow> distinct (map fst (processes w))
     \<and> (\<forall>i p. lookup_process i w = Some p \<longrightarrow> mp_port p \<in> allocated_ports w)
     \<and> (\<forall>i j p q. lookup_process i w = Some p \<longrightarrow> lookup_process j w = Some q
          \<longrightarrow> mp_port p = mp_port q \<longrightarrow> i = j)
     \<and> allocated_ports w \<subseteq> {fst (port_range w)..<snd (port_range w)}"

lemma lookup_process_simps [simp]:
  "lookup_process i (w\<lparr>faults := fs\<rparr>) = lookup_process i w"
  "lookup_process i (w\<lparr>spawn_outcomes := rs\<rparr>) = lookup_process i w"
  "lookup_process i (w\<lparr>allocated_ports := ps\<rparr>) = lookup_process i w"
  "lookup_process i (w\<lparr>apps := t\<rparr>) = lookup_process i w"
  "lookup_process i (w\<lparr>notifications := ns\<rparr>) = lookup_process i w"
  "lookup_process i (w\<lparr>system_messages := ms\<rparr>) = lookup_process i w"
  "lookup_process i (w\<lparr>fix_tasks := ts\<rparr>) = lookup_process i w"
  "lookup_process i (w\<lparr>processes := AList.update j p (processes w)\<rparr>) =
     (if i = j then Some p else lookup_process i w)"
  "lookup_process i (w\<lparr>processes := AList.delete j (processes w)\<rparr>) =
     (if i = j then None else lookup_process i w)"
  "lookup_process i (w\<lparr>processes := AList.map_entry j f (processes w)\<rparr>) =
     (if i = j then map_option f (lookup_process i w) else lookup_process i w)"
  by (auto simp: lookup_process_def update_conv' delete_conv' map_of_map_entry split: option.split)

lemma lookup_process_update [simp]:
  "lookup_process i (w\<lparr>processes := AList.update j p (processes w), allocated_ports := x\<rparr>) =
     (if i = j then Some p else lookup_process i w)"
  "lookup_process i (w\<lparr>processes := AList.delete j (processes w), allocated_ports := x\<rparr>) =
     (if i = j then None else lookup_process i w)"
  by (auto simp: lookup_process_def update_conv' delete_conv')

lemma ports_ok_frame [simp]:
  "ports_ok (w\<lparr>faults := fs\<rparr>) = ports_ok w" "ports_ok (w\<lparr>last_accessed := la\<rparr>) = ports_ok w"
  "ports_ok (w\<lparr>apps := t\<rparr>) = ports_ok w" "ports_ok (w\<lparr>notifications := ns\<rparr>) = ports_ok w"
  "ports_ok (w\<lparr>system_messages := ms\<rparr>) = ports_ok w" "ports_ok (w\<lparr>fix_tasks := ts\<rparr>) = ports_ok w"
  by (simp_all add: ports_ok_def lookup_process_def)

lemma allocate_port_run:
  assumes "allocate_port w = (r, w')"
  obtains (taken) "r = Inl (Internal ''No available ports in range'')" and "w' = w"
      and "{fst (port_range w)..<snd (port_range w)} \<subseteq> allocated_ports w"
    | (port) p where "r = Inr p" and "w' = w\<lparr>allocated_ports := insert p (allocated_ports w)\<rparr>"
      and "p \<notin> allocated_ports w" and "p \<in> {fst (port_range w)..<snd (port_range w)}"
proof (cases "find (\<lambda>p. p \<notin> allocated_ports w) [fst (port_range w)..<snd (port_range w)]")
  case None
  with assms show ?thesis by (intro taken) (auto simp: allocate_port_def find_none_iff)
next
  case (Some p)
  with find_eq_SomeD [OF Some] assms show ?thesis by (intro port) (auto simp: allocate_port_def)
qed

definition new_process ::
    "nat \<Rightarrow> string \<Rightarrow> string \<Rightarrow> app_manifest \<Rightarrow> (string \<times> string) list \<Rightarrow> managed_process" where
  "new_process port agent_id user_id manifest creds =
     \<lparr>mp_child = ChildRunning, mp_port = port, mp_agent_id = agent_id, mp_user_id = user_id,
      mp_manifest = manifest, mp_credentials = creds, mp_restart_count = 0, mp_consecutive_failures = 0\<rparr>"

lemma start_app_run:
  assumes "start_app i ag u cmd mf cr w = (r, w')"
  obtains (no_port) "r = Inl (Internal ''No available ports in range'')" and "w' = w"
      and "{fst (port_range w)..<snd (port_range w)} \<subseteq> allocated_ports w"
    | (no_child) e rs p where "r = Inl e" and "spawn_outcomes w = Inl e # rs"
      and "w' = w\<lparr>allocated_ports := insert p (allocated_ports w), spawn_outcomes := rs\<rparr>"
      and "p \<notin> allocated_ports w" and "p \<in> {fst (port_range w)..<snd (port_range w)}"
    | (started) pid rs p where "r = Inr (p, pid)"
      and "w' = w\<lparr>allocated_ports := insert p (allocated_ports w), spawn_outcomes := rs,
                  processes := AList.update i (new_process p ag u mf cr) (processes w)\<rparr>"
      and "p \<notin> allocated_ports w" and "p \<in> {fst (port_range w)..<snd (port_range w)}"
      and "spawn_outcomes w = [] \<longrightarrow> rs = []"
proof -
  have "\<exists>q w1. allocate_port w = (q, w1)" by (cases "allocate_port w") auto
  then obtain q w1 where al: "allocate_port w = (q, w1)" by blast
  then show ?thesis
  proof (cases rule: allocate_port_run)
    case taken
    with al assms no_port show ?thesis by (simp add: start_app_def qbind_Inl)
  next
    case (port p)
    note run = assms [unfolded start_app_def qbind_Inr [where m = allocate_port, OF al [unfolded port(1)]]]
    have rs: "spawn_outcomes w1 = spawn_outcomes w" by (simp add: port(2))
    show ?thesis
    proof (cases "spawn_outcomes w")
      case Nil
      then have "w1\<lparr>spawn_outcomes := []\<rparr> = w1" by (simp add: rs)
      with Nil run port started [of p 0 "[]"] show ?thesis
        by (auto simp: spawn_process_def rs qbind_def ret_def modify_def new_process_def)
    next
      case (Cons x xs)
      with run port no_child [of _ xs p] started [of p _ xs] show ?thesis
        by (cases x) (auto simp: spawn_process_def rs qbind_def ret_def modify_def new_process_def)
    qed
  qed
qed

lemma lookup_release: "lookup_process j (release i w) = (if j = i then None else lookup_process j w)"
  by (simp add: release_def split: option.split)

lemma release_frame [simp]: "apps (release i w) = apps w" "port_range (release i w) = port_range w"
  "spawn_outcomes (release i w) = spawn_outcomes w" "faults (release i w) = faults w"
  "clock (release i w) = clock w"
  by (simp_all add: release_def split: option.split)

lemma release_ports:
  "allocated_ports (release i w) =
     (case lookup_process i w of None \<Rightarrow> allocated_ports w | Some p \<Rightarrow> allocated_ports w - {mp_port p})"
  by (simp add: release_def split: option.split)

lemma distinct_release: "distinct (map fst (processes w)) \<Longrightarrow> distinct (map fst (processes (release i w)))"
  by (auto simp: release_def distinct_delete split: option.split)

lemma ports_ok_release: "ports_ok w \<Longrightarrow> ports_ok (release i w)"
  by (auto simp: ports_ok_def lookup_release release_ports distinct_release split: option.split)

lemma keeps_stop [keep_rules]: "keeps ports_ok (stop_app i)" "keeps ports_ok (remove_process i)"
  by (simp_all add: stop_app_def remove_process_def keeps_modify ports_ok_release)

lemma keeps_start [keep_rules]: "keeps ports_ok (start_app i ag u cmd mf cr)"
proof (rule validI)
  fix w r w' assume ok: "ports_ok w" and run: "start_app i ag u cmd mf cr w = (r, w')"
  from run show "ports_ok w'"
  proof (cases rule: start_app_run)
    case (started pid rs p)
    have new: "mp_port (new_process p ag u mf cr) = p" by (simp add: new_process_def)
    have look: "lookup_process j w' = (if j = i then Some (new_process p ag u mf cr) else lookup_process j w)" for j
      by (simp add: started(2) lookup_process_def update_conv')
    have rest: "allocated_ports w' = insert p (allocated_ports w)" "port_range w' = port_range w"
      by (auto simp: started(2))
    have "distinct (map fst (processes w'))"
      using ok by (simp add: started(2) ports_ok_def distinct_update)
    then show ?thesis
      using ok started(3,4) unfolding ports_ok_def rest look by (auto simp: new)
  qed (use ok in \<open>auto simp: ports_ok_def\<close>)
qed

lemma keeps_count [keep_rules]: "keeps ports_ok (set_restart_count i n)"
  unfolding set_restart_count_def
proof (rule keeps_modify)
  fix w :: "'a app_world_scheme" assume "ports_ok w"
  then show "ports_ok (w\<lparr>processes := AList.map_entry i (mp_restart_count_update (\<lambda>_. n)) (processes w)\<rparr>)"
    by (auto simp: ports_ok_def distinct_map_entry split: if_splits)
qed

lemma keeps_restart [keep_rules]: "keeps ports_ok (try_restart_crashed i m)" "keeps ports_ok (restart_app i ag)"
  unfolding try_restart_crashed_def restart_app_def by (intro keep_rules)+

lemma keeps_flush [keep_rules]: "keeps ports_ok flush_access_times"
  unfolding flush_access_times_def by (intro keep_rules keeps_modify) simp

text \<open>A start that fails to spawn has taken a port no process holds.\<close>

lemma spawn_failure:
  assumes "start_app i ag u cmd mf cr w = (Inl e, w')" and "ports_ok w"
  shows "processes w' = processes w \<and>
    (e = Internal ''No available ports in range'' \<and> allocated_ports w' = {fst (port_range w)..<snd (port_range w)}
     \<or> (\<exists>p rs. spawn_outcomes w = Inl e # rs \<and> allocated_ports w' = insert p (allocated_ports w)
          \<and> p \<notin> allocated_ports w \<and> p < snd (port_range w) \<and> (\<forall>j q. lookup_process j w' = Some q \<longrightarrow> mp_port q \<noteq> p)))"
  using assms(1)
proof (cases rule: start_app_run)
  case no_port
  with assms(2) show ?thesis by (auto simp: ports_ok_def)
next
  case (no_child e' rs p)
  moreover have "lookup_process j w = Some q \<Longrightarrow> mp_port q \<noteq> p" for j q
    using assms(2) no_child(4) by (auto simp: ports_ok_def)
  ultimately show ?thesis by (auto simp: lookup_process_def)
qed simp

text \<open>What a restart after a crash does, when a child can be spawned.\<close>

lemma release_frees: "ports_ok w \<Longrightarrow> lookup_process i w = Some p
    \<Longrightarrow> \<not> {fst (port_range w)..<snd (port_range w)} \<subseteq> allocated_ports (release i w)"
proof
  assume ok: "ports_ok w" and i: "lookup_process i w = Some p"
    and full: "{fst (port_range w)..<snd (port_range w)} \<subseteq> allocated_ports (release i w)"
  from ok i have "mp_port p \<in> {fst (port_range w)..<snd (port_range w)}"
    unfolding ports_ok_def by blast
  with full have "mp_port p \<in> allocated_ports (release i w)" by blast
  with i show False by (simp add: release_ports)
qed

end
