(* ===== verification/App_Service.thy ===== *)
theory App_Service
  imports App_Manager
begin

text \<open>
  The operations of \<open>app/service.rs\<close> on the table of apps and the process table, and the app
  supervisor of \<open>app/supervisor.rs\<close>, an instance of the trait in \<open>Supervisor\<close>.

  Outside the model: the policy tables a deployment reconciles (the call appears as a database
  call that may fail), the cache of user records in front of the table \<open>handles\<close>, the prompt
  template of a crash report (the argument \<open>crash_prompt\<close>), the name of the agent that repairs it, and the task spawned to repair a
  crashed app, of which \<open>fix_tasks\<close> records that it was started and for which app. Times are
  in milliseconds.
\<close>

section \<open>Responses and queries\<close>

record app_response =
  ar_id :: string
  ar_agent_id :: string
  ar_name :: string
  ar_description :: "string option"
  ar_kind :: string
  ar_command :: "string option"
  ar_static_dir :: "string option"
  ar_port :: "nat option"
  ar_status :: app_status
  ar_manifest :: json
  ar_handle :: string
  ar_url :: "string option"
  ar_created_at :: int
  ar_updated_at :: int

definition app_response_of :: "manifest_lib \<Rightarrow> app \<Rightarrow> app_response" where
  "app_response_of lib a =
     (let expose = (case from_json lib (app_manifest a) of Inr m \<Rightarrow> effective_expose m | Inl e \<Rightarrow> True)
      in \<lparr>ar_id = app_id a, ar_agent_id = app_agent_id a, ar_name = app_name a,
          ar_description = app_description a, ar_kind = app_kind a, ar_command = app_command a,
          ar_static_dir = app_static_dir a, ar_port = app_port a, ar_status = app_status a,
          ar_manifest = app_manifest a, ar_handle = app_handle a,
          ar_url = (if expose \<and> app_status a \<in> {Running, Serving, Hibernated}
                    then Some (''/apps/'' @ app_handle a @ ''/'') else None),
          ar_created_at = app_created_at a, ar_updated_at = app_updated_at a\<rparr>)"

definition find_by_user_handle :: "string \<Rightarrow> string \<Rightarrow> ('w, app option) app_op" where
  "find_by_user_handle user_id h = db_read (\<lambda>w. find (\<lambda>a. app_user_id a = user_id \<and> app_handle a = h) (apps w))"

definition find_by_agent_id :: "string \<Rightarrow> ('w, app list) app_op" where
  "find_by_agent_id agent_id =
     db_read (\<lambda>w. rev (sort_key app_created_at (filter (\<lambda>a. app_agent_id a = agent_id) (apps w))))"

definition find_by_user_id :: "string \<Rightarrow> ('w, app list) app_op" where
  "find_by_user_id user_id =
     db_read (\<lambda>w. rev (sort_key app_created_at (filter (\<lambda>a. app_user_id a = user_id) (apps w))))"

definition find_running :: "('w, app list) app_op" where
  "find_running = db_read (\<lambda>w. filter (\<lambda>a. app_status a \<in> {Running, Hibernated, Serving}) (apps w))"

definition get_app :: "string \<Rightarrow> ('w, app option) app_op" where
  "get_app i = repo_find_by_id apps app_id i"

definition get_by_user :: "manifest_lib \<Rightarrow> string \<Rightarrow> string \<Rightarrow> ('w, app_response) app_op" where
  "get_by_user lib user_id i =
     qbind (find_or apps app_id (NotFound ''App not found'') i) (\<lambda>a.
     if app_user_id a \<noteq> user_id then fail (Forbidden ''Not your app'') else ret (app_response_of lib a))"

definition list_apps :: "manifest_lib \<Rightarrow> string \<Rightarrow> ('w, app_response list) app_op" where
  "list_apps lib agent_id = qbind (find_by_agent_id agent_id) (\<lambda>as. ret (map (app_response_of lib) as))"

definition list_by_user :: "manifest_lib \<Rightarrow> string \<Rightarrow> ('w, app_response list) app_op" where
  "list_by_user lib user_id = qbind (find_by_user_id user_id) (\<lambda>as. ret (map (app_response_of lib) as))"

definition get_owned_app :: "string \<Rightarrow> string \<Rightarrow> ('w, app) app_op" where
  "get_owned_app agent_id i =
     qbind (find_or apps app_id (NotFound ''App not found'') i) (\<lambda>a.
     if app_agent_id a \<noteq> agent_id then fail (Forbidden ''App not owned by this agent'') else ret a)"

definition handle_of :: "string \<Rightarrow> ('w, string) app_op" where
  "handle_of user_id =
     qbind (db_read (\<lambda>w. handles w user_id)) (ok_or (NotFound (''User '' @ user_id @ '' not found'')))"

definition reconcile_sandbox_policy :: "('w, unit) app_op" where
  "reconcile_sandbox_policy = db_write id"

section \<open>Updates of single columns\<close>

definition update_app :: "string \<Rightarrow> (int \<Rightarrow> app \<Rightarrow> app) \<Rightarrow> ('w, unit) app_op" where
  "update_app i f =
     qbind (repo_find_by_id apps app_id i) (\<lambda>found.
     case found of
       None \<Rightarrow> ret ()
     | Some a \<Rightarrow> qbind (gets clock) (\<lambda>now. qbind (repo_update apps_update app_id (f now a)) (\<lambda>_. ret ())))"

definition update_status :: "string \<Rightarrow> app_status \<Rightarrow> nat option \<Rightarrow> nat option \<Rightarrow> ('w, unit) app_op" where
  "update_status i st port pid =
     update_app i (\<lambda>now a. a\<lparr>app_status := st, app_port := port, app_pid := pid, app_updated_at := now\<rparr>)"

definition update_crash_fix_attempts :: "string \<Rightarrow> nat \<Rightarrow> ('w, unit) app_op" where
  "update_crash_fix_attempts i n = update_app i (\<lambda>now a. a\<lparr>crash_fix_attempts := n\<rparr>)"

definition update_last_accessed :: "string \<Rightarrow> int \<Rightarrow> ('w, unit) app_op" where
  "update_last_accessed i at = update_app i (\<lambda>now a. a\<lparr>app_last_accessed_at := Some at\<rparr>)"

section \<open>Starting and stopping\<close>

definition start_and_update ::
    "manifest_lib \<Rightarrow> app \<Rightarrow> string \<Rightarrow> app_manifest \<Rightarrow> (string \<times> string) list \<Rightarrow> ('w, app_response) app_op" where
  "start_and_update lib a command manifest creds =
     qbind (attempted (start_app (app_id a) (app_agent_id a) (app_user_id a) command manifest creds)) (\<lambda>started.
     qbind (gets clock) (\<lambda>now.
     case started of
       Inr (port, pid) \<Rightarrow>
         qbind (repo_update apps_update app_id
           (a\<lparr>app_port := Some port, app_pid := Some pid, app_status := Running, app_updated_at := now\<rparr>)) (\<lambda>b.
         ret (app_response_of lib b))
     | Inl e \<Rightarrow>
         qbind (ignore (repo_update apps_update app_id (a\<lparr>app_status := Failed, app_updated_at := now\<rparr>))) (\<lambda>_.
         fail e)))"

definition stop :: "manifest_lib \<Rightarrow> string \<Rightarrow> string \<Rightarrow> string \<Rightarrow> ('w, app_response) app_op" where
  "stop lib agent_id i chat_id =
     qbind (get_owned_app agent_id i) (\<lambda>a.
     qbind (stop_app i) (\<lambda>_.
     qbind (gets clock) (\<lambda>now.
     qbind (repo_update apps_update app_id
       (a\<lparr>app_status := Stopped, app_pid := None, app_port := None, app_chat_id := chat_id,
          crash_fix_attempts := 0, app_updated_at := now\<rparr>)) (\<lambda>b.
     ret (app_response_of lib b)))))"

definition no_command :: app_error where
  "no_command = Validation ''No command for this app''"

definition stored_manifest :: "manifest_lib \<Rightarrow> app \<Rightarrow> ('w, app_manifest) app_op" where
  "stored_manifest lib a = from_result (map_sum (\<lambda>e. Internal (''Invalid stored manifest: '' @ e)) id
     (from_json lib (app_manifest a)))"

definition start ::
    "manifest_lib \<Rightarrow> string \<Rightarrow> string \<Rightarrow> string \<Rightarrow> (string \<times> string) list \<Rightarrow> ('w, app_response) app_op" where
  "start lib agent_id i chat_id creds =
     qbind (get_owned_app agent_id i) (\<lambda>a.
     if app_status a \<in> {Running, Starting} then ret (app_response_of lib a)
     else qbind (ok_or no_command (app_command a)) (\<lambda>command.
          qbind (stored_manifest lib a) (\<lambda>manifest.
          start_and_update lib (a\<lparr>app_chat_id := chat_id, crash_fix_attempts := 0\<rparr>) command manifest creds)))"

definition restart :: "manifest_lib \<Rightarrow> string \<Rightarrow> string \<Rightarrow> string \<Rightarrow> ('w, app_response) app_op" where
  "restart lib agent_id i chat_id =
     qbind (get_owned_app agent_id i) (\<lambda>a.
     qbind (ok_or no_command (app_command a)) (\<lambda>command.
     qbind (stored_manifest lib a) (\<lambda>manifest.
     qbind (if app_status a \<in> {Running, Starting} then stop_app i else ret ()) (\<lambda>_.
     start_and_update lib (a\<lparr>app_chat_id := chat_id, crash_fix_attempts := 0\<rparr>) command manifest []))))"

definition destroy :: "string \<Rightarrow> string \<Rightarrow> ('w, unit) app_op" where
  "destroy agent_id i =
     qbind (get_owned_app agent_id i) (\<lambda>a.
     qbind (if app_status a \<in> {Running, Starting, Hibernated} then stop_app i else ret ()) (\<lambda>_.
     qbind (handle_of (app_user_id a)) (\<lambda>h.
     qbind reconcile_sandbox_policy (\<lambda>_.
     repo_delete apps_update app_id i))))"

section \<open>Deployment\<close>

definition app_row ::
    "string \<Rightarrow> string \<Rightarrow> string \<Rightarrow> string \<Rightarrow> app_manifest \<Rightarrow> json \<Rightarrow> app option \<Rightarrow> int
     \<Rightarrow> string \<Rightarrow> string option \<Rightarrow> string option \<Rightarrow> app_status \<Rightarrow> app" where
  "app_row i agent_id user_id chat_id m mj existing now kind command dir st =
     \<lparr>app_id = i, app_agent_id = agent_id, app_user_id = user_id, app_handle = mf_handle m,
      app_name = mf_name m, app_description = mf_description m, app_kind = kind, app_command = command,
      app_static_dir = dir, app_port = None, app_status = st, app_pid = None, app_manifest = mj,
      app_chat_id = chat_id, crash_fix_attempts = 0, app_last_accessed_at = None,
      app_created_at = (case existing of None \<Rightarrow> now | Some e \<Rightarrow> app_created_at e), app_updated_at = now\<rparr>"

definition store_app :: "app option \<Rightarrow> app \<Rightarrow> ('w, app) app_op" where
  "store_app existing a =
     (if existing \<noteq> None then repo_update apps_update app_id a else repo_create apps apps_update app_id a)"

definition was_started :: "app option \<Rightarrow> bool" where
  "was_started existing = (case existing of None \<Rightarrow> False | Some e \<Rightarrow> app_status e \<in> {Running, Starting})"

definition deploy ::
    "manifest_lib \<Rightarrow> string \<Rightarrow> string \<Rightarrow> string \<Rightarrow> string \<Rightarrow> app_manifest \<Rightarrow> (string \<times> string) list
     \<Rightarrow> ('w, app_response) app_op" where
  "deploy lib fresh_id agent_id user_id chat_id manifest creds =
     qbind (find_by_user_handle user_id (mf_handle manifest)) (\<lambda>existing.
     if (case existing of None \<Rightarrow> False | Some e \<Rightarrow> app_agent_id e \<noteq> agent_id)
     then fail (Forbidden (''App handle '' @ quoted (mf_handle manifest) @ '' is owned by a different agent''))
     else let i = (case existing of None \<Rightarrow> fresh_id | Some e \<Rightarrow> app_id e) in
       qbind (gets clock) (\<lambda>now.
       qbind (from_result (map_sum (\<lambda>e. Validation (''Invalid manifest: '' @ e)) id (to_json lib manifest))) (\<lambda>mj.
       if effective_kind manifest = ''static''
       then qbind (if was_started existing then ignore (stop_app i) else ret ()) (\<lambda>_.
            qbind (ok_or (Validation ''static_dir required for static apps'') (mf_static_dir manifest)) (\<lambda>dir.
            qbind (store_app existing
              (app_row i agent_id user_id chat_id manifest mj existing now ''static'' None (Some dir) Serving)) (\<lambda>a.
            ret (app_response_of lib a))))
       else qbind (ok_or (Validation ''command required for service apps'') (mf_command manifest)) (\<lambda>command.
            qbind (if was_started existing then stop_app i else ret ()) (\<lambda>_.
            qbind (store_app existing
              (app_row i agent_id user_id chat_id manifest mj existing now ''service'' (Some command) None Starting)) (\<lambda>a.
            qbind (handle_of user_id) (\<lambda>h.
            qbind reconcile_sandbox_policy (\<lambda>_.
            start_and_update lib a command manifest creds))))))))"

text \<open>
  \<open>deploy_and_await\<close> polls the new app. A round of the poll is what it observes: the answer of
  the health check, the state of the child, and whether the deadline has passed; the delays
  between them are the environment's. The loop is given the rounds still to come.
\<close>

record poll =
  poll_healthy :: bool
  poll_child :: child_state
  poll_expired :: bool

definition observe :: "string \<Rightarrow> child_state \<Rightarrow> 'w app_world_scheme \<Rightarrow> 'w app_world_scheme" where
  "observe i c w = w\<lparr>processes := AList.map_entry i (mp_child_update (\<lambda>_. c)) (processes w)\<rparr>"

definition start_failed :: "app_response \<Rightarrow> app_error" where
  "start_failed a = Tool (''App failed to start after all restart attempts. Check apps/''
     @ ar_handle a @ ''/logs/app.log for details.'')"

definition not_healthy :: "string \<Rightarrow> nat \<Rightarrow> app_response \<Rightarrow> app_error" where
  "not_healthy path timeout a = Tool (''App started but health check on '' @ path @ '' did not pass within ''
     @ show_nat timeout @ ''s. The app may still be starting '' @ [CHR 0xE2, CHR 0x80, CHR 0x94] @ '' check apps/''
     @ ar_handle a @ ''/logs/app.log'')"

fun await_healthy ::
    "nat \<Rightarrow> string \<Rightarrow> nat \<Rightarrow> app_response \<Rightarrow> poll list \<Rightarrow> ('w, app_response option) app_op" where
  "await_healthy max_attempts path timeout a [] = ret None"
| "await_healthy max_attempts path timeout a (p # ps) =
     (if poll_healthy p then ret (Some a)
      else qbind (modify (observe (ar_id a) (poll_child p))) (\<lambda>_.
           qbind (gets (check_process (ar_id a))) (\<lambda>st.
           case st of
             Dead s \<Rightarrow>
               qbind (attempted (try_restart_crashed (ar_id a) max_attempts)) (\<lambda>r.
               case r of
                 Inr (Some (port, pid)) \<Rightarrow>
                   qbind (update_status (ar_id a) Running (Some port) (Some pid)) (\<lambda>_.
                   await_healthy max_attempts path timeout a ps)
               | _ \<Rightarrow>
                   qbind (update_status (ar_id a) Failed None None) (\<lambda>_.
                   qbind (remove_process (ar_id a)) (\<lambda>_.
                   fail (start_failed a))))
           | _ \<Rightarrow> if poll_expired p then fail (not_healthy path timeout a)
                  else await_healthy max_attempts path timeout a ps)))"

definition default_health_check :: health_check where
  "default_health_check =
     \<lparr>hc_path = ''/'', hc_interval_secs = None, hc_timeout_secs = None, hc_initial_delay_secs = Some 2,
      hc_failure_threshold = None\<rparr>"

definition deploy_and_await ::
    "manifest_lib \<Rightarrow> nat \<Rightarrow> nat \<Rightarrow> string \<Rightarrow> string \<Rightarrow> string \<Rightarrow> string \<Rightarrow> app_manifest \<Rightarrow> (string \<times> string) list
     \<Rightarrow> poll list \<Rightarrow> ('w, app_response option) app_op" where
  "deploy_and_await lib max_attempts timeout fresh_id agent_id user_id chat_id manifest creds polls =
     qbind (deploy lib fresh_id agent_id user_id chat_id manifest creds) (\<lambda>a.
     if effective_kind manifest = ''static'' then ret (Some a)
     else case ar_port a of
       None \<Rightarrow> ret (Some a)
     | Some port \<Rightarrow>
         let hc = (case mf_health_check manifest of None \<Rightarrow> default_health_check | Some h \<Rightarrow> h)
         in await_healthy max_attempts (hc_path hc) timeout a polls)"

section \<open>The app supervisor\<close>

definition sup_find_running :: "('w, string list) app_op" where
  "sup_find_running =
     qbind find_running (\<lambda>as. ret (map app_id (filter (\<lambda>a. app_kind a \<noteq> ''static'') as)))"

definition sup_start :: "manifest_lib \<Rightarrow> nat \<Rightarrow> string \<Rightarrow> ('w, unit) app_op" where
  "sup_start lib max_attempts i =
     qbind (gets (has_process i)) (\<lambda>managed.
     if managed
     then qbind (try_restart_crashed i max_attempts) (\<lambda>r.
          case r of
            Some (port, pid) \<Rightarrow> ignore (update_status i Running (Some port) (Some pid))
          | None \<Rightarrow> fail (Tool ''restart returned None''))
     else qbind (qbind (get_app i) (ok_or (NotFound (''app '' @ i)))) (\<lambda>a.
          case app_command a of
            None \<Rightarrow> ret ()
          | Some command \<Rightarrow>
              qbind (from_result (map_sum (\<lambda>e. Tool (''bad manifest: '' @ e)) id (from_json lib (app_manifest a)))) (\<lambda>m.
              qbind (start_app i (app_agent_id a) (app_user_id a) command m []) (\<lambda>(port, pid).
              ignore (update_status i Running (Some port) (Some pid))))))"

definition sup_find_dead :: "('w, string list) app_op" where
  "sup_find_dead = gets (\<lambda>w. filter (\<lambda>i. case check_process i w of Dead s \<Rightarrow> True | _ \<Rightarrow> False)
     (get_managed_app_ids w))"

definition sup_mark_failed :: "string \<Rightarrow> string \<Rightarrow> ('w, unit) app_op" where
  "sup_mark_failed i reason =
     qbind (ignore (update_status i Failed None None)) (\<lambda>_. remove_process i)"

text \<open>\<open>(now - seen).num_seconds() as u64\<close>: whole seconds, a negative count wraps.\<close>

definition idle_seconds :: "int \<Rightarrow> int \<Rightarrow> nat" where
  "idle_seconds now seen =
     (let s = (if seen \<le> now then (now - seen) div 1000 else - ((seen - now) div 1000))
      in nat (s mod 2 ^ 64))"

definition sup_find_idle :: "manifest_lib \<Rightarrow> nat \<Rightarrow> ('w, string list) app_op" where
  "sup_find_idle lib threshold =
     qbind find_running (\<lambda>as.
     gets (\<lambda>w. map app_id (filter (\<lambda>a.
       app_kind a \<noteq> ''static'' \<and> app_status a = Running
       \<and> (case from_json lib (app_manifest a) of Inr m \<Rightarrow> effective_hibernate m | Inl e \<Rightarrow> True)
       \<and> (let seen = (case get_last_accessed (app_id a) w of
                        Some t \<Rightarrow> t
                      | None \<Rightarrow> (case app_last_accessed_at a of Some t \<Rightarrow> t | None \<Rightarrow> app_updated_at a))
          in threshold \<le> idle_seconds (clock w) seen)) as)))"

definition sup_mark_hibernated :: "string \<Rightarrow> ('w, unit) app_op" where
  "sup_mark_hibernated i = ignore (update_status i Hibernated None None)"

definition sup_owner_of :: "string \<Rightarrow> ('w, string) app_op" where
  "sup_owner_of i = qbind (qbind (get_app i) (ok_or (NotFound (''app '' @ i)))) (\<lambda>a. ret (app_user_id a))"

text \<open>\<open>.await.ok().flatten()\<close>: an error reads like a missing app.\<close>

definition get_quietly :: "string \<Rightarrow> 'w app_world_scheme \<Rightarrow> app option \<times> 'w app_world_scheme" where
  "get_quietly i w = (case get_app i w of (Inr a, w') \<Rightarrow> (a, w') | (Inl e, w') \<Rightarrow> (None, w'))"

definition sup_display_name :: "string \<Rightarrow> 'w app_world_scheme \<Rightarrow> string \<times> 'w app_world_scheme" where
  "sup_display_name i w = (case get_quietly i w of (a, w') \<Rightarrow> (case a of None \<Rightarrow> i | Some x \<Rightarrow> app_name x, w'))"

definition sup_notification_data ::
    "string \<Rightarrow> string \<Rightarrow> 'w app_world_scheme \<Rightarrow> notification_data \<times> 'w app_world_scheme" where
  "sup_notification_data i act w =
     (case get_quietly i w of (a, w') \<Rightarrow> (AppData (case a of None \<Rightarrow> i | Some x \<Rightarrow> app_handle x) act, w'))"

definition save_system_message :: "string \<Rightarrow> string \<Rightarrow> ('w, unit) app_op" where
  "save_system_message chat_id content = db_write (\<lambda>w. w\<lparr>system_messages := system_messages w @ [(chat_id, content)]\<rparr>)"

definition sup_attempt_auto_fix ::
    "(string \<Rightarrow> string \<Rightarrow> string option) \<Rightarrow> string \<Rightarrow> 'w app_world_scheme \<Rightarrow> bool \<times> 'w app_world_scheme" where
  "sup_attempt_auto_fix crash_prompt i w =
     (case get_quietly i w of
        (None, w1) \<Rightarrow> (False, w1)
      | (Some a, w1) \<Rightarrow>
          if 0 < crash_fix_attempts a then (False, w1)
          else (case get_quietly (app_id a) w1 of (again, w2) \<Rightarrow>
            (let w3 = (case again of
                         None \<Rightarrow> w2
                       | Some b \<Rightarrow> snd (update_crash_fix_attempts (app_id b) (Suc (crash_fix_attempts b)) w2))
             in case crash_prompt (app_name a) (app_handle a) of
                  None \<Rightarrow> (False, w3)
                | Some msg \<Rightarrow>
                    (let w4 = snd (save_system_message (app_chat_id a) msg w3)
                     in (True, w4\<lparr>fix_tasks := fix_tasks w4 @ [a]\<rparr>)))))"

definition app_supervisor ::
    "manifest_lib \<Rightarrow> (string \<Rightarrow> string \<Rightarrow> string option) \<Rightarrow> nat \<Rightarrow> 'w app_world_scheme supervisor" where
  "app_supervisor lib crash_prompt max_attempts =
     \<lparr>sv_label = ''app'', sv_find_running = sup_find_running, sv_start = sup_start lib max_attempts,
      sv_stop = stop_app, sv_find_dead = sup_find_dead, sv_restart_count = restart_count_for,
      sv_mark_failed = sup_mark_failed, sv_record_access = record_access,
      sv_find_idle = sup_find_idle lib, sv_mark_hibernated = sup_mark_hibernated,
      sv_owner_of = sup_owner_of, sv_display_name = sup_display_name,
      sv_attempt_auto_fix = sup_attempt_auto_fix crash_prompt,
      sv_notification_data = sup_notification_data\<rparr>"

end
