(* ===== verification/App_Props.thy ===== *)
theory App_Props
  imports App_Service
begin

text \<open>
  What the app platform guarantees: ports are never shared, the table of apps stays well
  formed, only the agent of an app acts on it, a crash loop ends, a deployment returns; and
  what a failed spawn costs.
\<close>

section \<open>Ports\<close>

lemma keeps_ports_calls [keep_rules]:
  "keeps ports_ok (db_read f)" "keeps ports_ok (repo_find_by_id get key i)"
  "keeps ports_ok (create_and_notify u d l t b)" "keeps ports_ok (save_system_message c m)"
  "keeps ports_ok reconcile_sandbox_policy"
  unfolding repo_find_by_id_def create_and_notify_def save_system_message_def reconcile_sandbox_policy_def
  by (auto intro!: keeps_db_read keeps_db_write)

lemma ports_ok_apps [simp]: "ports_ok (apps_update g w) = ports_ok w"
  by (simp add: ports_ok_def lookup_process_def)

lemma keeps_ports_tables [keep_rules]:
  "keeps ports_ok (repo_update apps_update app_id a)" "keeps ports_ok (repo_delete apps_update app_id i)"
  "keeps ports_ok (repo_create apps apps_update app_id a)"
  unfolding repo_update_def repo_delete_def repo_create_def
  by (auto intro!: keep_rules keeps_db_write keeps_db_call split: option.split)

lemma keeps_ports_service [keep_rules]:
  "keeps ports_ok (update_app i f)" "keeps ports_ok (get_owned_app ag i)" "keeps ports_ok (handle_of u)"
  "keeps ports_ok (stored_manifest lib a)" "keeps ports_ok (store_app e a)" "keeps ports_ok (get_app i)"
  "keeps ports_ok find_running" "keeps ports_ok (find_by_user_handle u h)"
  unfolding update_app_def get_owned_app_def handle_of_def stored_manifest_def store_app_def get_app_def
    find_running_def find_by_user_handle_def
  by (intro keep_rules)+

lemma keeps_status [keep_rules]:
  "(\<And>s. keeps P (f s)) \<Longrightarrow> keeps P a \<Longrightarrow> keeps P b
     \<Longrightarrow> keeps P (case st of Alive \<Rightarrow> a | Dead s \<Rightarrow> f s | NotManaged \<Rightarrow> b)"
  by (cases st) auto

lemma keeps_ports_update [keep_rules]:
  "keeps ports_ok (update_status i st p q)" "keeps ports_ok (update_crash_fix_attempts i n)"
  "keeps ports_ok (ok_or e x)" "keeps ports_ok (from_result r)"
  unfolding update_status_def update_crash_fix_attempts_def by (intro keep_rules)+

lemma keeps_ports_start_and_update [keep_rules]: "keeps ports_ok (start_and_update lib a cmd m cr)"
  unfolding start_and_update_def by (intro keep_rules)

lemma keeps_ports_owner [keep_rules]: "keeps ports_ok (stop lib ag i c)" 
  unfolding stop_def by (intro keep_rules)

lemma keeps_ports_owner2 [keep_rules]: "keeps ports_ok (start lib ag i c cr)" 
  unfolding start_def by (intro keep_rules)

lemma keeps_ports_restart [keep_rules]: "keeps ports_ok (restart lib ag i c)"
  unfolding restart_def by (rule keep_rules)+

lemma keeps_ports_destroy [keep_rules]: "keeps ports_ok (destroy ag i)"
  unfolding destroy_def by (rule keep_rules)+

lemma keeps_ports_deploy [keep_rules]: "keeps ports_ok (deploy lib fid ag u c m cr)"
  unfolding deploy_def Let_def by (rule keep_rules)+

lemma ports_ok_same:
  assumes "\<And>i. get_process_port i w' = get_process_port i w" and "map fst (processes w') = map fst (processes w)"
    and "allocated_ports w' = allocated_ports w" and "port_range w' = port_range w" and "ports_ok w"
  shows "ports_ok w'"
proof -
  have "\<exists>q. lookup_process i w = Some q \<and> mp_port q = mp_port p" if "lookup_process i w' = Some p" for i p
    using assms(1) [of i] that by (cases "lookup_process i w") (auto simp: get_process_port_def)
  then show ?thesis
    using assms(5) unfolding ports_ok_def assms(2-4) by (intro conjI allI impI) metis+
qed

lemma map_fst_entry [simp]: "map fst (AList.map_entry i f ps) = map fst ps"
  by (induction ps) auto

lemma lookup_observe:
  "lookup_process j (observe i c w) =
     (if i = j then map_option (mp_child_update (\<lambda>_. c)) (lookup_process j w) else lookup_process j w)"
  by (simp add: observe_def)

lemma ports_ok_observe: "ports_ok w \<Longrightarrow> ports_ok (observe i c w)"
  by (rule ports_ok_same) (simp_all add: get_process_port_def lookup_observe option.map_comp o_def, simp_all add: observe_def)

lemma keeps_ports_await [keep_rules]: "keeps ports_ok (await_healthy n path t a ps)"
  by (induction n path t a ps rule: await_healthy.induct)
    (auto intro!: keep_rules keeps_modify ports_ok_observe split: sum.split option.split)

lemma keeps_ports_quietly: "ports_ok w \<Longrightarrow> ports_ok (snd (get_quietly i w))"
  using valid_snd [OF keeps_ports_service(6), of w i] by (auto simp: get_quietly_def split: prod.split sum.split)

lemma keeps_ports_supervisor [keep_rules]:
  "keeps ports_ok sup_find_running" "keeps ports_ok (sup_mark_failed i r)" "keeps ports_ok (sup_mark_hibernated i)"
  "keeps ports_ok (sup_find_idle lib d)" "keeps ports_ok (sup_owner_of i)" "keeps ports_ok sup_find_dead"
  unfolding sup_find_running_def sup_mark_failed_def sup_mark_hibernated_def sup_find_idle_def
    sup_owner_of_def sup_find_dead_def
  by (intro keep_rules)+

lemma keeps_ports_sup_start [keep_rules]: "keeps ports_ok (sup_start lib n i)"
  unfolding sup_start_def by (rule keep_rules)+

text \<open>The calls of the supervisor that return a value in every case.\<close>

lemma auto_fix_closed:
  assumes get: "\<And>i w. P w \<Longrightarrow> P (snd (get_quietly i w))"
    and upd: "\<And>i n w. P w \<Longrightarrow> P (snd (update_crash_fix_attempts i n w))"
    and msg: "\<And>c m w. P w \<Longrightarrow> P (snd (save_system_message c m w))"
    and task: "\<And>ts w. P w \<Longrightarrow> P (w\<lparr>fix_tasks := ts\<rparr>)"
    and "P w"
  shows "P (snd (sup_attempt_auto_fix cp i w))"
proof -
  obtain a w1 where g: "get_quietly i w = (a, w1)" by (cases "get_quietly i w")
  have w1: "P w1" using get [OF \<open>P w\<close>, of i] by (simp add: g)
  show ?thesis
  proof (cases a)
    case None
    with g w1 show ?thesis by (simp add: sup_attempt_auto_fix_def)
  next
    case (Some x)
    obtain b w2 where g2: "get_quietly (app_id x) w1 = (b, w2)" by (cases "get_quietly (app_id x) w1")
    have w2: "P w2" using get [OF w1, of "app_id x"] by (simp add: g2)
    have w3: "P (case b of None \<Rightarrow> w2
                 | Some b \<Rightarrow> snd (update_crash_fix_attempts (app_id b) (Suc (crash_fix_attempts b)) w2))"
      by (cases b) (simp_all add: w2 upd)
    show ?thesis
      using g g2 Some w1 w3 msg [OF w3] task
      by (simp add: sup_attempt_auto_fix_def Let_def split: option.split)
  qed
qed

lemma keeps_ports_total [keep_rules]:
  "keeps ports_ok (always (sup_display_name i))" "keeps ports_ok (always (sup_notification_data i a))"
  "keeps ports_ok (always (sup_attempt_auto_fix cp i))"
proof -
  show "keeps ports_ok (always (sup_attempt_auto_fix cp i))"
    by (rule keeps_always, rule auto_fix_closed [where P = ports_ok])
      (simp_all add: keeps_ports_quietly valid_snd [OF keeps_ports_update(2)] valid_snd [OF keeps_ports_calls(4)])
qed (intro keeps_always; simp add: sup_display_name_def sup_notification_data_def split_beta keeps_ports_quietly)+

lemma sup_keeps_ports: "sup_keeps ports_ok (app_supervisor lib cp n)"
  unfolding sup_keeps_def app_supervisor_def by (simp add: keep_rules)

text \<open>
  C5. Ports. (\<open>ports_ok\<close>) Two managed apps never have the same port, and every port in use is reserved and
  inside the configured range. Every operation keeps this: the owner's deploy, start, stop,
  restart and destroy, the wait for a deployment, and the supervisor's restoration, health
  tick, hibernation and shutdown, whatever fails on the way; and it holds when the server starts with no process.
\<close>

theorem no_port_is_shared:
  "ports_ok (w\<lparr>processes := [], allocated_ports := {}\<rparr>)
   \<and> keeps ports_ok (deploy lib fresh_id agent_id user_id chat_id manifest creds)
   \<and> keeps ports_ok (deploy_and_await lib n timeout fresh_id agent_id user_id chat_id manifest creds polls)
   \<and> keeps ports_ok (start lib agent_id i chat_id creds) \<and> keeps ports_ok (stop lib agent_id i chat_id)
   \<and> keeps ports_ok (restart lib agent_id i chat_id) \<and> keeps ports_ok (destroy agent_id i)
   \<and> keeps ports_ok (restore show_error (app_supervisor lib crash_prompt n))
   \<and> keeps ports_ok (health_tick (app_supervisor lib crash_prompt n) m)
   \<and> keeps ports_ok (hibernate_tick (app_supervisor lib crash_prompt n) d)
   \<and> keeps ports_ok (shutdown (app_supervisor lib crash_prompt n))"
proof (intro conjI)
  show "ports_ok (w\<lparr>processes := [], allocated_ports := {}\<rparr>)"
    by (simp add: ports_ok_def lookup_process_def)
  show "keeps ports_ok (deploy_and_await lib n timeout fresh_id agent_id user_id chat_id manifest creds polls)"
    unfolding deploy_and_await_def Let_def by (rule keep_rules)+
qed (intro keep_rules keeps_ticks [OF sup_keeps_ports])+

section \<open>The table of apps\<close>

definition shaped :: "app \<Rightarrow> bool" where
  "shaped a \<longleftrightarrow>
     (app_kind a = ''static'' \<and> app_command a = None \<and> app_static_dir a \<noteq> None
      \<or> app_kind a = ''service'' \<and> app_command a \<noteq> None \<and> app_static_dir a = None)
     \<and> (app_status a = Serving \<longrightarrow> app_kind a = ''static'')"

definition app_key :: "app \<Rightarrow> string \<times> string" where
  "app_key a = (app_user_id a, app_handle a)"

definition apps_ok :: "app list \<Rightarrow> bool" where
  "apps_ok t \<longleftrightarrow> wf_rows app_id t \<and> distinct (map app_key t) \<and> (\<forall>a \<in> set t. shaped a)"

text \<open>A row that may be written over the one with its id.\<close>

definition fits :: "app \<Rightarrow> app list \<Rightarrow> bool" where
  "fits a t \<longleftrightarrow> shaped a \<and> (\<forall>r \<in> set t. (app_id r = app_id a) = (app_key r = app_key a))"

lemma fits_cong: "fits a t \<Longrightarrow> shaped b \<Longrightarrow> app_id b = app_id a \<Longrightarrow> app_key b = app_key a \<Longrightarrow> fits b t"
  by (simp add: fits_def)

lemma fits_row: "apps_ok t \<Longrightarrow> a \<in> set t \<Longrightarrow> fits a t"
  by (auto simp: fits_def apps_ok_def wf_rows_def distinct_map inj_on_def)

lemma find_row_fits: "apps_ok t \<Longrightarrow> find_row app_id i t = Some a \<Longrightarrow> fits a t"
  by (auto dest: find_row_Some intro: fits_row)

lemma update_row_fits:
  assumes "apps_ok t" and "fits a t"
  shows "apps_ok (update_row app_id a t) \<and> fits a (update_row app_id a t)"
proof -
  have keys: "map app_key (update_row app_id a t) = map app_key t"
    using assms(2) by (auto simp: update_row_def fits_def)
  have rows: "\<forall>r \<in> set (update_row app_id a t). r = a \<or> r \<in> set t"
    by (auto dest: set_update_row)
  have "wf_rows app_id (update_row app_id a t)"
    using assms(1) by (simp add: apps_ok_def rows.wf_update)
  with keys rows assms show ?thesis by (auto simp: apps_ok_def fits_def)
qed

lemma create_row_fits:
  assumes "create_row app_id a t = Some t'" and "apps_ok t" and "app_key a \<notin> app_key ` set t" and "shaped a"
  shows "apps_ok t' \<and> fits a t'"
proof -
  have t': "t' = t @ [a]" and new: "\<forall>r \<in> set t. app_id r \<noteq> app_id a"
    using assms(1) by (auto simp: create_row_def find_row_None split: if_splits)
  then have "apps_ok t'"
    using assms(2-4) wf_rows_create [OF _ assms(1)] by (auto simp: apps_ok_def)
  then show ?thesis using t' by (auto intro: fits_row)
qed

lemma delete_row_ok: "apps_ok t \<Longrightarrow> apps_ok (delete_row app_id i t)"
  by (auto simp: apps_ok_def delete_row_def wf_rows_filter distinct_map intro: inj_on_subset)

text \<open>Most operations leave the table alone.\<close>

named_theorems same_apps "operations that leave the table of apps alone"

definition same :: "(app_error, 'w app_world_scheme, 'a) op \<Rightarrow> bool" where
  "same m \<longleftrightarrow> (\<forall>w. apps (snd (m w)) = apps w)"

lemma same_keeps: "same m \<Longrightarrow> keeps (\<lambda>w. Q (apps w)) m"
  by (auto simp: same_def valid_def split_beta)

lemma same_basic [same_apps]: "same (ret a)" "same (fail e)" "same (gets f)" "same (ok_or e x)"
  "same (from_result r)" "same (stop_app i)" "same (remove_process i)" "same (set_restart_count i n)"
  "same (modify (observe i c))" "same (db_read f)"
  unfolding same_def db_read_def db_call_def ok_or_def
  by (simp_all add: op_defs stop_app_def remove_process_def set_restart_count_def observe_def
      split: option.split list.split)

lemma same_qbind [same_apps]: "same m \<Longrightarrow> (\<And>a. same (f a)) \<Longrightarrow> same (qbind m f)"
  unfolding same_def
proof
  fix w assume "\<forall>w. apps (snd (m w)) = apps w" and "\<And>a. \<forall>w. apps (snd (f a w)) = apps w"
  then show "apps (snd (qbind m f w)) = apps w"
    by (cases "m w") (metis (no_types, lifting) old.sum.exhaust qbind_Inl qbind_Inr snd_conv)
qed

lemma same_branches [same_apps]:
  "same m \<Longrightarrow> same n \<Longrightarrow> same (if b then m else n)"
  "same m \<Longrightarrow> (\<And>a. same (f a)) \<Longrightarrow> same (case x of None \<Rightarrow> m | Some a \<Rightarrow> f a)"
  "same m \<Longrightarrow> same (ignore m)" "same m \<Longrightarrow> same (attempted m)"
  by (auto simp: same_def op_defs attempted_def split_beta split: option.split)

lemma same_start [same_apps]: "same (start_app i ag u cmd m cr)"
  unfolding same_def
proof
  fix w show "apps (snd (start_app i ag u cmd m cr w)) = apps w"
    by (cases "start_app i ag u cmd m cr w") (auto elim: start_app_run)
qed

lemma same_reconcile [same_apps]: "same reconcile_sandbox_policy"
  by (simp add: same_def reconcile_sandbox_policy_def db_write_def db_call_def split: list.split option.split)

lemma same_calls [same_apps]: "same (stored_manifest lib a)" "same (handle_of u)"
  "same (get_app i)" "same find_running" "same (repo_find_by_id get key i)"
  unfolding stored_manifest_def handle_of_def get_app_def find_running_def repo_find_by_id_def
  by (intro same_apps)+

lemma same_restart [same_apps]: "same (try_restart_crashed i n)"
  unfolding try_restart_crashed_def by (intro same_apps)

text \<open>What is known of the table while an operation holds a row in its hands.\<close>

definition holds :: "app \<Rightarrow> 'w app_world_scheme \<Rightarrow> bool" where
  "holds a w \<longleftrightarrow> apps_ok (apps w) \<and> fits a (apps w)"

abbreviation table_ok :: "'w app_world_scheme \<Rightarrow> bool" where
  "table_ok w \<equiv> apps_ok (apps w)"

lemma holds_same: "same m \<Longrightarrow> keeps (holds a) m"
  unfolding holds_def [abs_def] by (rule same_keeps)

lemma holds_changed: "holds a w \<Longrightarrow> shaped b \<Longrightarrow> app_id b = app_id a \<Longrightarrow> app_key b = app_key a \<Longrightarrow> holds b w"
  by (auto simp: holds_def intro: fits_cong)

lemma apps_update_row [simp]: "apps_update (update_row key a) w = w\<lparr>apps := update_row key a (apps w)\<rparr>"
  "apps_update (delete_row key i) w = w\<lparr>apps := delete_row key i (apps w)\<rparr>"
  by simp_all

lemma write_held: "keeps (holds a) (repo_update apps_update app_id a)"
  unfolding repo_update_def
  by (intro keep_rules keeps_db_write) (simp_all add: holds_def update_row_fits)

lemma write_changed:
  assumes "shaped b" and "app_id b = app_id a" and "app_key b = app_key a"
  shows "valid (holds a) (repo_update apps_update app_id b) (\<lambda>_. holds b)"
  by (rule valid_weaken [OF write_held]) (rule holds_changed [OF _ assms])

lemma holds_table: "holds a w \<Longrightarrow> table_ok w"
  by (simp add: holds_def)

text \<open>A row an operation has read.\<close>

definition found :: "app_error + app \<Rightarrow> 'w app_world_scheme \<Rightarrow> bool" where
  "found r w \<longleftrightarrow> table_ok w \<and> (case r of Inl e \<Rightarrow> True | Inr a \<Rightarrow> holds a w)"

lemma found_simps [simp]: "found (Inl e) w = table_ok w" "found (Inr a) w = holds a w"
  by (auto simp: found_def holds_def)

lemma get_owned_found: "valid table_ok (get_owned_app ag i) found"
proof (rule validI)
  fix w r w' assume ok: "table_ok w" and run: "get_owned_app ag i w = (r, w')"
  have "same (get_owned_app ag i)" unfolding get_owned_app_def by (intro same_apps)
  then have "apps (snd (get_owned_app ag i w)) = apps w" unfolding same_def by blast
  then have same: "apps w' = apps w" by (simp add: run)
  show "found r w'"
  proof (cases r)
    case (Inr a)
    from run have "get_owned_app ag i w = (Inr a, w')" by (simp add: Inr)
    then obtain b w1 where "qbind (repo_find_by_id apps app_id i) (ok_or (NotFound ''App not found'')) w = (Inr b, w1)"
      and "(if app_agent_id b \<noteq> ag then fail (Forbidden ''App not owned by this agent'') else ret b) w1 = (Inr a, w')"
      unfolding get_owned_app_def by (rule qbind_Inr_E)
    then have "find_row app_id i (apps w') = Some a"
      by (auto simp: fail_def ret_def dest!: find_or_Inr split: if_splits)
    with ok same Inr show ?thesis by (simp add: holds_def find_row_fits)
  qed (use ok same in simp)
qed

lemma table_start_and_update:
  assumes "shaped a"
  shows "valid (holds a) (start_and_update lib a cmd m cr) (\<lambda>_. table_ok)"
  unfolding start_and_update_def
proof (rule valid_step [OF holds_same holds_table])
  show "same (attempted (start_app (app_id a) (app_agent_id a) (app_user_id a) cmd m cr))"
    by (intro same_apps)
  fix st
  have sh: "shaped (a\<lparr>app_port := x, app_pid := y, app_status := Running, app_updated_at := z\<rparr>)"
    "shaped (a\<lparr>app_status := Failed, app_updated_at := z\<rparr>)" for x y z
    using assms by (auto simp: shaped_def)
  note writes = write_changed [THEN valid_strengthen, OF sh(1) _ _ holds_table]
    write_changed [THEN valid_strengthen, OF sh(2) _ _ holds_table]
  show "valid (holds a) (qbind (gets clock) (\<lambda>now. case st of
       Inr (port, pid) \<Rightarrow> qbind (repo_update apps_update app_id
           (a\<lparr>app_port := Some port, app_pid := Some pid, app_status := Running, app_updated_at := now\<rparr>)) (\<lambda>b.
         ret (app_response_of lib b))
     | Inl e \<Rightarrow> qbind (ignore (repo_update apps_update app_id (a\<lparr>app_status := Failed, app_updated_at := now\<rparr>))) (\<lambda>_.
         fail e))) (\<lambda>_. table_ok)"
  proof (rule valid_step [OF holds_same holds_table])
    show "same (gets clock)" by (rule same_basic)
    show "valid (holds a) (case st of
       Inr (port, pid) \<Rightarrow> qbind (repo_update apps_update app_id
           (a\<lparr>app_port := Some port, app_pid := Some pid, app_status := Running, app_updated_at := now\<rparr>)) (\<lambda>b.
         ret (app_response_of lib b))
     | Inl e \<Rightarrow> qbind (ignore (repo_update apps_update app_id (a\<lparr>app_status := Failed, app_updated_at := now\<rparr>))) (\<lambda>_.
         fail e)) (\<lambda>_. table_ok)" for now
      by (cases st) (auto intro!: valid_step [where R = table_ok] valid_ignore writes valid_ret valid_fail
          simp: app_key_def)
  qed
qed

lemma owned_step:
  assumes "\<And>a. shaped a \<Longrightarrow> valid (holds a) (f a) (\<lambda>_. table_ok)"
  shows "valid table_ok (qbind (get_owned_app ag i) f) (\<lambda>_. table_ok)"
proof (rule valid_qbind [OF get_owned_found])
  fix a show "valid (found (Inr a)) (f a) (\<lambda>_. table_ok)"
    using assms [of a] by (cases "shaped a") (auto simp: valid_def holds_def fits_def)
qed simp

lemma table_same: "same m \<Longrightarrow> valid (holds a) m (\<lambda>_. table_ok)"
  by (rule valid_strengthen [OF holds_same]) (auto intro: holds_table)

lemma same_step: "same m \<Longrightarrow> (\<And>x. valid (holds a) (f x) (\<lambda>_. table_ok)) \<Longrightarrow> valid (holds a) (qbind m f) (\<lambda>_. table_ok)"
  by (rule valid_step [OF holds_same holds_table])

lemma table_keeps: "same m \<Longrightarrow> keeps table_ok m"
  by (rule same_keeps)

lemma write_table:
  assumes "shaped b" and "app_id b = app_id a" and "app_key b = app_key a"
  shows "valid (holds a) (repo_update apps_update app_id b) (\<lambda>_. table_ok)"
  by (rule valid_strengthen [OF write_changed [OF assms]]) (rule holds_table)

lemma write_ret:
  assumes "shaped b" and "app_id b = app_id a" and "app_key b = app_key a"
  shows "valid (holds a) (qbind (repo_update apps_update app_id b) (\<lambda>x. ret (g x))) (\<lambda>_. table_ok)"
  by (rule valid_step [OF write_table [OF assms]]) (auto intro: keeps_ret)

lemma start_again:
  assumes "shaped a"
  shows "valid (holds a) (start_and_update lib (a\<lparr>app_chat_id := c, crash_fix_attempts := 0\<rparr>) cmd m cr) (\<lambda>_. table_ok)"
  by (rule valid_weaken [OF table_start_and_update], use assms in \<open>simp add: shaped_def\<close>)
    (erule holds_changed, use assms in \<open>simp_all add: shaped_def app_key_def\<close>)

lemma table_lifecycle:
  "keeps table_ok (stop lib ag i c)" "keeps table_ok (start lib ag i c cr)"
  "keeps table_ok (restart lib ag i c)" "keeps table_ok (destroy ag i)"
proof -
  show "keeps table_ok (stop lib ag i c)"
    unfolding stop_def
    by (intro owned_step same_step same_apps write_ret) (simp_all add: shaped_def app_key_def)
  show "keeps table_ok (start lib ag i c cr)"
    unfolding start_def
    by (rule owned_step, rule valid_if, intro table_same same_apps, (rule same_step, rule same_apps)+, rule start_again)
  show "keeps table_ok (restart lib ag i c)"
    unfolding restart_def
    by (intro owned_step same_step same_apps start_again)
  have "keeps table_ok (repo_delete apps_update app_id i)"
    unfolding repo_delete_def by (rule keeps_db_write) (auto simp: delete_row_ok)
  then have "valid (holds a) (repo_delete apps_update app_id i) (\<lambda>_. table_ok)" for a
    by (rule valid_weaken) (rule holds_table)
  then show "keeps table_ok (destroy ag i)"
    unfolding destroy_def by (intro owned_step same_step same_apps)
qed

text \<open>Deployment: the row found for the user's handle, or none.\<close>

definition looked_up :: "string \<Rightarrow> string \<Rightarrow> app option \<Rightarrow> 'w app_world_scheme \<Rightarrow> bool" where
  "looked_up u h e w \<longleftrightarrow> table_ok w \<and> find (\<lambda>a. app_user_id a = u \<and> app_handle a = h) (apps w) = e"

lemma looked_up_same: "same m \<Longrightarrow> keeps (looked_up u h e) m"
  unfolding looked_up_def [abs_def] by (rule same_keeps)

lemma looked_up_step: "same m \<Longrightarrow> (\<And>x. valid (looked_up u h e) (f x) (\<lambda>_. table_ok))
    \<Longrightarrow> valid (looked_up u h e) (qbind m f) (\<lambda>_. table_ok)"
  by (rule valid_step [OF looked_up_same]) (auto simp: looked_up_def)

lemma deploy_lookup:
  assumes "\<And>e. valid (looked_up u h e) (f e) (\<lambda>_. table_ok)"
  shows "keeps table_ok (qbind (find_by_user_handle u h) f)"
proof (rule valid_qbind [where R = "\<lambda>r w. case r of Inl x \<Rightarrow> table_ok w | Inr e \<Rightarrow> looked_up u h e w"])
  show "valid table_ok (find_by_user_handle u h)
      (\<lambda>r w. case r of Inl x \<Rightarrow> table_ok w | Inr e \<Rightarrow> looked_up u h e w)"
    by (rule validI) (auto simp: find_by_user_handle_def looked_up_def split: sum.split dest!: db_read_Inl db_read_Inr)
qed (use assms in auto)

lemma row_fits:
  assumes "looked_up u h (Some e) w" and "app_id a = app_id e" and "app_key a = (u, h)" and "shaped a"
  shows "holds a w"
proof -
  have e: "e \<in> set (apps w)" "app_key e = (u, h)"
    using assms(1) by (auto simp: looked_up_def app_key_def dest!: find_eq_SomeD)
  then have "holds e w" using assms(1) by (auto simp: looked_up_def holds_def intro: fits_row)
  then show ?thesis using assms(2-4) e by (intro holds_changed [of e w a]) auto
qed

lemma store_found:
  assumes "shaped a" and "app_key a = (u, h)" and "(case e of None \<Rightarrow> True | Some x \<Rightarrow> app_id a = app_id x)"
  shows "valid (looked_up u h e) (store_app e a) (\<lambda>r w. table_ok w \<and> (\<forall>b. r = Inr b \<longrightarrow> b = a \<and> holds a w))"
proof (rule validI)
  fix w r w' assume e: "looked_up u h e w" and run: "store_app e a w = (r, w')"
  show "table_ok w' \<and> (\<forall>b. r = Inr b \<longrightarrow> b = a \<and> holds a w')"
  proof (cases e)
    case (Some x)
    then have run: "repo_update apps_update app_id a w = (r, w')" using run by (simp add: store_app_def)
    have "holds a w" using row_fits [OF e [unfolded Some]] assms Some by simp
    then have "holds a w'" using validD [OF write_held _ run] by blast
    moreover have "\<forall>b. r = Inr b \<longrightarrow> b = a"
      using run by (auto simp: repo_update_def ret_def elim!: qbind_cases)
    ultimately show ?thesis using holds_table by blast
  next
    case None
    have new: "app_key a \<notin> app_key ` set (apps w)" and ok: "table_ok w"
      using e None assms(2) by (auto simp: looked_up_def app_key_def find_none_iff dest: sym)
    from run None have run: "repo_create apps apps_update app_id a w = (r, w')" by (simp add: store_app_def)
    show ?thesis
    proof (cases "create_row app_id a (apps w)")
      case None
      then have "table_ok w' \<and> (\<exists>x. r = Inl x)"
        using run ok by (auto simp: repo_create_def elim!: db_call_cases)
      then show ?thesis by auto
    next
      case (Some t)
      with create_row_fits [OF Some ok new assms(1)] run ok show ?thesis
        by (auto simp: repo_create_def holds_def elim!: db_call_cases)
    qed
  qed
qed

lemma shaped_rows:
  "shaped (app_row i ag u c m mj e now ''static'' None (Some d) Serving)"
  "shaped (app_row i ag u c m mj e now ''service'' (Some cmd) None Starting)"
  by (simp_all add: shaped_def app_row_def)

lemma app_row_sel [simp]:
  "app_key (app_row i ag u c m mj e now k cmd d st) = (u, mf_handle m)"
  "app_id (app_row i ag u c m mj e now k cmd d st) = i"
  by (simp_all add: app_key_def app_row_def)

lemma store_step:
  assumes "shaped a" and "app_key a = (u, h)" and "(case e of None \<Rightarrow> True | Some x \<Rightarrow> app_id a = app_id x)"
    and "valid (holds a) (f a) (\<lambda>_. table_ok)"
  shows "valid (looked_up u h e) (qbind (store_app e a) f) (\<lambda>_. table_ok)"
proof (rule valid_qbind [OF store_found [OF assms(1-3)]])
  show "valid (\<lambda>w. table_ok w \<and> (\<forall>x. Inr b = Inr x \<longrightarrow> x = a \<and> holds a w)) (f b) (\<lambda>_. table_ok)" for b
    using assms(4) by (auto simp: valid_def)
qed simp

lemma looked_up_table: "same m \<Longrightarrow> valid (looked_up u h e) m (\<lambda>_. table_ok)"
  by (rule valid_strengthen [OF looked_up_same]) (auto simp: looked_up_def)

lemma table_deploy: "keeps table_ok (deploy lib fid ag u c m cr)"
  unfolding deploy_def Let_def
proof (rule deploy_lookup, rule valid_if)
  fix e :: "app option"
  show "valid (looked_up u (mf_handle m) e)
      (fail (Forbidden (''App handle '' @ quoted (mf_handle m) @ '' is owned by a different agent''))) (\<lambda>_. table_ok)"
    by (intro looked_up_table same_apps)
  have i: "case e of None \<Rightarrow> True | Some x \<Rightarrow> (case e of None \<Rightarrow> fid | Some e \<Rightarrow> app_id e) = app_id x"
    by (simp split: option.split)
  show "valid (looked_up u (mf_handle m) e) (qbind (gets clock) (\<lambda>now.
       qbind (from_result (map_sum (\<lambda>e. Validation (''Invalid manifest: '' @ e)) id (to_json lib m))) (\<lambda>mj.
       if effective_kind m = ''static''
       then qbind (if was_started e then ignore (stop_app (case e of None \<Rightarrow> fid | Some e \<Rightarrow> app_id e)) else ret ()) (\<lambda>_.
            qbind (ok_or (Validation ''static_dir required for static apps'') (mf_static_dir m)) (\<lambda>dir.
            qbind (store_app e (app_row (case e of None \<Rightarrow> fid | Some e \<Rightarrow> app_id e) ag u c m mj e now
              ''static'' None (Some dir) Serving)) (\<lambda>a.
            ret (app_response_of lib a))))
       else qbind (ok_or (Validation ''command required for service apps'') (mf_command m)) (\<lambda>command.
            qbind (if was_started e then stop_app (case e of None \<Rightarrow> fid | Some e \<Rightarrow> app_id e) else ret ()) (\<lambda>_.
            qbind (store_app e (app_row (case e of None \<Rightarrow> fid | Some e \<Rightarrow> app_id e) ag u c m mj e now
              ''service'' (Some command) None Starting)) (\<lambda>a.
            qbind (handle_of u) (\<lambda>h.
            qbind reconcile_sandbox_policy (\<lambda>_.
            start_and_update lib a command m cr)))))))) (\<lambda>_. table_ok)"
    by (intro looked_up_step valid_if same_apps store_step shaped_rows; (rule app_row_sel | simp only: app_row_sel i)?)
      (intro same_step same_apps table_same table_start_and_update shaped_rows)+
qed

lemma table_update_app:
  assumes "\<And>now a. shaped a \<Longrightarrow> shaped (f now a) \<and> app_id (f now a) = app_id a \<and> app_key (f now a) = app_key a"
  shows "keeps table_ok (update_app i f)"
  unfolding update_app_def
proof (rule valid_qbind [where R = "\<lambda>r w. table_ok w \<and> (\<forall>a. r = Inr (Some a) \<longrightarrow> holds a w)"])
  show "valid table_ok (repo_find_by_id apps app_id i) (\<lambda>r w. table_ok w \<and> (\<forall>a. r = Inr (Some a) \<longrightarrow> holds a w))"
    by (rule validI) (auto simp: repo_find_by_id_def db_read_def holds_def find_row_fits elim!: db_call_cases)
next
  fix found
  show "valid (\<lambda>w. table_ok w \<and> (\<forall>a. Inr found = Inr (Some a) \<longrightarrow> holds a w))
     (case found of None \<Rightarrow> ret ()
      | Some a \<Rightarrow> qbind (gets clock) (\<lambda>now. qbind (repo_update apps_update app_id (f now a)) (\<lambda>_. ret ()))) (\<lambda>_. table_ok)"
  proof (cases found)
    case (Some a)
    have "valid (holds a) (qbind (gets clock) (\<lambda>now. qbind (repo_update apps_update app_id (f now a)) (\<lambda>_. ret ())))
        (\<lambda>_. table_ok)"
    proof (cases "shaped a")
      case True
      with assms show ?thesis by (intro same_step same_apps write_ret) auto
    qed (simp add: valid_def holds_def fits_def)
    then show ?thesis unfolding Some option.case by (rule valid_weaken) simp
  qed (auto intro: valid_ret)
qed simp

lemma table_updates [keep_rules]:
  "st \<noteq> Serving \<Longrightarrow> keeps table_ok (update_status i st p q)" "keeps table_ok (update_crash_fix_attempts i n)"
  "keeps table_ok (update_last_accessed i t)"
  unfolding update_status_def update_crash_fix_attempts_def update_last_accessed_def
  by (auto intro!: table_update_app simp: shaped_def app_key_def)

lemma quietly_apps [simp]: "apps (snd (get_quietly i w)) = apps w"
proof -
  have "apps (snd (get_app i w)) = apps w" using same_calls(3) [of i] unfolding same_def by blast
  then show ?thesis by (cases "get_app i w") (auto simp: get_quietly_def split: sum.split)
qed

lemma same_total [same_apps]: "same (always (sup_display_name i))" "same (always (sup_notification_data i a))"
  "same (create_and_notify u d l t b)" "same (save_system_message c m)" "same sup_find_dead"
  "same (sup_find_idle lib n)" "same sup_find_running" "same (sup_owner_of i)"
proof -
  show "same (always (sup_display_name i))" "same (always (sup_notification_data i a))"
    by (simp_all add: same_def always_def sup_display_name_def sup_notification_data_def split_beta quietly_apps)
  show "same sup_find_dead" "same (sup_find_idle lib n)" "same sup_find_running" "same (sup_owner_of i)"
    unfolding sup_find_dead_def sup_find_idle_def sup_find_running_def sup_owner_of_def
    by (intro same_apps)+
qed (simp_all add: same_def create_and_notify_def save_system_message_def db_write_def db_call_def
      split: list.split option.split)

lemma table_auto_fix: "keeps table_ok (always (sup_attempt_auto_fix cp i))"
  by (rule keeps_always, rule auto_fix_closed [where P = table_ok])
    (simp_all add: valid_snd [OF table_updates(2)] valid_snd [OF table_keeps [OF same_total(4)]])

lemmas table_keep_rules [keep_rules] = same_total(1-8) [THEN table_keeps] same_restart [THEN table_keeps]
  same_start [THEN table_keeps] same_calls(3) [THEN table_keeps] same_basic(6,7,9) [THEN table_keeps]
  table_auto_fix

lemma table_sup_start [keep_rules]: "keeps table_ok (sup_start lib n i)"
  unfolding sup_start_def by (intro keep_rules) simp_all

lemma table_mark_failed [keep_rules]: "keeps table_ok (sup_mark_failed i r)"
  unfolding sup_mark_failed_def by (intro keep_rules) simp

lemma table_mark_hibernated [keep_rules]: "keeps table_ok (sup_mark_hibernated i)"
  unfolding sup_mark_hibernated_def by (intro keep_rules) simp

lemma sup_keeps_table: "sup_keeps table_ok (app_supervisor lib cp n)"
  unfolding sup_keeps_def app_supervisor_def by (simp add: keep_rules)

lemma table_await: "keeps table_ok (await_healthy n path t a ps)"
  by (induction n path t a ps rule: await_healthy.induct) (auto intro!: keep_rules)

text \<open>
  C30. The table of apps. (\<open>apps_ok\<close>) Ids are unique, a user has at most one app under a handle,
  a static app has a directory and no command, a service has a command and no directory, and
  only a static app is ever \<open>Serving\<close>. Every operation of the owner and of the supervisor
  keeps this, whatever fails on the way, from the empty table on.
\<close>

theorem app_table_stays_well_formed:
  "apps_ok []
   \<and> keeps table_ok (deploy lib fresh_id agent_id user_id chat_id manifest creds)
   \<and> keeps table_ok (deploy_and_await lib n timeout fresh_id agent_id user_id chat_id manifest creds polls)
   \<and> keeps table_ok (start lib agent_id i chat_id creds) \<and> keeps table_ok (stop lib agent_id i chat_id)
   \<and> keeps table_ok (restart lib agent_id i chat_id) \<and> keeps table_ok (destroy agent_id i)
   \<and> keeps table_ok (restore show_error (app_supervisor lib crash_prompt n))
   \<and> keeps table_ok (health_tick (app_supervisor lib crash_prompt n) m)
   \<and> keeps table_ok (hibernate_tick (app_supervisor lib crash_prompt n) d)
   \<and> keeps table_ok (shutdown (app_supervisor lib crash_prompt n))"
  unfolding deploy_and_await_def Let_def
  by (intro conjI keep_rules table_lifecycle table_deploy table_await keeps_ticks [OF sup_keeps_table])
    (simp add: apps_ok_def wf_rows_def)

end
