(* ===== verification/App_Crash.thy ===== *)
theory App_Crash
  imports App_Props
begin

text \<open>
  The app supervisor meets the contract of \<open>restart_loop\<close>: the interpretation \<open>app_loop\<close> and
  what it gives. Then what a failed spawn costs, that waiting for a deployment ends, and that
  only the agent of an app acts on it.
\<close>

section \<open>What the supervisor sees of an app\<close>

definition statuses :: "app list \<Rightarrow> (string \<times> app_status) list" where
  "statuses t = map (\<lambda>a. (app_id a, app_status a)) t"

definition app_phase :: "string \<Rightarrow> 'w app_world_scheme \<Rightarrow> phase" where
  "app_phase i w =
     (case lookup_process i w of
        Some p \<Rightarrow> Managed (mp_child p \<noteq> ChildRunning) (mp_restart_count p)
      | None \<Rightarrow> if map_of (statuses (apps w)) i = Some Failed then GivenUp else Unmanaged)"

definition app_restartable :: "string \<Rightarrow> 'w app_world_scheme \<Rightarrow> bool" where
  "app_restartable i w \<longleftrightarrow>
     (case lookup_process i w of
        None \<Rightarrow> False
      | Some p \<Rightarrow> mf_command (mp_manifest p) \<noteq> None
          \<and> (effective_restart_policy (mp_manifest p) = ''always''
             \<or> effective_restart_policy (mp_manifest p) = ''on_failure'' \<and> mp_child p \<noteq> ChildExited True))"

text \<open>A world in which nothing fails, and every managed app has its row.\<close>

definition calm :: "'w app_world_scheme \<Rightarrow> bool" where
  "calm w \<longleftrightarrow> ports_ok w \<and> faults w = [] \<and> spawn_outcomes w = []
     \<and> (\<forall>i. has_process i w \<longrightarrow> i \<in> app_id ` set (apps w))"

lemma find_row_status: "map_of (statuses t) i = map_option app_status (find_row app_id i t)"
  by (induction t) (auto simp: statuses_def find_row_def)

lemma dom_statuses: "map fst (statuses t) = map app_id t"
  by (simp add: statuses_def)

section \<open>Operations on one app\<close>

text \<open>
  In a world without failures these operations change only the process and the row of one app,
  and the rows keep their ids.
\<close>

named_theorems on_rules "operations on a single app"

definition on_app :: "string \<Rightarrow> ('w, 'a) app_op \<Rightarrow> bool" where
  "on_app i m \<longleftrightarrow> (\<forall>w. faults w = [] \<longrightarrow> spawn_outcomes w = [] \<longrightarrow>
     faults (snd (m w)) = [] \<and> spawn_outcomes (snd (m w)) = []
     \<and> map app_id (apps (snd (m w))) = map app_id (apps w)
     \<and> (\<forall>j. j \<noteq> i \<longrightarrow> lookup_process j (snd (m w)) = lookup_process j w
          \<and> map_of (statuses (apps (snd (m w)))) j = map_of (statuses (apps w)) j))"

lemma on_appD:
  assumes "on_app i m" and "faults w = []" and "spawn_outcomes w = []"
  shows "faults (snd (m w)) = []" "spawn_outcomes (snd (m w)) = []"
    "map app_id (apps (snd (m w))) = map app_id (apps w)"
    "j \<noteq> i \<Longrightarrow> lookup_process j (snd (m w)) = lookup_process j w"
    "j \<noteq> i \<Longrightarrow> map_of (statuses (apps (snd (m w)))) j = map_of (statuses (apps w)) j"
  using assms unfolding on_app_def by blast+

lemma on_qbind [on_rules]:
  assumes "on_app i m" and "\<And>a. on_app i (f a)"
  shows "on_app i (qbind m f)"
  unfolding on_app_def
proof (intro allI impI)
  fix w :: "'a app_world_scheme" assume w: "faults w = []" "spawn_outcomes w = []"
  note m = on_appD [OF assms(1) w]
  show "faults (snd (qbind m f w)) = [] \<and> spawn_outcomes (snd (qbind m f w)) = []
     \<and> map app_id (apps (snd (qbind m f w))) = map app_id (apps w)
     \<and> (\<forall>j. j \<noteq> i \<longrightarrow> lookup_process j (snd (qbind m f w)) = lookup_process j w
          \<and> map_of (statuses (apps (snd (qbind m f w)))) j = map_of (statuses (apps w)) j)"
  proof (cases "m w")
    case (Pair r w1)
    note m1 = m [unfolded Pair snd_conv]
    show ?thesis
    proof (cases r)
      case (Inl e)
      with Pair m1 show ?thesis by (simp add: qbind_def)
    next
      case (Inr a)
      with Pair have "qbind m f w = f a w1" by (simp add: qbind_def)
      with on_appD [OF assms(2) [of a] m1(1,2)] m1(3-5) show ?thesis by simp
    qed
  qed
qed

lemma on_basic [on_rules]: "on_app i (ret a)" "on_app i (fail e)" "on_app i (gets f)" "on_app i (ok_or e x)"
  "on_app i (from_result r)"
  by (simp_all add: on_app_def op_defs split: option.split)

lemma on_branches [on_rules]:
  "on_app i m \<Longrightarrow> on_app i n \<Longrightarrow> on_app i (if b then m else n)"
  "on_app i m \<Longrightarrow> (\<And>a. on_app i (f a)) \<Longrightarrow> on_app i (case x of None \<Rightarrow> m | Some a \<Rightarrow> f a)"
  "(\<And>a b. on_app i (g a b)) \<Longrightarrow> on_app i (case y of (a, b) \<Rightarrow> g a b)"
  "on_app i m \<Longrightarrow> on_app i (ignore m)"
  by (auto simp: on_app_def ignore_def split: option.split prod.split)

lemma on_processes [on_rules]: "on_app i (stop_app i)" "on_app i (remove_process i)" "on_app i (set_restart_count i n)"
  by (simp_all add: on_app_def stop_app_def remove_process_def set_restart_count_def modify_def lookup_release)

lemma on_start [on_rules]: "on_app i (start_app i ag u cmd mf cr)"
  unfolding on_app_def
proof (intro allI impI)
  fix w :: "'a app_world_scheme" assume w: "faults w = []" "spawn_outcomes w = []"
  obtain r w' where run: "start_app i ag u cmd mf cr w = (r, w')" by (cases "start_app i ag u cmd mf cr w")
  then show "faults (snd (start_app i ag u cmd mf cr w)) = [] \<and> spawn_outcomes (snd (start_app i ag u cmd mf cr w)) = []
     \<and> map app_id (apps (snd (start_app i ag u cmd mf cr w))) = map app_id (apps w)
     \<and> (\<forall>j. j \<noteq> i \<longrightarrow> lookup_process j (snd (start_app i ag u cmd mf cr w)) = lookup_process j w
          \<and> map_of (statuses (apps (snd (start_app i ag u cmd mf cr w)))) j = map_of (statuses (apps w)) j)"
    by (cases rule: start_app_run) (use w run in \<open>auto simp: lookup_process_def update_conv'\<close>)
qed

lemma on_update [on_rules]:
  assumes "\<And>now a. app_id (f now a) = app_id a"
  shows "on_app i (update_app i f)"
  unfolding on_app_def
proof (intro allI impI)
  fix w :: "'a app_world_scheme" assume w: "faults w = []" "spawn_outcomes w = []"
  show "faults (snd (update_app i f w)) = [] \<and> spawn_outcomes (snd (update_app i f w)) = []
     \<and> map app_id (apps (snd (update_app i f w))) = map app_id (apps w)
     \<and> (\<forall>j. j \<noteq> i \<longrightarrow> lookup_process j (snd (update_app i f w)) = lookup_process j w
          \<and> map_of (statuses (apps (snd (update_app i f w)))) j = map_of (statuses (apps w)) j)"
  proof (cases "find_row app_id i (apps w)")
    case None
    with w show ?thesis
      by (simp add: update_app_def repo_find_by_id_def qbind_def db_read_no_fault ret_def)
  next
    case (Some a)
    have i: "app_id (f (clock w) a) = i" using find_row_Some [OF Some] assms by simp
    from Some w have "snd (update_app i f w) = w\<lparr>apps := update_row app_id (f (clock w) a) (apps w)\<rparr>"
      by (simp add: update_app_def repo_find_by_id_def repo_update_def qbind_def db_read_no_fault
          db_write_no_fault ret_def gets_def)
    then show ?thesis
      using w i by (simp add: find_row_status find_row_update)
  qed
qed

lemma on_supervisor [on_rules]:
  "on_app i (update_status i st p q)" "on_app i (update_crash_fix_attempts i n)" "on_app i (get_app i)"
  "on_app i (try_restart_crashed i m)"
proof -
  show "on_app i (get_app i)"
    by (simp add: on_app_def get_app_def repo_find_by_id_def db_read_no_fault)
  show "on_app i (try_restart_crashed i m)"
    unfolding try_restart_crashed_def by (intro on_rules)
qed (simp_all add: update_status_def update_crash_fix_attempts_def on_update)

lemma on_sup [on_rules]: "on_app i (sup_start lib n i)" "on_app i (sup_mark_failed i r)"
  unfolding sup_start_def sup_mark_failed_def by (intro on_rules)+

section \<open>The laws of the restart loop\<close>

lemma phase_frame:
  assumes "on_app i m" and "calm w" and "j \<noteq> i"
  shows "app_phase j (snd (m w)) = app_phase j w" "app_restartable j (snd (m w)) = app_restartable j w"
  using on_appD(4,5) [OF assms(1) _ _ assms(3), of w] assms(2)
  by (simp_all add: calm_def app_phase_def app_restartable_def)

lemma calm_frame:
  assumes "on_app i m" and "calm w" and "keeps ports_ok m"
    and "has_process i (snd (m w)) \<Longrightarrow> has_process i w \<or> i \<in> app_id ` set (apps w)"
  shows "calm (snd (m w))"
proof -
  have w: "faults w = []" "spawn_outcomes w = []" "ports_ok w"
    and rows: "has_process j w \<Longrightarrow> j \<in> app_id ` set (apps w)" for j
    using assms(2) by (auto simp: calm_def)
  note m = on_appD [OF assms(1) w(1,2)]
  have ids: "app_id ` set (apps (snd (m w))) = app_id ` set (apps w)"
    using arg_cong [OF m(3), of set] by simp
  have "j \<in> app_id ` set (apps w)" if "has_process j (snd (m w))" for j
    using that assms(4) rows m(4) [of j] by (cases "j = i") (auto simp: has_process_def)
  with m(1,2) ids valid_snd [OF assms(3) w(3)] show ?thesis by (simp add: calm_def)
qed

lemma sup_start_unmanaged:
  assumes "calm w" and "\<not> has_process i w" and "has_process i (snd (sup_start lib n i w))"
  shows "i \<in> app_id ` set (apps w)"
proof (rule ccontr)
  assume "i \<notin> app_id ` set (apps w)"
  then have "find_row app_id i (apps w) = None" by (auto simp: find_row_None)
  then have "get_app i w = (Inr None, w)"
    using assms(1) by (simp add: get_app_def repo_find_by_id_def db_read_no_fault calm_def)
  then have "qbind (get_app i) (ok_or e) w = (Inl e, w)" for e :: app_error
    by (simp add: qbind_def ok_or_def fail_def)
  then have "snd (sup_start lib n i w) = w"
    using assms(2) by (simp add: sup_start_def qbind_Inl)
  with assms(2,3) show False by simp
qed

lemma calm_start: "calm w \<Longrightarrow> calm (snd (sup_start lib n i w))"
  by (rule calm_frame [OF on_sup(1) _ keeps_ports_sup_start]) (use sup_start_unmanaged in blast)+

lemma mark_failed_processes:
  "lookup_process j (snd (sup_mark_failed i r w)) =
     (if j = i then None else lookup_process j (snd (update_status i Failed None None w)))"
  by (simp add: sup_mark_failed_def remove_process_def modify_def lookup_release)

lemma calm_failed: "calm w \<Longrightarrow> calm (snd (sup_mark_failed i r w))"
  by (rule calm_frame [OF on_sup(2) _ keeps_ports_supervisor(2)])
    (auto simp: has_process_def mark_failed_processes)

lemma update_status_status:
  assumes "faults w = []" and "i \<in> app_id ` set (apps w)"
  shows "map_of (statuses (apps (snd (update_status i st p q w)))) i = Some st"
proof -
  obtain a where a: "find_row app_id i (apps w) = Some a"
    using assms(2) by (cases "find_row app_id i (apps w)") (auto simp: find_row_None)
  with assms(1) find_row_Some [OF a] show ?thesis
    by (simp add: update_status_def update_app_def repo_find_by_id_def repo_update_def qbind_def db_read_no_fault
        db_write_no_fault ret_def gets_def find_row_status find_row_update)
qed

lemma failed_phase:
  assumes "calm w" and "app_phase i w = Managed d c"
  shows "app_phase i (snd (sup_mark_failed i r w)) = GivenUp"
proof -
  have "has_process i w"
    using assms(2) by (auto simp: app_phase_def has_process_def split: option.splits if_splits)
  with assms(1) have "faults w = []" "i \<in> app_id ` set (apps w)" by (auto simp: calm_def)
  then have "map_of (statuses (apps (snd (sup_mark_failed i r w)))) i = Some Failed"
    using update_status_status by (simp add: sup_mark_failed_def remove_process_def modify_def)
  then show ?thesis by (simp add: app_phase_def mark_failed_processes)
qed

text \<open>A restart that the policy asks for happens.\<close>

lemma restart_happens:
  assumes "calm w" and "lookup_process i w = Some p" and "mp_restart_count p < n" and "should_restart p"
    and "mf_command (mp_manifest p) = Some cmd"
  obtains port pid w' where "try_restart_crashed i n w = (Inr (Some (port, pid)), w')"
    and "lookup_process i w' = Some ((new_process port (mp_agent_id p) (mp_user_id p) (mp_manifest p) (mp_credentials p))
           \<lparr>mp_restart_count := Suc (mp_restart_count p)\<rparr>)"
proof -
  let ?w1 = "snd (set_restart_count i (Suc (mp_restart_count p)) w :: (app_error + unit) \<times> 'a app_world_scheme)"
  let ?w2 = "release i ?w1"
  have ok: "ports_ok w" and sp: "spawn_outcomes w = []" using assms(1) by (auto simp: calm_def)
  have ok1: "ports_ok ?w1" using valid_snd [OF keeps_count ok] .
  have l1: "lookup_process i ?w1 = Some (p\<lparr>mp_restart_count := Suc (mp_restart_count p)\<rparr>)"
    and sp1: "spawn_outcomes ?w1 = []" using assms(2) sp
    by (simp_all add: set_restart_count_def modify_def)
  obtain r w3 where run: "start_app i (mp_agent_id p) (mp_user_id p) cmd (mp_manifest p) (mp_credentials p) ?w2 = (r, w3)"
    by (cases "start_app i (mp_agent_id p) (mp_user_id p) cmd (mp_manifest p) (mp_credentials p) ?w2")
  then obtain port pid where r: "r = Inr (port, pid)"
    and l3: "lookup_process i w3 =
      Some (new_process port (mp_agent_id p) (mp_user_id p) (mp_manifest p) (mp_credentials p))"
  proof (cases rule: start_app_run)
    case no_port
    with release_frees [OF ok1 l1] show ?thesis by simp
  next
    case (no_child e rs q)
    with sp1 show ?thesis by simp
  next
    case (started pid rs q)
    then show ?thesis using that by (simp add: lookup_process_def update_conv')
  qed
  have "try_restart_crashed i n w =
      qbind (start_app i (mp_agent_id p) (mp_user_id p) cmd (mp_manifest p) (mp_credentials p)) (\<lambda>r.
        qbind (set_restart_count i (Suc (mp_restart_count p))) (\<lambda>_. ret (Some r))) ?w2"
    using assms(2-5) by (simp add: try_restart_crashed_def set_restart_count_def stop_app_def modify_def)
  also have "\<dots> = (Inr (Some (port, pid)),
      snd (set_restart_count i (Suc (mp_restart_count p)) w3 :: (app_error + unit) \<times> 'a app_world_scheme))"
    using run r by (simp add: qbind_def set_restart_count_def modify_def ret_def)
  finally show ?thesis
    by (rule that) (simp add: set_restart_count_def modify_def l3)
qed

lemma lookup_update_app [simp]: "lookup_process j (snd (update_app i f w)) = lookup_process j w"
proof -
  have "keeps (\<lambda>v. lookup_process j v = lookup_process j w) (update_app i f)"
    unfolding update_app_def repo_find_by_id_def repo_update_def
    by (intro keep_rules keeps_db_read keeps_db_write) simp_all
  from valid_snd [OF this refl] show ?thesis .
qed

lemma lookup_update_status [simp]: "lookup_process j (snd (update_status i st p q w)) = lookup_process j w"
  by (simp add: update_status_def)

lemma start_dead_phase:
  assumes "calm w" and "app_restartable i w" and "app_phase i w = Managed True c" and "c < n"
  shows "app_phase i (snd (sup_start lib n i w)) = Managed False (Suc c)
    \<and> app_restartable i (snd (sup_start lib n i w))"
proof -
  obtain p where p: "lookup_process i w = Some p" "mp_restart_count p = c" "mp_child p \<noteq> ChildRunning"
    using assms(3) by (auto simp: app_phase_def split: option.splits if_splits)
  with assms(2) obtain cmd where cmd: "mf_command (mp_manifest p) = Some cmd"
    and pol: "effective_restart_policy (mp_manifest p) = ''always''
       \<or> effective_restart_policy (mp_manifest p) = ''on_failure'' \<and> mp_child p \<noteq> ChildExited True"
    by (auto simp: app_restartable_def)
  then have "should_restart p" by (auto simp: should_restart_def Let_def split: child_state.split)
  moreover have "mp_restart_count p < n" using p(2) assms(4) by simp
  ultimately obtain port pid w1 where run: "try_restart_crashed i n w = (Inr (Some (port, pid)), w1)"
    and l1: "lookup_process i w1 = Some ((new_process port (mp_agent_id p) (mp_user_id p) (mp_manifest p) (mp_credentials p))
           \<lparr>mp_restart_count := Suc (mp_restart_count p)\<rparr>)"
    using restart_happens [OF assms(1) p(1) _ _ cmd] by blast
  have "snd (sup_start lib n i w) = snd (update_status i Running (Some port) (Some pid) w1)"
    using p(1) run by (simp add: sup_start_def has_process_def qbind_Inr ignore_def)
  with l1 p(2) cmd pol show ?thesis
    by (auto simp: app_phase_def app_restartable_def new_process_def)
qed

lemma get_quietly_calm: "calm w \<Longrightarrow> get_quietly i w = (find_row app_id i (apps w), w)"
  by (simp add: calm_def get_quietly_def get_app_def repo_find_by_id_def db_read_no_fault)

lemma phase_notified [simp]:
  "calm (w\<lparr>notifications := ns\<rparr>) = calm w" "app_phase j (w\<lparr>notifications := ns\<rparr>) = app_phase j w"
  "app_restartable j (w\<lparr>notifications := ns\<rparr>) = app_restartable j w"
  "calm (w\<lparr>system_messages := ms\<rparr>) = calm w" "app_phase j (w\<lparr>system_messages := ms\<rparr>) = app_phase j w"
  "app_restartable j (w\<lparr>system_messages := ms\<rparr>) = app_restartable j w"
  "calm (w\<lparr>fix_tasks := ts\<rparr>) = calm w" "app_phase j (w\<lparr>fix_tasks := ts\<rparr>) = app_phase j w"
  "app_restartable j (w\<lparr>fix_tasks := ts\<rparr>) = app_restartable j w"
  by (simp_all add: calm_def app_phase_def app_restartable_def has_process_def)

lemma notify_calm:
  assumes "calm w"
  shows "\<exists>ns. snd (send_notification (app_supervisor lib cp n) i act l t b w) = w\<lparr>notifications := ns\<rparr>"
proof -
  have f: "faults w = []" using assms by (simp add: calm_def)
  have "\<exists>r. sup_owner_of i w = (r, w)"
    using f by (auto simp: sup_owner_of_def get_app_def repo_find_by_id_def qbind_def db_read_no_fault ok_or_def
        fail_def ret_def split: option.split)
  then obtain r where r: "sup_owner_of i w = (r, w)" ..
  have n: "\<exists>d. sup_notification_data i act w = (d, w)"
    using get_quietly_calm [OF assms] by (simp add: sup_notification_data_def)
  show ?thesis
  proof (cases r)
    case (Inl e)
    with r show ?thesis
      by (intro exI [of _ "notifications w"]) (simp add: send_notification_def app_supervisor_def ret_def)
  next
    case (Inr u)
    with r n f show ?thesis
      by (auto simp: send_notification_def app_supervisor_def ignore_def create_and_notify_def db_write_no_fault)
  qed
qed

lemma crash_fix_calm:
  assumes "calm w"
  shows "calm (snd (update_crash_fix_attempts i n w)) \<and> app_phase j (snd (update_crash_fix_attempts i n w)) = app_phase j w
    \<and> app_restartable j (snd (update_crash_fix_attempts i n w)) = app_restartable j w"
proof -
  let ?w = "snd (update_crash_fix_attempts i n w)"
  have on: "on_app i (update_crash_fix_attempts i n)" by (rule on_supervisor)
  have l: "lookup_process k ?w = lookup_process k w" for k by (simp add: update_crash_fix_attempts_def)
  have "calm ?w"
    by (rule calm_frame [OF on assms keeps_ports_update(2)]) (simp add: has_process_def l)
  moreover have "map_of (statuses (apps ?w)) j = map_of (statuses (apps w)) j"
  proof (cases "find_row app_id i (apps w)")
    case None
    with assms show ?thesis
      by (simp add: calm_def update_crash_fix_attempts_def update_app_def repo_find_by_id_def qbind_def
          db_read_no_fault ret_def)
  next
    case (Some a)
    with assms find_row_Some [OF Some] show ?thesis
      by (auto simp: calm_def update_crash_fix_attempts_def update_app_def repo_find_by_id_def repo_update_def
          qbind_def db_read_no_fault db_write_no_fault ret_def gets_def find_row_status find_row_update)
  qed
  ultimately show ?thesis by (simp add: app_phase_def app_restartable_def l)
qed

lemma auto_fix_calm:
  assumes "calm w"
  shows "calm (snd (sup_attempt_auto_fix cp i w)) \<and> app_phase j (snd (sup_attempt_auto_fix cp i w)) = app_phase j w
    \<and> app_restartable j (snd (sup_attempt_auto_fix cp i w)) = app_restartable j w"
proof (rule auto_fix_closed [where P = "\<lambda>v. calm v \<and> app_phase j v = app_phase j w \<and> app_restartable j v = app_restartable j w"])
  show "calm (snd (save_system_message c m v)) \<and> app_phase j (snd (save_system_message c m v)) = app_phase j w
      \<and> app_restartable j (snd (save_system_message c m v)) = app_restartable j w"
    if "calm v \<and> app_phase j v = app_phase j w \<and> app_restartable j v = app_restartable j w" for c m v
    using that by (auto simp: calm_def [of v] save_system_message_def db_write_no_fault)
qed (use assms in \<open>auto simp: get_quietly_calm crash_fix_calm\<close>)

lemma phase_dead: "(\<exists>c. app_phase i w = Managed True c) \<longleftrightarrow> (\<exists>p. lookup_process i w = Some p \<and> mp_child p \<noteq> ChildRunning)"
  by (auto simp: app_phase_def split: option.split)

interpretation app_loop: restart_loop "app_supervisor lib crash_prompt n" n app_phase app_restartable calm
  for lib crash_prompt n
proof
  fix w :: "'a app_world_scheme" assume c: "calm w"
  let ?sv = "app_supervisor lib crash_prompt n"
  have d: "distinct (map fst (processes w))" using c by (simp add: calm_def ports_ok_def)
  have "set (filter (\<lambda>i. case check_process i w of Dead s \<Rightarrow> True | _ \<Rightarrow> False) (get_managed_app_ids w))
      = {i. \<exists>c. app_phase i w = Managed True c}"
    unfolding phase_dead
    by (force simp: get_managed_app_ids_def check_process_def lookup_process_def
        split: option.splits child_state.splits dest: map_of_SomeD)
  with d show "\<exists>ids. sv_find_dead ?sv w = (Inr ids, w) \<and> distinct ids \<and> set ids = {i. \<exists>c. app_phase i w = Managed True c}"
    by (simp add: app_supervisor_def sup_find_dead_def gets_def get_managed_app_ids_def)
next
  show "sv_restart_count (app_supervisor lib crash_prompt n) i w = c"
    if "app_phase i w = Managed d c" for i d c and w :: "'a app_world_scheme"
    using that by (auto simp: app_supervisor_def restart_count_for_def app_phase_def split: option.splits if_splits)
next
  show "snd (sv_display_name (app_supervisor lib crash_prompt n) i w) = w" if "calm w" for i and w :: "'a app_world_scheme"
    using that by (simp add: app_supervisor_def sup_display_name_def get_quietly_calm)
next
  fix w w' :: "'a app_world_scheme" and i act l t b j
  assume c: "calm w" and w': "w' = snd (send_notification (app_supervisor lib crash_prompt n) i act l t b w)"
  obtain ns where "w' = w\<lparr>notifications := ns\<rparr>" using notify_calm [OF c] w' by blast
  with c show "calm w' \<and> app_phase j w' = app_phase j w \<and> app_restartable j w' = app_restartable j w" by simp
qed (simp_all add: app_supervisor_def start_dead_phase phase_frame [OF on_sup(1)] phase_frame [OF on_sup(2)]
    calm_start calm_failed failed_phase auto_fix_calm)

section \<open>Crash loops\<close>

text \<open>What the children are found doing at a tick.\<close>

definition find_children :: "(string \<Rightarrow> child_state) \<Rightarrow> 'w app_world_scheme \<Rightarrow> 'w app_world_scheme" where
  "find_children cs w = w\<lparr>processes := map (\<lambda>(j, p). (j, p\<lparr>mp_child := cs j\<rparr>)) (processes w)\<rparr>"

definition tick_after ::
    "manifest_lib \<Rightarrow> (string \<Rightarrow> string \<Rightarrow> string option) \<Rightarrow> nat \<Rightarrow> 'w app_world_scheme \<Rightarrow> (string \<Rightarrow> child_state)
     \<Rightarrow> 'w app_world_scheme" where
  "tick_after lib cp n w cs = snd (health_tick (app_supervisor lib cp n) n (find_children cs w))"

lemma lookup_children:
  "lookup_process i (find_children cs w) = map_option (mp_child_update (\<lambda>_. cs i)) (lookup_process i w)"
proof -
  have "map_of (map (\<lambda>(j, p). (j, p\<lparr>mp_child := cs j\<rparr>)) ps) i = map_option (mp_child_update (\<lambda>_. cs i)) (map_of ps i)"
    for ps :: "(string \<times> managed_process) list"
    by (induction ps) auto
  then show ?thesis by (simp add: lookup_process_def find_children_def)
qed

lemma calm_children: "calm w \<Longrightarrow> calm (find_children cs w)"
proof -
  assume c: "calm w"
  have "ports_ok (find_children cs w)"
  proof (rule ports_ok_same)
    show "ports_ok w" using c by (simp add: calm_def)
    show "get_process_port i (find_children cs w) = get_process_port i w" for i
      by (simp add: get_process_port_def lookup_children option.map_comp o_def)
  qed (simp_all add: find_children_def split_beta)
  with c show ?thesis by (simp add: calm_def has_process_def lookup_children) (simp add: find_children_def)
qed

lemma apps_children [simp]: "apps (find_children cs w) = apps w"
  by (simp add: find_children_def)

lemma children_killed:
  "cs i \<noteq> ChildRunning \<Longrightarrow> app_phase i (find_children cs w) = killed (app_phase i w)"
  "cs i = ChildExited False \<or> cs i = WaitError \<Longrightarrow> app_restartable i w \<Longrightarrow> app_restartable i (find_children cs w)"
  by (auto simp: app_phase_def app_restartable_def lookup_children split: option.splits)

text \<open>
  C1. A crash loop ends. (\<open>calm\<close>: no fault, every spawn succeeds, every managed app has its
  row.) An app with a command whose policy is to restart it and that is found crashed at every
  tick is restarted at each of them, with its count of restarts growing by one, until the count
  is the configured maximum; the next tick gives it up: it is not managed any more, its row says
  \<open>Failed\<close>, and no later tick starts it again, whatever the other apps do meanwhile.
\<close>

theorem crash_loop_ends:
  assumes "calm w" and "lookup_process i w = Some p" and "app_restartable i w" and "mp_restart_count p \<le> n"
    and "css \<noteq> []" and "\<forall>cs \<in> set css. cs i = ChildExited False \<or> cs i = WaitError"
    and "v = foldl (tick_after lib cp n) w css"
  shows "if mp_restart_count p + length css \<le> n
         then \<exists>q. lookup_process i v = Some q \<and> mp_child q = ChildRunning
                \<and> mp_restart_count q = mp_restart_count p + length css
         else lookup_process i v = None \<and> (\<exists>a. find_row app_id i (apps v) = Some a \<and> app_status a = Failed)"
proof -
  have phase: "app_phase i w = Managed (mp_child p \<noteq> ChildRunning) (mp_restart_count p)"
    using assms(2) by (simp add: app_phase_def)
  have kills: "\<forall>f \<in> set (map find_children css). \<forall>v. calm v \<longrightarrow>
      calm (f v) \<and> app_phase i (f v) = killed (app_phase i v) \<and> (app_restartable i v \<longrightarrow> app_restartable i (f v))"
    using assms(6) by (auto simp: calm_children intro!: children_killed)
  note app_loop.crash_loop [where lib = lib and crash_prompt = cp, OF assms(1,3) phase assms(4) kills refl]
  then have "app_phase i v =
      (if mp_restart_count p + length css \<le> n then Managed False (mp_restart_count p + length css) else GivenUp)"
    using assms(5,7) by (simp add: foldl_map tick_after_def [abs_def] split: if_splits)
  then show ?thesis
    by (auto simp: app_phase_def find_row_status split: option.splits if_splits)
qed

text \<open>A world with one app that is running, for the witnesses.\<close>

definition demo_manifest :: app_manifest where
  "demo_manifest = \<lparr>mf_handle = ''shop'', mf_name = ''Shop'', mf_description = None, mf_kind = None,
     mf_command = Some ''serve'', mf_restart_policy = None, mf_health_check = None, mf_static_dir = None,
     mf_expose = None, mf_hibernate = None\<rparr>"

definition demo_process :: managed_process where
  "demo_process = new_process 4000 ''agent'' ''user'' demo_manifest []"

definition demo_app :: app where
  "demo_app = \<lparr>app_id = ''a'', app_agent_id = ''agent'', app_user_id = ''user'', app_handle = ''shop'',
     app_name = ''Shop'', app_description = None, app_kind = ''service'', app_command = Some ''serve'',
     app_static_dir = None, app_port = Some 4000, app_status = Running, app_pid = Some 1,
     app_manifest = JNull, app_chat_id = ''c'', crash_fix_attempts = 0, app_last_accessed_at = None,
     app_created_at = 0, app_updated_at = 0\<rparr>"

definition demo_world :: app_world where
  "demo_world = \<lparr>faults = [], clock = 0, duplicate_text = (\<lambda>i. []), notifications = [], apps = [demo_app],
     processes = [(''a'', demo_process)], allocated_ports = {4000}, port_range = (4000, 4002),
     last_accessed = Map.empty, spawn_outcomes = [], handles = (\<lambda>u. None), system_messages = [],
     fix_tasks = []\<rparr>"

definition demo_lib :: manifest_lib where
  "demo_lib = \<lparr>to_json = (\<lambda>m. Inr JNull), from_json = (\<lambda>j. Inr demo_manifest)\<rparr>"

lemma demo_sel [simp]:
  "faults demo_world = []" "clock demo_world = 0" "apps demo_world = [demo_app]"
  "processes demo_world = [(''a'', demo_process)]" "allocated_ports demo_world = {4000}"
  "port_range demo_world = (4000, 4002)" "spawn_outcomes demo_world = []" "notifications demo_world = []"
  "app_id demo_app = ''a''" "app_agent_id demo_app = ''agent''" "app_user_id demo_app = ''user''"
  "app_handle demo_app = ''shop''" "app_status demo_app = Running" "mp_port demo_process = 4000"
  "mp_restart_count demo_process = 0" "mp_child demo_process = ChildRunning"
  "mp_manifest demo_process = demo_manifest" "mf_command demo_manifest = Some ''serve''"
  "mf_handle demo_manifest = ''shop''" "effective_restart_policy demo_manifest = ''on_failure''"
  by (simp_all add: demo_world_def demo_app_def demo_process_def new_process_def demo_manifest_def
      effective_restart_policy_def)

lemma demo_lookup [simp]: "lookup_process i demo_world = (if i = ''a'' then Some demo_process else None)"
  by (simp add: lookup_process_def)

lemma demo_ports: "ports_ok demo_world"
  by (auto simp: ports_ok_def split: if_splits)

lemma demo_calm: "calm demo_world"
  by (simp add: calm_def demo_ports has_process_def)

theorem crash_loop_ends_witness:
  "\<exists>v :: app_world. v = foldl (tick_after demo_lib
       (\<lambda>a b. None) 1) demo_world [\<lambda>j. ChildExited False, \<lambda>j. WaitError]
     \<and> lookup_process ''a'' v = None \<and> (\<exists>a. find_row app_id ''a'' (apps v) = Some a \<and> app_status a = Failed)"
  using crash_loop_ends [where i = "''a''" and n = 1, OF demo_calm _ _ _ _ _ refl,
      of demo_process "[\<lambda>j. ChildExited False, \<lambda>j. WaitError]"
         "demo_lib" "\<lambda>a b. None"]
  by (simp add: app_restartable_def)

section \<open>Failed spawns\<close>

definition free_ports :: "'w app_world_scheme \<Rightarrow> nat set" where
  "free_ports w = {fst (port_range w)..<snd (port_range w)} - allocated_ports w"

lemma failed_start:
  assumes "spawn_outcomes w = Inl e # rs" and "w' = snd (start_app i ag u cmd mf cr w)" and "ports_ok w"
  shows "processes w' = processes w \<and> ports_ok w' \<and> port_range w' = port_range w
    \<and> (if free_ports w = {} then w' = w
       else spawn_outcomes w' = rs \<and> card (free_ports w') = card (free_ports w) - 1)"
proof -
  obtain r where run: "start_app i ag u cmd mf cr w = (r, w')"
    using assms(2) by (cases "start_app i ag u cmd mf cr w") simp
  have ok: "ports_ok w'" using validD [OF keeps_start assms(3) run] .
  from run show ?thesis
  proof (cases rule: start_app_run)
    case no_port
    then show ?thesis using ok by (auto simp: free_ports_def)
  next
    case (no_child e' rs' p)
    then have "p \<in> free_ports w" and "free_ports w' = free_ports w - {p}" by (auto simp: free_ports_def)
    with no_child ok assms(1) show ?thesis by auto
  next
    case (started pid rs' p)
    have False using started(1) run assms(1)
      by (auto simp: start_app_def spawn_process_def allocate_port_def qbind_def split: option.splits)
    then show ?thesis ..
  qed
qed

lemma no_free_port:
  "free_ports w = {} \<Longrightarrow> start_app i ag u cmd mf cr w = (Inl (Internal ''No available ports in range''), w)"
proof -
  assume none: "free_ports w = {}"
  obtain r w' where run: "start_app i ag u cmd mf cr w = (r, w')" by (cases "start_app i ag u cmd mf cr w")
  then show ?thesis by (cases rule: start_app_run) (use none run in \<open>auto simp: free_ports_def\<close>)
qed

text \<open>
  A start whose spawn fails keeps the port it took. After as many failed starts as there
  were free ports, no app can be started any more, although the table of processes has not
  changed; only a restart of the server gives the ports back.
\<close>

theorem failed_spawns_use_up_the_ports:
  assumes "ports_ok w" and "spawn_outcomes w = map Inl es @ rs" and "card (free_ports w) \<le> length es"
    and "v = ((\<lambda>w. snd (start_app i agent_id user_id command manifest creds w)) ^^ length es) w"
  shows "processes v = processes w
    \<and> start_app j agent_id' user_id' command' manifest' creds' v = (Inl (Internal ''No available ports in range''), v)"
proof -
  have "processes v = processes w \<and> free_ports v = {}"
    using assms
  proof (induction es arbitrary: w)
    case Nil
    then show ?case by (simp add: free_ports_def)
  next
    case (Cons e es)
    let ?w = "snd (start_app i agent_id user_id command manifest creds w)"
    have step: "processes ?w = processes w \<and> ports_ok ?w \<and> port_range ?w = port_range w
      \<and> (if free_ports w = {} then ?w = w
         else spawn_outcomes ?w = map Inl es @ rs \<and> card (free_ports ?w) = card (free_ports w) - 1)"
      by (rule failed_start [OF _ refl Cons.prems(1)]) (use Cons.prems(2) in simp)
    have v: "v = ((\<lambda>w. snd (start_app i agent_id user_id command manifest creds w)) ^^ length es) ?w"
      using Cons.prems(4) by (simp del: funpow.simps add: funpow_Suc_right)
    show ?case
    proof (cases "free_ports w = {}")
      case True
      then have "((\<lambda>w. snd (start_app i agent_id user_id command manifest creds w)) ^^ k) w = w" for k
        by (induction k) (simp_all add: no_free_port)
      with True Cons.prems(4) show ?thesis by (simp only: True)
    next
      case False
      have "finite (free_ports w)" by (simp add: free_ports_def)
      with False Cons.prems(3) step have "card (free_ports ?w) \<le> length es"
        by (simp add: card_gt_0_iff)
      with Cons.IH [of ?w] step v False show ?thesis by simp
    qed
  qed
  then show ?thesis by (simp add: no_free_port)
qed

theorem failed_spawns_witness:
  "\<exists>v :: app_world. processes v = [] \<and> start_app ''b'' ''x'' ''y'' ''z'' demo_manifest [] v
      = (Inl (Internal ''No available ports in range''), v)"
  using failed_spawns_use_up_the_ports [where w = "demo_world\<lparr>processes := [], allocated_ports := {},
      spawn_outcomes := [Inl (Tool ''no''), Inl (Tool ''no'')]\<rparr>" and es = "[Tool ''no'', Tool ''no'']" and rs = "[]"
      and i = "''a''" and j = "''b''" and agent_id = "''x''" and user_id = "''y''" and command = "''z''"
      and manifest = demo_manifest and creds = "[]" and agent_id' = "''x''" and user_id' = "''y''" and command' = "''z''"
      and manifest' = demo_manifest and creds' = "[]", OF _ _ _ refl]
  by (auto simp: ports_ok_def free_ports_def lookup_process_def)

section \<open>Apps nobody manages\<close>

text \<open>
  What the supervisor leaves alone when it works on other apps, whatever fails: the entry of
  \<open>i\<close> in the table of processes, its row, and the leaked ports, reserved for no process.
\<close>

definition leaked :: "nat \<Rightarrow> 'w app_world_scheme \<Rightarrow> bool" where
  "leaked q w \<longleftrightarrow> q \<in> allocated_ports w \<and> (\<forall>j. get_process_port j w \<noteq> Some q)"

definition entry_is ::
    "string \<Rightarrow> managed_process option \<Rightarrow> app option \<Rightarrow> nat set \<Rightarrow> 'w app_world_scheme \<Rightarrow> bool" where
  "entry_is i p a qs w \<longleftrightarrow> lookup_process i w = p \<and> find_row app_id i (apps w) = a \<and> (\<forall>q \<in> qs. leaked q w)"

lemma entry_fields [simp]:
  "entry_is i p a qs (w\<lparr>faults := fs\<rparr>) = entry_is i p a qs w"
  "entry_is i p a qs (w\<lparr>notifications := ns\<rparr>) = entry_is i p a qs w"
  "entry_is i p a qs (w\<lparr>system_messages := ms\<rparr>) = entry_is i p a qs w"
  "entry_is i p a qs (w\<lparr>fix_tasks := ts\<rparr>) = entry_is i p a qs w"
  "entry_is i p a qs (w\<lparr>spawn_outcomes := os\<rparr>) = entry_is i p a qs w"
  "entry_is i p a qs (w\<lparr>clock := c\<rparr>) = entry_is i p a qs w"
  by (simp_all add: entry_is_def leaked_def get_process_port_def lookup_process_def)

lemma entry_release: "entry_is i p a qs w \<Longrightarrow> j \<noteq> i \<Longrightarrow> entry_is i p a qs (release j w)"
  by (auto simp: entry_is_def leaked_def get_process_port_def lookup_release)
    (auto simp: release_def split: option.splits)

lemma entry_start:
  assumes "j \<noteq> i"
  shows "keeps (entry_is i p a qs) (start_app j ag u cmd mf cr)"
proof (rule validI)
  fix w w' :: "'a app_world_scheme" and r
  assume "entry_is i p a qs w" and run: "start_app j ag u cmd mf cr w = (r, w')"
  from run show "entry_is i p a qs w'"
    by (cases rule: start_app_run)
      (use assms \<open>entry_is i p a qs w\<close> in \<open>auto simp: entry_is_def leaked_def get_process_port_def
         lookup_process_def update_conv' new_process_def\<close>)
qed

lemma entry_count: "j \<noteq> i \<Longrightarrow> keeps (entry_is i p a qs) (set_restart_count j n)"
  unfolding set_restart_count_def
  by (rule keeps_modify) (fastforce simp: entry_is_def leaked_def get_process_port_def)

lemma entry_database [keep_rules]: "keeps (entry_is i p a qs) (db_read f)"
  "keeps (entry_is i p a qs) (create_and_notify u d l t b)" "keeps (entry_is i p a qs) (save_system_message c m)"
  unfolding create_and_notify_def save_system_message_def
  by (auto intro!: keeps_db_read keeps_db_write)

lemma entry_update:
  assumes "j \<noteq> i" and "\<And>now a. app_id (f now a) = app_id a"
  shows "keeps (entry_is i p a qs) (update_app j f)"
  unfolding update_app_def
proof (rule valid_qbind [where R = "\<lambda>r w. entry_is i p a qs w \<and> (\<forall>x. r = Inr (Some x) \<longrightarrow> app_id x = j)"])
  show "valid (entry_is i p a qs) (repo_find_by_id apps app_id j :: ('w, app option) app_op)
      (\<lambda>r w. entry_is i p a qs w \<and> (\<forall>x. r = Inr (Some x) \<longrightarrow> app_id x = j))"
    by (rule validI)
      (auto simp: repo_find_by_id_def db_read_def db_call_def split: list.splits option.splits dest: find_row_Some)
  have w: "keeps (entry_is i p a qs) (repo_update apps_update app_id x :: ('w, app) app_op)" if "app_id x = j" for x
    unfolding repo_update_def using that assms(1)
    by (intro keep_rules keeps_db_write)
      (auto simp: entry_is_def leaked_def get_process_port_def lookup_process_def find_row_update)
  show "valid (\<lambda>w. entry_is i p a qs w \<and> (\<forall>x. Inr found = Inr (Some x) \<longrightarrow> app_id x = j))
      (case found of None \<Rightarrow> ret () | Some a \<Rightarrow> qbind (gets clock) (\<lambda>now.
         qbind (repo_update apps_update app_id (f now a)) (\<lambda>_. ret ()))) (\<lambda>_. entry_is i p a qs)"
    for found :: "app option"
  proof (cases "\<exists>x. found = Some x \<and> app_id x = j")
    case True
    then obtain x where x: "found = Some x" "app_id x = j" by blast
    have "keeps (entry_is i p a qs) (qbind (gets clock) (\<lambda>now.
         qbind (repo_update apps_update app_id (f now x)) (\<lambda>_. ret ())))"
      by (intro keep_rules w) (simp add: assms(2) x(2))
    with x show ?thesis by (simp add: valid_def)
  next
    case False
    then show ?thesis by (cases found) (auto simp: valid_def ret_def)
  qed
qed auto

lemma entry_calls [keep_rules]:
  "keeps (entry_is i p a qs) (get_app j)" "keeps (entry_is i p a qs) (sup_owner_of j)"
  unfolding get_app_def repo_find_by_id_def sup_owner_of_def by (intro keep_rules)+

lemma entry_quietly: "entry_is i p a qs w \<Longrightarrow> entry_is i p a qs (snd (get_quietly j w))"
  using validD [OF entry_calls(1), of i p a qs w j]
  by (cases "get_app j w") (simp add: get_quietly_def split: sum.split)

lemma entry_status: "j \<noteq> i \<Longrightarrow> keeps (entry_is i p a qs) (update_status j st q c)"
  "j \<noteq> i \<Longrightarrow> keeps (entry_is i p a qs) (update_crash_fix_attempts j n)"
  unfolding update_status_def update_crash_fix_attempts_def by (auto intro!: entry_update)

lemma entry_restart: "j \<noteq> i \<Longrightarrow> keeps (entry_is i p a qs) (try_restart_crashed j n)"
  unfolding try_restart_crashed_def stop_app_def
  by (intro keep_rules entry_start entry_count keeps_modify entry_release)

lemma entry_sup_start: "j \<noteq> i \<Longrightarrow> keeps (entry_is i p a qs) (sup_start lib n j)"
  unfolding sup_start_def
  by (intro keep_rules entry_start entry_restart entry_status)

lemma entry_failed: "j \<noteq> i \<Longrightarrow> keeps (entry_is i p a qs) (sup_mark_failed j r)"
  unfolding sup_mark_failed_def remove_process_def
  by (intro keep_rules entry_status keeps_modify entry_release)

lemma get_quietly_id: "get_quietly j w = (Some x, w') \<Longrightarrow> app_id x = j"
  by (auto simp: get_quietly_def get_app_def repo_find_by_id_def db_read_def db_call_def
      split: prod.splits sum.splits list.splits option.splits dest: find_row_Some)

lemma entry_auto_fix:
  assumes "j \<noteq> i" and "entry_is i p a qs w"
  shows "entry_is i p a qs (snd (sup_attempt_auto_fix cp j w))"
proof (cases "get_quietly j w")
  case (Pair x w1)
  have w1: "entry_is i p a qs w1" using entry_quietly [OF assms(2), of j] Pair by simp
  show ?thesis
  proof (cases x)
    case None
    with Pair w1 show ?thesis by (simp add: sup_attempt_auto_fix_def)
  next
    case (Some y)
    with Pair get_quietly_id have y: "app_id y = j" by simp
    obtain z w2 where g: "get_quietly j w1 = (z, w2)" by (cases "get_quietly j w1")
    with entry_quietly [OF w1, of j] have w2: "entry_is i p a qs w2" by simp
    have "app_id b = j" if "z = Some b" for b using g that get_quietly_id by simp
    then have w3: "entry_is i p a qs (case z of None \<Rightarrow> w2
        | Some b \<Rightarrow> snd (update_crash_fix_attempts (app_id b) (Suc (crash_fix_attempts b)) w2))"
      using valid_snd [OF entry_status(2) [OF assms(1)] w2] w2 by (cases z) simp_all
    show ?thesis
      using Pair Some y g w1 w3 valid_snd [OF entry_database(3) w3]
      by (simp add: sup_attempt_auto_fix_def Let_def split: option.split)
  qed
qed

lemma entry_check:
  assumes "j \<noteq> i"
  shows "keeps (entry_is i p a qs) (check_dead (app_supervisor lib cp n) m j)"
  unfolding check_dead_def send_notification_def app_supervisor_def supervisor.simps
  by (intro keep_rules keeps_always entry_sup_start entry_failed entry_auto_fix assms)
    (simp_all add: sup_display_name_def sup_notification_data_def split_beta entry_quietly)

lemma entry_checks:
  "i \<notin> set ids \<Longrightarrow> keeps (entry_is i p a qs) (for_each ids (check_dead (app_supervisor lib cp n) m))"
  by (induction ids) (auto intro: keep_rules entry_check)

text \<open>The dead apps of a tick, in its order, and the world in which the turn of \<open>i\<close> comes.\<close>

definition dead_apps :: "'w app_world_scheme \<Rightarrow> string list" where
  "dead_apps w = filter (\<lambda>i. case check_process i w of Dead s \<Rightarrow> True | _ \<Rightarrow> False) (get_managed_app_ids w)"

definition before_turn ::
    "manifest_lib \<Rightarrow> (string \<Rightarrow> string \<Rightarrow> string option) \<Rightarrow> nat \<Rightarrow> string \<Rightarrow> 'w app_world_scheme
     \<Rightarrow> 'w app_world_scheme" where
  "before_turn lib cp n i w =
     snd (for_each (takeWhile (\<lambda>j. j \<noteq> i) (dead_apps w)) (check_dead (app_supervisor lib cp n) n) w)"

text \<open>A later tick: what the children do, which calls fail and what the spawns give is free.\<close>

definition later_tick ::
    "manifest_lib \<Rightarrow> (string \<Rightarrow> string \<Rightarrow> string option) \<Rightarrow> nat \<Rightarrow> 'w app_world_scheme
     \<Rightarrow> (string \<Rightarrow> child_state) \<times> string option list \<times> (app_error + nat) list \<times> int \<Rightarrow> 'w app_world_scheme" where
  "later_tick lib cp n w = (\<lambda>(cs, fs, os, now). snd (health_tick (app_supervisor lib cp n) n
     ((find_children cs w)\<lparr>faults := fs, spawn_outcomes := os, clock := now\<rparr>)))"

lemma health_tick_dead:
  "snd (health_tick (app_supervisor lib cp n) m w) =
     snd (for_each (dead_apps w) (check_dead (app_supervisor lib cp n) m) w)"
  by (simp add: health_tick_def app_supervisor_def sup_find_dead_def gets_def dead_apps_def)

lemma checks_append:
  "snd (for_each (xs @ ys) (check_dead sv m) w) =
     snd (for_each ys (check_dead sv m) (snd (for_each xs (check_dead sv m) w)))"
  by (induction xs arbitrary: w) (simp_all add: total_step [OF total_check_dead] ret_def)

lemma display_name_quiet: "\<exists>fs. snd (sup_display_name i w) = w\<lparr>faults := fs\<rparr>"
proof -
  obtain r w1 where g: "get_app i w = (r, w1)" by (cases "get_app i w")
  then have "\<exists>fs. w1 = w\<lparr>faults := fs\<rparr>"
    by (auto simp: get_app_def repo_find_by_id_def db_read_def db_call_def split: list.splits option.splits
        intro: exI [of _ "[]"])
  with g show ?thesis by (auto simp: sup_display_name_def get_quietly_def split: sum.split)
qed

text \<open>The turn of an app whose spawn fails.\<close>

lemma failed_turn:
  assumes "ports_ok u" and "lookup_process i u = Some p" and "should_restart p" and "mp_restart_count p < n"
    and "mf_command (mp_manifest p) = Some cmd" and "spawn_outcomes u = Inl e # rs"
    and "v = snd (check_dead (app_supervisor lib cp n) n i u)"
  obtains q where "entry_is i None (find_row app_id i (apps u)) {q} v" and "notifications v = notifications u"
    and "allocated_ports v = insert q (allocated_ports u - {mp_port p})"
proof -
  obtain fs where fs: "snd (sup_display_name i u) = u\<lparr>faults := fs\<rparr>" using display_name_quiet by blast
  let ?w = "u\<lparr>faults := fs\<rparr>"
  let ?w1 = "?w\<lparr>processes := AList.map_entry i (mp_restart_count_update (\<lambda>_. Suc (mp_restart_count p))) (processes ?w)\<rparr>"
  let ?w2 = "release i ?w1"
  have l: "lookup_process i ?w = Some p" and ok: "ports_ok ?w"
    using assms(1,2) by (simp_all add: ports_ok_def)
  have ok1: "ports_ok ?w1" using valid_snd [OF keeps_count ok, of i "Suc (mp_restart_count p)"]
    by (simp add: set_restart_count_def modify_def)
  have l1: "lookup_process i ?w1 = Some (p\<lparr>mp_restart_count := Suc (mp_restart_count p)\<rparr>)"
    using assms(2) by (simp add: lookup_process_def map_of_map_entry)
  then have w2: "allocated_ports ?w2 = allocated_ports u - {mp_port p}" "notifications ?w2 = notifications u"
    "apps ?w2 = apps u" "spawn_outcomes ?w2 = Inl e # rs"
    using assms(6) by (simp_all add: release_def del: lookup_process_simps)
  have ok2: "ports_ok ?w2" "lookup_process i ?w2 = None"
    using ports_ok_release [OF ok1] by (simp_all add: lookup_release)
  obtain r v' where run: "start_app i (mp_agent_id p) (mp_user_id p) cmd (mp_manifest p) (mp_credentials p) ?w2 = (r, v')"
    by (cases "start_app i (mp_agent_id p) (mp_user_id p) cmd (mp_manifest p) (mp_credentials p) ?w2")
  then obtain q where q: "r = Inl e" "q \<notin> allocated_ports ?w2"
    "v' = ?w2\<lparr>allocated_ports := insert q (allocated_ports ?w2), spawn_outcomes := rs\<rparr>"
  proof (cases rule: start_app_run)
    case no_port
    with release_frees [OF ok1 l1] show ?thesis by simp
  next
    case (no_child e' rs' q)
    with that [of q] w2(4) show ?thesis by simp
  next
    case (started pid rs' q)
    with run w2(4) have False
      by (auto simp: start_app_def spawn_process_def allocate_port_def qbind_def split: option.splits)
    then show ?thesis ..
  qed
  have "try_restart_crashed i n ?w = (Inl e, v')"
    using l assms(3-5) run q(1) by (simp add: try_restart_crashed_def set_restart_count_def stop_app_def qbind_Inl)
  then have "snd (sup_start lib n i ?w) = v'"
    using l by (simp add: sup_start_def has_process_def qbind_Inl)
  moreover have "restart_count_for i ?w = mp_restart_count p" using l by (simp add: restart_count_for_def)
  ultimately have v: "v = v'"
    using fs assms(4,7) by (simp add: check_dead_def app_supervisor_def ignore_def)
  have "leaked q v'"
    using q(2) ok2(1) by (auto simp: q(3) leaked_def get_process_port_def ports_ok_def)
  then have "entry_is i None (find_row app_id i (apps u)) {q} v"
    using w2 ok2 by (simp add: v q(3) entry_is_def)
  then show ?thesis using that [of q] w2 by (simp add: v q(3))
qed

lemma tick_leaves_unmanaged:
  assumes "entry_is i None a qs w"
  shows "entry_is i None a qs (snd (health_tick (app_supervisor lib cp n) m w))"
proof -
  have "i \<notin> set (dead_apps w)"
    using assms by (auto simp: dead_apps_def check_process_def entry_is_def)
  from valid_snd [OF entry_checks [OF this] assms] show ?thesis by (simp add: health_tick_dead)
qed

lemma entry_children: "entry_is i None a qs w \<Longrightarrow> entry_is i None a qs (find_children cs w)"
proof -
  have "get_process_port j (find_children cs w) = get_process_port j w" for j
    by (simp add: get_process_port_def lookup_children option.map_comp o_def)
  moreover assume "entry_is i None a qs w"
  ultimately show ?thesis
    by (simp add: entry_is_def leaked_def lookup_children) (simp add: find_children_def)
qed

lemma later_ticks_leave_unmanaged:
  "entry_is i None a qs w \<Longrightarrow> entry_is i None a qs (foldl (later_tick lib cp n) w es)"
  by (induction es arbitrary: w) (auto simp: later_tick_def entry_children tick_leaves_unmanaged)

text \<open>
  C35. A restart whose spawn fails is forgotten. The tick finds the app dead, its policy asks
  for a restart and its count of restarts is below the maximum; when its turn comes, after the
  other dead apps before it, the spawn fails. (Other apps may be managed, alive or dead, and
  calls to the database may fail.) The supervisor has removed the crashed process before it
  tried to start it again, so the app is managed by nobody: the turn sends no notification, the
  row of the app still says what it said, and the port reserved for the new process stays
  reserved for nobody; and so it stays at every later tick, whatever the children, the database
  and the spawns do.
\<close>

theorem failed_restart_is_forgotten:
  assumes "ports_ok w" and "lookup_process i w = Some p" and "mp_child p \<noteq> ChildRunning" and "should_restart p"
    and "mp_restart_count p < n" and "mf_command (mp_manifest p) = Some cmd"
    and "u = before_turn lib cp n i w" and "spawn_outcomes u = Inl e # rs"
    and "v = foldl (later_tick lib cp n) (snd (health_tick (app_supervisor lib cp n) n w)) es"
  shows "lookup_process i v = None \<and> find_row app_id i (apps v) = find_row app_id i (apps w)
    \<and> notifications (snd (check_dead (app_supervisor lib cp n) n i u)) = notifications u
    \<and> (\<exists>q. q \<in> allocated_ports v \<and> (\<forall>j. get_process_port j v \<noteq> Some q))"
proof -
  let ?sv = "app_supervisor lib cp n" and ?a = "find_row app_id i (apps w)"
  let ?xs = "takeWhile (\<lambda>j. j \<noteq> i) (dead_apps w)"
  have "i \<in> set (dead_apps w)"
    using assms(2,3) by (auto simp: dead_apps_def check_process_def get_managed_app_ids_def lookup_process_def
        split: child_state.split dest: map_of_SomeD intro: rev_image_eqI)
  then obtain xs ys where parts: "dead_apps w = xs @ i # ys" "i \<notin> set xs" by (meson split_list_first)
  then have "?xs = xs" by (auto simp: takeWhile_append)
  moreover have "distinct (dead_apps w)"
    using assms(1) by (simp add: dead_apps_def get_managed_app_ids_def ports_ok_def)
  ultimately have ys: "dead_apps w = ?xs @ i # ys" and i: "i \<notin> set ?xs" "i \<notin> set ys"
    using parts by auto
  have u: "entry_is i (Some p) ?a {} u"
    unfolding assms(7) before_turn_def
    by (rule valid_snd [OF entry_checks [OF i(1)]]) (simp add: entry_is_def assms(2))
  have ok: "ports_ok u"
    unfolding assms(7) before_turn_def
    by (rule valid_snd [where P = ports_ok]) (intro keep_rules keeps_ticks [OF sup_keeps_ports] assms(1))+
  have "lookup_process i u = Some p" using u by (simp add: entry_is_def)
  then obtain q where q: "entry_is i None (find_row app_id i (apps u)) {q} (snd (check_dead ?sv n i u))"
    and quiet: "notifications (snd (check_dead ?sv n i u)) = notifications u"
    by (rule failed_turn [OF ok _ assms(4-6,8) refl])
  have tick: "snd (health_tick ?sv n w) = snd (for_each ys (check_dead ?sv n) (snd (check_dead ?sv n i u)))"
    unfolding health_tick_dead by (subst ys, subst checks_append)
      (simp add: total_step [OF total_check_dead] assms(7) before_turn_def)
  have "entry_is i None ?a {q} (snd (health_tick ?sv n w))"
    unfolding tick using q u by (intro valid_snd [OF entry_checks [OF i(2)]]) (simp add: entry_is_def)
  then have "entry_is i None ?a {q} v" unfolding assms(9) by (rule later_ticks_leave_unmanaged)
  with quiet show ?thesis by (auto simp: entry_is_def leaked_def)
qed

text \<open>A crashed app beside one that runs, with the first call to the database failing.\<close>

definition failing_world :: app_world where
  "failing_world = demo_world\<lparr>processes := [(''a'', demo_process\<lparr>mp_child := WaitError\<rparr>),
       (''b'', demo_process\<lparr>mp_port := 4001\<rparr>)],
     allocated_ports := {4000, 4001}, faults := [Some ''no''], spawn_outcomes := [Inl (Tool ''no'')]\<rparr>"

theorem failed_restart_witness:
  "\<exists>v :: app_world. v = foldl (later_tick demo_lib (\<lambda>a b. None) 2)
         (snd (health_tick (app_supervisor demo_lib (\<lambda>a b. None) 2) 2 failing_world))
         [(\<lambda>j. ChildRunning, [None, Some ''no''], [Inr 5], 7)]
     \<and> lookup_process ''a'' v = None \<and> find_row app_id ''a'' (apps v) = Some demo_app
     \<and> app_status demo_app = Running"
proof -
  have "ports_ok failing_world"
    by (auto simp: ports_ok_def failing_world_def lookup_process_def demo_world_def split: if_splits)
  moreover have "before_turn demo_lib (\<lambda>a b. None) 2 ''a'' failing_world = failing_world"
    by (simp add: before_turn_def dead_apps_def failing_world_def check_process_def get_managed_app_ids_def
        lookup_process_def ret_def)
  ultimately show ?thesis
    using failed_restart_is_forgotten [of failing_world "''a''" "demo_process\<lparr>mp_child := WaitError\<rparr>" 2
        "''serve''" failing_world demo_lib "\<lambda>a b. None" "Tool ''no''" "[]" _
        "[(\<lambda>j. ChildRunning, [None, Some ''no''], [Inr 5], 7)]", OF _ _ _ _ _ _ _ _ refl]
    by (simp add: failing_world_def lookup_process_def should_restart_def find_row_def)
qed

section \<open>Waiting for a deployment\<close>

lemma restart_counts:
  assumes "try_restart_crashed i n w = (Inr (Some x), w')"
  shows "restart_count_for i w < n \<and> restart_count_for i w' = Suc (restart_count_for i w)"
proof -
  obtain p where p: "lookup_process i w = Some p" "mp_restart_count p < n"
    using assms by (cases "lookup_process i w") (auto simp: try_restart_crashed_def ret_def split: if_splits)
  moreover have "should_restart p"
    using assms p by (cases "should_restart p") (auto simp: try_restart_crashed_def ret_def)
  moreover obtain cmd where "mf_command (mp_manifest p) = Some cmd"
    using assms p by (cases "mf_command (mp_manifest p)")
      (auto simp: try_restart_crashed_def ret_def set_restart_count_def stop_app_def split: if_splits)
  ultimately obtain w2 where "qbind (start_app i (mp_agent_id p) (mp_user_id p) cmd (mp_manifest p) (mp_credentials p)) (\<lambda>r.
      qbind (set_restart_count i (Suc (mp_restart_count p))) (\<lambda>_. ret (Some r))) w2 = (Inr (Some x), w')"
    using assms by (auto simp: try_restart_crashed_def set_restart_count_def stop_app_def)
  then obtain y w3 where start: "start_app i (mp_agent_id p) (mp_user_id p) cmd (mp_manifest p) (mp_credentials p) w2 = (Inr y, w3)"
    and w': "w' = w3\<lparr>processes := AList.map_entry i (mp_restart_count_update (\<lambda>_. Suc (mp_restart_count p))) (processes w3)\<rparr>"
    by (auto elim!: qbind_Inr_E simp: set_restart_count_def modify_def ret_def)
  have "lookup_process i w3 \<noteq> None"
    using start by (cases rule: start_app_run) (auto simp: lookup_process_def update_conv')
  then show ?thesis using p by (auto simp: restart_count_for_def w')
qed

lemma observe_count [simp]: "restart_count_for i (observe j c w) = restart_count_for i w"
  by (simp add: restart_count_for_def lookup_observe split: option.split)

text \<open>
  C36. Waiting for a deployment ends. Once the deadline has passed, the loop of
  \<open>deploy_and_await\<close> survives a round only by restarting the crashed app, and it does that no
  more often than the configured number of restarts: after more than that many rounds past the
  deadline it has returned, with the app or with an error.
\<close>

theorem waiting_for_a_deployment_ends:
  assumes "max_attempts < length (filter poll_expired polls)"
  shows "fst (await_healthy max_attempts path timeout a polls w) \<noteq> Inr None"
proof -
  have "max_attempts - restart_count_for (ar_id a) w < length (filter poll_expired polls) \<Longrightarrow>
      fst (await_healthy max_attempts path timeout a polls w) \<noteq> Inr None" for w
  proof (induction polls arbitrary: w)
    case (Cons p ps)
    let ?w = "observe (ar_id a) (poll_child p) w"
    show ?case
    proof (cases "poll_healthy p")
      case True
      then show ?thesis by (simp add: ret_def)
    next
      case unhealthy: False
      show ?thesis
      proof (cases "\<exists>s. check_process (ar_id a) ?w = Dead s")
        case True
        then obtain s where dead: "check_process (ar_id a) ?w = Dead s" ..
        obtain r w1 where t: "try_restart_crashed (ar_id a) max_attempts ?w = (r, w1)"
          by (cases "try_restart_crashed (ar_id a) max_attempts ?w")
        have failed: "fst (qbind (update_status (ar_id a) Failed None None) (\<lambda>_.
            qbind (remove_process (ar_id a)) (\<lambda>_. fail (start_failed a))) w1) \<noteq> (Inr None :: app_error + app_response option)"
          by (cases "update_status (ar_id a) Failed None None w1")
            (auto simp: qbind_def remove_process_def modify_def fail_def split: sum.split)
        show ?thesis
        proof (cases "\<exists>port pid. r = Inr (Some (port, pid))")
          case False
          with unhealthy dead t failed show ?thesis
            by (auto split: sum.split option.split)
        next
          case True
          then obtain port pid where r: "r = Inr (Some (port, pid))" by blast
          note counts = restart_counts [OF t [unfolded r], simplified]
          obtain u w2 where up: "update_status (ar_id a) Running (Some port) (Some pid) w1 = (u, w2)"
            by (cases "update_status (ar_id a) Running (Some port) (Some pid) w1")
          have "restart_count_for (ar_id a) w2 = restart_count_for (ar_id a) w1"
            using lookup_update_status [of "ar_id a" "ar_id a" Running "Some port" "Some pid" w1]
            by (simp add: restart_count_for_def up)
          with counts Cons.prems have "max_attempts - restart_count_for (ar_id a) w2 < length (filter poll_expired ps)"
            by (auto split: if_splits)
          from Cons.IH [OF this] unhealthy dead t r up show ?thesis
            by (cases u) (auto simp: qbind_def [of "update_status (ar_id a) Running (Some port) (Some pid)"])
        qed
      next
        case alive: False
        show ?thesis
        proof (cases "poll_expired p")
          case True
          with unhealthy alive show ?thesis by (auto simp: fail_def split: process_status.split)
        next
          case False
          with Cons have "fst (await_healthy max_attempts path timeout a ps ?w) \<noteq> Inr None" by simp
          with False unhealthy alive show ?thesis by (auto split: process_status.split)
        qed
      qed
    qed
  qed simp
  then show ?thesis using assms by (meson diff_le_self le_less_trans)
qed

theorem waiting_witness:
  "fst (await_healthy 1 ''/'' 30 (app_response_of demo_lib demo_app)
     [\<lparr>poll_healthy = False, poll_child = WaitError, poll_expired = True\<rparr>,
      \<lparr>poll_healthy = False, poll_child = WaitError, poll_expired = True\<rparr>] demo_world) \<noteq> Inr None"
  by (rule waiting_for_a_deployment_ends) simp

section \<open>Who may act on an app\<close>

text \<open>An operation that is refused: an error, and nothing changed but the faults still to come.\<close>

definition refused :: "('w, 'a) app_op \<Rightarrow> 'w app_world_scheme \<Rightarrow> bool" where
  "refused m w \<longleftrightarrow> (\<exists>e fs. m w = (Inl e, w\<lparr>faults := fs\<rparr>))"

lemma refused_qbind: "refused m w \<Longrightarrow> refused (qbind m f) w"
  by (auto simp: refused_def qbind_def)

lemma not_owner_refused:
  assumes "find_row app_id i (apps w) = Some a" and "app_agent_id a \<noteq> agent_id"
  shows "refused (get_owned_app agent_id i) w"
  using assms
  by (auto simp: refused_def get_owned_app_def repo_find_by_id_def db_read_def db_call_def qbind_def ok_or_def
      ret_def fail_def same_faults split: list.split option.split)

text \<open>
  Only the agent of an app acts on it. For every other agent, starting, stopping, restarting
  or destroying the app is refused, and so is deploying another app under its handle: the table
  of apps, the processes and the ports stay as they are.
\<close>

theorem only_its_agent_acts_on_an_app:
  assumes "apps_ok (apps w)" and "a \<in> set (apps w)" and "agent_id \<noteq> app_agent_id a"
    and "mf_handle manifest = app_handle a"
  shows "refused (start lib agent_id (app_id a) chat_id creds) w
    \<and> refused (stop lib agent_id (app_id a) chat_id) w
    \<and> refused (restart lib agent_id (app_id a) chat_id) w
    \<and> refused (destroy agent_id (app_id a)) w
    \<and> refused (deploy lib fresh_id agent_id (app_user_id a) chat_id manifest creds) w"
proof -
  have "find_row app_id (app_id a) (apps w) = Some a"
    using assms(1,2) by (simp add: apps_ok_def find_row_mem)
  with assms(3) have owned: "refused (get_owned_app agent_id (app_id a)) w"
    by (metis not_owner_refused)
  have "find (\<lambda>b. app_user_id b = app_user_id a \<and> app_handle b = app_handle a) (apps w) = Some a"
    using assms(1,2) find_distinct [of app_key "apps w" a] by (simp add: apps_ok_def app_key_def)
  then have "refused (deploy lib fresh_id agent_id (app_user_id a) chat_id manifest creds) w"
    using assms(3,4)
    by (auto simp: refused_def deploy_def find_by_user_handle_def db_read_def db_call_def qbind_def fail_def
        same_faults split: list.split option.split)
  then show ?thesis
    unfolding start_def stop_def restart_def destroy_def by (simp add: refused_qbind owned)
qed

theorem only_its_agent_witness:
  "refused (start demo_lib ''x'' ''a'' ''c'' []) demo_world
    \<and> refused (deploy demo_lib ''b'' ''x'' ''user'' ''c'' demo_manifest []) demo_world"
  using only_its_agent_acts_on_an_app [of demo_world demo_app "''x''" demo_manifest demo_lib "''c''" "[]" "''b''"]
  by (simp add: apps_ok_def wf_rows_def shaped_def) (simp add: demo_app_def)

end
