(* ===== verification/File_Trees.thy ===== *)
theory File_Trees
  imports File_System
begin

text \<open>
  What the changes of \<open>File_System\<close> do to a tree: how a walk splits and survives a growing tree,
  where a new directory appears, that a write adds one file, and that what was written is read.
  A tree is compared by its lookups (\<open>map_of\<close>), ordered by \<open>\<subseteq>\<^sub>m\<close>.
\<close>

named_theorems tree_eval "lookups in a changed tree"

section \<open>Walks\<close>

lemma walk_names_simps [simp]:
  "map_of t (d @ [Normal s]) = None \<Longrightarrow> walk t n d (Normal s # p) = Inl Enoent"
  "map_of t (d @ [Normal s]) = Some Folder \<Longrightarrow> walk t n d (Normal s # p) = walk t n (d @ [Normal s]) p"
  "map_of t (d @ [Normal s]) = Some (RegularFile b) \<Longrightarrow>
     walk t n d (Normal s # p) = (if p = [] then Inr (n, d @ [Normal s]) else Inl Enotdir)"
  "map_of t (d @ [Normal s]) = Some (Symlink l) \<Longrightarrow>
     walk t n d (Normal s # p) = (case n of 0 \<Rightarrow> Inl Eloop | Suc m \<Rightarrow> walk t m d (l @ p))"
  by (simp_all add: walk.simps(5))

lemma walk_name_cases:
  assumes "walk t n d (Normal s # p) = Inr r"
  obtains (folder) "map_of t (d @ [Normal s]) = Some Folder" and "walk t n (d @ [Normal s]) p = Inr r"
    | (leaf) b where "map_of t (d @ [Normal s]) = Some (RegularFile b)" and "p = []" and "r = (n, d @ [Normal s])"
    | (link) l m where "map_of t (d @ [Normal s]) = Some (Symlink l)" and "n = Suc m" and "walk t m d (l @ p) = Inr r"
  using assms by (auto simp: walk.simps(5) split: option.splits entry.splits nat.splits if_splits)

lemma walk_budget: "walk t n d p = Inr (m, c) \<Longrightarrow> m \<le> n"
proof (induction t n d p rule: walk.induct)
  case (5 t n d s cs)
  from 5(3) show ?case by (cases rule: walk_name_cases) (use 5(1,2) in \<open>auto simp: le_Suc_eq\<close>)
qed auto

lemma walk_through:
  "walk t n d p = Inr (m, c) \<Longrightarrow> map_of t c = Some Folder \<Longrightarrow> walk t n d (p @ q) = walk t m c q"
proof (induction t n d p rule: walk.induct)
  case (5 t n d s cs)
  from 5(3) show ?case by (cases rule: walk_name_cases) (use 5(1,2,4) in auto)
qed auto

lemma walk_split:
  "walk t n d (p @ q) = Inr r \<Longrightarrow> q \<noteq> [] \<Longrightarrow> \<exists>m c. walk t n d p = Inr (m, c) \<and> walk t m c q = Inr r"
proof (induction t n d p rule: walk.induct)
  case (5 t n d s cs)
  from 5(3) have "walk t n d (Normal s # (cs @ q)) = Inr r" by simp
  then show ?case by (cases rule: walk_name_cases) (use 5(1,2,4) in auto)
qed auto

lemma walk_grows:
  "walk t n d p = Inr r \<Longrightarrow> map_of t \<subseteq>\<^sub>m map_of t' \<Longrightarrow> walk t' n d p = Inr r"
proof (induction t n d p rule: walk.induct)
  case (5 t n d s cs)
  have grows: "map_of t q = Some e \<Longrightarrow> map_of t' q = Some e" for q e
    using 5(4) by (auto simp: map_le_def dom_def)
  from 5(3) show ?case by (cases rule: walk_name_cases) (use 5(1,2,4) grows in auto)
qed auto

text \<open>A walk that succeeds did not go through an entry that is missing or a file, except at its end.\<close>

lemma walk_put:
  "walk t n d p = Inr (m, c) \<Longrightarrow> c \<noteq> q \<Longrightarrow> map_of t q = None \<or> (\<exists>b. map_of t q = Some (RegularFile b)) \<Longrightarrow>
     map_of t' = (map_of t)(q := e) \<Longrightarrow> walk t' n d p = Inr (m, c)"
proof (induction t n d p rule: walk.induct)
  case (5 t n d s cs)
  from 5(3) show ?case
  proof (cases rule: walk_name_cases)
    case folder
    with 5(5) have "d @ [Normal s] \<noteq> q" by auto
    with folder 5(1,4,5,6) show ?thesis by auto
  next
    case (link l k)
    with 5(5) have "d @ [Normal s] \<noteq> q" by auto
    with link 5(2,4,5,6) show ?thesis by auto
  qed (use 5(4,6) in auto)
qed auto

section \<open>Lookups after a change\<close>

lemma map_of_put [tree_eval]: "map_of (put_entry q e t) = (map_of t)(q \<mapsto> e)"
  by (rule ext) (simp add: put_entry_def map_of_eq_None_iff; induction t; auto)

lemma map_of_drop [tree_eval]: "map_of (drop_subtree q t) r = (if prefix q r then None else map_of t r)"
  by (induction t) (auto simp: drop_subtree_def)

lemma drop_subtree_le: "map_of (drop_subtree q t) \<subseteq>\<^sub>m map_of t"
  by (auto simp: map_le_def tree_eval)

lemma put_grows: "map_of t q = None \<Longrightarrow> map_of t \<subseteq>\<^sub>m map_of (put_entry q e t)"
  by (auto simp: map_le_def tree_eval)

lemma map_of_rename_keys:
  "(\<And>x. x \<in> fst ` set t \<Longrightarrow> f x = q \<longleftrightarrow> x = p) \<Longrightarrow> map_of (map (\<lambda>x. (f (fst x), snd x)) t) q = map_of t p"
  by (induction t) auto

lemma map_of_rename_none:
  "(\<And>x. x \<in> fst ` set t \<Longrightarrow> f x \<noteq> q) \<Longrightarrow> map_of (map (\<lambda>x. (f (fst x), snd x)) t) q = None"
  by (induction t) auto

lemma map_of_move [tree_eval]:
  assumes "\<not> prefix a b" and "\<not> prefix b a"
  shows "map_of (move_subtree a b t) q =
    (if prefix b q then map_of t (a @ drop (length b) q)
     else if prefix a q then None else map_of t q)"
proof -
  define f where "f = (\<lambda>x. if prefix a x then b @ drop (length a) x else x)"
  have move: "move_subtree a b t = map (\<lambda>x. (f (fst x), snd x)) (drop_subtree b t)"
    unfolding move_subtree_def f_def by (rule map_cong) auto
  have keys: "x \<in> fst ` set (drop_subtree b t) \<Longrightarrow> \<not> prefix b x" for x
    by (auto simp: drop_subtree_def)
  have apart: "\<not> prefix b (a @ x)" for x
    using assms prefix_same_cases [of b "a @ x" a] by auto
  consider "prefix b q" | "prefix a q" "\<not> prefix b q" | "\<not> prefix a q" "\<not> prefix b q" by blast
  then show ?thesis
  proof cases
    case 1
    then have "f x = q \<longleftrightarrow> x = a @ drop (length b) q" if "\<not> prefix b x" for x
      using that by (auto simp: f_def prefix_def)
    with 1 show ?thesis
      unfolding move using keys
      by (subst map_of_rename_keys [where p = "a @ drop (length b) q"]) (blast, simp add: map_of_drop apart)
  next
    case 2
    then have "f x \<noteq> q" for x by (auto simp: f_def)
    with 2 show ?thesis unfolding move by (simp add: map_of_rename_none)
  next
    case 3
    then have "f x = q \<longleftrightarrow> x = q" for x by (auto simp: f_def)
    with 3 show ?thesis unfolding move by (simp add: map_of_rename_keys [where p = q] map_of_drop)
  qed
qed

section \<open>Slots\<close>

lemma file_name_Some: "file_name p = Some s \<Longrightarrow> \<exists>p0. p = p0 @ [Normal s]"
  by (cases p rule: rev_cases) (auto simp: file_name_def split: component.splits)

lemma file_name_snoc [simp]: "file_name (p @ [Normal s]) = Some s"
  by (simp add: file_name_def)

lemma slot_Inr:
  assumes "slot t d p = Inr q"
  obtains p0 s m c where "p = p0 @ [Normal s]" and "walk t max_links d p0 = Inr (m, c)"
    and "map_of t c = Some Folder" and "q = c @ [Normal s]"
proof -
  obtain s where "file_name p = Some s" using assms by (auto simp: slot_def split: option.splits)
  then obtain p0 where "p = p0 @ [Normal s]" using file_name_Some by blast
  with assms that show ?thesis by (auto simp: slot_def split: sum.splits if_splits)
qed

lemma slot_walk:
  assumes "slot t d p = Inr q"
  shows "map_of t q = None \<Longrightarrow> walk t max_links d p = Inl Enoent"
    and "map_of t q = Some Folder \<Longrightarrow> \<exists>m. walk t max_links d p = Inr (m, q)"
    and "map_of t q = Some (RegularFile b) \<Longrightarrow> \<exists>m. walk t max_links d p = Inr (m, q)"
proof -
  obtain p0 s m c where p: "p = p0 @ [Normal s]" and w: "walk t max_links d p0 = Inr (m, c)"
    and c: "map_of t c = Some Folder" and q: "q = c @ [Normal s]" using assms by (rule slot_Inr)
  have "walk t max_links d p = walk t m c [Normal s]" unfolding p by (rule walk_through [OF w c])
  with q show "map_of t q = None \<Longrightarrow> walk t max_links d p = Inl Enoent"
    and "map_of t q = Some Folder \<Longrightarrow> \<exists>m. walk t max_links d p = Inr (m, q)"
    and "map_of t q = Some (RegularFile b) \<Longrightarrow> \<exists>m. walk t max_links d p = Inr (m, q)" by auto
qed

text \<open>What is gone from a tree stays gone while the tree shrinks.\<close>

lemma path_exists_iff:
  "path_exists t d p \<longleftrightarrow> (\<exists>n c. p \<noteq> [] \<and> walk t max_links d p = Inr (n, c) \<and> map_of t c \<noteq> None)"
  by (auto simp: path_exists_def canonical_def split: sum.splits)

lemma path_exists_grows:
  assumes "path_exists t d p" and grows: "map_of t \<subseteq>\<^sub>m map_of t'"
  shows "path_exists t' d p"
proof -
  obtain n c where "p \<noteq> []" and "walk t max_links d p = Inr (n, c)" and "c \<in> dom (map_of t)"
    using assms(1) unfolding path_exists_iff by auto
  with walk_grows [OF _ grows] grows show ?thesis unfolding path_exists_iff map_le_def by (metis domIff)
qed

lemma slot_dropped:
  assumes "slot t d p = Inr q"
  shows "\<not> path_exists (drop_subtree q t) d p"
proof
  assume there: "path_exists (drop_subtree q t) d p"
  obtain p0 s m c where p: "p = p0 @ [Normal s]" and w: "walk t max_links d p0 = Inr (m, c)"
    and q: "q = c @ [Normal s]" using assms by (rule slot_Inr)
  from there obtain r where "walk (drop_subtree q t) max_links d (p0 @ [Normal s]) = Inr r"
    unfolding path_exists_iff p by auto
  then obtain m' c' where "walk (drop_subtree q t) max_links d p0 = Inr (m', c')"
    and last: "walk (drop_subtree q t) m' c' [Normal s] = Inr r"
    using walk_split [of "drop_subtree q t" max_links d p0 "[Normal s]" r] by auto
  then have "c' = c" using walk_grows [OF _ drop_subtree_le [of q t], of max_links d p0 "(m', c')"] w by simp
  with last q show False by (auto elim: walk_name_cases simp: tree_eval)
qed

lemma removed:
  assumes "remove_dir_all d p t = Inr t' \<or> remove_file d p t = Inr t'"
  shows "\<not> path_exists t' d p" and "map_of t' \<subseteq>\<^sub>m map_of t"
proof -
  obtain q where "slot t d p = Inr q" and "t' = drop_subtree q t"
    using assms by (auto simp: remove_dir_all_def remove_file_def split: sum.splits option.splits entry.splits)
  then show "\<not> path_exists t' d p" and "map_of t' \<subseteq>\<^sub>m map_of t"
    by (simp_all add: slot_dropped drop_subtree_le)
qed

section \<open>Writing\<close>

text \<open>A write changes one entry, a file or none before, and is read back.\<close>

lemma walk_one:
  "map_of t (c @ [Normal s]) = Some (Symlink l) \<Longrightarrow> walk t (Suc m) c [Normal s] = walk t m c l"
  by simp

lemma write_at_Inr:
  assumes "write_at t n d p b = Inr t'"
  shows "\<exists>q m. t' = put_entry q (RegularFile b) t \<and> walk t' n d p = Inr (m, q)
     \<and> (map_of t q = None \<and> (\<forall>r. walk t n d p \<noteq> Inr r) \<or> (\<exists>b0. map_of t q = Some (RegularFile b0)) \<and> walk t n d p = Inr (m, q))"
  using assms
proof (induction t n d p b rule: write_at.induct)
  case (1 t n d p b)
  from 1(2) obtain s m c where name: "file_name p = Some s" and w0: "walk t n d (butlast p) = Inr (m, c)"
    and c: "map_of t c = Some Folder"
    unfolding write_at.simps [of t n d p b] by (auto split: option.splits sum.splits if_splits)
  obtain p0 where p: "p = p0 @ [Normal s]" using file_name_Some [OF name] by blast
  with w0 have w: "walk t n d p0 = Inr (m, c)" by simp
  have walk: "walk t n d p = walk t m c [Normal s]" unfolding p by (rule walk_through [OF w c])
  consider (new) "t' = put_entry (c @ [Normal s]) (RegularFile b) t" "map_of t (c @ [Normal s]) = None"
    | (old) b0 where "t' = put_entry (c @ [Normal s]) (RegularFile b) t" "map_of t (c @ [Normal s]) = Some (RegularFile b0)"
    | (link) l k where "map_of t (c @ [Normal s]) = Some (Symlink l)" "m = Suc k" "m \<le> n" "write_at t k c l b = Inr t'"
    using 1(2) name w0 c
    by (auto simp: write_at.simps [of t n d p b] split: option.splits entry.splits if_splits) (metis Suc_pred)
  then show ?case
  proof cases
    case link
    obtain q k' where q: "t' = put_entry q (RegularFile b) t" "walk t' k c l = Inr (k', q)"
      and old: "map_of t q = None \<and> (\<forall>r. walk t k c l \<noteq> Inr r)
        \<or> (\<exists>b0. map_of t q = Some (RegularFile b0)) \<and> walk t k c l = Inr (k', q)"
      using 1(1) [OF name w0 refl _ link(1) refl] c link by auto
    have ne: "c @ [Normal s] \<noteq> q" "c \<noteq> q" using old link(1) c by auto
    have w': "walk t' n d p0 = Inr (m, c)"
      by (rule walk_put [OF w ne(2)]) (use old q(1) in \<open>auto simp: tree_eval\<close>)
    have "walk t' n d p = walk t' m c [Normal s]"
      unfolding p by (rule walk_through [OF w']) (use q(1) c ne in \<open>simp add: tree_eval\<close>)
    then have "walk t' n d p = Inr (k', q)" using link ne q by (simp add: tree_eval)
    moreover have "walk t n d p = walk t k c l" using walk link by simp
    ultimately show ?thesis using q old by auto
  next
    case new
    have w': "walk t' n d p0 = Inr (m, c)"
      by (rule walk_put [OF w]) (use new in \<open>auto simp: tree_eval\<close>)
    have "walk t' n d p = walk t' m c [Normal s]"
      unfolding p by (rule walk_through [OF w']) (use new c in \<open>simp add: tree_eval\<close>)
    then show ?thesis using new walk by (auto simp: tree_eval)
  next
    case (old b0)
    have w': "walk t' n d p0 = Inr (m, c)"
      by (rule walk_put [OF w]) (use old in \<open>auto simp: tree_eval\<close>)
    have "walk t' n d p = walk t' m c [Normal s]"
      unfolding p by (rule walk_through [OF w']) (use old c in \<open>simp add: tree_eval\<close>)
    then show ?thesis using old walk by (auto simp: tree_eval)
  qed
qed

section \<open>Well-formed trees\<close>

text \<open>The root is a directory, and every other entry is a name in a directory.\<close>

definition wf_tree :: "tree \<Rightarrow> bool" where
  "wf_tree t \<longleftrightarrow> map_of t [RootDir] = Some Folder \<and>
     list_all (\<lambda>x. fst x = [RootDir] \<or> (file_name (fst x) \<noteq> None \<and> map_of t (butlast (fst x)) = Some Folder)) t"

lemma wf_tree_iff:
  "wf_tree t \<longleftrightarrow> map_of t [RootDir] = Some Folder \<and>
     (\<forall>k. map_of t k \<noteq> None \<longrightarrow> k = [RootDir] \<or> (\<exists>q s. k = q @ [Normal s] \<and> map_of t q = Some Folder))"
proof -
  have "(file_name k \<noteq> None \<and> map_of t (butlast k) = Some Folder) \<longleftrightarrow> (\<exists>q s. k = q @ [Normal s] \<and> map_of t q = Some Folder)" for k
    using file_name_Some [of k] by (auto simp: not_None_eq)
  moreover have "(\<forall>k. map_of t k \<noteq> None \<longrightarrow> P k) \<longleftrightarrow> list_all (\<lambda>x. P (fst x)) t" for P
    by (auto simp: list_all_iff map_of_eq_None_iff image_iff)
  ultimately show ?thesis unfolding wf_tree_def by simp
qed

lemma wf_tree_cases:
  assumes "wf_tree t" and "map_of t k = Some e"
  obtains "k = [RootDir]" | q s where "k = q @ [Normal s]" and "map_of t q = Some Folder"
  using assms unfolding wf_tree_iff by blast

lemma wf_treeD:
  assumes "wf_tree t" and "map_of t (q @ [s]) \<noteq> None" and "q \<noteq> []"
  shows "map_of t q = Some Folder" and "\<exists>n. s = Normal n"
  using assms(2,3) by (auto elim: wf_tree_cases [OF assms(1)])

lemma prefix_single: "prefix q [x] \<longleftrightarrow> q = [] \<or> q = [x]"
  by (cases q) auto

lemma nothing_below:
  assumes "wf_tree t" and "map_of t q = None \<or> (\<exists>e. map_of t q = Some e \<and> e \<noteq> Folder)" and "q \<noteq> []"
  shows "x \<noteq> [] \<Longrightarrow> map_of t (q @ x) = None"
proof (induction x rule: rev_induct)
  case (snoc y x)
  show ?case
  proof (rule ccontr)
    assume "map_of t (q @ x @ [y]) \<noteq> None"
    then have "map_of t (q @ x) = Some Folder"
      using wf_treeD(1) [OF assms(1), of "q @ x" y] assms(3) by auto
    with snoc assms(2) show False by (cases "x = []") auto
  qed
qed simp

lemma wf_put:
  assumes wf: "wf_tree t" and c: "map_of t c = Some Folder" and e: "map_of t (c @ [Normal s]) \<noteq> Some Folder \<or> e = Folder"
  shows "wf_tree (put_entry (c @ [Normal s]) e t)"
  unfolding wf_tree_iff
proof (intro conjI allI impI)
  show "map_of (put_entry (c @ [Normal s]) e t) [RootDir] = Some Folder"
    using wf e by (auto simp: tree_eval wf_tree_iff)
  have kept: "map_of (put_entry (c @ [Normal s]) e t) q = Some Folder" if "map_of t q = Some Folder" for q
    using that e by (auto simp: tree_eval)
  fix k assume "map_of (put_entry (c @ [Normal s]) e t) k \<noteq> None"
  then consider "k = c @ [Normal s]" | y where "map_of t k = Some y" by (auto simp: tree_eval split: if_splits)
  then show "k = [RootDir] \<or> (\<exists>q n. k = q @ [Normal n] \<and> map_of (put_entry (c @ [Normal s]) e t) q = Some Folder)"
  proof cases
    case (2 y)
    with wf show ?thesis by (cases rule: wf_tree_cases) (use kept in auto)
  qed (use kept [OF c] in auto)
qed

lemma wf_drop:
  assumes wf: "wf_tree t" and "q \<noteq> [RootDir]" and "q \<noteq> []"
  shows "wf_tree (drop_subtree q t)"
  unfolding wf_tree_iff
proof (intro conjI allI impI)
  show "map_of (drop_subtree q t) [RootDir] = Some Folder"
    using assms by (auto simp: tree_eval wf_tree_iff prefix_single)
  fix k assume "map_of (drop_subtree q t) k \<noteq> None"
  then obtain y where "map_of t k = Some y" and "\<not> prefix q k" by (auto simp: tree_eval split: if_splits)
  with wf show "k = [RootDir] \<or> (\<exists>p n. k = p @ [Normal n] \<and> map_of (drop_subtree q t) p = Some Folder)"
    by (cases rule: wf_tree_cases) (auto simp: tree_eval)
qed

lemma wf_move:
  assumes wf: "wf_tree t" and a: "map_of t a \<noteq> None" and b: "b = c @ [Normal s]" "map_of t c = Some Folder"
    and apart: "\<not> prefix a b" "\<not> prefix b a" and root: "a \<noteq> [RootDir]"
  shows "wf_tree (move_subtree a b t)"
  unfolding wf_tree_iff
proof (intro conjI allI impI)
  have ne: "a \<noteq> []" "b \<noteq> []" using apart by auto
  have "\<not> prefix b [RootDir]" using ne(2) b(1) by (auto simp: prefix_single)
  then show "map_of (move_subtree a b t) [RootDir] = Some Folder"
    using wf apart root ne by (simp add: tree_eval wf_tree_iff prefix_single)
  have c: "\<not> prefix b c" "\<not> prefix a c" using b(1) apart(1) by (auto simp: prefix_def)
  fix k assume "map_of (move_subtree a b t) k \<noteq> None"
  then consider (moved) x where "k = b @ x" "map_of t (a @ x) \<noteq> None"
    | (kept) y where "\<not> prefix b k" "\<not> prefix a k" "map_of t k = Some y"
    using apart by (auto simp: tree_eval prefix_def split: if_splits)
  then show "k = [RootDir] \<or> (\<exists>q s. k = q @ [Normal s] \<and> map_of (move_subtree a b t) q = Some Folder)"
  proof cases
    case (moved x)
    show ?thesis
    proof (cases x rule: rev_cases)
      case Nil
      with moved b c apart show ?thesis by (auto simp: tree_eval)
    next
      case (snoc y z)
      with moved ne wf_treeD [OF wf, of "a @ y" z] obtain s' where "z = Normal s'" and "map_of t (a @ y) = Some Folder"
        by auto
      with moved snoc apart show ?thesis by (auto simp: tree_eval)
    qed
  next
    case (kept y)
    from wf kept(3) show ?thesis by (cases rule: wf_tree_cases) (use kept apart in \<open>auto simp: tree_eval\<close>)
  qed
qed

section \<open>The operations keep a tree well formed\<close>

lemma wf_create_dir: "wf_tree t \<Longrightarrow> create_dir d p t = Inr t' \<Longrightarrow> wf_tree t'"
  by (auto simp: create_dir_def split: sum.splits if_splits elim!: slot_Inr intro: wf_put)

lemma wf_create_dir_all: "wf_tree t \<Longrightarrow> create_dir_all d p t = Inr t' \<Longrightarrow> wf_tree t'"
proof (induction d p t arbitrary: t' rule: create_dir_all.induct)
  case (1 d p t)
  from 1(3) show ?case
    unfolding create_dir_all.simps [of d p t] using 1(1,2)
    by (auto split: sum.splits if_splits option.splits dest: wf_create_dir)
qed

lemma wf_remove: "wf_tree t \<Longrightarrow> remove_dir_all d p t = Inr t' \<or> remove_file d p t = Inr t' \<Longrightarrow> wf_tree t'"
  by (auto simp: remove_dir_all_def remove_file_def split: sum.splits option.splits entry.splits
      elim!: slot_Inr intro!: wf_drop)

lemma wf_rename:
  assumes wf: "wf_tree t" and run: "rename d src dst t = Inr t'"
  shows "wf_tree t'"
proof -
  obtain a b where a: "slot t d src = Inr a" and b: "slot t d dst = Inr b"
    and move: "t' = t \<or> (t' = move_subtree a b t \<and> map_of t a \<noteq> None \<and> \<not> prefix a b
      \<and> (map_of t b = None \<or> (\<exists>e. map_of t b = Some e \<and> e \<noteq> Folder) \<or> \<not> has_children t b))"
    using run by (auto simp: rename_def strict_prefix_def split: sum.splits option.splits if_splits entry.splits)
  obtain c s where c: "b = c @ [Normal s]" "map_of t c = Some Folder" using b by (rule slot_Inr)
  obtain c' s' where a_name: "a = c' @ [Normal s']" using a by (rule slot_Inr)
  show ?thesis
  proof (cases "t' = t")
    case False
    with move have t': "t' = move_subtree a b t" and present: "map_of t a \<noteq> None" and ab: "\<not> prefix a b"
      and target: "map_of t b = None \<or> (\<exists>e. map_of t b = Some e \<and> e \<noteq> Folder) \<or> \<not> has_children t b" by auto
    have "\<not> prefix b a"
    proof
      assume "prefix b a"
      with ab obtain x where x: "a = b @ x" "x \<noteq> []" by (auto simp: prefix_def)
      then obtain e where "(a, e) \<in> set t" using present by (auto dest: map_of_SomeD)
      with x have "has_children t b" by (force simp: has_children_def list_ex_iff strict_prefix_def)
      with target nothing_below [OF wf, of b x] x present c(1) show False by auto
    qed
    with t' wf_move [OF wf present c ab] a_name show ?thesis by auto
  qed (use wf in simp)
qed

lemma wf_write_at: "wf_tree t \<Longrightarrow> write_at t n d p b = Inr t' \<Longrightarrow> wf_tree t'"
proof (induction t n d p b arbitrary: t' rule: write_at.induct)
  case (1 t n d p b)
  from 1(3) show ?case
    unfolding write_at.simps [of t n d p b] using 1(1,2)
    by (auto split: option.splits sum.splits if_splits entry.splits intro!: wf_put)
qed

lemma create_dir_grows: "create_dir d p t = Inr t' \<Longrightarrow> map_of t \<subseteq>\<^sub>m map_of t'"
  by (auto simp: create_dir_def intro: put_grows split: sum.splits if_splits)

lemma create_dir_all_grows: "create_dir_all d p t = Inr t' \<Longrightarrow> map_of t \<subseteq>\<^sub>m map_of t'"
proof (induction d p t arbitrary: t' rule: create_dir_all.induct)
  case (1 d p t)
  from 1(2) show ?case
    unfolding create_dir_all.simps [of d p t] using 1(1)
    by (auto split: sum.splits if_splits option.splits dest: create_dir_grows)
      (blast intro: map_le_trans dest: create_dir_grows)
qed

section \<open>Where a new directory appears\<close>

lemma existing_ancestor_snoc:
  "\<not> path_exists t d (p @ [Normal s]) \<Longrightarrow> existing_ancestor t d (p @ [Normal s]) = existing_ancestor t d p"
  by (subst existing_ancestor.simps) (simp add: parent_def)

lemma existing_ancestor_exists: "path_exists t d p \<Longrightarrow> existing_ancestor t d p = Some p"
  by (subst existing_ancestor.simps) simp

lemma existing_ancestor_empty [simp]: "existing_ancestor t d [] = None"
  by (subst existing_ancestor.simps) (simp add: parent_def path_exists_def canonical_def)

lemma create_dir_Inr:
  assumes "create_dir d p t = Inr t'"
  obtains p0 s m c where "p = p0 @ [Normal s]" and "walk t max_links d p0 = Inr (m, c)"
    and "map_of t c = Some Folder" and "map_of t (c @ [Normal s]) = None" and "t' = put_entry (c @ [Normal s]) Folder t"
    and "walk t' max_links d p = Inr (m, c @ [Normal s])"
proof -
  obtain q where q: "slot t d p = Inr q" and new: "map_of t q = None" and t': "t' = put_entry q Folder t"
    using assms by (auto simp: create_dir_def split: sum.splits if_splits)
  from q obtain p0 s m c where *: "p = p0 @ [Normal s]" "walk t max_links d p0 = Inr (m, c)"
    "map_of t c = Some Folder" "q = c @ [Normal s]" by (rule slot_Inr)
  have "walk t' max_links d p0 = Inr (m, c)" using walk_grows [OF *(2) put_grows [OF new]] t' by simp
  then have "walk t' max_links d p = walk t' m c [Normal s]"
    unfolding *(1) by (rule walk_through) (use *(3,4) t' in \<open>simp add: tree_eval\<close>)
  then have "walk t' max_links d p = Inr (m, c @ [Normal s])" using *(4) t' by (simp add: tree_eval)
  with that * new t' show ?thesis by blast
qed

text \<open>What \<open>create_dir_all\<close> adds lies below the real place of the nearest ancestor that was there.\<close>

definition grown_below :: "tree \<Rightarrow> component list \<Rightarrow> tree \<Rightarrow> bool" where
  "grown_below t c t' \<longleftrightarrow> map_of t \<subseteq>\<^sub>m map_of t' \<and> (\<forall>q. map_of t' q \<noteq> map_of t q \<longrightarrow> prefix c q)"

lemma grown_belowI: "t' = t \<Longrightarrow> grown_below t c t'"
  by (simp add: grown_below_def)

lemma grown_below_put: "grown_below t c t1 \<Longrightarrow> map_of t1 q = None \<Longrightarrow> prefix c q \<Longrightarrow> grown_below t c (put_entry q e t1)"
  unfolding grown_below_def by (auto simp: map_le_def tree_eval dom_def split: if_splits)

lemma create_dir_exists:
  assumes "path_exists t d p"
  shows "\<exists>e. create_dir d p t = Inl e \<and> e \<noteq> Enoent"
proof (cases "file_name p")
  case (Some s)
  then obtain p0 where p: "p = p0 @ [Normal s]" using file_name_Some by blast
  from assms obtain r where "walk t max_links d (p0 @ [Normal s]) = Inr r" unfolding path_exists_iff p by auto
  then obtain m c where "walk t max_links d p0 = Inr (m, c)" and "walk t m c [Normal s] = Inr r"
    using walk_split [of t max_links d p0 "[Normal s]" r] by auto
  then show ?thesis unfolding p by (auto simp: create_dir_def slot_def elim: walk_name_cases)
qed (simp add: create_dir_def slot_def)

lemma create_dir_Enoent:
  "create_dir d p t = Inl Enoent \<Longrightarrow> \<exists>p0 s. p = p0 @ [Normal s] \<and> walk t max_links d p0 = Inl Enoent"
  by (auto simp: create_dir_def slot_def split: option.splits sum.splits if_splits dest!: file_name_Some)

lemma is_dir_exists: "is_dir t d p \<Longrightarrow> path_exists t d p"
  by (auto simp: is_dir_def path_exists_def split: sum.splits)

lemma create_dir_below:
  assumes wf: "wf_tree t" and run: "create_dir d p t = Inr t'" and anc: "existing_ancestor t d p = Some a"
    and walk: "walk t max_links d a = Inr (m, c)"
  shows "\<exists>s. p = a @ [Normal s] \<and> walk t' max_links d p = Inr (m, c @ [Normal s]) \<and> grown_below t c t'
    \<and> (\<forall>x. x \<noteq> [] \<longrightarrow> map_of t' (c @ [Normal s] @ x) = None) \<and> map_of t (c @ [Normal s]) = None"
proof -
  obtain p0 s m' c' where p: "p = p0 @ [Normal s]" and w: "walk t max_links d p0 = Inr (m', c')"
    and c: "map_of t c' = Some Folder" and new: "map_of t (c' @ [Normal s]) = None"
    and t': "t' = put_entry (c' @ [Normal s]) Folder t" and w': "walk t' max_links d p = Inr (m', c' @ [Normal s])"
    using run by (rule create_dir_Inr)
  have "\<not> path_exists t d p" using create_dir_exists [of t d p] run by auto
  then have "existing_ancestor t d p0 = Some a" using anc existing_ancestor_snoc [of t d p0 s] unfolding p by simp
  moreover from this have "path_exists t d p0" using w c by (auto simp: path_exists_iff)
  ultimately have "a = p0" by (simp add: existing_ancestor_exists)
  moreover from this have "m' = m" "c' = c" using w walk by simp_all
  moreover have "map_of t' (c @ [Normal s] @ x) = None" if "x \<noteq> []" for x
    using nothing_below [OF wf, of "c @ [Normal s]" x] new \<open>c' = c\<close> t' that by (simp add: tree_eval)
  moreover have "grown_below t c t'"
    using t' new \<open>c' = c\<close> grown_below_put [OF grown_belowI [OF refl], of t "c @ [Normal s]" c Folder] by simp
  ultimately show ?thesis using p w' new by auto
qed

lemma create_dir_all_below:
  assumes "wf_tree t" and "create_dir_all d p t = Inr t'" and "existing_ancestor t d p = Some a"
    and "walk t max_links d a = Inr (m, c)"
  shows "\<exists>rest. p = a @ rest \<and> walk t' max_links d p = Inr (m, c @ rest) \<and> grown_below t c t'
    \<and> (rest \<noteq> [] \<longrightarrow> (\<forall>x. x \<noteq> [] \<longrightarrow> map_of t' (c @ rest @ x) = None) \<and> map_of t (c @ rest) = None)"
  using assms
proof (induction d p t arbitrary: t' rule: create_dir_all.induct)
  case (1 d p t)
  have ne: "p \<noteq> []" using 1(4) by auto
  from ne 1(3) consider (made) "create_dir d p t = Inr t'"
    | (there) e where "create_dir d p t = Inl e" "e \<noteq> Enoent" "is_dir t d p" "t' = t"
    | (deep) q t1 where "create_dir d p t = Inl Enoent" "parent p = Some q" "create_dir_all d q t = Inr t1"
        "create_dir d p t1 = Inr t' \<or> (is_dir t1 d p \<and> t' = t1)"
    unfolding create_dir_all.simps [of d p t] by (auto split: sum.splits if_splits option.splits)
  then show ?case
  proof cases
    case made
    then show ?thesis using create_dir_below [OF 1(2) made 1(4,5)] by auto
  next
    case (there e)
    then have "a = p" using 1(4) by (simp add: existing_ancestor_exists is_dir_exists)
    with there 1(5) show ?thesis by (auto intro: grown_belowI)
  next
    case (deep q t1)
    obtain p0 s where p: "p = p0 @ [Normal s]" and none: "walk t max_links d p0 = Inl Enoent"
      using create_dir_Enoent [OF deep(1)] by blast
    have q: "q = p0" using deep(2) p by (auto simp: parent_def split: if_splits)
    have "\<not> path_exists t d p" using create_dir_exists [of t d p] deep(1) by auto
    then have anc: "existing_ancestor t d p0 = Some a" using 1(4) existing_ancestor_snoc [of t d p0 s] unfolding p by simp
    obtain rest where rest: "p0 = a @ rest" "walk t1 max_links d p0 = Inr (m, c @ rest)" "grown_below t c t1"
      and empty: "rest \<noteq> [] \<longrightarrow> (\<forall>x. x \<noteq> [] \<longrightarrow> map_of t1 (c @ rest @ x) = None) \<and> map_of t (c @ rest) = None"
      using 1(1) [OF ne deep(1) _ deep(2) 1(2) _ _ 1(5)] deep(3) q anc by auto
    have "rest \<noteq> []" using rest(1) none 1(5) by auto
    with empty have below: "map_of t1 (c @ rest @ x) = None" if "x \<noteq> []" for x using that by blast
    have "\<not> is_dir t1 d p"
    proof
      assume "is_dir t1 d p"
      then obtain r where "walk t1 max_links d (p0 @ [Normal s]) = Inr r"
        using is_dir_exists unfolding path_exists_iff p by blast
      then have "walk t1 m (c @ rest) [Normal s] = Inr r"
        using walk_split [of t1 max_links d p0 "[Normal s]" r] rest(2) by auto
      then show False by (rule walk_name_cases) (use below [of "[Normal s]"] in auto)
    qed
    with deep(4) have "create_dir d p t1 = Inr t'" by simp
    then obtain m' c' where "walk t1 max_links d p0 = Inr (m', c')" and t': "t' = put_entry (c' @ [Normal s]) Folder t1"
      and w': "walk t' max_links d p = Inr (m', c' @ [Normal s])"
      by (rule create_dir_Inr) (use p in auto)
    then have c': "m' = m" "c' = c @ rest" using rest(2) by auto
    have new: "map_of t1 (c @ rest @ [Normal s]) = None" using below [of "[Normal s]"] by simp
    have "map_of t (c @ rest @ [Normal s]) = None"
      using new rest(3) by (auto simp: grown_below_def map_le_def) (metis domIff)
    moreover have "map_of t' (c @ (rest @ [Normal s]) @ x) = None" if "x \<noteq> []" for x
      using below [of "Normal s # x"] t' c' that by (simp add: tree_eval)
    moreover have "grown_below t c t'" using grown_below_put [OF rest(3)] new t' c' by simp
    ultimately show ?thesis using w' p rest(1) c' by (intro exI [of _ "rest @ [Normal s]"]) auto
  qed
qed

end
