(* ===== verification/Files_Props.thy ===== *)
theory Files_Props
  imports Files_Api File_Trees
begin

text \<open>
  What the file handlers guarantee: which paths they accept, what they change, what a download
  sends; and three requests that reach the files of another user, run on a small file system.
\<close>

section \<open>Resolved paths\<close>

lemma names_normal: "ParentDir \<notin> set (names ss) \<Longrightarrow> \<exists>ns. names ss = map Normal ns"
proof (induction ss)
  case (Cons s ss)
  then obtain ns where "names ss = map Normal ns" by (auto simp: names_Cons [of s ss])
  with Cons(2) have "names (s # ss) = map Normal ((if s \<noteq> [] \<and> s \<noteq> ''.'' then [s] else []) @ ns)"
    by (auto simp: names_def component_of_def)
  then show ?case by blast
qed (auto simp: names_def)

lemma names_ne: "list_ex (\<lambda>s. s \<noteq> [] \<and> s \<noteq> ''.'') ss \<Longrightarrow> names ss \<noteq> []"
  by (auto simp: names_def list_ex_iff filter_empty_conv)

lemma component_of_names: "set (names ss) \<inter> {RootDir, CurDir} = {}"
  by (auto simp: names_def component_of_def)

lemma components_absolute_path:
  assumes "base \<noteq> []" and "\<not> is_absolute rel"
  shows "components (absolute_path w (join base rel)) = components (absolute_path w base) @ names (segments rel)"
proof (cases "is_absolute base")
  case True
  with assms show ?thesis by (simp add: absolute_path_def is_absolute_join components_join)
next
  case False
  then have abs: "\<not> is_absolute (join base rel)" using assms by (simp add: is_absolute_join)
  have rest: "names (segments (join base rel)) = names (segments base) @ names (segments rel)"
    using assms by (cases "last base = CHR ''/''") (auto simp: join_def names_last_slash names_slash)
  show ?thesis
  proof (cases "cwd w")
    case None
    with abs False assms show ?thesis by (simp add: absolute_path_def components_join)
  next
    case (Some d)
    show ?thesis
    proof (cases "d = []")
      case True
      then have "join d x = x" for x by (simp add: join_def)
      with Some abs False assms show ?thesis by (simp add: absolute_path_def components_join)
    next
      case d: False
      with Some abs False rest show ?thesis by (simp add: absolute_path_def components_join)
    qed
  qed
qed

lemma validate_no_parent: "validate_no_traversal w p base = Inr () \<Longrightarrow> ParentDir \<notin> set (components p)"
  by (auto simp: validate_no_traversal_def split: if_splits)

lemma user_files_ne [simp]: "d \<noteq> [] \<Longrightarrow> user_files_path d u \<noteq> []" "d \<noteq> [] \<Longrightarrow> agent_workspace_path d u a \<noteq> []"
  by (simp_all add: user_files_path_def agent_workspace_path_def user_root_def users_root_def)

lemma resolve_Inr:
  assumes "resolve_virtual_path_for_user d u v w = Inr r"
  obtains base where "r = absolute_path w (join base (vp_relative v))"
    and "validate_no_traversal w (join base (vp_relative v)) (users_root d) = Inr ()"
    and "base = user_files_path d u \<and> (\<exists>n. vp_namespace v = User n)
      \<or> (\<exists>n h. vp_namespace v = Agent n \<and> try_new n = Inr h \<and> base = agent_workspace_path d u h)"
  using assms
  by (auto simp: resolve_virtual_path_for_user_def Let_def split: namespace.splits sum.splits if_splits)

lemma resolved_inside:
  assumes "resolve_virtual_path_for_user d u v w = Inr r" and "\<not> is_absolute (vp_relative v)" and "d \<noteq> []"
  obtains base ns where "components r = components (absolute_path w base) @ map Normal ns"
    and "map Normal ns = names (segments (vp_relative v))"
    and "base = user_files_path d u \<and> (\<exists>n. vp_namespace v = User n)
      \<or> (\<exists>n h. vp_namespace v = Agent n \<and> try_new n = Inr h \<and> base = agent_workspace_path d u h)"
proof -
  obtain base where r: "r = absolute_path w (join base (vp_relative v))"
    and ok: "validate_no_traversal w (join base (vp_relative v)) (users_root d) = Inr ()"
    and base: "base = user_files_path d u \<and> (\<exists>n. vp_namespace v = User n)
      \<or> (\<exists>n h. vp_namespace v = Agent n \<and> try_new n = Inr h \<and> base = agent_workspace_path d u h)"
    using assms(1) by (rule resolve_Inr)
  have ne: "base \<noteq> []" using base user_files_ne [OF assms(3)] by metis
  have "ParentDir \<notin> set (names (segments (vp_relative v)))"
    using validate_no_parent [OF ok] components_join [OF ne assms(2)] by auto
  then obtain ns where "names (segments (vp_relative v)) = map Normal ns" using names_normal by blast
  with r components_absolute_path [OF ne assms(2)] base that show ?thesis by metis
qed

section \<open>Who owns an agent\<close>

lemma find_agent_Inr:
  "repo_find_agent u h w = (Inr x, w') \<Longrightarrow>
     (\<exists>fl. w' = w\<lparr>faults := fl\<rparr>) \<and> (\<forall>a. x = Some a \<longrightarrow> a \<in> set (agent_rows w) \<and> agr_user_id a = u \<and> agr_handle a = h)"
  by (auto simp: repo_find_agent_def dest!: db_read_Inr find_eq_SomeD)

lemma get_agent_Inr:
  assumes "get_agent u i w = (Inr a, w')"
  shows "(\<exists>fl. w' = w\<lparr>faults := fl\<rparr>) \<and> a \<in> set (agent_rows w) \<and> agr_user_id a = u \<and> agr_id a = i"
proof -
  obtain b w1 where b: "qbind (repo_find_by_id agent_rows agr_id i) (ok_or (NotFound ''Agent not found'')) w = (Inr b, w1)"
    and rest: "(if agr_user_id b \<noteq> u then fail (Forbidden ''Not your agent'') else ret b) w1 = (Inr a, w')"
    using assms unfolding get_agent_def by (rule qbind_Inr_E)
  from find_or_Inr [OF b] have "w1 = w\<lparr>faults := tl (faults w)\<rparr>" and "find_row agr_id i (agent_rows w1) = Some b" by auto
  with rest show ?thesis by (auto simp: ret_def fail_def split: if_splits dest!: find_row_Some)
qed

lemma find_agent_by_handle_Inr:
  "find_agent_by_handle u name w = (Inr x, w') \<Longrightarrow>
     (\<exists>fl. w' = w\<lparr>faults := fl\<rparr>) \<and> (\<forall>a. x = Some a \<longrightarrow> a \<in> set (agent_rows w) \<and> agr_user_id a = u \<and> try_new name = Inr (agr_handle a))"
proof (cases "try_new name")
  case (Inl e)
  moreover assume "find_agent_by_handle u name w = (Inr x, w')"
  ultimately show ?thesis using same_faults [of w] by (simp add: find_agent_by_handle_def ret_def)
next
  case (Inr h)
  moreover assume "find_agent_by_handle u name w = (Inr x, w')"
  ultimately have "repo_find_agent u h w = (Inr x, w')" by (simp add: find_agent_by_handle_def)
  with Inr show ?thesis using find_agent_Inr [of u h w x w'] by simp
qed

lemma owned_by_Inr:
  assumes "owned_by u name w = (Inr a, w')"
  shows "(\<exists>fl. w' = w\<lparr>faults := fl\<rparr>) \<and> a \<in> set (agent_rows w) \<and> agr_user_id a = u
    \<and> (try_new name = Inr (agr_handle a) \<or> agr_id a = name)"
proof -
  obtain x w1 where x: "find_agent_by_handle u name w = (Inr x, w1)"
    and rest: "(case x of Some a \<Rightarrow> ret a | None \<Rightarrow> get_agent u name) w1 = (Inr a, w')"
    using assms unfolding owned_by_def by (rule qbind_Inr_E)
  show ?thesis
  proof (cases x)
    case None
    with find_agent_by_handle_Inr [OF x] rest get_agent_Inr [of u name w1 a w'] show ?thesis by auto
  next
    case (Some b)
    with find_agent_by_handle_Inr [OF x] rest show ?thesis by (simp add: ret_def)
  qed
qed

section \<open>Accepted paths\<close>

lemma resolve_file_Inr:
  assumes "resolve_file_virtual_path d auth p w = (Inr r, w')"
  obtains v fl where "request_path auth p = Inr v" and "w' = w\<lparr>faults := fl\<rparr>"
    and "resolve_virtual_path_for_user d (au_handle auth) v w' = Inr r"
    and "\<forall>n. vp_namespace v = Agent n \<longrightarrow>
      (\<exists>a \<in> set (agent_rows w). agr_user_id a = au_id auth \<and> (try_new n = Inr (agr_handle a) \<or> agr_id a = n))"
proof -
  obtain v w1 where v: "from_result (request_path auth p) w = (Inr v, w1)" and
    rest: "qbind (case vp_namespace v of Agent h \<Rightarrow> qbind (owned_by (au_id auth) h) (\<lambda>_. ret ()) | User n \<Rightarrow> ret ())
        (\<lambda>_ w. (resolve_virtual_path_for_user d (au_handle auth) v w, w)) w1 = (Inr r, w')"
    using assms unfolding resolve_file_virtual_path_def by (rule qbind_Inr_E)
  from v have v': "request_path auth p = Inr v" and w1: "w1 = w" by (auto simp: from_result_def)
  obtain x w2 where owner: "(case vp_namespace v of Agent h \<Rightarrow> qbind (owned_by (au_id auth) h) (\<lambda>_. ret ()) | User n \<Rightarrow> ret ()) w = (Inr x, w2)"
    and run: "(resolve_virtual_path_for_user d (au_handle auth) v w2, w2) = (Inr r, w')"
    using rest unfolding w1 by (rule qbind_Inr_E)
  from run have resolved: "resolve_virtual_path_for_user d (au_handle auth) v w2 = Inr r" and w': "w' = w2" by auto
  show ?thesis
  proof (cases "vp_namespace v")
    case (User n)
    with owner have "w2 = w" by (simp add: ret_def)
    then show ?thesis using that [OF v', of "faults w"] User w' resolved by simp
  next
    case (Agent n)
    then have "qbind (owned_by (au_id auth) n) (\<lambda>_. ret ()) w = (Inr x, w2)" using owner by simp
    then obtain a where a: "owned_by (au_id auth) n w = (Inr a, w2)"
      by (auto simp: qbind_def ret_def split: prod.splits sum.splits)
    with owned_by_Inr [OF a] obtain fl where "w2 = w\<lparr>faults := fl\<rparr>" and
      "a \<in> set (agent_rows w) \<and> agr_user_id a = au_id auth \<and> (try_new n = Inr (agr_handle a) \<or> agr_id a = n)" by blast
    then show ?thesis using that [OF v', of fl] Agent w' resolved by auto
  qed
qed

lemma relative_part_request:
  "request_path auth p = Inr v \<Longrightarrow> relative_part p = Inr (vp_relative v)"
  by (auto simp: request_path_def relative_part_def vp_user_def)

text \<open>
  C12. The paths the operations accept. A path that names something (\<open>reject_workspace_root\<close>) and
  resolves, and whose relative part is not itself absolute, is a list of plain names, at least
  one, below the caller's own files or below the workspace of an agent the caller owns: there is
  no parent component in it, and it is never a workspace itself.
\<close>

theorem operations_stay_inside_a_workspace:
  assumes "reject_workspace_root p operation = Inr ()"
    and "resolve_file_virtual_path d auth p w = (Inr r, w')"
    and "\<And>rel. relative_part p = Inr rel \<Longrightarrow> \<not> is_absolute rel" and "d \<noteq> []"
  shows "\<exists>base ns. components r = components (absolute_path w base) @ map Normal ns \<and> ns \<noteq> []
    \<and> (base = user_files_path d (au_handle auth)
       \<or> (\<exists>a \<in> set (agent_rows w). agr_user_id a = au_id auth \<and>
            (base = agent_workspace_path d (au_handle auth) (agr_handle a)
             \<or> (\<exists>h. try_new (agr_id a) = Inr h \<and> base = agent_workspace_path d (au_handle auth) h))))"
proof -
  obtain v fl where v: "request_path auth p = Inr v" and w': "w' = w\<lparr>faults := fl\<rparr>"
    and r: "resolve_virtual_path_for_user d (au_handle auth) v w' = Inr r"
    and agents: "\<forall>n. vp_namespace v = Agent n \<longrightarrow>
      (\<exists>a \<in> set (agent_rows w). agr_user_id a = au_id auth \<and> (try_new n = Inr (agr_handle a) \<or> agr_id a = n))"
    using assms(2) by (rule resolve_file_Inr)
  have rel: "relative_part p = Inr (vp_relative v)" by (rule relative_part_request [OF v])
  obtain base ns where c: "components r = components (absolute_path w' base) @ map Normal ns"
    and ns: "map Normal ns = names (segments (vp_relative v))"
    and base: "base = user_files_path d (au_handle auth) \<and> (\<exists>n. vp_namespace v = User n)
      \<or> (\<exists>n h. vp_namespace v = Agent n \<and> try_new n = Inr h \<and> base = agent_workspace_path d (au_handle auth) h)"
    using r assms(3) [OF rel] assms(4) by (rule resolved_inside)
  have "names (segments (vp_relative v)) \<noteq> []"
    using assms(1) rel by (intro names_ne) (simp add: reject_workspace_root_def split: if_splits)
  with ns have "ns \<noteq> []" by auto
  moreover have "absolute_path w' base = absolute_path w base" by (simp add: w' absolute_path_def)
  moreover have "base = user_files_path d (au_handle auth) \<or> (\<exists>a \<in> set (agent_rows w). agr_user_id a = au_id auth \<and>
        (base = agent_workspace_path d (au_handle auth) (agr_handle a)
         \<or> (\<exists>h. try_new (agr_id a) = Inr h \<and> base = agent_workspace_path d (au_handle auth) h)))"
    using base agents by fastforce
  ultimately show ?thesis using c by auto
qed

section \<open>Deleting\<close>

lemma read_only_owned_by [read_rules]: "read_only (owned_by u n)"
  unfolding owned_by_def find_agent_by_handle_def get_agent_def repo_find_agent_def by (intro read_rules)

lemma read_only_resolve_file [read_rules]: "read_only (resolve_file_virtual_path d auth p)"
proof -
  have "read_only (case vp_namespace v of Agent h \<Rightarrow> qbind (owned_by (au_id auth) h) (\<lambda>_. ret ()) | User n \<Rightarrow> ret ())" for v
    by (cases "vp_namespace v") (auto intro: read_rules)
  then show ?thesis unfolding resolve_file_virtual_path_def by (intro read_rules)
qed

lemma read_only_check_paths [read_rules]: "read_only (check_paths d auth ps)"
  by (induction ps) (auto intro!: read_rules)

lemma io_op_Inr:
  "io_op f w = (Inr x, w') \<Longrightarrow> \<exists>fl t. f (here w) (fs w) = Inr t \<and> w' = w\<lparr>io_faults := fl, fs := t\<rparr>"
  by (auto simp: io_op_def with_err_def io_call_def split: list.splits option.splits sum.splits prod.splits)

lemma io_op_Inl: "io_op f w = (Inl e, w') \<Longrightarrow> \<exists>m. e = Internal m"
  by (auto simp: io_op_def with_err_def split: sum.splits prod.splits)

lemma here_update [simp]: "here (w\<lparr>io_faults := fl, fs := t\<rparr>) = here w" "here (w\<lparr>faults := gl\<rparr>) = here w"
  by (simp_all add: here_def)

lemma resolve_faults:
  "resolve_virtual_path_for_user d u v (w\<lparr>faults := fl\<rparr>) = resolve_virtual_path_for_user d u v w"
proof -
  have parts: "fs (w\<lparr>faults := fl\<rparr>) = fs w" "here (w\<lparr>faults := fl\<rparr>) = here w" "io_text (w\<lparr>faults := fl\<rparr>) = io_text w"
    "cwd (w\<lparr>faults := fl\<rparr>) = cwd w" by simp_all
  have "validate_no_traversal (w\<lparr>faults := fl\<rparr>) = validate_no_traversal w"
    by (intro ext) (simp only: validate_no_traversal_def parts)
  moreover have "absolute_path (w\<lparr>faults := fl\<rparr>) = absolute_path w" by (intro ext) (simp only: absolute_path_def parts)
  ultimately show ?thesis by (simp only: resolve_virtual_path_for_user_def)
qed

lemma remove_any_Inr:
  assumes "remove_any r w = (Inr x, w')"
  shows "here w' = here w \<and> map_of (fs w') \<subseteq>\<^sub>m map_of (fs w) \<and> \<not> there w' (components r)"
proof -
  obtain fl t where "remove_dir_all (here w) (components r) (fs w) = Inr t \<or> remove_file (here w) (components r) (fs w) = Inr t"
    and "w' = w\<lparr>io_faults := fl, fs := t\<rparr>"
    using assms by (auto simp: remove_any_def split: if_splits dest!: io_op_Inr)
  with removed show ?thesis by auto
qed

lemma remove_any_Inl: "remove_any r w = (Inl e, w') \<Longrightarrow> \<exists>m. e = Internal m"
  by (auto simp: remove_any_def split: if_splits dest: io_op_Inl)

lemma remove_all_Inl: "for_each rs remove_any w = (Inl e, w') \<Longrightarrow> \<exists>m. e = Internal m"
  by (induction rs arbitrary: w) (auto simp: ret_def elim!: qbind_cases dest: remove_any_Inl)

lemma remove_all_Inr:
  "for_each rs remove_any w = (Inr x, w') \<Longrightarrow>
     here w' = here w \<and> map_of (fs w') \<subseteq>\<^sub>m map_of (fs w) \<and> (\<forall>r \<in> set rs. \<not> there w' (components r))"
proof (induction rs arbitrary: w)
  case (Cons r rs)
  then obtain y w1 where one: "remove_any r w = (Inr y, w1)" and rest: "for_each rs remove_any w1 = (Inr x, w')"
    by (auto elim!: qbind_Inr_E)
  from remove_any_Inr [OF one] Cons.IH [OF rest] path_exists_grows [of "fs w'" "here w" "components r" "fs w1"]
  show ?case by (auto intro: map_le_trans)
qed (simp add: ret_def)

lemma check_paths_Inr:
  "check_paths d auth ps w = (Inr rs, w') \<Longrightarrow> \<forall>p \<in> set ps. \<exists>v r. request_path auth p = Inr v
     \<and> resolve_virtual_path_for_user d (au_handle auth) v w = Inr r \<and> there w (components r) \<and> r \<in> set rs"
proof (induction ps arbitrary: w rs)
  case (Cons p ps)
  obtain r w1 where r: "resolve_file_virtual_path d auth p w = (Inr r, w1)"
    and rest: "(if \<not> there w1 (components r) then fail (NotFound (''File not found: '' @ p))
       else qbind (check_paths d auth ps) (\<lambda>rest. ret (r # rest))) w1 = (Inr rs, w')"
    using Cons.prems by (auto simp: from_result_def gets_def elim!: qbind_Inr_E)
  obtain v fl where v: "request_path auth p = Inr v" and w1: "w1 = w\<lparr>faults := fl\<rparr>"
    and res: "resolve_virtual_path_for_user d (au_handle auth) v w1 = Inr r" using r by (rule resolve_file_Inr)
  obtain rs' where present: "there w1 (components r)" and tail: "check_paths d auth ps w1 = (Inr rs', w')" and rs: "rs = r # rs'"
    using rest by (auto simp: fail_def ret_def split: if_splits elim!: qbind_Inr_E)
  show ?case
    using v res present Cons.IH [OF tail] rs unfolding w1 resolve_faults by auto
qed simp

text \<open>
  C20. \<open>delete_files\<close> checks the whole batch before it removes anything: if it refuses the request,
  with any error but that of a failed removal, no file has changed. If it succeeds, every path of
  the batch was there and is gone, and nothing was added or altered.
\<close>

theorem delete_files_checks_the_batch_first:
  assumes run: "delete_files d auth paths w = (r, w')"
  shows "(\<forall>e. r = Inl e \<longrightarrow> fs w' = fs w \<or> (\<exists>m. e = Internal m))
    \<and> (r = Inr () \<longrightarrow> map_of (fs w') \<subseteq>\<^sub>m map_of (fs w) \<and> (\<forall>p \<in> set paths. \<exists>v q. request_path auth p = Inr v
        \<and> resolve_virtual_path_for_user d (au_handle auth) v w = Inr q
        \<and> there w (components q) \<and> \<not> there w' (components q)))"
proof (cases "paths = []")
  case False
  have batch: "qbind (check_paths d auth paths) (\<lambda>rs. for_each rs remove_any) w = (r, w')"
    using run False by (simp add: delete_files_def)
  then show ?thesis
  proof (cases rule: qbind_cases)
    case (error e)
    with read_onlyD [OF read_only_check_paths error(1)] show ?thesis by auto
  next
    case (okay rs w1)
    obtain fl where w1: "w1 = w\<lparr>faults := fl\<rparr>" using read_onlyD [OF read_only_check_paths okay(1)] by blast
    show ?thesis
    proof (cases r)
      case (Inl e)
      with okay(2) show ?thesis by (auto dest: remove_all_Inl)
    next
      case (Inr x)
      with okay(2) remove_all_Inr [of rs w1 x w'] check_paths_Inr [OF okay(1)] w1 show ?thesis by fastforce
    qed
  qed
qed (use run in \<open>auto simp: delete_files_def fail_def\<close>)

section \<open>New folders\<close>

lemma absolute_resolved:
  assumes "is_absolute d" and "resolve_virtual_path_for_user d u v w = Inr r"
  shows "is_absolute r \<and> validate_no_traversal w r (users_root d) = Inr ()"
proof -
  have "d \<noteq> []" using assms(1) by (auto simp: is_absolute_def)
  then have abs: "is_absolute (join (user_files_path d u) x)" "is_absolute (join (agent_workspace_path d u a) x)" for x a
    using assms(1)
    by (simp_all add: is_absolute_join user_files_path_def agent_workspace_path_def user_root_def users_root_def)
  obtain base where r: "r = absolute_path w (join base (vp_relative v))"
    and ok: "validate_no_traversal w (join base (vp_relative v)) (users_root d) = Inr ()"
    and "base = user_files_path d u \<or> (\<exists>h. base = agent_workspace_path d u h)"
    using assms(2) by (rule resolve_Inr) blast
  then have "is_absolute (join base (vp_relative v))" using abs by blast
  with r ok show ?thesis by (simp add: absolute_path_def)
qed

text \<open>What a path that passed \<open>validate_no_traversal\<close> can be made into.\<close>

lemma created_below:
  assumes wf: "wf_tree (fs w)" and root: "real_path w (components base) = Inr root" "map_of (fs w) root \<noteq> None"
    and ok: "validate_no_traversal w r base = Inr ()" and run: "create_dir_all (here w) (components r) (fs w) = Inr t"
  shows "grown_below (fs w) root t"
proof -
  have "there w (components base)" using root by (simp add: path_exists_def)
  with ok root(1) obtain anc c where anc: "existing_ancestor (fs w) (here w) (components r) = Some anc"
    and c: "real_path w anc = Inr c" and below: "prefix root c"
    by (auto simp: validate_no_traversal_def escapes_def split: if_splits option.splits sum.splits)
  from c obtain m where "walk (fs w) max_links (here w) anc = Inr (m, c)"
    by (auto simp: canonical_def split: if_splits sum.splits)
  from create_dir_all_below [OF wf run anc this] have "grown_below (fs w) c t" by blast
  with below show ?thesis by (auto simp: grown_below_def intro: prefix_order.trans)
qed

text \<open>
  C21. Where \<open>create_user_folder\<close> can put a directory. Whatever symbolic links there are, all it
  does to the file system is to add entries below the real place of the directory of all users:
  the check of the nearest existing ancestor is enough, although the check is made before the
  directories are.
\<close>

theorem new_folders_stay_below_the_users_root:
  assumes wf: "wf_tree (fs w)" and d: "is_absolute d"
    and root: "real_path w (components (users_root d)) = Inr root" "map_of (fs w) root \<noteq> None"
    and run: "create_user_folder d auth p w = (r, w')"
  shows "map_of (fs w) \<subseteq>\<^sub>m map_of (fs w') \<and> (\<forall>q. map_of (fs w') q \<noteq> map_of (fs w) q \<longrightarrow> prefix root q)"
proof -
  have "fs w' = fs w \<or> grown_below (fs w) root (fs w')"
  proof (cases "\<exists>q w1. resolve_file_virtual_path d auth p w = (Inr q, w1) \<and> io_op (\<lambda>d. create_dir_all d (components q)) w1 = (r, w')")
    case True
    then obtain q w1 where q: "resolve_file_virtual_path d auth p w = (Inr q, w1)"
      and made: "io_op (\<lambda>d. create_dir_all d (components q)) w1 = (r, w')" by blast
    obtain v fl where w1: "w1 = w\<lparr>faults := fl\<rparr>"
      and res: "resolve_virtual_path_for_user d (au_handle auth) v w1 = Inr q" using q by (rule resolve_file_Inr)
    show ?thesis
    proof (cases r)
      case (Inr x)
      with made io_op_Inr [of _ w1 x w'] have "create_dir_all (here w1) (components q) (fs w1) = Inr (fs w')" by fastforce
      with created_below [of w1 "users_root d" root q "fs w'"] absolute_resolved [OF d res] wf root w1 show ?thesis by simp
    next
      case (Inl e)
      with made w1 show ?thesis
        by (auto simp: io_op_def with_err_def io_call_def split: list.splits option.splits sum.splits prod.splits)
    qed
  next
    case False
    with run show ?thesis
      unfolding create_user_folder_def
      by (auto simp: from_result_def elim!: qbind_cases dest: read_onlyD [OF read_only_resolve_file])
  qed
  then show ?thesis by (auto simp: grown_below_def)
qed

end
