(* ===== verification/File_Contents.thy ===== *)
theory File_Contents
  imports Files_Props
begin

text \<open>
  What is written and what is sent: uploads, layered workspaces, byte ranges, the spelling of
  virtual paths; the invariant of the file system; and the requests that reach the files of
  another user.
\<close>

section \<open>Uploads\<close>

lemma write_file_Inr:
  assumes "write_file d p b t = Inr t'"
  shows "read_file t' d p = Inr b" and "\<not> path_exists t d p \<Longrightarrow> map_of t \<subseteq>\<^sub>m map_of t'"
proof -
  obtain q m where q: "t' = put_entry q (RegularFile b) t" "walk t' max_links d p = Inr (m, q)"
    and old: "map_of t q = None \<and> (\<forall>r. walk t max_links d p \<noteq> Inr r)
      \<or> (\<exists>b0. map_of t q = Some (RegularFile b0)) \<and> walk t max_links d p = Inr (m, q)"
    using write_at_Inr [of t max_links d p b t'] assms unfolding write_file_def by blast
  have "p \<noteq> []" using assms by (auto simp: write_file_def write_at.simps [of t] file_name_def)
  with q show "read_file t' d p = Inr b" by (simp add: read_file_def canonical_def tree_eval)
  from old q(1) \<open>p \<noteq> []\<close> show "\<not> path_exists t d p \<Longrightarrow> map_of t \<subseteq>\<^sub>m map_of t'"
    by (auto simp: path_exists_iff intro: put_grows)
qed

lemma with_err_Inr [simp]: "with_err g m w = (Inr a, w') \<longleftrightarrow> m w = (Inr a, w')"
  by (auto simp: with_err_def split: prod.splits sum.splits)

lemma dedup_filename_Some:
  assumes "dedup_filename taken uuid dir leaf = Some name"
  shows "\<not> taken (join dir name) \<or> (\<exists>a b. name = a @ ''-'' @ uuid @ b)"
proof (cases "taken (join dir leaf)")
  case True
  define stem where "stem = (case file_stem leaf of None \<Rightarrow> leaf | Some s \<Rightarrow> s)"
  define ext where "ext = drop (length stem) leaf"
  have "\<not> taken (join dir name) \<or> name = stem @ ''-'' @ uuid @ ext"
    using assms True unfolding dedup_filename_def Let_def stem_def [symmetric] ext_def [symmetric]
    by (auto simp: find_Some_iff split: if_splits option.splits)
  then show ?thesis by blast
qed (use assms in \<open>simp add: dedup_filename_def\<close>)

lemma write_upload_Inr:
  assumes "write_upload uuid base rel original bytes w = (Inr name, w')"
  shows "\<exists>dir leaf. upload_target base rel original = Inr (dir, leaf)
    \<and> read_file (fs w') (here w') (components (join dir name)) = Inr bytes
    \<and> (map_of (fs w) \<subseteq>\<^sub>m map_of (fs w') \<or> (\<exists>a b. name = a @ ''-'' @ uuid @ b))"
proof -
  obtain dir leaf w1 w2 where t: "upload_target base rel original = Inr (dir, leaf)"
    and mk: "io_op (\<lambda>d. create_dir_all d (components dir)) w = (Inr (), w1)"
    and name: "dedup_filename (\<lambda>p. there w1 (components p)) uuid dir leaf = Some name"
    and wr: "io_op (\<lambda>d. write_file d (components (join dir name)) bytes) w1 = (Inr (), w2)" and "w' = w2"
    using assms
    by (auto simp: write_upload_def from_result_def gets_def ok_or_def ret_def fail_def split: prod.splits option.splits
        elim!: qbind_Inr_E)
  obtain t1 fl where t1: "create_dir_all (here w) (components dir) (fs w) = Inr t1" and w1: "w1 = w\<lparr>io_faults := fl, fs := t1\<rparr>"
    using io_op_Inr [OF mk] by auto
  obtain t2 gl where t2: "write_file (here w1) (components (join dir name)) bytes (fs w1) = Inr t2"
    and w2: "w2 = w1\<lparr>io_faults := gl, fs := t2\<rparr>"
    using io_op_Inr [OF wr] by auto
  have "map_of (fs w) \<subseteq>\<^sub>m map_of (fs w1)" using create_dir_all_grows [OF t1] w1 by simp
  moreover have "map_of (fs w1) \<subseteq>\<^sub>m map_of t2 \<or> (\<exists>a b. name = a @ ''-'' @ uuid @ b)"
    using write_file_Inr(2) [OF t2] dedup_filename_Some [OF name] by blast
  ultimately show ?thesis using t w2 \<open>w' = w2\<close> write_file_Inr(1) [OF t2] by (auto intro: map_le_trans)
qed

text \<open>
  C31. An upload overwrites nothing: after \<open>upload_file\<close> returns, the file it announces holds the
  bytes of the request, and every entry that was there is still there and the same. (If all of the
  999 numbered names are taken, the name carries a random number instead, and only its novelty
  can save a file.) The signing service must leave files alone.
\<close>

theorem an_upload_overwrites_nothing:
  assumes sign: "\<And>a b c e v. fs (snd (sign a b c e v)) = fs v \<and> here (snd (sign a b c e v)) = here v"
    and run: "upload_file lo sign d uuid auth multipart w = (Inr att, w')"
  shows "\<exists>original bytes rel dir leaf. read_fields multipart None None = Inr (Some (original, bytes), rel)
    \<and> upload_target (user_files_path d (au_handle auth)) rel original = Inr (dir, leaf)
    \<and> read_file (fs w') (here w') (components (join dir (at_filename att))) = Inr bytes
    \<and> (map_of (fs w) \<subseteq>\<^sub>m map_of (fs w') \<or> (\<exists>a b. at_filename att = a @ ''-'' @ uuid @ b))"
proof -
  define base where "base = user_files_path d (au_handle auth)"
  obtain original bytes rel name w1 where f: "read_fields multipart None None = Inr (Some (original, bytes), rel)"
    and up: "write_upload uuid base rel original bytes w = (Inr name, w1)"
    and att: "at_filename att = name \<and> (\<exists>a b c e. w' = snd (sign a b c e w1))"
    using run
    by (auto simp: upload_file_def from_result_def ok_or_def fail_def ret_def user_workspace_def base_def Let_def
        attempted_def split: prod.splits option.splits elim!: qbind_Inr_E) (metis snd_conv)+
  from att have "at_filename att = name" and "fs w' = fs w1" and "here w' = here w1" using sign by auto
  with f write_upload_Inr [OF up] show ?thesis by (auto simp: base_def)
qed

section \<open>Workspaces\<close>

lemma with_io_call_Inr:
  "with_err g (io_call f) w = (Inr x, w') \<Longrightarrow> \<exists>fl t. f (here w) (fs w) = Inr t \<and> w' = w\<lparr>io_faults := fl, fs := t\<rparr>"
  by (auto simp: io_call_def split: list.splits option.splits sum.splits)

text \<open>
  A layered workspace reads what was last written: after a successful \<open>write_bytes\<close> of text,
  \<open>read\<close> of the same path returns it, whatever the layers below and the shared directory hold,
  and the shared directory of the templates itself was not asked to change.
\<close>

theorem a_workspace_reads_what_it_wrote:
  assumes "layers ws = l # ls" and "valid_utf8 (map of_char b)" and "ws_write_bytes ws p b w = (Inr x, w')"
  shows "ws_read ws p w' = Some b"
proof -
  have ok: "validate_relative_path p = Inr ()"
    using assms(3) by (auto simp: ws_write_bytes_def from_result_def elim!: qbind_Inr_E)
  obtain w1 where "with_err (\<lambda>e. Internal (''Failed to write '' @ join l p @ '': '' @ e))
      (io_call (\<lambda>d. write_file d (components (join l p)) b)) w1 = (Inr x, w')"
    using assms(1,3) ok by (auto simp: ws_write_bytes_def Let_def elim!: qbind_Inr_E)
  then obtain fl t where "write_file (here w1) (components (join l p)) b (fs w1) = Inr t" and w': "w' = w1\<lparr>io_faults := fl, fs := t\<rparr>"
    using with_io_call_Inr by blast
  then have "read_to_string w' (join l p) = Some b"
    using write_file_Inr(1) assms(2) by (simp add: read_to_string_def)
  with ok assms(1) show ?thesis by (simp add: ws_read_def)
qed

section \<open>Byte ranges\<close>

text \<open>What a window means, by the three forms of the header.\<close>

lemma range_window_Partial:
  assumes "range_window n lo hi = Partial r" and "0 < n"
  shows "br_start r \<le> br_end r \<and> br_end r < n"
  using assms by (auto simp: range_window_def Let_def split: if_splits option.splits)

lemma parse_range_Partial:
  assumes "parse_range h n = Partial r"
  shows "br_start r \<le> br_end r \<and> br_end r < n"
  using assms range_window_Partial
  by (auto simp: parse_range_def split: option.splits if_splits prod.splits)

lemma response_base_fields [simp]:
  "rs_status (response_base lo f n) = n" "rs_body (response_base lo f n) = []"
  by (simp_all add: response_base_def Let_def)

text \<open>
  C40. A download sends what it announces. A partial answer (206) carries exactly the bytes from the
  start to the end it names, both inside the file, as many as its content length says; a full
  answer (200) carries the file; an answer 416 carries nothing. Nothing is written, and the only
  error is that there is no such file.
\<close>

theorem a_download_sends_what_it_announces:
  assumes "serve_path lo p header w = (r, w')"
  shows "w' = w \<and> (case r of
      Inl e \<Rightarrow> e = NotFound ''File not found'' \<and> (\<forall>b. read_file (fs w) (here w) (components p) \<noteq> Inr b)
    | Inr resp \<Rightarrow> (\<exists>b. read_file (fs w) (here w) (components p) = Inr b \<and>
        ((rs_status resp = 200 \<and> rs_body resp = b \<and> rs_content_length resp = Some (length b))
         \<or> (rs_status resp = 416 \<and> rs_body resp = [])
         \<or> (\<exists>s e. rs_status resp = 206 \<and> s \<le> e \<and> e < length b
              \<and> rs_body resp = map (\<lambda>i. b ! i) [s ..< Suc e]
              \<and> rs_content_length resp = Some (length (rs_body resp))
              \<and> rs_content_range resp = Some (''bytes '' @ show_nat s @ ''-'' @ show_nat e @ ''/'' @ show_nat (length b))))))"
proof (cases "read_file (fs w) (here w) (components p)")
  case (Inl e)
  with assms show ?thesis by (auto simp: serve_path_def file_missing_def fail_def)
next
  case (Inr b)
  show ?thesis
  proof (cases "parse_range header (length b)")
    case (Partial rng)
    have bounds: "br_start rng \<le> br_end rng" "br_end rng < length b" using parse_range_Partial [OF Partial] by auto
    then have "take (br_len rng) (drop (br_start rng) b) = map ((!) b) [br_start rng ..< Suc (br_end rng)]"
      by (intro nth_equalityI) (auto simp: br_len_def simp del: upt_Suc)
    moreover have "br_len rng = length (map ((!) b) [br_start rng ..< Suc (br_end rng)])"
      using bounds by (simp add: br_len_def del: upt_Suc)
    moreover have "w' = w" and "r = Inr ((response_base lo (case file_name (components p) of Some n \<Rightarrow> n | None \<Rightarrow> ''download'') 206)
      \<lparr>rs_content_range := Some (''bytes '' @ show_nat (br_start rng) @ ''-'' @ show_nat (br_end rng) @ ''/'' @ show_nat (length b)),
       rs_content_length := Some (br_len rng), rs_body := take (br_len rng) (drop (br_start rng) b)\<rparr>)"
      using Partial Inr assms by (simp_all add: serve_path_def ret_def)
    ultimately show ?thesis using Inr bounds
      by (simp del: upt_Suc) (intro exI [of _ "br_start rng"] exI [of _ "br_end rng"] conjI; simp del: upt_Suc)
  qed (use Inr assms in \<open>auto simp: serve_path_def ret_def response_base_def Let_def\<close>)
qed

section \<open>The spelling of a virtual path\<close>

text \<open>
  Parsing undoes printing: the text of a virtual path whose name has no slash is parsed back
  to it, for both namespaces and any relative part.
\<close>

theorem virtual_paths_round_trip:
  assumes "\<And>n. vp_namespace v = User n \<or> vp_namespace v = Agent n \<Longrightarrow> CHR ''/'' \<notin> set n"
  shows "vp_parse (vp_display v) = Inr v"
proof -
  have split: "split_first_segment (n @ CHR ''/'' # r) = (n, r)" if "CHR ''/'' \<notin> set n" for n r
    using that split_once_Some [of "CHR ''/''" "n @ CHR ''/'' # r" n r] by (simp add: split_first_segment_def)
  have pre: "strip_prefix ''user://'' (''user://'' @ x) = Some x" "strip_prefix ''agent://'' (''agent://'' @ x) = Some x"
    "strip_prefix ''user://'' (''agent://'' @ x) = None" for x
    by (simp_all add: strip_prefix_def)
  show ?thesis
  proof (cases "vp_namespace v")
    case (User n)
    with assms [of n] pre(1) [of "n @ CHR ''/'' # vp_relative v"] show ?thesis by (simp add: vp_display_def vp_parse_def split)
  next
    case (Agent n)
    with assms [of n] pre(2,3) [of "n @ CHR ''/'' # vp_relative v"] show ?thesis by (simp add: vp_display_def vp_parse_def split)
  qed
qed

section \<open>The file system stays well formed\<close>

abbreviation wf_files :: "'w file_world_scheme \<Rightarrow> bool" where
  "wf_files w \<equiv> wf_tree (fs w)"

lemma keeps_read_only:
  assumes "read_only m" and "\<And>w fl. P w \<Longrightarrow> P (w\<lparr>faults := fl\<rparr>)"
  shows "keeps P m"
  by (rule validI) (use read_onlyD [OF assms(1)] assms(2) in blast)

lemma keeps_wf_read: "read_only m \<Longrightarrow> keeps wf_files m"
  by (erule keeps_read_only) simp

lemma keeps_io_call:
  assumes "\<And>d t t'. wf_tree t \<Longrightarrow> f d t = Inr t' \<Longrightarrow> wf_tree t'"
  shows "keeps wf_files (io_call f)"
  using assms by (auto simp: valid_def io_call_def split: list.splits option.splits sum.splits)

lemma keeps_io_op:
  assumes "\<And>d t t'. wf_tree t \<Longrightarrow> f d t = Inr t' \<Longrightarrow> wf_tree t'"
  shows "keeps wf_files (io_op f)"
  unfolding io_op_def by (rule keeps_with_err) (rule keeps_io_call, fact assms)

lemma keeps_wf_calls [keep_rules]:
  "keeps wf_files (io_op (\<lambda>d. create_dir_all d p))" "keeps wf_files (io_op (\<lambda>d. rename d p q))"
  "keeps wf_files (io_op (\<lambda>d. remove_dir_all d p))" "keeps wf_files (io_op (\<lambda>d. remove_file d p))"
  "keeps wf_files (io_op (\<lambda>d. write_file d p b))" "keeps wf_files (io_call (\<lambda>d. create_dir_all d p))"
  "keeps wf_files (io_call (\<lambda>d. write_file d p b))"
  by (auto intro!: keeps_io_op keeps_io_call simp: write_file_def
      intro: wf_create_dir_all wf_rename wf_remove wf_write_at)

lemma keeps_wf_resolve_file [keep_rules]: "keeps wf_files (resolve_file_virtual_path d auth p)"
  by (intro keeps_wf_read read_rules)

lemma keeps_wf_resolve [keep_rules]: "keeps wf_files (\<lambda>w. (g w, w))"
  by (simp add: valid_def)

lemma keeps_wf_remove_any [keep_rules]: "keeps wf_files (remove_any r)"
  unfolding remove_any_def by (rule keep_rules)+

lemma keeps_wf_move_one [keep_rules]: "keeps wf_files (move_one d auth dest source)"
  unfolding move_one_def by (rule keep_rules)+

text \<open>
  The file system stays a tree: whichever handler runs, and whatever calls fail, the root is a
  directory and every other entry is a name in a directory. In particular a rename never cuts a
  directory off by moving it below itself.
\<close>

theorem the_file_system_stays_a_tree:
  "keeps wf_files (rename_user_file d auth p n) \<and> keeps wf_files (move_files d auth sources dest)
   \<and> keeps wf_files (delete_files d auth paths) \<and> keeps wf_files (create_user_folder d auth p)
   \<and> keeps wf_files (delete_user_file d auth h f) \<and> keeps wf_files (ws_write_bytes ws p b)
   \<and> keeps wf_files (write_upload uuid base rel original b)"
proof (intro conjI)
  show "keeps wf_files (rename_user_file d auth p n)"
    unfolding rename_user_file_def file_missing_def Let_def by (rule keep_rules)+
  show "keeps wf_files (move_files d auth sources dest)"
    unfolding move_files_def by (rule keep_rules)+
  have "keeps wf_files (check_paths d auth paths)" by (intro keeps_wf_read read_rules)
  then show "keeps wf_files (delete_files d auth paths)"
    unfolding delete_files_def by (intro keeps_if keeps_fail keeps_qbind keeps_for_each keeps_wf_remove_any)
  show "keeps wf_files (create_user_folder d auth p)"
    unfolding create_user_folder_def by (rule keep_rules)+
  show "keeps wf_files (delete_user_file d auth h f)"
    unfolding delete_user_file_def file_missing_def by (rule keep_rules)+
  show "keeps wf_files (ws_write_bytes ws p b)"
    unfolding ws_write_bytes_def Let_def by (rule keep_rules)+
  show "keeps wf_files (write_upload uuid base rel original b)"
    unfolding write_upload_def by (rule keep_rules)+
qed

section \<open>A small server\<close>

text \<open>Two users with one file each, and an agent of the first; the data directory is \<open>/data\<close>.\<close>

definition under :: "string list \<Rightarrow> component list" where
  "under ns = RootDir # map Normal ns"

definition demo_tree :: tree where
  "demo_tree =
     [([RootDir], Folder), (under [''data''], Folder), (under [''data'', ''users''], Folder),
      (under [''data'', ''users'', ''mina''], Folder), (under [''data'', ''users'', ''mina'', ''files''], Folder),
      (under [''data'', ''users'', ''mina'', ''files'', ''a''], RegularFile ''of mina''),
      (under [''data'', ''users'', ''bob''], Folder), (under [''data'', ''users'', ''bob'', ''files''], Folder),
      (under [''data'', ''users'', ''bob'', ''files'', ''a''], RegularFile ''of bob'')]"

definition mina :: auth_user where
  "mina = \<lparr>au_id = ''m'', au_handle = ''mina''\<rparr>"

definition demo_files :: file_world where
  "demo_files = \<lparr>faults = [], clock = 0, duplicate_text = (\<lambda>i. i), notifications = [], keypairs = [], signing_cache = (\<lambda>_. None),
     verifying_cache = (\<lambda>_. None), api_tokens = [], users = [], user_cache = (\<lambda>_. None),
     agent_rows = [\<lparr>agr_id = ''1'', agr_user_id = ''m'', agr_handle = ''dev''\<rparr>],
     fs = demo_tree, io_faults = [], cwd = Some ''/'', io_text = (\<lambda>e. [])\<rparr>"

definition bobs_file :: "component list" where
  "bobs_file = under [''data'', ''users'', ''bob'', ''files'', ''a'']"

lemma demo_wf: "wf_tree (fs demo_files)"
  by code_simp

section \<open>Other users' files\<close>

lemma slot_ne: "slot t d p = Inr q \<Longrightarrow> p \<noteq> [] \<and> p \<noteq> [RootDir]"
  by (auto elim!: slot_Inr)

lemma slot_file:
  assumes "slot t d p = Inr q" and "map_of t q = Some (RegularFile b)"
  shows "canonical t d p = Inr q" and "path_exists t d p" and "\<not> is_dir t d p" and "remove_file d p t = Inr (drop_subtree q t)"
proof -
  obtain m where "walk t max_links d p = Inr (m, q)" using slot_walk(3) [OF assms] by blast
  with slot_ne [OF assms(1)] show c: "canonical t d p = Inr q" by (simp add: canonical_def)
  with assms show "path_exists t d p" "\<not> is_dir t d p" "remove_file d p t = Inr (drop_subtree q t)"
    by (simp_all add: path_exists_def is_dir_def remove_file_def)
qed

lemma absolute_not_root:
  assumes "slot t d (components rel) = Inr q" and "is_absolute rel"
  shows "list_ex (\<lambda>s. s \<noteq> [] \<and> s \<noteq> ''.'') (segments rel)"
proof -
  have "names (segments rel) \<noteq> []" using slot_ne [OF assms(1)] assms(2) by (auto simp: components_def)
  then show ?thesis by (auto simp: names_def list_ex_iff filter_empty_conv)
qed

text \<open>
  C10. A virtual path whose relative part is absolute is not confined to its namespace:
  \<open>Path::join\<close> drops the base, and the check that follows only asks for the directory of all
  users. So whoever is logged in deletes any regular file below that directory, whosever it is, by
  writing its absolute path behind their own handle: the request succeeds and exactly the entry of
  that file is gone. (The absolute path has no \<open>..\<close> in it and leads to a place below the
  canonical directory of all users; there is no I/O error.)
\<close>

theorem an_absolute_part_deletes_the_file_of_another_user:
  assumes p: "virtual_scheme p" "vp_parse p = Inr v" "vp_namespace v = User n" "try_new n = Inr (au_handle auth)"
    and rel: "is_absolute (vp_relative v)" "ParentDir \<notin> set (components (vp_relative v))"
      "path_starts_with (vp_relative v) (users_root d)"
    and place: "slot (fs w) (here w) (components (vp_relative v)) = Inr q" "map_of (fs w) q = Some (RegularFile b)"
    and inside: "real_path w (components (users_root d)) = Inr r" "prefix r q"
    and calm: "io_faults w = []"
  shows "delete_files d auth [p] w = (Inr (), w\<lparr>fs := drop_subtree q (fs w)\<rparr>)
    \<and> \<not> there (w\<lparr>fs := drop_subtree q (fs w)\<rparr>) (components (vp_relative v))"
proof
  let ?rel = "vp_relative v"
  note f = slot_file [OF place]
  have "existing_ancestor (fs w) (here w) (components ?rel) = Some (components ?rel)"
    using f(2) by (simp add: existing_ancestor.simps [of "fs w"])
  with f(1) rel inside have "validate_no_traversal w ?rel (users_root d) = Inr ()"
    by (simp add: validate_no_traversal_def)
  with p rel(1) have "resolve_virtual_path_for_user d (au_handle auth) v w = Inr ?rel"
    by (simp add: resolve_virtual_path_for_user_def join_absolute absolute_path_def)
  with p have res: "resolve_file_virtual_path d auth p w = (Inr ?rel, w)"
    by (simp add: resolve_file_virtual_path_def request_path_def from_result_def qbind_def ret_def)
  have root: "reject_workspace_root p ''delete'' = Inr ()"
    using p absolute_not_root [OF place(1) rel(1)] by (simp add: reject_workspace_root_def relative_part_def)
  have gone: "io_op (\<lambda>d. remove_file d (components ?rel)) w = (Inr (), w\<lparr>fs := drop_subtree q (fs w)\<rparr>)"
    using f(4) calm by (simp add: io_op_def with_err_def io_call_def)
  show "delete_files d auth [p] w = (Inr (), w\<lparr>fs := drop_subtree q (fs w)\<rparr>)"
    using res root f(2,3) gone
    by (simp add: delete_files_def qbind_def from_result_def gets_def ret_def remove_any_def)
  have h: "here (w\<lparr>fs := t\<rparr>) = here w" for t by (simp add: here_def)
  show "\<not> there (w\<lparr>fs := drop_subtree q (fs w)\<rparr>) (components (vp_relative v))"
    using slot_dropped [OF place(1)] by (simp add: h)
qed

theorem an_absolute_part_deletes_the_file_of_another_user_witness:
  "read_file (fs demo_files) (here demo_files) bobs_file = Inr ''of bob''
   \<and> fst (delete_files ''/data'' mina [''user://mina//data/users/bob/files/a''] demo_files) = Inr ()
   \<and> \<not> there (snd (delete_files ''/data'' mina [''user://mina//data/users/bob/files/a''] demo_files)) bobs_file"
proof -
  let ?v = "\<lparr>vp_namespace = User ''mina'', vp_relative = ''/data/users/bob/files/a''\<rparr>"
  have "virtual_scheme ''user://mina//data/users/bob/files/a''" by code_simp
  moreover have "vp_parse ''user://mina//data/users/bob/files/a'' = Inr ?v" by code_simp
  moreover have "try_new ''mina'' = Inr (au_handle mina)" by code_simp
  moreover have at: "components ''/data/users/bob/files/a'' = bobs_file" by code_simp
  moreover have "is_absolute ''/data/users/bob/files/a''" "ParentDir \<notin> set bobs_file" by code_simp+
  moreover have "path_starts_with ''/data/users/bob/files/a'' (users_root ''/data'')" by code_simp
  moreover have "slot (fs demo_files) (here demo_files) bobs_file = Inr bobs_file" by code_simp
  moreover have "map_of (fs demo_files) bobs_file = Some (RegularFile ''of bob'')" by code_simp
  moreover have "real_path demo_files (components (users_root ''/data'')) = Inr (under [''data'', ''users''])" by code_simp
  moreover have "prefix (under [''data'', ''users'']) bobs_file" by code_simp
  moreover have "io_faults demo_files = []" by (simp add: demo_files_def)
  ultimately show ?thesis
    using an_absolute_part_deletes_the_file_of_another_user
      [of "''user://mina//data/users/bob/files/a''" ?v "''mina''" mina "''/data''" demo_files bobs_file "''of bob''"]
    by (auto simp: slot_file(1) read_file_def)
qed

text \<open>
  C11. A presigned link opens the same path in the files of any user: the handle of the address is
  not compared with the claims, so the link of one user's file, or one a user signs for a path of
  her own, shows what that user's own login would show.
\<close>

theorem a_presigned_link_opens_the_same_path_of_any_user:
  assumes "try_new raw = Inr h"
  shows "download_user_file lo d (Presigned sub (''user:'' @ sub) p) header raw p w
       = download_user_file lo d (UserAuth \<lparr>au_id = i, au_handle = h\<rparr>) header raw p w"
  using assms by (simp add: download_user_file_def)

theorem a_presigned_link_opens_the_same_path_of_any_user_witness:
  "map_sum id rs_body (fst (download_user_file id ''/data'' (Presigned ''m'' (''user:'' @ ''m'') ''a'') None ''bob'' ''a'' demo_files))
   = Inr ''of bob''"
proof -
  have "try_new ''bob'' = Inr ''bob''" by code_simp
  moreover have "map_sum id rs_body (fst (download_user_file id ''/data'' (UserAuth \<lparr>au_id = ''b'', au_handle = ''bob''\<rparr>) None ''bob'' ''a'' demo_files))
      = Inr ''of bob''"
    by code_simp
  ultimately show ?thesis
    by (simp only: a_presigned_link_opens_the_same_path_of_any_user [where i = "''b''"])
qed

lemma upload_one:
  assumes "length b \<le> MAX_FILE_SIZE"
  shows "upload_file lo (\<lambda>_ _ _ _. ret []) d uuid auth [FileField (Some n) b] w =
    (case write_upload uuid (user_files_path d (au_handle auth)) None n b w of
       (Inl e, w') \<Rightarrow> (Inl e, w')
     | (Inr name, w') \<Rightarrow>
         (Inr \<lparr>at_filename = name, at_content_type = detect_content_type lo name, at_size_bytes = length b,
              at_owner = ''user:'' @ au_id auth, at_path = name, at_url = None\<rparr>, w'))"
  using assms
  by (simp add: upload_file_def qbind_def from_result_def with_err_def ok_or_def ret_def attempted_def user_workspace_def
      Let_def split: prod.split sum.split)

lemma short_upload: "length b \<le> 3 \<Longrightarrow> length b \<le> MAX_FILE_SIZE"
  by (simp add: MAX_FILE_SIZE_def)









section \<open>Witnesses\<close>

theorem operations_stay_inside_a_workspace_witness:
  "\<exists>base ns. under [''data'', ''users'', ''mina'', ''files'', ''a''] = components (absolute_path demo_files base) @ map Normal ns \<and> ns \<noteq> []"
proof -
  have run: "resolve_file_virtual_path ''/data'' mina ''/a'' demo_files = (Inr ''/data/users/mina/files/a'', demo_files)"
  proof -
    have "fst (resolve_file_virtual_path ''/data'' mina ''/a'' demo_files) = Inr ''/data/users/mina/files/a''" by code_simp
    moreover have "snd (resolve_file_virtual_path ''/data'' mina ''/a'' demo_files) = demo_files"
      by (simp add: resolve_file_virtual_path_def request_path_def virtual_scheme_def vp_user_def)
    ultimately show ?thesis by (metis prod.collapse)
  qed
  have "reject_workspace_root ''/a'' ''delete'' = Inr ()" by code_simp
  moreover have "relative_part ''/a'' = Inr ''a''" by code_simp
  then have "\<And>rel. relative_part ''/a'' = Inr rel \<Longrightarrow> \<not> is_absolute rel" by (auto simp: is_absolute_def)
  moreover have "components ''/data/users/mina/files/a'' = under [''data'', ''users'', ''mina'', ''files'', ''a'']" by code_simp
  ultimately show ?thesis
    using operations_stay_inside_a_workspace [OF _ run, of "''delete''"] by auto
qed

theorem delete_files_checks_the_batch_first_witness:
  "\<not> there (snd (delete_files ''/data'' mina [''a''] demo_files)) (under [''data'', ''users'', ''mina'', ''files'', ''a''])"
proof -
  have "fst (delete_files ''/data'' mina [''a''] demo_files) = Inr ()" by code_simp
  moreover have "request_path mina ''a'' = Inr (vp_user ''mina'' ''a'')" by code_simp
  moreover have "resolve_virtual_path_for_user ''/data'' (au_handle mina) (vp_user ''mina'' ''a'') demo_files = Inr ''/data/users/mina/files/a''"
    by code_simp
  moreover have "components ''/data/users/mina/files/a'' = under [''data'', ''users'', ''mina'', ''files'', ''a'']" by code_simp
  ultimately show ?thesis
    using delete_files_checks_the_batch_first [of "''/data''" mina "[''a'']" demo_files, OF prod.collapse [symmetric]] by auto
qed

theorem new_folders_stay_below_the_users_root_witness:
  "map_of (fs (snd (create_user_folder ''/data'' mina ''b/c'' demo_files))) (under [''data'', ''users'', ''mina'', ''files'', ''b'', ''c'']) = Some Folder
   \<and> prefix (under [''data'', ''users'']) (under [''data'', ''users'', ''mina'', ''files'', ''b'', ''c''])"
proof -
  let ?q = "under [''data'', ''users'', ''mina'', ''files'', ''b'', ''c'']"
  have made: "map_of (fs (snd (create_user_folder ''/data'' mina ''b/c'' demo_files))) ?q = Some Folder" by code_simp
  have "map_of (fs demo_files) ?q = None" by code_simp
  moreover have "real_path demo_files (components (users_root ''/data'')) = Inr (under [''data'', ''users''])" by code_simp
  moreover have "map_of (fs demo_files) (under [''data'', ''users'']) \<noteq> None" by code_simp
  moreover have "is_absolute ''/data''" by code_simp
  ultimately have "prefix (under [''data'', ''users'']) ?q"
    using new_folders_stay_below_the_users_root [OF demo_wf, of "''/data''" _ mina "''b/c''", OF _ _ _ prod.collapse [symmetric]] made
    by fastforce
  with made show ?thesis by simp
qed

theorem an_upload_overwrites_nothing_witness:
  "map_of (fs demo_files) \<subseteq>\<^sub>m map_of (fs (snd (upload_file id (\<lambda>_ _ _ _. ret []) ''/data'' ''0'' mina [FileField (Some ''c'') ''new''] demo_files)))
    \<or> (\<exists>a b. ''c'' = a @ ''-'' @ ''0'' @ b)"
proof -
  let ?up = "write_upload ''0'' (user_files_path ''/data'' (au_handle mina)) None ''c'' ''new'' demo_files"
  let ?run = "upload_file id (\<lambda>_ _ _ _. ret []) ''/data'' ''0'' mina [FileField (Some ''c'') ''new''] demo_files"
  define w1 where "w1 = snd ?up"
  have "fst ?up = Inr ''c''" by code_simp
  then have up: "?up = (Inr ''c'', w1)" unfolding w1_def by (metis prod.collapse)
  have run: "?run = (Inr \<lparr>at_filename = ''c'', at_content_type = detect_content_type id ''c'', at_size_bytes = 3,
      at_owner = ''user:'' @ au_id mina, at_path = ''c'', at_url = None\<rparr>, w1)"
    using upload_one [OF short_upload, of "''new''" id "''/data''" "''0''" mina "''c''" demo_files] up by simp
  from an_upload_overwrites_nothing [OF _ run] run show ?thesis by (auto simp: ret_def)
qed

theorem a_workspace_reads_what_it_wrote_witness:
  "ws_read (user_workspace ''/data'' ''mina'') ''n/t'' (snd (ws_write_bytes (user_workspace ''/data'' ''mina'') ''n/t'' ''hi'' demo_files)) = Some ''hi''"
proof -
  have "fst (ws_write_bytes (user_workspace ''/data'' ''mina'') ''n/t'' ''hi'' demo_files) = Inr ()" by code_simp
  then have "ws_write_bytes (user_workspace ''/data'' ''mina'') ''n/t'' ''hi'' demo_files
      = (Inr (), snd (ws_write_bytes (user_workspace ''/data'' ''mina'') ''n/t'' ''hi'' demo_files))" by (metis prod.collapse)
  moreover have "valid_utf8 (map of_char ''hi'')" by code_simp
  ultimately show ?thesis
    using a_workspace_reads_what_it_wrote [of "user_workspace ''/data'' ''mina''" "user_files_path ''/data'' ''mina''" "[]" "''hi''"]
    by (auto simp: user_workspace_def)
qed

lemma demo_range: "parse_range (Some ''bytes=3-99'') 6 = Partial \<lparr>br_start = 3, br_end = 5\<rparr>"
proof -
  have "trim ''bytes=3-99'' = ''bytes=3-99''" "strip_prefix ''bytes='' ''bytes=3-99'' = Some ''3-99''"
    "trim ''3-99'' = ''3-99''" "split_once (CHR ''-'') ''3-99'' = Some (''3'', ''99'')" "trim ''3'' = ''3''" "trim ''99'' = ''99''"
    by code_simp+
  moreover have "parse_u64 ''3'' = Some 3" "parse_u64 ''99'' = Some 99"
    by (simp_all add: parse_u64_def is_digit_def decimal_def digit_value_def)
  ultimately show ?thesis by (simp add: parse_range_def range_window_def)
qed

theorem a_download_sends_what_it_announces_witness:
  "snd (serve_path id ''/data/users/bob/files/a'' (Some ''bytes=3-99'') demo_files) = demo_files
   \<and> map_sum id rs_body (fst (serve_path id ''/data/users/bob/files/a'' (Some ''bytes=3-99'') demo_files)) = Inr ''bob''"
proof -
  have "read_file (fs demo_files) (here demo_files) (components ''/data/users/bob/files/a'') = Inr ''of bob''" by code_simp
  moreover have "parse_range (Some ''bytes=3-99'') (length ''of bob'') = Partial \<lparr>br_start = 3, br_end = 5\<rparr>"
    using demo_range by (simp add: numeral_eq_Suc)
  ultimately have "map_sum id rs_body (fst (serve_path id ''/data/users/bob/files/a'' (Some ''bytes=3-99'') demo_files)) = Inr ''bob''"
    by (simp add: serve_path_def ret_def br_len_def)
  moreover have "snd (serve_path id ''/data/users/bob/files/a'' (Some ''bytes=3-99'') demo_files) = demo_files"
    using a_download_sends_what_it_announces [of id "''/data/users/bob/files/a''" "Some ''bytes=3-99''" demo_files, OF prod.collapse [symmetric]]
    by blast
  ultimately show ?thesis by simp
qed

theorem virtual_paths_round_trip_witness:
  "vp_parse ''agent://dev/out/a.csv'' = Inr (vp_agent ''dev'' ''out/a.csv'')"
  using virtual_paths_round_trip [of "vp_agent ''dev'' ''out/a.csv''"] by (simp add: vp_agent_def vp_display_def)

end
