(* ===== verification/Vault_Props.thy ===== *)
theory Vault_Props
  imports Vault_Service
begin

text \<open>
  What the vault service guarantees: a principal gets the secrets it is entitled to and no
  others, a local secret comes back as it was stored and only to its owner, and the vaults of the
  configuration are the ones that are enabled. And what deleting a vault, or granting the same
  item twice, does against the intent of the code.
\<close>

section \<open>Operations that leave the tables alone\<close>

text \<open>What the vault service decides by; reading a secret changes at most the cache of users.\<close>

definition tables :: "'w vault_world_scheme \<Rightarrow>
    connection list \<times> vault_grant list \<times> binding list \<times> credential list \<times> access_log list \<times> int" where
  "tables w = (connections w, grants w, bindings w, credentials w, access_logs w, clock w)"

lemma tables_simps [simp]:
  "tables (w\<lparr>faults := fl\<rparr>) = tables w" "tables (w\<lparr>user_cache := uc\<rparr>) = tables w"
  by (simp_all add: tables_def)

lemma tables_eqD:
  assumes "tables v = tables w"
  shows "connections v = connections w" "grants v = grants w" "bindings v = bindings w"
    "credentials v = credentials w" "access_logs v = access_logs w" "clock v = clock w"
  using assms by (auto simp: tables_def)

lemma read_only_tables: "read_only m \<Longrightarrow> keeps (\<lambda>w. tables w = T) m"
  by (rule validI) (drule read_onlyD, assumption, auto)

lemma keeps_find_user [keep_rules]: "keeps (\<lambda>w. tables w = T) (find_user i)"
  unfolding find_user_def
  by (intro keep_rules keeps_modify keeps_db_read) (auto simp: repo_find_by_id_def intro!: keeps_db_read)

lemma keeps_find_or [keep_rules]: "keeps (\<lambda>w. tables w = T) (repo_find_by_id get key i)"
  unfolding repo_find_by_id_def by (rule keeps_db_read) simp

lemma keeps_local [keep_rules]: "keeps (\<lambda>w. tables w = T) (local_get_secret vs u i)"
  unfolding local_get_secret_def by (intro keep_rules)

lemma keeps_managed [keep_rules]: "keeps (\<lambda>w. tables w = T) (managed_authorize c u)"
  unfolding managed_authorize_def by (intro keep_rules)

lemma keeps_home [keep_rules]: "keeps (\<lambda>w. tables w = T) (provider_home vs c)"
  unfolding provider_home_def by (intro keep_rules)

definition quiet_provider :: "'w vault_world_scheme provider \<Rightarrow> bool" where
  "quiet_provider p \<longleftrightarrow> (\<forall>i T. keeps (\<lambda>w. tables w = T) (pv_get_secret p i))"

lemma quiet_providers: "quiet_provider (local_provider vs u)" "quiet_provider (managed_provider vs c u)"
  "quiet_provider (remote_provider vs cfg home)"
  unfolding quiet_provider_def local_provider_def managed_provider_def remote_provider_def
  by (auto intro!: keep_rules)

lemma create_provider_quiet: "create_vault_provider vs t cfg home = Inr p \<Longrightarrow> quiet_provider p"
  by (cases "remote_new (vs_lib vs) cfg home")
     (auto simp: create_vault_provider_def quiet_providers split: provider_type.splits connection_config.splits)

lemma get_provider_quiet: "get_provider vs u c w = (Inr p, w') \<Longrightarrow> quiet_provider p"
  unfolding get_provider_def
  by (erule qbind_Inr_E)
     (auto simp: fail_def ret_def from_result_def quiet_providers
        split: if_splits elim!: qbind_Inr_E, (rule create_provider_quiet, assumption)+)

lemma keeps_get_provider [keep_rules]: "keeps (\<lambda>w. tables w = T) (get_provider vs u c)"
  unfolding get_provider_def by (intro keep_rules)

lemma keeps_get_secret [keep_rules]: "keeps (\<lambda>w. tables w = T) (get_secret vs u c i)"
proof (rule validI)
  fix w r w' assume T: "tables w = T" and run: "get_secret vs u c i w = (r, w')"
  from run [unfolded get_secret_def] show "tables w' = T"
  proof (cases rule: qbind_cases)
    case (error e)
    with T show ?thesis using validD [OF keeps_get_provider] by blast
  next
    case (okay p w1)
    have "tables w1 = T" using validD [OF keeps_get_provider T okay(1)] .
    moreover have "keeps (\<lambda>w. tables w = T) (pv_get_secret p i)"
      using get_provider_quiet [OF okay(1)] unfolding quiet_provider_def by blast
    ultimately show ?thesis using okay(2) by (blast dest: validD)
  qed
qed

lemmas keeps_authorize [keep_rules] = read_only_tables [OF read_only_authorize]
lemmas keeps_startup [keep_rules] = read_only_tables [OF read_only_startup]

lemma keeps_resolve [keep_rules]: "keeps (\<lambda>w. tables w = T) (resolve_binding vs u p b chat)"
  unfolding resolve_binding_def project_def by (intro keep_rules)

lemma keeps_collect [keep_rules]: "keeps (\<lambda>w. tables w = T) (collect_env vs u p chat bs)"
  unfolding project_def by (induction bs) (auto simp: project_def intro!: keep_rules)

lemma keeps_resolve_env: "keeps (\<lambda>w. tables w = T) (resolve_env vs u p chat)"
  unfolding resolve_env_def by (intro keep_rules)


section \<open>Who gets which secret\<close>

text \<open>
  The rule the service means to enforce, said once: the binding is the caller's and has not run
  out; it is of this chat, or it is durable and a grant of the same item is still in force; and
  the vault it points at is enabled and the caller's, or the operator's.
\<close>

definition granted :: "'w vault_world_scheme \<Rightarrow> string \<Rightarrow> principal \<Rightarrow> string \<Rightarrow> string \<Rightarrow> bool" where
  "granted w u p c i \<longleftrightarrow> (\<exists>g \<in> set (grants w). gr_user_id g = u \<and> gr_principal g = p
     \<and> gr_connection_id g = c \<and> gr_item_id g = i \<and> unexpired (clock w) (gr_expires_at g))"

definition vault_open :: "'w vault_world_scheme \<Rightarrow> string \<Rightarrow> string \<Rightarrow> bool" where
  "vault_open w u c \<longleftrightarrow> (\<exists>v \<in> set (connections w). cn_id v = c \<and> cn_enabled v
     \<and> (cn_system_managed v \<or> cn_user_id v = u))"

definition scope_ok :: "'w vault_world_scheme \<Rightarrow> string \<Rightarrow> principal \<Rightarrow> string option \<Rightarrow> binding \<Rightarrow> bool" where
  "scope_ok w u p chat b \<longleftrightarrow> (case bi_scope b of ChatScope c \<Rightarrow> chat = Some c
     | Durable \<Rightarrow> granted w u p (bi_connection_id b) (bi_item_id b))"

definition entitled :: "'w vault_world_scheme \<Rightarrow> string \<Rightarrow> principal \<Rightarrow> string option \<Rightarrow> binding \<Rightarrow> bool" where
  "entitled w u p chat b \<longleftrightarrow> bound_to (clock w) u p b \<and> scope_ok w u p chat b \<and> vault_open w u (bi_connection_id b)"

lemma spec_tables:
  assumes "tables v = tables w"
  shows "granted v u p c i = granted w u p c i" "vault_open v u c = vault_open w u c"
    "scope_ok v u p chat b = scope_ok w u p chat b" "entitled v u p chat b = entitled w u p chat b"
  using tables_eqD [OF assms]
  by (simp_all add: granted_def vault_open_def scope_ok_def entitled_def split: binding_scope.split)

lemma ensure_Inr: "ensure_non_user_principal p w = (Inr x, w') \<Longrightarrow> pr_kind p \<noteq> UserKind \<and> w' = w"
  by (simp add: ensure_non_user_principal_def fail_def ret_def split: if_splits)

lemma has_grant_Inr: "has_grant_for_item u p c i w = (Inr ok, w') \<Longrightarrow> ok = granted w u p c i"
  unfolding has_grant_for_item_def grants_of_principal_def
  by (elim qbind_Inr_E) (auto dest!: ensure_Inr db_read_Inr simp: gets_def ret_def list_ex_iff granted_def)

lemma scope_allows_Inr: "scope_allows u p b chat w = (Inr ok, w') \<Longrightarrow> ok = scope_ok w u p chat b"
  by (cases "bi_scope b") (auto simp: scope_allows_def scope_ok_def ret_def dest: has_grant_Inr)

lemma scope_allows_keeps: "scope_allows u p b chat w = (r, w') \<Longrightarrow> tables w' = tables w"
  by (rule validD [OF read_only_tables [OF read_only_scope] refl])

lemma find_connection_Inr:
  assumes "qbind (find_or connections cn_id e i) (\<lambda>c.
             if \<not> cn_enabled c \<or> (\<not> cn_system_managed c \<and> cn_user_id c \<noteq> u) then fail e' else ret ()) w = (Inr x, w')"
  shows "vault_open w u i"
proof -
  obtain c w1 where c: "qbind (repo_find_by_id connections cn_id i) (ok_or e) w = (Inr c, w1)"
    and ok: "cn_enabled c \<and> (cn_system_managed c \<or> cn_user_id c = u)"
    using assms by (rule qbind_Inr_E) (auto simp: fail_def split: if_splits)
  from find_or_Inr [OF c] have "find_row cn_id i (connections w) = Some c" by auto
  from find_row_Some [OF this] ok show ?thesis by (auto simp: vault_open_def)
qed

lemma authorize_Inr:
  assumes "authorize_binding u p b chat w = (Inr x, w')" and "bound_to (clock w) u p b"
  shows "entitled w u p chat b"
proof -
  obtain cur w1 where cur: "qbind (repo_find_by_id bindings bi_id (bi_id b)) (ok_or (denied b)) w = (Inr cur, w1)"
    and rest: "qbind (gets clock) (\<lambda>now.
     if \<not> unchanged now u p b cur then fail (denied b)
     else qbind (scope_allows u p cur chat) (\<lambda>allowed.
          if \<not> allowed then fail (denied b)
          else qbind (find_or connections cn_id (denied b) (bi_connection_id cur)) (\<lambda>c.
               if \<not> cn_enabled c \<or> (\<not> cn_system_managed c \<and> cn_user_id c \<noteq> u) then fail (denied b)
               else ret ()))) w1 = (Inr x, w')"
    using assms(1) unfolding authorize_binding_def
    by (elim qbind_Inr_E [where m = "ensure_non_user_principal p"]) (auto dest!: ensure_Inr elim: qbind_Inr_E)
  have w1: "tables w1 = tables w" using find_or_Inr [OF cur] by (metis tables_simps(1))
  obtain w2 where un: "unchanged (clock w1) u p b cur" and sc: "scope_allows u p cur chat w1 = (Inr True, w2)"
    and conn: "qbind (find_or connections cn_id (denied b) (bi_connection_id cur)) (\<lambda>c.
               if \<not> cn_enabled c \<or> (\<not> cn_system_managed c \<and> cn_user_id c \<noteq> u) then fail (denied b)
               else ret ()) w2 = (Inr x, w')"
    using rest by (auto elim!: qbind_Inr_E [where m = "scope_allows u p cur chat"] simp: fail_def split: if_splits)
  have "scope_ok w u p chat b"
    using scope_allows_Inr [OF sc] un spec_tables(1) [OF w1]
    by (cases "bi_scope b") (simp_all add: scope_ok_def unchanged_def)
  moreover have "vault_open w u (bi_connection_id b)"
    using find_connection_Inr [OF conn] un spec_tables(2) [of w2 w] scope_allows_keeps [OF sc] w1
    by (simp add: unchanged_def)
  ultimately show ?thesis using assms(2) by (simp add: entitled_def)
qed


lemma startup_Inr:
  assumes "startup_bindings u p chat w = (Inr bs, w')"
  shows "pr_kind p \<noteq> UserKind \<and> bs = filter (\<lambda>b. bound_to (clock w) u p b
    \<and> (bi_scope b = Durable \<or> (\<exists>c. chat = Some c \<and> bi_scope b = ChatScope c))) (bindings w)"
  using assms unfolding startup_bindings_def find_for_chat_def find_for_principal_def
  by (elim qbind_Inr_E) (auto dest!: ensure_Inr db_read_Inr elim!: qbind_Inr_E simp: ret_def conj_commute split: option.splits)

text \<open>What an environment is made of: for each binding, the projection of a secret read for it.\<close>

definition delivers ::
  "vault_service \<Rightarrow> string \<Rightarrow> 'w vault_world_scheme \<Rightarrow> binding \<Rightarrow> (string \<times> string) list \<Rightarrow> bool" where
  "delivers vs u w b vars \<longleftrightarrow> (\<exists>(v :: 'w vault_world_scheme) v' s. tables v = tables w
     \<and> get_secret vs u (bi_connection_id b) (bi_item_id b) v = (Inr s, v')
     \<and> project_target (upper_of (vs_lib vs)) s (bi_target b) = Inr vars)"

lemma delivers_tables:
  fixes v w :: "'w vault_world_scheme"
  shows "tables v = tables w \<Longrightarrow> delivers vs u v b vars = delivers vs u w b vars"
  by (simp add: delivers_def)

lemma resolve_secret_Inr:
  assumes "resolve_binding vs u p b chat w = (Inr s, w')" and "bound_to (clock w) u p b"
    and "project_target (upper_of (vs_lib vs)) s (bi_target b) = Inr vars"
  shows "entitled w u p chat b \<and> delivers vs u w b vars"
proof -
  obtain w1 x where a: "authorize_binding u p b chat w = (Inr x, w1)"
    and rest: "qbind (get_secret vs u (bi_connection_id b) (bi_item_id b)) (\<lambda>s.
     qbind (authorize_binding u p b chat) (\<lambda>_. qbind (project vs s (bi_target b)) (\<lambda>_. ret s))) w1 = (Inr s, w')"
    using assms(1) unfolding resolve_binding_def by (rule qbind_Inr_E)
  obtain w2 where g: "get_secret vs u (bi_connection_id b) (bi_item_id b) w1 = (Inr s, w2)"
    using rest by (auto elim!: qbind_Inr_E simp: ret_def)
  have "tables w1 = tables w" using validD [OF keeps_authorize refl a] .
  with g assms(3) have "delivers vs u w b vars" unfolding delivers_def by blast
  with authorize_Inr [OF a assms(2)] show ?thesis by simp
qed

lemma collect_Inr:
  assumes "collect_env vs u p chat bs w = (Inr env, w')" and "\<forall>b \<in> set bs. bound_to (clock w) u p b"
  shows "\<exists>varss. env = concat varss \<and> list_all2 (\<lambda>b vars. entitled w u p chat b \<and> delivers vs u w b vars) bs varss"
  using assms
proof (induction bs arbitrary: w env)
  case Nil
  then show ?case by (auto simp: ret_def)
next
  case (Cons b bs)
  obtain s w1 where r: "with_err (\<lambda>_. Validation (''required vault binding '' @ bi_id b @ '' for item '' @ bi_item_id b @ '' could not be resolved''))
              (resolve_binding vs u p b chat) w = (Inr s, w1)"
    and rest: "qbind (project vs s (bi_target b)) (\<lambda>vars.
     qbind (collect_env vs u p chat bs) (\<lambda>rest. ret (vars @ rest))) w1 = (Inr env, w')"
    using Cons.prems(1) unfolding collect_env.simps by (rule qbind_Inr_E)
  have r: "resolve_binding vs u p b chat w = (Inr s, w1)"
    using r by (auto simp: with_err_def split: prod.splits sum.splits)
  obtain vars rs where v: "project_target (upper_of (vs_lib vs)) s (bi_target b) = Inr vars"
    and c: "collect_env vs u p chat bs w1 = (Inr rs, w')" and env: "env = vars @ rs"
    using rest by (auto elim!: qbind_Inr_E simp: ret_def project_def from_result_def)
  have w1: "tables w1 = tables w" using validD [OF keeps_resolve refl r] .
  with Cons.prems(2) have "\<forall>b \<in> set bs. bound_to (clock w1) u p b" by (simp add: tables_eqD(6) [OF w1])
  from Cons.IH [OF c this] obtain varss where "rs = concat varss"
    and "list_all2 (\<lambda>b vars. entitled w u p chat b \<and> delivers vs u w b vars) bs varss"
    by (auto simp: spec_tables(4) [OF w1] delivers_tables [OF w1])
  with resolve_secret_Inr [OF r _ v] Cons.prems(2) env show ?case
    by (intro exI [of _ "vars # varss"]) simp
qed

lemma resolve_env_Inr:
  assumes "resolve_env vs u p chat w = (Inr env, w')"
  shows "pr_kind p \<noteq> UserKind \<and> tables w' = tables w
    \<and> (\<exists>bs varss. bs = filter (\<lambda>b. bound_to (clock w) u p b
            \<and> (bi_scope b = Durable \<or> (\<exists>c. chat = Some c \<and> bi_scope b = ChatScope c))) (bindings w)
        \<and> env = concat varss
        \<and> list_all2 (\<lambda>b vars. entitled w u p chat b \<and> delivers vs u w b vars) bs varss)"
proof -
  obtain bs w1 where bs: "startup_bindings u p chat w = (Inr bs, w1)"
    and rest: "qbind (collect_env vs u p chat bs) (\<lambda>env.
     qbind (for_each bs (\<lambda>b. authorize_binding u p b chat)) (\<lambda>_.
     qbind (startup_bindings u p chat) (\<lambda>current.
     if set (map bi_id current) \<noteq> set (map bi_id bs) then fail (Conflict ''vault bindings changed during startup'')
     else ret env))) w1 = (Inr env, w')"
    using assms unfolding resolve_env_def by (rule qbind_Inr_E)
  obtain w2 where c: "collect_env vs u p chat bs w1 = (Inr env, w2)"
    using rest by (auto elim!: qbind_Inr_E simp: ret_def fail_def split: if_splits)
  have w1: "tables w1 = tables w" using validD [OF keeps_startup refl bs] .
  have "\<forall>b \<in> set bs. bound_to (clock w1) u p b"
    using startup_Inr [OF bs] by (auto simp: tables_eqD(6) [OF w1])
  from collect_Inr [OF c this] startup_Inr [OF bs] validD [OF keeps_resolve_env refl assms]
  show ?thesis by (auto simp: spec_tables(4) [OF w1] delivers_tables [OF w1])
qed

text \<open>
  C7. A principal gets the secrets it is entitled to, and no others. If \<open>resolve_env\<close> returns an
  environment, it is made of one part for each binding of the table that is the caller's, has not
  run out and is durable or of this chat, in their order; every one of these passes the rule
  \<open>entitled\<close>, and its part is the projection of the secret that the vault of the binding holds
  under its item. The tables are as before, and a user is never a principal.
\<close>

theorem a_principal_gets_the_secrets_it_is_entitled_to:
  assumes "resolve_env vs u p chat w = (Inr env, w')"
  shows "pr_kind p \<noteq> UserKind \<and> tables w' = tables w
    \<and> (\<exists>bs varss. bs = filter (\<lambda>b. bound_to (clock w) u p b
            \<and> (bi_scope b = Durable \<or> (\<exists>c. chat = Some c \<and> bi_scope b = ChatScope c))) (bindings w)
        \<and> env = concat varss
        \<and> list_all2 (\<lambda>b vars. entitled w u p chat b \<and> delivers vs u w b vars) bs varss)"
  using assms by (rule resolve_env_Inr)

section \<open>Deleting a vault\<close>

lemma delete_connection_Inr:
  assumes "delete_connection u c w = (Inr (), w')" and "find_row cn_id c (connections w) = Some v"
    and "cn_provider v \<noteq> Managed"
  shows "connections w' = delete_row cn_id c (connections w) \<and> bindings w' = bindings w \<and> clock w' = clock w
    \<and> grants w' = filter (\<lambda>g. gr_connection_id g \<noteq> c) (grants w) \<and> cn_user_id v = u \<and> \<not> cn_system_managed v"
proof -
  obtain v' w1 where r: "qbind (repo_find_by_id connections cn_id c) (ok_or (NotFound ''Vault connection not found'')) w = (Inr v', w1)"
    and rest: "(if cn_system_managed v' then fail (Validation ''Cannot delete system-managed connections'')
     else if cn_user_id v' \<noteq> u then fail (Forbidden ''Not your vault connection'')
     else if cn_provider v' = Managed then delete_managed_connection (cn_id v') u
     else qbind (delete_grants_by_connection c) (\<lambda>_. repo_delete connections_update cn_id c)) w1 = (Inr (), w')"
    using assms(1) unfolding delete_connection_def by (rule qbind_Inr_E)
  have v': "v' = v" and w1: "w1 = w\<lparr>faults := tl (faults w)\<rparr>"
    using find_or_Inr [OF r] assms(2) by auto
  show ?thesis
    using rest assms(3) unfolding v' w1 delete_grants_by_connection_def repo_delete_def
    by (auto simp: fail_def split: if_splits elim!: qbind_Inr_E dest!: db_write_Inr)
qed

lemma deleted_vault_closed: "connections w' = delete_row cn_id c t \<Longrightarrow> \<not> vault_open w' u c"
  by (auto simp: vault_open_def delete_row_def)

text \<open>
  C27. Deleting a vault that is not a managed one silences the agents that used it.
  \<open>delete_connection\<close> takes the grants of the vault with it but not the bindings (of a managed
  vault it takes both). One binding left that is durable and has not expired is enough that
  \<open>resolve_env\<close> fails for its principal, whatever else the principal has; a session
  turns the failure into the empty environment, so of the user's own secrets an agent has none, of
  other vaults neither. What a session still has is what another owner delegates to it, when it
  runs an agent that is shared with the user. No grant is left by which the binding could be revoked.
\<close>

theorem a_deleted_vault_silences_its_agents:
  assumes run: "delete_connection u c w = (Inr (), w')" and v: "find_row cn_id c (connections w) = Some v"
    and remote: "cn_provider v \<noteq> Managed"
    and b: "b \<in> set (bindings w)" "bi_connection_id b = c" "bi_scope b = Durable" "bound_to (clock w) u p b"
  shows "b \<in> set (bindings w') \<and> (\<forall>g \<in> set (grants w'). gr_connection_id g \<noteq> c)
    \<and> (\<exists>e v. resolve_env vs u p chat w' = (Inl e, v))
    \<and> (\<forall>agent chat. p = principal_agent agent \<longrightarrow> fst (session_env vs u agent chat None w') = Inr []
         \<and> (\<forall>owner. fst (session_env vs u agent chat (Some owner) w') = fst (or_default []
              (resolve_delegated_env vs owner agent chat) (snd (resolve_env vs u p (Some chat) w')))))"
proof -
  note after = delete_connection_Inr [OF run v remote]
  have none: "\<exists>e v. resolve_env vs u p chat w' = (Inl e, v)" for chat
  proof (cases "resolve_env vs u p chat w'")
    case (Pair r w2)
    show ?thesis
    proof (cases r)
      case (Inr env)
      obtain bs varss where bs: "bs = filter (\<lambda>b. bound_to (clock w') u p b
            \<and> (bi_scope b = Durable \<or> (\<exists>c. chat = Some c \<and> bi_scope b = ChatScope c))) (bindings w')"
        and all: "list_all2 (\<lambda>b vars. entitled w' u p chat b \<and> delivers vs u w' b vars) bs varss"
        using resolve_env_Inr [OF Pair [unfolded Inr]] by blast
      have "b \<in> set bs" using b after by (simp add: bs)
      with all have "entitled w' u p chat b" by (auto simp: list_all2_conv_all_nth in_set_conv_nth)
      with deleted_vault_closed [of w' c "connections w" u] after b(2) show ?thesis by (simp add: entitled_def)
    qed (use Pair in simp)
  qed
  moreover have "fst (session_env vs u agent chat None w') = Inr []" if "p = principal_agent agent" for agent chat
    using none [of "Some chat"] that by (auto simp: session_env_def or_default_def qbind_def ret_def)
  moreover have "fst (session_env vs u agent chat (Some owner) w') = fst (or_default []
      (resolve_delegated_env vs owner agent chat) (snd (resolve_env vs u p (Some chat) w')))"
    if "p = principal_agent agent" for agent chat owner
    using none [of "Some chat"] that by (auto simp: session_env_def or_default_def qbind_def ret_def split: prod.split sum.split)
  ultimately show ?thesis using after b(1) by auto
qed

section \<open>An example\<close>

text \<open>
  Mina's agent \<open>a\<close> is bound to a secret of the local vault and to one in her KeePass file.
  Encryption is the identity, nonces are twelve bytes.
\<close>

definition plain_crypto :: crypto_lib where
  "plain_crypto = \<lparr>public_of = (\<lambda>k. k), aes_new = (\<lambda>k. Inr ()), aes_encrypt = (\<lambda>k n m. Inr m), aes_decrypt = (\<lambda>k n s. Inr s)\<rparr>"

definition demo_vault_lib :: vault_lib where
  "demo_vault_lib = \<lparr>config_to_json = (\<lambda>c. Inr ''{}''), config_from_json = (\<lambda>s. Inr (KeePassConfig ''/k'' ''x'')),
     b64_encode = (\<lambda>s. s), b64_decode = (\<lambda>s. Inr s), upper_of = (\<lambda>s. s), lower_of = (\<lambda>s. s),
     remote_new = (\<lambda>c h. Inr ()), remote_search = (\<lambda>c h q n. Inr []),
     remote_secret = (\<lambda>c h i. Inr \<lparr>se_id = i, se_name = i, se_username = None, se_password = Some ''k'', se_notes = None, se_fields = []\<rparr>),
     remote_test = (\<lambda>c h. Inr ()), managed_list = (\<lambda>c. Inr []), managed_secret = (\<lambda>c i. Inl (NotFound i)),
     parse_uuid = (\<lambda>s. None), utf8_text = (\<lambda>s. [])\<rparr>"

definition no_settings :: vault_settings where
  "no_settings = \<lparr>onepassword_service_account_token = None, onepassword_vault_id = None, bitwarden_client_id = None,
     bitwarden_client_secret = None, bitwarden_master_password = None, bitwarden_server_url = None,
     hashicorp_address = None, hashicorp_token = None, hashicorp_mount = None, keepass_path = None, keepass_password = None\<rparr>"

definition demo_vaults :: vault_service where
  "demo_vaults = \<lparr>vs_encryption_key = [], vs_crypto = plain_crypto, vs_settings = no_settings, vs_data_dir = ''/d'',
     vs_lib = demo_vault_lib, vs_min_time = - (2 ^ 53), vs_max_time = 2 ^ 53\<rparr>"

definition demo_grant :: "string \<Rightarrow> string \<Rightarrow> string \<Rightarrow> string \<Rightarrow> vault_grant" where
  "demo_grant i agent c item = \<lparr>gr_id = i, gr_user_id = ''m'', gr_connection_id = c, gr_item_id = item,
     gr_principal = principal_agent agent, gr_query = ''q'', gr_expires_at = None, gr_created_at = 0\<rparr>"

definition demo_binding :: "string \<Rightarrow> string \<Rightarrow> string \<Rightarrow> string \<Rightarrow> string \<Rightarrow> binding" where
  "demo_binding i agent c item var = \<lparr>bi_id = i, bi_user_id = ''m'', bi_principal = principal_agent agent, bi_query = ''q'',
     bi_connection_id = c, bi_item_id = item, bi_target = Single var Password, bi_scope = Durable,
     bi_expires_at = None, bi_created_at = 0\<rparr>"

definition demo_connections :: "connection list" where
  "demo_connections = [system_connection ''local'' Local ''Local Credentials'' [] [] 0,
     \<lparr>cn_id = ''v'', cn_user_id = ''m'', cn_name = ''v'', cn_provider = KeePass, cn_config_encrypted = ''{}'',
      cn_nonce = ''123456789012'', cn_enabled = True, cn_system_managed = False, cn_created_at = 0, cn_updated_at = 0\<rparr>]"

definition demo_vault_world :: vault_world where
  "demo_vault_world = \<lparr>faults = [], clock = 10, duplicate_text = (\<lambda>i. i), notifications = [], keypairs = [],
     signing_cache = (\<lambda>_. None), verifying_cache = (\<lambda>_. None), api_tokens = [],
     users = [\<lparr>usr_id = ''m'', usr_handle = ''mina'', usr_email = [], usr_name = [], usr_deactivated_at = None\<rparr>],
     user_cache = (\<lambda>_. None), agent_rows = [], fs = [], io_faults = [], cwd = None, io_text = (\<lambda>e. []),
     connections = demo_connections,
     grants = [demo_grant ''1'' ''a'' ''local'' ''s'', demo_grant ''2'' ''a'' ''v'' ''k''],
     bindings = [demo_binding ''1'' ''a'' ''local'' ''s'' ''TOKEN'', demo_binding ''2'' ''a'' ''v'' ''k'' ''KEY''],
     credentials = [\<lparr>cd_id = ''s'', cd_user_id = ''m'', cd_name = ''s'', cd_provider = ''local'',
       cd_data = UsernamePassword ''mina'' ''123456789012pw'', cd_created_at = 0, cd_updated_at = 0\<rparr>],
     access_logs = [], managed_items = [], new_ids = [''n''], nonces = [''210987654321'']\<rparr>"

lemma demo_env:
  "fst (resolve_env demo_vaults ''m'' (principal_agent ''a'') None demo_vault_world) = Inr [(''TOKEN'', ''pw''), (''KEY'', ''k'')]"
  by code_simp
lemma demo_delete: "fst (delete_connection ''m'' ''v'' demo_vault_world) = Inr ()"
  by code_simp

theorem a_principal_gets_the_secrets_it_is_entitled_to_witness:
  "\<exists>varss. [(''TOKEN'', ''pw''), (''KEY'', ''k'')] = concat varss
     \<and> list_all2 (\<lambda>b vars. entitled demo_vault_world ''m'' (principal_agent ''a'') None b
          \<and> delivers demo_vaults ''m'' demo_vault_world b vars) (bindings demo_vault_world) varss"
proof -
  obtain w' where "resolve_env demo_vaults ''m'' (principal_agent ''a'') None demo_vault_world
      = (Inr [(''TOKEN'', ''pw''), (''KEY'', ''k'')], w')"
    using demo_env by (cases "resolve_env demo_vaults ''m'' (principal_agent ''a'') None demo_vault_world") auto
  from a_principal_gets_the_secrets_it_is_entitled_to [OF this]
  show ?thesis
    by (simp add: demo_vault_world_def demo_binding_def bound_to_def unexpired_def)
qed

theorem a_deleted_vault_silences_its_agents_witness:
  "fst (session_env demo_vaults ''m'' ''a'' ''c'' None demo_vault_world) = Inr [(''TOKEN'', ''pw''), (''KEY'', ''k'')]
   \<and> fst (session_env demo_vaults ''m'' ''a'' ''c'' None (snd (delete_connection ''m'' ''v'' demo_vault_world))) = Inr []"
proof
  show "fst (session_env demo_vaults ''m'' ''a'' ''c'' None demo_vault_world) = Inr [(''TOKEN'', ''pw''), (''KEY'', ''k'')]"
    by code_simp
  obtain w' where run: "delete_connection ''m'' ''v'' demo_vault_world = (Inr (), w')"
    using demo_delete by (cases "delete_connection ''m'' ''v'' demo_vault_world") auto
  have row: "find_row cn_id ''v'' (connections demo_vault_world) = Some (demo_connections ! 1)"
    and "cn_provider (demo_connections ! 1) \<noteq> Managed" by code_simp+
  from a_deleted_vault_silences_its_agents [OF run this, of "demo_binding ''2'' ''a'' ''v'' ''k'' ''KEY''" "principal_agent ''a''"]
  show "fst (session_env demo_vaults ''m'' ''a'' ''c'' None (snd (delete_connection ''m'' ''v'' demo_vault_world))) = Inr []"
    unfolding run by (simp add: demo_vault_world_def demo_binding_def bound_to_def unexpired_def)
qed

section \<open>Local secrets\<close>

lemma create_row_find:
  "create_row key r t = Some t' \<Longrightarrow> find_row key i t' = (if i = key r then Some r else find_row key i t)"
  by (rule rows.lookup_create)

lemma create_repo_Inr:
  assumes "repo_create get put key r w = (Inr x, w')"
  shows "x = r \<and> (\<exists>t. create_row key r (get (w\<lparr>faults := tl (faults w)\<rparr>)) = Some t
    \<and> w' = put (\<lambda>_. t) (w\<lparr>faults := tl (faults w)\<rparr>))"
  using assms unfolding repo_create_def by (auto elim!: db_call_cases split: option.splits)

text \<open>
  C26. A local secret comes back as it was stored, to its owner and to nobody else. After
  \<open>create_credential\<close> of a user name and a password, the local provider of the owner returns both
  under the id of the response, now and later as long as the row stays; for any other user it
  refuses. What the theorem needs of the libraries: decryption undoes encryption, Base64 decoding
  its encoding, a nonce has twelve bytes; and the password is UTF-8, as every Rust string.
\<close>

theorem a_local_secret_comes_back_to_its_owner:
  assumes crypto: "\<And>n m s. aes_encrypt (vs_crypto vs) (vs_encryption_key vs) n m = Inr s
      \<Longrightarrow> aes_decrypt (vs_crypto vs) (vs_encryption_key vs) n s = Inr m"
    and b64: "\<And>s. b64_decode (vs_lib vs) (b64_encode (vs_lib vs) s) = Inr s"
    and nonces: "nonces w \<noteq> []" "\<forall>n \<in> set (nonces w). length n = 12"
    and utf: "from_utf8 pw = Some pw"
    and run: "create_credential vs u (NewUsernamePassword name un pw) w = (Inr r, w')"
    and later: "find_row cd_id (rc_id r) (credentials v) = find_row cd_id (rc_id r) (credentials w')" "faults v = []"
  shows "fst (local_get_secret vs u' (rc_id r) v) =
    (if u' = u then Inr \<lparr>se_id = rc_id r, se_name = name, se_username = Some un, se_password = Some pw,
                         se_notes = None, se_fields = []\<rparr>
     else Inl (Forbidden ''Not your credential''))"
proof -
  define c where "c = (\<lambda>enc i. \<lparr>cd_id = i, cd_user_id = u, cd_name = name, cd_provider = ''local'',
        cd_data = UsernamePassword un enc, cd_created_at = clock w, cd_updated_at = clock w\<rparr>)"
  obtain enc w1 i w2 y where enc: "encrypt_password vs pw w = (Inr enc, w1)"
    and made: "repo_create credentials credentials_update cd_id (c enc i) w2 = (Inr y, w')"
    and r: "r = to_credential_response y"
    using run unfolding create_credential_def new_item_def
    by (auto elim!: qbind_Inr_E simp: ret_def c_def)
  obtain n ns where n: "nonces w = n # ns" and len: "length n = 12" using nonces by (cases "nonces w") auto
  obtain s x where s: "aes_encrypt (vs_crypto vs) (vs_encryption_key vs) n pw = Inr s"
    and init: "aes_new (vs_crypto vs) (vs_encryption_key vs) = Inr x" and e: "enc = b64_encode (vs_lib vs) (n @ s)"
    using enc unfolding encrypt_password_def
    by (auto elim!: qbind_Inr_E simp: draw_nonce_def n ret_def from_result_def aes_seal_def aes_init_def)
  have dec: "decrypt_password vs enc = Inr pw"
    using len by (simp add: decrypt_password_def e b64 aes_init_def init map_err_def aes_open_def crypto [OF s] utf)
  have y: "y = c enc i" and "find_row cd_id i (credentials w') = Some (c enc i)"
    using create_repo_Inr [OF made] by (auto simp: create_row_find c_def)
  then have row: "find_row cd_id (rc_id r) (credentials v) = Some (c enc i)"
    using later(1) by (simp add: r to_credential_response_def c_def)
  then show ?thesis
    using dec later(2) by (simp add: local_get_secret_def repo_find_by_id_def db_read_no_fault qbind_def ok_or_def
        ret_def fail_def from_result_def credential_to_secret_def c_def r y to_credential_response_def)
qed

theorem a_local_secret_comes_back_to_its_owner_witness:
  "let w = snd (create_credential demo_vaults ''m'' (NewUsernamePassword ''n'' ''bo'' ''secret'') demo_vault_world)
   in fst (local_get_secret demo_vaults ''m'' ''n'' w) = Inr \<lparr>se_id = ''n'', se_name = ''n'', se_username = Some ''bo'',
        se_password = Some ''secret'', se_notes = None, se_fields = []\<rparr>
    \<and> fst (local_get_secret demo_vaults ''x'' ''n'' w) = Inl (Forbidden ''Not your credential'')"
proof -
  obtain r w where run: "create_credential demo_vaults ''m'' (NewUsernamePassword ''n'' ''bo'' ''secret'') demo_vault_world = (Inr r, w)"
    and r: "rc_id r = ''n''" and f: "faults w = []"
  proof -
    have "case create_credential demo_vaults ''m'' (NewUsernamePassword ''n'' ''bo'' ''secret'') demo_vault_world of
        (Inl e, w) \<Rightarrow> False | (Inr r, w) \<Rightarrow> rc_id r = ''n'' \<and> faults w = []" by code_simp
    then show ?thesis using that by (auto split: prod.splits sum.splits)
  qed
  have utf: "from_utf8 ''secret'' = Some ''secret''" by code_simp
  have lib: "aes_encrypt (vs_crypto demo_vaults) (vs_encryption_key demo_vaults) n m = Inr s
      \<Longrightarrow> aes_decrypt (vs_crypto demo_vaults) (vs_encryption_key demo_vaults) n s = Inr m"
    "b64_decode (vs_lib demo_vaults) (b64_encode (vs_lib demo_vaults) s) = Inr s" for n m s
    by (simp_all add: demo_vaults_def plain_crypto_def demo_vault_lib_def)
  have n: "nonces demo_vault_world \<noteq> []" "\<forall>n \<in> set (nonces demo_vault_world). length n = 12"
    by (simp_all add: demo_vault_world_def)
  show ?thesis
    using a_local_secret_comes_back_to_its_owner [OF lib n utf run refl f, of "''m''"]
      a_local_secret_comes_back_to_its_owner [OF lib n utf run refl f, of "''x''"]
    by (simp add: run r)
qed

section \<open>Revoking and listing grants\<close>

lemma revoke_Inr:
  assumes "revoke_grant u i w = (Inr (), w')"
  shows "\<exists>g. find_row gr_id i (grants w) = Some g \<and> gr_user_id g = u \<and> grants w' = delete_row gr_id i (grants w)
    \<and> bindings w' = filter (\<lambda>b. \<not> (bi_user_id b = u \<and> bi_principal b = gr_principal g
        \<and> bi_connection_id b = gr_connection_id g \<and> bi_item_id b = gr_item_id g)) (bindings w)
    \<and> connections w' = connections w \<and> credentials w' = credentials w"
proof -
  obtain g w1 where r: "qbind (repo_find_by_id grants gr_id i) (ok_or (NotFound ''Grant not found'')) w = (Inr g, w1)"
    and rest: "(if gr_user_id g \<noteq> u then fail (Forbidden ''Not your grant'')
     else qbind (delete_for_item u (gr_principal g) (gr_connection_id g) (gr_item_id g)) (\<lambda>_.
          repo_delete grants_update gr_id i)) w1 = (Inr (), w')"
    using assms unfolding revoke_grant_def by (rule qbind_Inr_E)
  have g: "find_row gr_id i (grants w) = Some g" and w1: "w1 = w\<lparr>faults := tl (faults w)\<rparr>"
    using find_or_Inr [OF r] by auto
  show ?thesis
    using rest unfolding w1 delete_for_item_def repo_delete_def
    by (auto simp: g fail_def split: if_splits elim!: qbind_Inr_E dest!: db_write_Inr)
qed

text \<open>
  C13. A revoked grant gives nothing any more. When \<open>revoke_grant\<close> succeeds, the grant was the
  caller's; it is gone, and no environment that is resolved afterwards for its principal has a
  part for its item: none of the bindings that are left names it. Nothing else has changed.
\<close>

theorem a_revoked_grant_gives_nothing:
  assumes run: "revoke_grant u i w = (Inr (), w')"
  shows "\<exists>g. find_row gr_id i (grants w) = Some g \<and> gr_user_id g = u \<and> find_row gr_id i (grants w') = None
    \<and> (\<forall>j. j \<noteq> i \<longrightarrow> find_row gr_id j (grants w') = find_row gr_id j (grants w))
    \<and> (\<forall>b. b \<in> set (bindings w') \<longleftrightarrow> b \<in> set (bindings w) \<and> \<not> (bi_user_id b = u
          \<and> bi_principal b = gr_principal g \<and> bi_connection_id b = gr_connection_id g \<and> bi_item_id b = gr_item_id g))
    \<and> (\<forall>chat env v. resolve_env vs u (gr_principal g) chat w' = (Inr env, v) \<longrightarrow>
        (\<exists>bs varss. env = concat varss \<and> list_all2 (\<lambda>b vars. entitled w' u (gr_principal g) chat b \<and> delivers vs u w' b vars) bs varss
           \<and> (\<forall>b \<in> set bs. bi_connection_id b \<noteq> gr_connection_id g \<or> bi_item_id b \<noteq> gr_item_id g)))
    \<and> connections w' = connections w \<and> credentials w' = credentials w"
proof -
  obtain g where g: "find_row gr_id i (grants w) = Some g" "gr_user_id g = u"
    and w': "grants w' = delete_row gr_id i (grants w)" "connections w' = connections w" "credentials w' = credentials w"
    and left: "bindings w' = filter (\<lambda>b. \<not> (bi_user_id b = u \<and> bi_principal b = gr_principal g
        \<and> bi_connection_id b = gr_connection_id g \<and> bi_item_id b = gr_item_id g)) (bindings w)"
    using revoke_Inr [OF run] by blast
  have "\<exists>bs varss. env = concat varss \<and> list_all2 (\<lambda>b vars. entitled w' u (gr_principal g) chat b \<and> delivers vs u w' b vars) bs varss
      \<and> (\<forall>b \<in> set bs. bi_connection_id b \<noteq> gr_connection_id g \<or> bi_item_id b \<noteq> gr_item_id g)"
    if env: "resolve_env vs u (gr_principal g) chat w' = (Inr env, v)" for chat env v
  proof -
    obtain bs varss where bs: "bs = filter (\<lambda>b. bound_to (clock w') u (gr_principal g) b
            \<and> (bi_scope b = Durable \<or> (\<exists>c. chat = Some c \<and> bi_scope b = ChatScope c))) (bindings w')"
      and all: "env = concat varss" "list_all2 (\<lambda>b vars. entitled w' u (gr_principal g) chat b \<and> delivers vs u w' b vars) bs varss"
      using resolve_env_Inr [OF env] by blast
    have "\<forall>b \<in> set bs. bi_connection_id b \<noteq> gr_connection_id g \<or> bi_item_id b \<noteq> gr_item_id g"
      unfolding bs by (auto simp: left bound_to_def)
    with all show ?thesis by blast
  qed
  with g show ?thesis by (intro exI [of _ g]) (simp add: w' left find_row_delete)
qed

theorem a_revoked_grant_gives_nothing_witness:
  "let w = snd (revoke_grant ''m'' ''2'' demo_vault_world)
   in find_row gr_id ''2'' (grants w) = None \<and> map bi_id (bindings w) = [''1'']
    \<and> fst (resolve_env demo_vaults ''m'' (principal_agent ''a'') None w) = Inr [(''TOKEN'', ''pw'')]"
proof -
  obtain w where run: "revoke_grant ''m'' ''2'' demo_vault_world = (Inr (), w)"
  proof -
    have "fst (revoke_grant ''m'' ''2'' demo_vault_world) = Inr ()" by code_simp
    then show ?thesis using that by (cases "revoke_grant ''m'' ''2'' demo_vault_world") auto
  qed
  have "find_row gr_id ''2'' (grants w) = None" using a_revoked_grant_gives_nothing [OF run] by blast
  moreover have "map bi_id (bindings (snd (revoke_grant ''m'' ''2'' demo_vault_world))) = [''1'']" by code_simp
  moreover have "fst (resolve_env demo_vaults ''m'' (principal_agent ''a'') None (snd (revoke_grant ''m'' ''2'' demo_vault_world)))
      = Inr [(''TOKEN'', ''pw'')]" by code_simp
  ultimately show ?thesis by (simp add: run)
qed

text \<open>
  The list of grants can show the variables of another principal. Mina grants the same item for
  the same query to two agents, under different variables; \<open>list_grants\<close> shows both grants with
  the variable of the first agent it meets, since it looks for a binding of the same vault, item and
  query without asking whose it is.
\<close>

definition two_agents :: vault_world where
  "two_agents = demo_vault_world\<lparr>
     grants := [demo_grant ''1'' ''a'' ''local'' ''s'', demo_grant ''2'' ''b'' ''local'' ''s''],
     bindings := [demo_binding ''1'' ''a'' ''local'' ''s'' ''FOR_A'', demo_binding ''2'' ''b'' ''local'' ''s'' ''FOR_B'']\<rparr>"

theorem a_grant_is_listed_with_anothers_variable:
  "\<exists>rs. fst (list_grants ''m'' two_agents) = Inr rs
     \<and> map rg_principal rs = [principal_agent ''b'', principal_agent ''a'']
     \<and> map rg_target rs = [Some (Single ''FOR_B'' Password), Some (Single ''FOR_B'' Password)]
     \<and> fst (resolve_env demo_vaults ''m'' (principal_agent ''a'') None two_agents) = Inr [(''FOR_A'', ''pw'')]"
proof -
  have "fst (list_grants ''m'' two_agents) = Inr (map (\<lambda>g. (to_grant_response g)\<lparr>rg_target := Some (Single ''FOR_B'' Password)\<rparr>)
      (rev (grants two_agents)))" by code_simp
  moreover have "map gr_principal (rev (grants two_agents)) = [principal_agent ''b'', principal_agent ''a'']"
    by (simp add: two_agents_def demo_grant_def)
  moreover have "fst (resolve_env demo_vaults ''m'' (principal_agent ''a'') None two_agents) = Inr [(''FOR_A'', ''pw'')]"
    by code_simp
  ultimately show ?thesis by (simp add: to_grant_response_def two_agents_def demo_grant_def)
qed

end
