(* ===== verification/Vault_Tables.thy ===== *)
theory Vault_Tables
  imports Vault_Props
begin

text \<open>
  The tables of the vault service as a whole: what a start of the server makes of the vaults of the
  configuration, and what the requests of one user leave of the rows of the others.
\<close>

section \<open>The vaults of the configuration\<close>

lemma encrypt_config_Inr:
  "encrypt_config vs cfg w = (Inr x, w') \<Longrightarrow> connections w' = connections w \<and> clock w' = clock w"
  unfolding encrypt_config_def
  by (auto simp: ret_def from_result_def draw_nonce_def split: if_splits list.splits elim!: qbind_Inr_E)

lemma repo_update_Inr:
  assumes "repo_update put key r w = (Inr x, w')"
  shows "w' = put (update_row key r) (w\<lparr>faults := tl (faults w)\<rparr>)"
  using assms unfolding repo_update_def by (auto elim!: qbind_Inr_E dest!: db_write_Inr simp: ret_def)

definition from_entry :: "(string \<times> provider_type \<times> string \<times> connection_config) list \<Rightarrow> string \<Rightarrow> connection \<Rightarrow> bool" where
  "from_entry es i c \<longleftrightarrow> (\<exists>prov name cfg enc n t. (i, prov, name, cfg) \<in> set es \<and> c = system_connection i prov name enc n t)"

lemma from_entry_mono: "from_entry es i c \<Longrightarrow> set es \<subseteq> set gs \<Longrightarrow> from_entry gs i c"
  unfolding from_entry_def by blast

lemma from_entry_on: "from_entry es i c \<Longrightarrow> cn_enabled c \<and> cn_system_managed c"
  by (auto simp: from_entry_def system_connection_def)

lemma sync_entry_Inr:
  assumes "sync_entry vs ids now (i, prov, name, cfg) w = (Inr (), w')"
    and "i \<in> set ids \<longrightarrow> find_row cn_id i (connections w) \<noteq> None"
  shows "clock w' = clock w \<and> (\<exists>c. from_entry [(i, prov, name, cfg)] i c
    \<and> (\<forall>j. find_row cn_id j (connections w') = (if j = i then Some c else find_row cn_id j (connections w))))
    \<and> (wf_rows cn_id (connections w) \<longrightarrow> wf_rows cn_id (connections w'))"
proof -
  obtain enc n w1 where enc: "encrypt_config vs cfg w = (Inr (enc, n), w1)"
    and rest: "(if i \<in> set ids then qbind (repo_update connections_update cn_id (system_connection i prov name enc n now)) (\<lambda>_. ret ())
       else qbind (repo_create connections connections_update cn_id (system_connection i prov name enc n now)) (\<lambda>_. ret ())) w1 = (Inr (), w')"
    using assms(1) unfolding sync_entry_def by (auto elim!: qbind_Inr_E simp: Let_def split: prod.splits)
  let ?c = "system_connection i prov name enc n now"
  have key: "cn_id ?c = i" by (simp add: system_connection_def)
  have new: "from_entry [(i, prov, name, cfg)] i ?c" by (auto simp: from_entry_def)
  have w1: "connections w1 = connections w" "clock w1 = clock w" using encrypt_config_Inr [OF enc] by simp_all
  show ?thesis
  proof (cases "i \<in> set ids")
    case True
    then obtain x where u: "repo_update connections_update cn_id ?c w1 = (Inr x, w')"
      using rest by (auto elim!: qbind_Inr_E simp: ret_def)
    have "connections w' = update_row cn_id ?c (connections w)" "clock w' = clock w"
      using repo_update_Inr [OF u] w1 by simp_all
    with new True assms(2) show ?thesis
      by (auto simp: find_row_update key intro!: exI [of _ ?c] rows.wf_update)
  next
    case False
    then obtain x where u: "repo_create connections connections_update cn_id ?c w1 = (Inr x, w')"
      using rest by (auto elim!: qbind_Inr_E simp: ret_def)
    have c: "create_row cn_id ?c (connections w) = Some (connections w')" "clock w' = clock w"
      using create_repo_Inr [OF u] w1 by auto
    with new show ?thesis
      by (auto simp: create_row_find [OF c(1)] key intro!: exI [of _ ?c] intro: rows.wf_create)
  qed
qed

lemma sync_entries_Inr:
  assumes "for_each es (sync_entry vs ids now) w = (Inr (), w')"
    and "\<forall>i \<in> set ids. find_row cn_id i (connections w) \<noteq> None"
  shows "clock w' = clock w \<and> (wf_rows cn_id (connections w) \<longrightarrow> wf_rows cn_id (connections w'))
    \<and> (\<forall>i \<in> fst ` set es. \<exists>c. find_row cn_id i (connections w') = Some c \<and> from_entry es i c)
    \<and> (\<forall>i. i \<notin> fst ` set es \<longrightarrow> find_row cn_id i (connections w') = find_row cn_id i (connections w))"
  using assms
proof (induction es arbitrary: w)
  case Nil
  then show ?case by (simp add: ret_def)
next
  case (Cons e es)
  obtain i prov name cfg where e: "e = (i, prov, name, cfg)" by (cases e)
  obtain w1 where s: "sync_entry vs ids now (i, prov, name, cfg) w = (Inr (), w1)"
    and rest: "for_each es (sync_entry vs ids now) w1 = (Inr (), w')"
    using Cons.prems(1) unfolding e for_each.simps by (rule qbind_Inr_E) simp
  obtain c where one: "clock w1 = clock w" "from_entry [e] i c"
    "\<forall>j. find_row cn_id j (connections w1) = (if j = i then Some c else find_row cn_id j (connections w))"
    "wf_rows cn_id (connections w) \<longrightarrow> wf_rows cn_id (connections w1)"
    using sync_entry_Inr [OF s] Cons.prems(2) unfolding e by blast
  have "\<forall>j \<in> set ids. find_row cn_id j (connections w1) \<noteq> None" using Cons.prems(2) one(3) by auto
  note IH = Cons.IH [OF rest this]
  have "\<exists>c. find_row cn_id j (connections w') = Some c \<and> from_entry (e # es) j c" if "j \<in> fst ` set (e # es)" for j
  proof (cases "j \<in> fst ` set es")
    case True
    with IH obtain c' where "find_row cn_id j (connections w') = Some c'" "from_entry es j c'" by blast
    then show ?thesis by (auto intro: from_entry_mono)
  next
    case False
    moreover have "from_entry (e # es) i c" by (rule from_entry_mono [OF one(2)]) simp
    ultimately show ?thesis using that IH one(3) by (auto simp: e)
  qed
  with IH one e show ?case by auto
qed

definition removed :: "string list \<Rightarrow> connection \<Rightarrow> bool" where
  "removed desired c \<longleftrightarrow> cn_id c \<notin> set desired \<and> cn_id c \<noteq> ''local'' \<and> cn_enabled c"

lemma disable_each_Inr:
  assumes "for_each cs (disable_removed desired now) w = (Inr (), w')" and "distinct (map cn_id cs)"
  shows "clock w' = clock w \<and> (wf_rows cn_id (connections w) \<longrightarrow> wf_rows cn_id (connections w'))
    \<and> (\<forall>i. find_row cn_id i (connections w') =
          (case find_row cn_id i (filter (removed desired) cs) of
             Some c \<Rightarrow> if find_row cn_id i (connections w) = None then None
                       else Some (c\<lparr>cn_enabled := False, cn_updated_at := now\<rparr>)
           | None \<Rightarrow> find_row cn_id i (connections w)))"
  using assms
proof (induction cs arbitrary: w)
  case Nil
  then show ?case by (simp add: ret_def)
next
  case (Cons c cs)
  obtain w1 where d: "disable_removed desired now c w = (Inr (), w1)"
    and rest: "for_each cs (disable_removed desired now) w1 = (Inr (), w')"
    using Cons.prems(1) unfolding for_each.simps by (rule qbind_Inr_E) simp
  note IH = Cons.IH [OF rest]
  have none: "find_row cn_id (cn_id c) (filter (removed desired) cs) = None"
    using Cons.prems(2) by (force simp: find_row_None image_iff)
  show ?case
  proof (cases "removed desired c")
    case True
    let ?c = "c\<lparr>cn_enabled := False, cn_updated_at := now\<rparr>"
    obtain x where u: "repo_update connections_update cn_id ?c w = (Inr x, w1)"
      using d True by (auto simp: disable_removed_def removed_def ret_def elim!: qbind_Inr_E)
    have w1: "connections w1 = update_row cn_id ?c (connections w)" "clock w1 = clock w"
      using repo_update_Inr [OF u] by simp_all
    have hd: "find_row cn_id i (filter (removed desired) (c # cs)) =
        (if i = cn_id c then Some c else find_row cn_id i (filter (removed desired) cs))" for i
      using True by (simp add: find_row_def)
    have IH: "clock w' = clock w1" "wf_rows cn_id (connections w1) \<longrightarrow> wf_rows cn_id (connections w')"
      "find_row cn_id i (connections w') =
          (case find_row cn_id i (filter (removed desired) cs) of
             Some c \<Rightarrow> if find_row cn_id i (connections w1) = None then None
                       else Some (c\<lparr>cn_enabled := False, cn_updated_at := now\<rparr>)
           | None \<Rightarrow> find_row cn_id i (connections w1))" for i
      using IH Cons.prems(2) by simp_all
    have "find_row cn_id i (connections w') =
          (case find_row cn_id i (filter (removed desired) (c # cs)) of
             Some c \<Rightarrow> if find_row cn_id i (connections w) = None then None
                       else Some (c\<lparr>cn_enabled := False, cn_updated_at := now\<rparr>)
           | None \<Rightarrow> find_row cn_id i (connections w))" for i
      using none unfolding IH(3) hd w1 find_row_update by (cases "i = cn_id c") (simp_all split: option.split)
    with IH(1,2) show ?thesis by (simp add: w1 rows.wf_update)
  next
    case False
    then have "w1 = w" using d by (auto simp: disable_removed_def removed_def ret_def)
    with False IH [unfolded \<open>w1 = w\<close>] Cons.prems(2) show ?thesis by simp
  qed
qed


lemma find_row_filter:
  "wf_rows key t \<Longrightarrow> find_row key i (filter P t) =
     (case find_row key i t of Some c \<Rightarrow> if P c then Some c else None | None \<Rightarrow> None)"
proof (cases "find_row key i t")
  case None
  then have "find_row key i (filter P t) = None" by (simp add: find_row_None)
  with None show ?thesis by simp
next
  case (Some c)
  assume wf: "wf_rows key t"
  from find_row_Some [OF Some] have c: "c \<in> set t" "key c = i" by auto
  show ?thesis
  proof (cases "P c")
    case True
    then have "find_row key (key c) (filter P t) = Some c"
      using c by (intro find_row_mem wf_rows_filter [OF wf]) auto
    with True Some c show ?thesis by simp
  next
    case False
    have "r = c" if "r \<in> set t" "key r = i" for r
      using find_row_mem [OF wf that(1)] that(2) Some by simp
    with False have "find_row key i (filter P t) = None" by (auto simp: find_row_None)
    with False Some show ?thesis by simp
  qed
qed

lemma local_not_configured: "''local'' \<notin> fst ` set (config_connection_entries st)"
  by (auto simp: config_connection_entries_def GLOBAL_CONNECTION_ID_def split: option.splits)

text \<open>
  C17. Start-up enables the vaults of the configuration and disables the others. After
  \<open>sync_config_connections\<close> the table has one enabled row, of the right kind, for every entry of
  the configuration; every other vault of the operator is disabled, except the local one, which
  exists; the vaults of the users are as they were, and ids are still unique. So a vault whose
  settings were removed stops working for everybody, and works again when they return.
\<close>

theorem startup_enables_the_configured_vaults:
  assumes run: "sync_config_connections vs w = (Inr (), w')" and wf: "wf_rows cn_id (connections w)"
  shows "wf_rows cn_id (connections w')
    \<and> (\<forall>i \<in> fst ` set (config_connection_entries (vs_settings vs)).
        \<exists>c. find_row cn_id i (connections w') = Some c \<and> from_entry (config_connection_entries (vs_settings vs)) i c
          \<and> cn_enabled c \<and> cn_system_managed c)
    \<and> (\<forall>i. i \<notin> fst ` set (config_connection_entries (vs_settings vs)) \<longrightarrow> i \<noteq> ''local'' \<longrightarrow>
        find_row cn_id i (connections w') = map_option
          (\<lambda>c. if cn_system_managed c \<and> cn_enabled c then c\<lparr>cn_enabled := False, cn_updated_at := clock w\<rparr> else c)
          (find_row cn_id i (connections w)))
    \<and> find_row cn_id ''local'' (connections w') \<noteq> None"
proof -
  define es where "es = config_connection_entries (vs_settings vs)"
  obtain ex w1 w2 w3 where ex: "find_system_managed w = (Inr ex, w1)"
    and p1: "for_each es (sync_entry vs (map cn_id ex) (clock w)) w1 = (Inr (), w2)"
    and p2: "for_each ex (disable_removed (map fst es) (clock w)) w2 = (Inr (), w3)"
    and p3: "(if ''local'' \<notin> set (map cn_id ex)
        then qbind (repo_create connections connections_update cn_id
               (system_connection ''local'' Local ''Local Credentials'' [] [] (clock w))) (\<lambda>_. ret ())
        else ret ()) w3 = (Inr (), w')"
    using run unfolding sync_config_connections_def es_def [symmetric] by (auto simp: Let_def elim!: qbind_Inr_E)
  have exs: "ex = filter cn_system_managed (connections w)" and w1: "connections w1 = connections w" "clock w1 = clock w"
    using ex unfolding find_system_managed_def by (auto dest!: db_read_Inr)
  have ids: "\<forall>i \<in> set (map cn_id ex). find_row cn_id i (connections w1) \<noteq> None"
    by (auto simp: exs w1 find_row_None)
  have dist: "distinct (map cn_id ex)"
    using wf_rows_filter [OF wf, of cn_system_managed] by (simp add: exs wf_rows_def)
  note one = sync_entries_Inr [OF p1 ids]
  note two = disable_each_Inr [OF p2 dist]
  have known: "find_row cn_id i (filter (removed (map fst es)) ex) = (case find_row cn_id i (connections w) of
      Some c \<Rightarrow> if cn_system_managed c \<and> removed (map fst es) c then Some c else None | None \<Rightarrow> None)" for i
    using find_row_filter [OF wf, of i "\<lambda>c. removed (map fst es) c \<and> cn_system_managed c"]
    by (simp add: exs conj_commute split: option.splits)
  have loc: "''local'' \<notin> fst ` set es" by (simp add: es_def local_not_configured)
  have w3: "wf_rows cn_id (connections w3)"
    "\<forall>i \<in> fst ` set es. \<exists>c. find_row cn_id i (connections w3) = Some c \<and> from_entry es i c
      \<and> cn_enabled c \<and> cn_system_managed c"
    "\<forall>i. i \<notin> fst ` set es \<longrightarrow> i \<noteq> ''local'' \<longrightarrow> find_row cn_id i (connections w3) = map_option
          (\<lambda>c. if cn_system_managed c \<and> cn_enabled c then c\<lparr>cn_enabled := False, cn_updated_at := clock w\<rparr> else c)
          (find_row cn_id i (connections w))"
    "find_row cn_id ''local'' (connections w3) = find_row cn_id ''local'' (connections w)"
  proof -
    have two: "find_row cn_id i (connections w3) = (case find_row cn_id i (connections w) of
        Some c \<Rightarrow> if cn_system_managed c \<and> removed (map fst es) c
          then if find_row cn_id i (connections w2) = None then None else Some (c\<lparr>cn_enabled := False, cn_updated_at := clock w\<rparr>)
          else find_row cn_id i (connections w2)
      | None \<Rightarrow> find_row cn_id i (connections w2))" for i
      using two known [of i] by (cases "find_row cn_id i (connections w)") simp_all
    have key: "cn_id c = i" if "find_row cn_id i (connections w) = Some c" for i c
      using find_row_Some [OF that] by simp
    have same: "find_row cn_id i (connections w2) = find_row cn_id i (connections w)" if "i \<notin> fst ` set es" for i
      using one that by (simp add: w1)
    show "wf_rows cn_id (connections w3)"
      using one disable_each_Inr [OF p2 dist] wf w1 by simp
    show "\<forall>i \<in> fst ` set es. \<exists>c. find_row cn_id i (connections w3) = Some c \<and> from_entry es i c
        \<and> cn_enabled c \<and> cn_system_managed c"
    proof
      fix i assume i: "i \<in> fst ` set es"
      then have "find_row cn_id i (connections w3) = find_row cn_id i (connections w2)"
        using two [of i] key [of i] by (auto simp: removed_def split: option.splits)
      moreover have "\<exists>c. find_row cn_id i (connections w2) = Some c \<and> from_entry es i c
        \<and> cn_enabled c \<and> cn_system_managed c" using one i from_entry_on by blast
      ultimately show "\<exists>c. find_row cn_id i (connections w3) = Some c \<and> from_entry es i c
        \<and> cn_enabled c \<and> cn_system_managed c" by simp
    qed
    show "\<forall>i. i \<notin> fst ` set es \<longrightarrow> i \<noteq> ''local'' \<longrightarrow> find_row cn_id i (connections w3) = map_option
          (\<lambda>c. if cn_system_managed c \<and> cn_enabled c then c\<lparr>cn_enabled := False, cn_updated_at := clock w\<rparr> else c)
          (find_row cn_id i (connections w))"
      using two key same by (auto simp: removed_def split: option.splits)
    show "find_row cn_id ''local'' (connections w3) = find_row cn_id ''local'' (connections w)"
      using two [of "''local''"] key [of "''local''"] same [OF loc] by (auto simp: removed_def split: option.splits)
  qed
  show ?thesis
  proof (cases "''local'' \<in> set (map cn_id ex)")
    case True
    then have "w' = w3" "find_row cn_id ''local'' (connections w) \<noteq> None"
      using p3 ids by (auto simp: ret_def w1)
    with w3 show ?thesis unfolding es_def [symmetric] by simp
  next
    case False
    obtain x where u: "repo_create connections connections_update cn_id
        (system_connection ''local'' Local ''Local Credentials'' [] [] (clock w)) w3 = (Inr x, w')"
      using p3 False by (auto simp: ret_def elim!: qbind_Inr_E)
    have c: "create_row cn_id (system_connection ''local'' Local ''Local Credentials'' [] [] (clock w)) (connections w3) = Some (connections w')"
      using create_repo_Inr [OF u] by auto
    have k: "cn_id (system_connection ''local'' Local ''Local Credentials'' [] [] (clock w)) = ''local''"
      by (simp add: system_connection_def)
    have "wf_rows cn_id (connections w')" using rows.wf_create [OF w3(1) c] .
    moreover have "find_row cn_id j (connections w') = (if j = ''local''
        then Some (system_connection ''local'' Local ''Local Credentials'' [] [] (clock w)) else find_row cn_id j (connections w3))" for j
      using create_row_find [OF c] by (simp add: k)
    moreover have "i \<noteq> ''local''" if "i \<in> fst ` set es" for i using loc that by blast
    ultimately show ?thesis using w3 unfolding es_def [symmetric] by simp
  qed
qed


theorem startup_enables_the_configured_vaults_witness:
  "let w = snd (sync_config_connections demo_vaults demo_vault_world)
   in fst (sync_config_connections demo_vaults demo_vault_world) = Inr () \<and> wf_rows cn_id (connections w)
    \<and> (\<exists>c. find_row cn_id ''managed'' (connections w) = Some c \<and> cn_enabled c)
    \<and> find_row cn_id ''v'' (connections w) = Some (demo_connections ! 1)"
proof -
  have ok: "fst (sync_config_connections demo_vaults demo_vault_world) = Inr ()" by code_simp
  then obtain w where run: "sync_config_connections demo_vaults demo_vault_world = (Inr (), w)"
    by (cases "sync_config_connections demo_vaults demo_vault_world") auto
  have wf: "wf_rows cn_id (connections demo_vault_world)" by code_simp
  have es: "fst ` set (config_connection_entries (vs_settings demo_vaults)) = {''managed''}" by code_simp
  have v: "find_row cn_id ''v'' (connections demo_vault_world) = Some (demo_connections ! 1)"
    "cn_system_managed (demo_connections ! 1) = False" by code_simp+
  from startup_enables_the_configured_vaults [OF run wf, unfolded es] v
  show ?thesis unfolding run Let_def by auto
qed

section \<open>Requests of one user\<close>

text \<open>The requests of \<open>api/routes/vaults.rs\<close> that change a table, and the world they leave.\<close>

datatype vault_request =
    CreateConnection string provider_type connection_config
  | DeleteConnection string
  | ToggleConnection string bool
  | CreateGrant principal string string string credential_target
  | RevokeGrant string
  | CreateItem create_item
  | UpdateItem string update_item
  | DeleteItem string

fun serve :: "vault_service \<Rightarrow> string \<Rightarrow> vault_request \<Rightarrow> 'w vault_world_scheme \<Rightarrow> 'w vault_world_scheme" where
  "serve vs u (CreateConnection name t cfg) w = snd (create_connection vs u name t cfg w)"
| "serve vs u (DeleteConnection c) w = snd (delete_connection u c w)"
| "serve vs u (ToggleConnection c b) w = snd (toggle_connection u c b w)"
| "serve vs u (CreateGrant p c i q target) w = snd (create_grant_route vs u p c i q target w)"
| "serve vs u (RevokeGrant g) w = snd (revoke_grant u g w)"
| "serve vs u (CreateItem req) w = snd (create_credential vs u req w)"
| "serve vs u (UpdateItem i req) w = snd (update_credential vs u i req w)"
| "serve vs u (DeleteItem i) w = snd (delete_credential u i w)"

definition wf_vault :: "'w vault_world_scheme \<Rightarrow> bool" where
  "wf_vault w \<longleftrightarrow> wf_rows cn_id (connections w) \<and> wf_rows gr_id (grants w) \<and> wf_rows bi_id (bindings w)
     \<and> wf_rows cd_id (credentials w)"

text \<open>What is not the caller's: rows of others, less what points at a vault of the caller.\<close>

definition foreign :: "string \<Rightarrow> string set \<Rightarrow> 'w vault_world_scheme \<Rightarrow>
    connection set \<times> vault_grant set \<times> binding set \<times> credential set" where
  "foreign u own w = ({c \<in> set (connections w). cn_user_id c \<noteq> u},
     {g \<in> set (grants w). gr_user_id g \<noteq> u \<and> gr_connection_id g \<notin> own},
     {b \<in> set (bindings w). bi_user_id b \<noteq> u \<and> bi_connection_id b \<notin> own},
     {c \<in> set (credentials w). cd_user_id c \<noteq> u})"

definition own_vaults :: "string \<Rightarrow> 'w vault_world_scheme \<Rightarrow> string set" where
  "own_vaults u w = cn_id ` {c \<in> set (connections w). cn_user_id c = u}"

definition steady :: "string \<Rightarrow> string set \<Rightarrow> (connection set \<times> vault_grant set \<times> binding set \<times> credential set)
    \<Rightarrow> 'w vault_world_scheme \<Rightarrow> bool" where
  "steady u own X w \<longleftrightarrow> wf_vault w \<and> foreign u own w = X"

lemma steady_frame [simp]: "steady u own X (w\<lparr>faults := fl\<rparr>) = steady u own X w"
  "steady u own X (w\<lparr>new_ids := is\<rparr>) = steady u own X w" "steady u own X (w\<lparr>nonces := ns\<rparr>) = steady u own X w"
  by (simp_all add: steady_def wf_vault_def foreign_def)

lemma steady_draw [keep_rules]: "keeps (steady u own X) new_id" "keeps (steady u own X) draw_nonce"
  by (auto simp: valid_def new_id_def draw_nonce_def split: list.split)

lemma set_create: "create_row key r t = Some t' \<Longrightarrow> set t' = insert r (set t)"
  by (auto simp: create_row_def split: if_splits)

lemma steady_create:
  "cn_user_id c = u \<Longrightarrow> keeps (steady u own X) (repo_create connections connections_update cn_id c)"
  "gr_user_id g = u \<Longrightarrow> keeps (steady u own X) (repo_create grants grants_update gr_id g)"
  "bi_user_id b = u \<Longrightarrow> keeps (steady u own X) (repo_create bindings bindings_update bi_id b)"
  "cd_user_id d = u \<Longrightarrow> keeps (steady u own X) (repo_create credentials credentials_update cd_id d)"
  unfolding repo_create_def
  by (rule keeps_db_call; force simp: steady_def wf_vault_def foreign_def set_create intro: wf_rows_create split: option.split)+

lemma set_update_foreign:
  assumes "wf_rows key t" and "find_row key (key r) t = Some old" and "owner old = u" and "owner r = u"
  shows "{x \<in> set (update_row key r t). owner x \<noteq> u} = {x \<in> set t. owner x \<noteq> u}"
proof -
  have "x = old" if "x \<in> set t" "key x = key r" for x
    using find_row_mem [OF assms(1) that(1)] that(2) assms(2) by simp
  with assms(3,4) show ?thesis by (auto simp: update_row_def)
qed

lemma set_delete_foreign:
  assumes "wf_rows key t" and "find_row key i t = Some old" and "owner old = u"
  shows "{x \<in> set (delete_row key i t). owner x \<noteq> u} = {x \<in> set t. owner x \<noteq> u}"
proof -
  have "x = old" if "x \<in> set t" "key x = i" for x
    using find_row_mem [OF assms(1) that(1)] that(2) assms(2) by simp
  with assms(3) show ?thesis by (auto simp: delete_row_def)
qed

lemma set_delete_grant:
  assumes "wf_rows gr_id t" and "find_row gr_id i t = Some g" and "gr_user_id g = u"
  shows "{x \<in> set (delete_row gr_id i t). gr_user_id x \<noteq> u \<and> P x} = {x \<in> set t. gr_user_id x \<noteq> u \<and> P x}"
  using set_delete_foreign [where owner = gr_user_id, OF assms] by blast

lemma steady_writes:
  assumes "steady u own X w"
  shows "find_row cn_id i (connections w) = Some c \<Longrightarrow> cn_user_id c = u \<Longrightarrow> cn_id c' = i \<Longrightarrow> cn_user_id c' = u
      \<Longrightarrow> steady u own X (connections_update (update_row cn_id c') w)"
    and "find_row cn_id i (connections w) = Some c \<Longrightarrow> cn_user_id c = u
      \<Longrightarrow> steady u own X (connections_update (delete_row cn_id i) w)"
    and "find_row cd_id i (credentials w) = Some d \<Longrightarrow> cd_user_id d = u \<Longrightarrow> cd_id d' = i \<Longrightarrow> cd_user_id d' = u
      \<Longrightarrow> steady u own X (credentials_update (update_row cd_id d') w)"
    and "find_row cd_id i (credentials w) = Some d \<Longrightarrow> cd_user_id d = u
      \<Longrightarrow> steady u own X (credentials_update (delete_row cd_id i) w)"
    and "find_row gr_id i (grants w) = Some g \<Longrightarrow> gr_user_id g = u
      \<Longrightarrow> steady u own X (grants_update (delete_row gr_id i) w)"
  using assms
  by (auto simp: steady_def wf_vault_def foreign_def rows.wf_update rows.wf_delete set_delete_grant
      set_update_foreign [where owner = cn_user_id] set_delete_foreign [where owner = cn_user_id]
      set_update_foreign [where owner = cd_user_id] set_delete_foreign [where owner = cd_user_id])

lemma steady_filters:
  assumes "steady u own X w"
  shows "c \<in> own \<Longrightarrow> steady u own X (w\<lparr>grants := filter (\<lambda>g. gr_connection_id g \<noteq> c) (grants w)\<rparr>)"
    and "steady u own X (w\<lparr>bindings := filter (\<lambda>b. \<not> (bi_user_id b = u \<and> Q b)) (bindings w)\<rparr>)"
    and "c \<in> own \<Longrightarrow> steady u own X (w\<lparr>bindings := filter (\<lambda>b. bi_connection_id b \<noteq> c) (bindings w)\<rparr>)"
  using assms by (auto simp: steady_def wf_vault_def foreign_def wf_rows_filter)

text \<open>A row that was found keeps its owner until it is written.\<close>

lemma valid_find_or:
  assumes "\<And>w fl. P w \<Longrightarrow> P (w\<lparr>faults := fl\<rparr>)" and "\<And>w fl. get (w\<lparr>faults := fl\<rparr>) = get w"
    and "\<And>c. valid (\<lambda>w. P w \<and> find_row key i (get w) = Some c) (f c) (\<lambda>_. Q)" and "\<And>w. P w \<Longrightarrow> Q w"
  shows "valid P (qbind (find_or get key e i) f) (\<lambda>_. Q)"
proof (rule valid_qbind [where R = "\<lambda>r w. P w \<and> (\<forall>c. r = Inr c \<longrightarrow> find_row key i (get w) = Some c)"])
  show "valid P (find_or get key e i) (\<lambda>r w. P w \<and> (\<forall>c. r = Inr c \<longrightarrow> find_row key i (get w) = Some c))"
  proof (rule validI)
    fix w r w' assume P: "P w" and run: "qbind (repo_find_by_id get key i) (ok_or e) w = (r, w')"
    show "P w' \<and> (\<forall>c. r = Inr c \<longrightarrow> find_row key i (get w') = Some c)"
    proof (cases r)
      case (Inr c)
      with find_or_Inr [OF run [unfolded Inr]] P assms(1) show ?thesis by auto
    next
      case (Inl x)
      have "read_only (qbind (repo_find_by_id get key i) (ok_or e))" by (intro read_rules)
      from read_onlyD [OF this run] P assms(1) Inl show ?thesis by auto
    qed
  qed
  show "valid (\<lambda>w. P w \<and> (\<forall>c'. Inr c = Inr c' \<longrightarrow> find_row key i (get w) = Some c')) (f c) (\<lambda>_. Q)" for c
    using assms(3) [of c] by (simp add: valid_def)
qed (simp add: assms(4))


lemma valid_db_write:
  assumes "\<And>w. P w \<Longrightarrow> Q (f w)" and "\<And>w. P w \<Longrightarrow> Q w" and "\<And>w fl. P w \<Longrightarrow> P (w\<lparr>faults := fl\<rparr>)"
  shows "valid P (db_write f) (\<lambda>_. Q)"
proof (rule validI)
  fix w r w' assume "P w" and "db_write f w = (r, w')"
  then show "Q w'" using assms unfolding db_write_def by (auto elim!: db_call_cases)
qed

lemma valid_update:
  assumes "\<And>w. P w \<Longrightarrow> Q (put (update_row key r) w)" and "\<And>w. P w \<Longrightarrow> Q w"
    and "\<And>w fl. P w \<Longrightarrow> P (w\<lparr>faults := fl\<rparr>)"
  shows "valid P (qbind (repo_update put key r) (\<lambda>x. ret (h x))) (\<lambda>_. Q)"
  unfolding repo_update_def qbind_assoc
  by (rule valid_step [where R = Q]) (auto intro: valid_db_write assms valid_ret)

abbreviation steady_with :: "string \<Rightarrow> string set \<Rightarrow> (connection set \<times> vault_grant set \<times> binding set \<times> credential set)
    \<Rightarrow> ('w vault_world_scheme \<Rightarrow> 'r list) \<Rightarrow> ('r \<Rightarrow> string) \<Rightarrow> string \<Rightarrow> 'r \<Rightarrow> 'w vault_world_scheme \<Rightarrow> bool" where
  "steady_with u own X get key i c w \<equiv> steady u own X w \<and> find_row key i (get w) = Some c"

lemma keeps_encrypt:
  assumes "\<And>w ns. P w \<Longrightarrow> P (w\<lparr>nonces := ns\<rparr>)"
  shows "keeps P (encrypt_config vs cfg)" "keeps P (encrypt_password vs pw)"
proof -
  have d: "keeps P draw_nonce" using assms by (auto simp: valid_def draw_nonce_def split: list.split)
  show "keeps P (encrypt_config vs cfg)" "keeps P (encrypt_password vs pw)"
    unfolding encrypt_config_def encrypt_password_def by (intro keep_rules d)+
qed

lemma keeps_new_item [keep_rules]: "(\<And>w ns. P w \<Longrightarrow> P (w\<lparr>nonces := ns\<rparr>)) \<Longrightarrow> keeps P (new_item vs req)"
  unfolding new_item_def by (cases req; simp; intro keep_rules keeps_encrypt)

lemma keeps_updated_item [keep_rules]: "(\<And>w ns. P w \<Longrightarrow> P (w\<lparr>nonces := ns\<rparr>)) \<Longrightarrow> keeps P (updated_item vs old req)"
  unfolding updated_item_def by (cases req; simp; intro keep_rules keeps_encrypt; (assumption | cases old; simp add: keeps_ret keeps_fail))

lemma steady_creates: "keeps (steady u own X) (create_connection vs u name t cfg)"
  "keeps (steady u own X) (create_grant_route vs u p c i q target)"
  "keeps (steady u own X) (create_credential vs u req)"
  unfolding create_connection_def create_grant_route_def create_grant_def create_binding_def create_credential_def
    ensure_non_user_principal_def
  by (intro keep_rules keeps_encrypt steady_create; simp)+

lemma valid_gets: "(\<And>a. valid P (f a) Q) \<Longrightarrow> valid P (qbind (gets g) f) Q"
  by (auto simp: valid_def)

lemma steady_toggle: "keeps (steady u own X) (toggle_connection u i b)"
  unfolding toggle_connection_def
proof (rule valid_find_or)
  fix c
  show "valid (steady_with u own X connections cn_id i c)
     (if cn_user_id c \<noteq> u then fail (Forbidden ''Not your vault connection'')
      else qbind (gets clock) (\<lambda>now. qbind (repo_update connections_update cn_id (c\<lparr>cn_enabled := b, cn_updated_at := now\<rparr>))
        (\<lambda>c'. ret (to_connection_response c')))) (\<lambda>_. steady u own X)"
  proof (cases "cn_user_id c = u")
    case True
    then show ?thesis
      by (simp only: not_True_eq_False if_False simp_thms, intro valid_gets valid_update)
        (auto intro!: steady_writes(1) [where c = c and i = i] dest: find_row_Some)
  qed (auto intro!: valid_fail)
qed simp_all


lemma steady_revoke: "keeps (steady u own X) (revoke_grant u i)"
  unfolding revoke_grant_def
proof (rule valid_find_or)
  fix g
  show "valid (steady_with u own X grants gr_id i g)
     (if gr_user_id g \<noteq> u then fail (Forbidden ''Not your grant'')
      else qbind (delete_for_item u (gr_principal g) (gr_connection_id g) (gr_item_id g)) (\<lambda>_. repo_delete grants_update gr_id i))
     (\<lambda>_. steady u own X)"
  proof (cases "gr_user_id g = u")
    case True
    have "valid (steady_with u own X grants gr_id i g) (delete_for_item u (gr_principal g) (gr_connection_id g) (gr_item_id g))
        (\<lambda>_. steady_with u own X grants gr_id i g)"
      unfolding delete_for_item_def
      by (rule valid_db_write; elim conjE; intro conjI) (erule steady_filters(2), simp_all)
    moreover have "valid (steady_with u own X grants gr_id i g) (repo_delete grants_update gr_id i) (\<lambda>_. steady u own X)"
      unfolding repo_delete_def by (rule valid_db_write) (auto intro: steady_writes(5) [where g = g] simp: True)
    ultimately show ?thesis using True by (auto intro: valid_step)
  qed (auto intro!: valid_fail)
qed simp_all

lemma steady_credentials: "keeps (steady u own X) (update_credential vs u i req)" "keeps (steady u own X) (delete_credential u i)"
proof -
  show "keeps (steady u own X) (update_credential vs u i req)"
    unfolding update_credential_def
  proof (rule valid_find_or)
    fix c :: credential
    let ?new = "\<lambda>now name prov data. \<lparr>cd_id = cd_id c, cd_user_id = cd_user_id c, cd_name = name, cd_provider = prov,
             cd_data = data, cd_created_at = cd_created_at c, cd_updated_at = now\<rparr>"
    show "valid (steady_with u own X credentials cd_id i c)
       (if cd_user_id c \<noteq> u then fail (Forbidden ''Not your credential'')
        else qbind (gets clock) (\<lambda>now. qbind (updated_item vs (cd_data c) req) (\<lambda>(name, prov, data).
             qbind (repo_update credentials_update cd_id (?new now name prov data)) (\<lambda>c'. ret (to_credential_response c')))))
       (\<lambda>_. steady u own X)"
    proof (cases "cd_user_id c = u")
      case True
      have "valid (steady_with u own X credentials cd_id i c) (qbind (repo_update credentials_update cd_id (?new now name prov data))
          (\<lambda>c'. ret (to_credential_response c'))) (\<lambda>_. steady u own X)" for now name prov data
        by (rule valid_update) (auto intro!: steady_writes(3) [where d = c and i = i] simp: True dest: find_row_Some)
      moreover have "keeps (steady_with u own X credentials cd_id i c) (updated_item vs (cd_data c) req)"
        by (rule keeps_updated_item) simp
      ultimately show ?thesis using True
        by (simp only: not_True_eq_False if_False simp_thms)
          (rule valid_gets, erule valid_step, auto split: prod.splits)
    qed (auto intro!: valid_fail)
  qed simp_all
  show "keeps (steady u own X) (delete_credential u i)"
    unfolding delete_credential_def
  proof (rule valid_find_or)
    fix c :: credential
    show "valid (steady_with u own X credentials cd_id i c)
       (if cd_user_id c \<noteq> u then fail (Forbidden ''Not your credential'') else repo_delete credentials_update cd_id i)
       (\<lambda>_. steady u own X)"
      unfolding repo_delete_def
      by (auto intro!: valid_if valid_fail) (rule valid_db_write; auto intro: steady_writes(4) [where d = c])
  qed simp_all
qed

lemma update_connections: "connections_update f v = v\<lparr>connections := f (connections v)\<rparr>"
  by (cases v) simp

lemma own_frame [simp]: "own_vaults u (w\<lparr>faults := fl\<rparr>) = own_vaults u w" "own_vaults u (w\<lparr>grants := gs\<rparr>) = own_vaults u w"
  by (simp_all add: own_vaults_def)

lemma steady_delete: "valid (\<lambda>w :: 'w vault_world_scheme. steady u own X w \<and> own_vaults u w \<subseteq> own) (delete_connection u i) (\<lambda>_. steady u own X)"
  unfolding delete_connection_def
proof (rule valid_find_or)
  fix c :: connection
  let ?P = "\<lambda>w :: 'w vault_world_scheme. (steady u own X w \<and> own_vaults u w \<subseteq> own) \<and> find_row cn_id i (connections w) = Some c"
  show "valid ?P
     (if cn_system_managed c then fail (Validation ''Cannot delete system-managed connections'')
      else if cn_user_id c \<noteq> u then fail (Forbidden ''Not your vault connection'')
      else if cn_provider c = Managed then delete_managed_connection (cn_id c) u
      else qbind (delete_grants_by_connection i) (\<lambda>_. repo_delete connections_update cn_id i)) (\<lambda>_. steady u own X)"
  proof (cases "cn_user_id c = u")
    case True
    have own: "?P w \<Longrightarrow> i \<in> own \<and> cn_id c = i" for w :: "'w vault_world_scheme"
      using True find_row_Some [of cn_id i "connections w" c] by (auto simp: own_vaults_def)
    have "valid ?P (delete_grants_by_connection i) (\<lambda>_. ?P)"
      unfolding delete_grants_by_connection_def
    proof (rule valid_db_write)
      fix w :: "'w vault_world_scheme"
      assume P: "?P w"
      show "?P (w\<lparr>grants := filter (\<lambda>g. gr_connection_id g \<noteq> i) (grants w)\<rparr>)"
        using own [OF P] P by (simp add: steady_filters(1))
    qed simp_all
    moreover have "valid ?P (repo_delete connections_update cn_id i) (\<lambda>_. steady u own X)"
      unfolding repo_delete_def by (rule valid_db_write) (auto intro: steady_writes(2) [where c = c] simp: True)
    moreover have "valid ?P (delete_managed_connection (cn_id c) u) (\<lambda>_. steady u own X)"
      unfolding delete_managed_connection_def
    proof (rule validI)
      fix w :: "'w vault_world_scheme" and r w'
      assume P: "?P w" and run: "db_call (\<lambda>w. case find_row cn_id (cn_id c) (connections w) of
           None \<Rightarrow> (Inl (Conflict ''managed vault unavailable''), w)
         | Some vault \<Rightarrow>
             if cn_system_managed vault \<or> cn_user_id vault \<noteq> u \<or> cn_provider vault \<noteq> Managed
             then (Inl (Conflict ''managed vault unavailable''), w)
             else if cn_id c \<in> set (managed_items w)
             then (Inl (Conflict ''delete the credentials before deleting this managed vault''), w)
             else (Inr (), w\<lparr>grants := filter (\<lambda>g. gr_connection_id g \<noteq> cn_id c) (grants w),
                             bindings := filter (\<lambda>b. bi_connection_id b \<noteq> cn_id c) (bindings w),
                             connections := delete_row cn_id (cn_id c) (connections w)\<rparr>)) w = (r, w')"
      have i: "i \<in> own" "cn_id c = i" using own [OF P] by simp_all
      have st: "steady u own X (connections_update (delete_row cn_id i)
          (w\<lparr>faults := fl, grants := filter (\<lambda>g. gr_connection_id g \<noteq> i) (grants w),
             bindings := filter (\<lambda>b. bi_connection_id b \<noteq> i) (bindings w)\<rparr>))" for fl
        using P True steady_filters(3) [OF steady_filters(1) [of u own X "w\<lparr>faults := fl\<rparr>" i] i(1)] i(1)
        by (intro steady_writes(2) [where c = c]) simp_all
      have st': "steady u own X (w\<lparr>faults := fl, grants := filter (\<lambda>g. gr_connection_id g \<noteq> i) (grants w),
          bindings := filter (\<lambda>b. bi_connection_id b \<noteq> i) (bindings w), connections := delete_row cn_id i (connections w)\<rparr>)" for fl
        using st [of fl] update_connections [of "delete_row cn_id i" "w\<lparr>faults := fl, grants := filter (\<lambda>g. gr_connection_id g \<noteq> i) (grants w),
            bindings := filter (\<lambda>b. bi_connection_id b \<noteq> i) (bindings w)\<rparr>"] by simp
      from run show "steady u own X w'"
        using P st' unfolding i(2) by (auto elim!: db_call_cases split: option.splits if_splits)
    qed
    ultimately show ?thesis using True by (auto intro!: valid_fail intro: valid_step)
  qed (auto intro!: valid_fail)
qed simp_all


lemma steady_serve: "steady u own X w \<Longrightarrow> own_vaults u w \<subseteq> own \<Longrightarrow> steady u own X (serve vs u req w)"
proof (cases req)
  case (DeleteConnection c)
  moreover assume "steady u own X w" "own_vaults u w \<subseteq> own"
  ultimately show ?thesis
    using validD [OF steady_delete, of u own X w c "fst (delete_connection u c w)" "snd (delete_connection u c w)"] by simp
qed (auto intro: valid_snd steady_creates steady_toggle steady_revoke steady_credentials)

text \<open>
  C8. A request of one user leaves the vaults of the others alone. Whatever a user asks of the
  vault handlers, and whether it succeeds, is refused or breaks off in the middle, ids stay
  unique, and the rows of the other users are the same before and after: their connections, their
  local secrets, and their grants and bindings. (A grant or binding that names a vault of the
  caller, which gives its owner nothing, may go when the caller deletes that vault.)
\<close>

theorem a_request_leaves_the_vaults_of_others_alone:
  assumes "wf_vault w"
  shows "wf_vault (serve vs u req w)
    \<and> foreign u (own_vaults u w) (serve vs u req w) = foreign u (own_vaults u w) w"
  using steady_serve [of u "own_vaults u w" "foreign u (own_vaults u w) w" w vs req] assms by (simp add: steady_def)

theorem a_request_leaves_the_vaults_of_others_alone_witness:
  "credentials (serve demo_vaults ''x'' (DeleteItem ''s'') demo_vault_world) = credentials demo_vault_world
   \<and> foreign ''x'' {} (serve demo_vaults ''x'' (DeleteConnection ''v'') demo_vault_world) = foreign ''x'' {} demo_vault_world
   \<and> foreign ''x'' {} demo_vault_world \<noteq> ({}, {}, {}, {})"
proof -
  have wf: "wf_vault demo_vault_world" by code_simp
  have own: "own_vaults ''x'' demo_vault_world = {}" by code_simp
  have "credentials (serve demo_vaults ''x'' (DeleteItem ''s'') demo_vault_world) = credentials demo_vault_world"
    by code_simp
  moreover have "foreign ''x'' {} demo_vault_world \<noteq> ({}, {}, {}, {})"
    by (auto simp: foreign_def demo_vault_world_def demo_connections_def system_connection_def)
  ultimately show ?thesis
    using a_request_leaves_the_vaults_of_others_alone [OF wf, of demo_vaults "''x''" "DeleteConnection ''v''"]
    by (simp add: own)
qed

end
