(* ===== verification/Spec2Isabelle.thy ===== *)
theory Spec2Isabelle
  imports Lockout Policy_Sandbox Policy_Caches Task_Props Inference_Props Token_Props Split_Markdown Handles Link_Props App_Crash
    File_Contents Vault_Tables
begin

text \<open>
  A model of the server of frona (\<open>src/crates/frona-server/src\<close>, Rust), a self-hosted platform
  for AI agents, with the theorems that make its parts correct. Paths below are relative to that
  directory.

  \<^bold>\<open>The program.\<close> Users own agents; an agent runs tasks and chats by calling models of
  several providers, with retries and fallbacks; it may deploy apps, which a supervisor keeps
  running; agents and chats are shared with other users, files and chats by short links; replies
  leave through channels that limit the size of a message; users and programs authenticate with
  signed tokens, and logins are throttled; agents are lent the secrets of vaults by grants, and what an
  agent may do is decided by policies in the Cedar language. All state is in one database behind a generic
  repository, except the caches, the login throttle and the table of running processes.

  \<^bold>\<open>The style of the model.\<close> An asynchronous method that can fail is a function from a world (a
  record) to a result (\<open>Inl\<close> error, \<open>Inr\<close> value) and the world it leaves (\<open>op\<close> in
  \<open>Prelude\<close>); \<open>qbind\<close> is the question mark, so every early return of the code is a branch of
  the model. A table of the database is the list of its rows; a database call may fail with any
  message, as the list \<open>faults\<close> in the world decides, so that the theorems about invariants
  hold whatever fails when (\<open>Store\<close> says which failures these are, and which errors the code never
  looks at). A method runs as one step: interleaving is between methods, as
  sequences of steps where a theorem is about it (\<open>Lockout\<close>, \<open>Token_Props\<close>), never inside
  one. A Rust \<open>str\<close> is the list of its UTF-8 bytes. Code that is not in the repository
  (the database engine, the JWT, JSON and provider libraries, the random numbers, the clock) is
  an argument or a field of the world; what a theorem needs of it is a named hypothesis.

  \<^bold>\<open>Theories.\<close>
  \<^item> \<open>Prelude\<close>: operations with errors and state, pre- and postconditions for them
    (\<open>valid\<close>, \<open>keeps\<close>, \<open>total_op\<close> with their rule collections), lists.
  \<^item> \<open>Rust_Str\<close>: the string methods the sources use. \<open>Errors\<close>: \<open>inference/error.rs\<close> and
    \<open>core/error.rs\<close>.
  \<^item> \<open>Store\<close>: \<open>db/repo/generic.rs\<close>; the locale \<open>entity_store\<close>, interpreted as \<open>rows\<close>;
    faults; operations that only read.
  \<^item> \<open>Lockout\<close>: \<open>auth/lockout.rs\<close>. A lock engages at the threshold, lasts its full duration
    whatever happens meanwhile, and leaves no trace when it has run out.
  \<^item> \<open>Task_Schema\<close>, \<open>Task_Model\<close>, \<open>Task_Service\<close>, \<open>Task_Props\<close>: \<open>agent/task\<close>. The shape of
    a result schema, the rows and queries, every operation of the service, and the theorems:
    what never changes in a task, who may change it, what cancelling and deleting take with them.
  \<^item> \<open>Inference_Context\<close>, \<open>Inference_Retry\<close>, \<open>Inference_Props\<close>: \<open>inference/context.rs\<close>
    and \<open>inference/retry.rs\<close>. Truncation keeps the newest messages that fit and is idempotent;
    a call records its answer once, a stream shows one attempt after those that a stated output
    limit ended, caps bound requests, and the number of requests is bounded.
  \<^item> \<open>Keypairs\<close>, \<open>Token_Service\<close>, \<open>Token_Props\<close>: \<open>credential/keypair\<close> and
    \<open>auth/token\<close>. Which tokens are accepted, that a refresh token works once, that the keys of
    an owner match, how long a personal token lives.
  \<^item> \<open>Split_Plain\<close>, \<open>Split_Markdown\<close>: \<open>chat/channel/adapter/split.rs\<close>; the locale
    \<open>cut_adjust\<close> is the contract of the rule that moves a cut, interpreted for plain and
    Telegram text. The chunks are the text, cut between characters.
  \<^item> \<open>Handles\<close>: \<open>core/handle.rs\<close> and \<open>slugify_handle\<close>.
  \<^item> \<open>Shares\<close>, \<open>Share_Props\<close>, \<open>Link_Props\<close>: \<open>agent/share\<close>, \<open>chat/share\<close>,
    \<open>credential/share\<close> and the handlers of \<open>api/routes\<close>. The locale \<open>grant_store\<close> is the
    contract of a table of grants; sharing refines an access list; links resolve until they
    expire; an overflowing reply becomes a link to its chat.
  \<^item> \<open>Notifications\<close>: the stored notifications of \<open>notification\<close>.
  \<^item> \<open>Supervisor\<close>: \<open>core/supervisor.rs\<close>, with the trait as a record of operations; the locale
    \<open>restart_loop\<close> is what the health tick relies on, and its client lemmas say that a tick
    refines \<open>tick_phase\<close> and that a crash loop ends.
  \<^item> \<open>App_Manager\<close>, \<open>App_Service\<close>, \<open>App_Props\<close>, \<open>App_Crash\<close>: \<open>app/\<close>. The table of
    processes and ports, the service on the table of apps, the app supervisor, interpreted as
    \<open>app_loop\<close>. No port is shared, the table of apps stays well formed, a crash loop ends, a
    deployment returns, only the agent of an app acts on it; and what a failed spawn costs: a
    port, and at a restart the app, which no later tick looks at.

  \<^item> \<open>File_System\<close>, \<open>File_Trees\<close>: the paths and the file system of the standard library the
    storage code calls, with symbolic links, and their lemmas. \<open>Storage_Path\<close>,
    \<open>Files_Api\<close>, \<open>Files_Props\<close>, \<open>File_Contents\<close>: \<open>storage/\<close> and \<open>api/routes/files\<close>. What an
    operation on a virtual path can touch, what uploads, downloads and workspaces keep, and three
    requests by which one user reaches the files of another.
  \<^item> \<open>Vault_Model\<close>, \<open>Vault_Service\<close>, \<open>Vault_Props\<close>, \<open>Vault_Tables\<close>: \<open>credential/vault\<close>, its
    queries and handlers, and the environment a chat is given. What a principal gets is what it
    is entitled to, a stored secret comes back to its owner only, a revoked grant gives nothing,
    a request leaves the vaults of other users alone, a start enables the configured vaults; and
    what a deleted vault of a user does to the agents that were bound to it.
  \<^item> \<open>Policy_Model\<close>, \<open>Policy_Plan\<close>, \<open>Policy_Service\<close>, \<open>Policy_Decisions\<close>: \<open>policy/\<close>, its queries
    and the tool registry of \<open>tool/manager.rs\<close>. The planner that turns wanted decisions into rows,
    the service with its four caches, the entities and the lists a sandbox is given. The Cedar
    engine is the record \<open>cedar_lib\<close>; what the theorems use of it is \<open>cedar_laws\<close>
    (\<open>Policy_Rules\<close>), which \<open>Policy_Engine\<close> shows to hold for a small engine. \<open>Policy_Props\<close>: a
    reconciled policy is in force where a row holds one statement, and only its own rows change. \<open>Policy_Caches\<close>: what is
    remembered is what the rows say, and who shares a decision. \<open>Policy_Sandbox\<close>: two wishes that
    never reach the sandbox.

  \<^bold>\<open>Bounds.\<close> No definition runs on fuel: loops are structural or have a termination proof, but for
  \<open>cedar_expr_parse\<close>, which does not end on some inputs in the code either (\<open>None\<close>). Where
  the code waits for the outside world, the model reads a list of what is observed (answers of
  a provider, rounds of a deployment, children at a tick); the theorems about termination give
  the length after which the code has returned.

  \<^bold>\<open>Not modelled\<close>, and why: the personal knowledge memory, the chat service beyond its access
  checks, the tool loop of an agent, MCP servers, scheduler, signals and the
  file tools of agents (planned, in this order of interest); bindings to channels, providers,
  password managers, browsers and sandboxes, HTTP routing, configuration, migrations and the front end (library
  and operating-system interfaces). Inside the modelled parts, what is left out is said at the
  head of each theory.
\<close>

end
